(* ===== verification/Prelude.thy ===== *)
theory Prelude
  imports Main "HOL-Library.Word" "HOL-Library.List_Lexorder" "HOL-Library.Char_ord"
begin

text \<open>
  Shared vocabulary of the development: the error type of the ticket store, the
  result type that also records panics and divergence, the combinators that stand
  for Rust's \<open>?\<close>, \<open>ok_or_else\<close> and \<open>expect\<close>, byte strings, and the
  automation collections the component theories rely on.

  A Rust \<open>String\<close> is modelled by its UTF-8 bytes (\<open>string\<close> is a list of
  8-bit characters), so \<open>length\<close> is Rust's \<open>len()\<close> and the order on strings
  is the byte order \<open>BTreeMap<String, _>\<close> iterates in.  A \<open>u64\<close> is a 64-bit
  word: the crate is built in release mode without overflow checks, so \<open>+\<close>
  wraps, and \<open>checked_add\<close> is written out where the source calls it.
\<close>

named_theorems result_simps "success and failure of the result combinators"
named_theorems safe_intros "a computation neither panics nor diverges"
named_theorems frame_simps "fields an operation does not write"

type_synonym u64 = "64 word"
type_synonym u32 = "32 word"
type_synonym i64 = "64 word"

section \<open>Errors and results\<close>

text \<open>The error enumeration of \<open>lib.rs\<close>.\<close>

datatype error =
    ScopeDenied string
  | RevisionConflict
  | IdempotencyConflict
  | InvalidTransition string
  | DependencyCycle
  | ResourceBlocked string
  | AuthorityUnavailable string
  | ResyncRequired
  | ContextBudgetExceeded
  | Io string
  | Json string

text \<open>\<open>Error::status_code\<close>: the HTTP status of each error.\<close>

fun status_code :: "error \<Rightarrow> nat" where
  "status_code (ScopeDenied _) = 403"
| "status_code RevisionConflict = 409"
| "status_code IdempotencyConflict = 409"
| "status_code (InvalidTransition _) = 422"
| "status_code DependencyCycle = 422"
| "status_code ContextBudgetExceeded = 422"
| "status_code (ResourceBlocked _) = 423"
| "status_code ResyncRequired = 410"
| "status_code _ = 503"

text \<open>
  How a call can end without a value: an \<open>Err\<close>, a panic (a failing
  \<open>expect\<close> or index), or not at all.
\<close>

datatype stop = Fail error | Panic string | Diverges

type_synonym 'a result = "stop + 'a"

abbreviation fail :: "error \<Rightarrow> 'a result" where
  "fail e \<equiv> Inl (Fail e)"

abbreviation invalid :: "string \<Rightarrow> 'a result" where
  "invalid reason \<equiv> Inl (Fail (InvalidTransition reason))"

text \<open>The \<open>?\<close> operator, \<open>Option::ok_or_else\<close> and \<open>Option::expect\<close>.\<close>

fun and_then :: "'a result \<Rightarrow> ('a \<Rightarrow> 'b result) \<Rightarrow> 'b result" where
  "and_then (Inl e) f = Inl e"
| "and_then (Inr x) f = f x"

fun ok_or :: "'a option \<Rightarrow> error \<Rightarrow> 'a result" where
  "ok_or None e = fail e"
| "ok_or (Some x) e = Inr x"

fun expect :: "'a option \<Rightarrow> string \<Rightarrow> 'a result" where
  "expect None m = Inl (Panic m)"
| "expect (Some x) m = Inr x"

definition is_ok :: "'a result \<Rightarrow> bool" where
  "is_ok r = (case r of Inl _ \<Rightarrow> False | Inr _ \<Rightarrow> True)"

text \<open>A result that is a value or an ordinary error.\<close>

definition safe :: "'a result \<Rightarrow> bool" where
  "safe r = (case r of Inl (Panic _) \<Rightarrow> False | Inl Diverges \<Rightarrow> False | _ \<Rightarrow> True)"

text \<open>Apply a fallible function along a list, stopping at the first failure.\<close>

fun try_map :: "('a \<Rightarrow> 'b result) \<Rightarrow> 'a list \<Rightarrow> 'b list result" where
  "try_map f [] = Inr []"
| "try_map f (x # xs) =
     and_then (f x) (\<lambda>y. and_then (try_map f xs) (\<lambda>ys. Inr (y # ys)))"

fun try_each :: "('a \<Rightarrow> unit result) \<Rightarrow> 'a list \<Rightarrow> unit result" where
  "try_each f [] = Inr ()"
| "try_each f (x # xs) = and_then (f x) (\<lambda>_. try_each f xs)"

fun try_fold :: "('s \<Rightarrow> 'a \<Rightarrow> 's result) \<Rightarrow> 's \<Rightarrow> 'a list \<Rightarrow> 's result" where
  "try_fold f s [] = Inr s"
| "try_fold f s (x # xs) = and_then (f s x) (\<lambda>s'. try_fold f s' xs)"

lemma and_then_Inr [result_simps]:
  "and_then r f = Inr y \<longleftrightarrow> (\<exists>x. r = Inr x \<and> f x = Inr y)"
  by (cases r) auto

lemma Inr_and_then [result_simps]:
  "Inr y = and_then r f \<longleftrightarrow> (\<exists>x. r = Inr x \<and> f x = Inr y)"
  by (cases r) auto

lemma ok_or_Inr [result_simps]: "ok_or v e = Inr x \<longleftrightarrow> v = Some x"
  by (cases v) auto

lemma expect_Inr [result_simps]: "expect v m = Inr x \<longleftrightarrow> v = Some x"
  by (cases v) auto

lemma if_fail_Inr [result_simps]:
  "(if b then Inl e else r) = Inr x \<longleftrightarrow> \<not> b \<and> r = Inr x"
  by auto

lemma is_ok_iff: "is_ok r \<longleftrightarrow> (\<exists>x. r = Inr x)"
  by (auto simp: is_ok_def split: sum.splits)

lemma safe_Inr [safe_intros, simp]: "safe (Inr x)"
  by (simp add: safe_def)

lemma safe_fail [safe_intros, simp]: "safe (fail e)"
  by (simp add: safe_def)

lemma not_safe_Panic [simp]: "\<not> safe (Inl (Panic m))"
  by (simp add: safe_def)

lemma not_safe_Diverges [simp]: "\<not> safe (Inl Diverges)"
  by (simp add: safe_def)

lemma safe_ok_or [safe_intros, simp]: "safe (ok_or v e)"
  by (cases v) simp_all

lemma safe_expect_iff [simp]: "safe (expect v m) \<longleftrightarrow> v \<noteq> None"
  by (cases v) auto

lemma safe_and_then [safe_intros]:
  "safe r \<Longrightarrow> (\<And>x. r = Inr x \<Longrightarrow> safe (f x)) \<Longrightarrow> safe (and_then r f)"
  by (cases r) (auto simp: safe_def split: stop.splits)

lemma safe_if [safe_intros]:
  "(b \<Longrightarrow> safe r) \<Longrightarrow> (\<not> b \<Longrightarrow> safe s) \<Longrightarrow> safe (if b then r else s)"
  by simp

lemma safe_try_each [safe_intros]:
  "(\<And>x. x \<in> set xs \<Longrightarrow> safe (f x)) \<Longrightarrow> safe (try_each f xs)"
  by (induction xs) (auto intro!: safe_and_then)

lemma safe_try_map [safe_intros]:
  "(\<And>x. x \<in> set xs \<Longrightarrow> safe (f x)) \<Longrightarrow> safe (try_map f xs)"
  by (induction xs) (auto intro!: safe_and_then)

lemma try_each_Inr [result_simps]:
  "try_each f xs = Inr u \<longleftrightarrow> (\<forall>x \<in> set xs. f x = Inr ())"
  by (induction xs) (auto simp: and_then_Inr)

lemma try_map_Inr [result_simps]:
  "try_map f xs = Inr ys \<longleftrightarrow> list_all2 (\<lambda>x y. f x = Inr y) xs ys"
proof (induction xs arbitrary: ys)
  case Nil
  show ?case by auto
next
  case (Cons x xs)
  then show ?case by (cases ys) (auto simp: and_then_Inr)
qed

lemma try_fold_invariant:
  assumes "try_fold f s xs = Inr t" "P s"
    and "\<And>s x s'. x \<in> set xs \<Longrightarrow> P s \<Longrightarrow> f s x = Inr s' \<Longrightarrow> P s'"
  shows "P t"
  using assms
proof (induction xs arbitrary: s)
  case Nil
  then show ?case by simp
next
  case (Cons x xs)
  from Cons.prems(1) obtain s' where s': "f s x = Inr s'" and "try_fold f s' xs = Inr t"
    by (auto simp: and_then_Inr)
  moreover have "P s'" using Cons.prems(2,3) s' by auto
  ultimately show ?case using Cons.IH Cons.prems(3) by (meson list.set_intros(2))
qed

section \<open>Checked machine arithmetic\<close>

definition checked_add :: "u64 \<Rightarrow> u64 \<Rightarrow> u64 option" where
  "checked_add a b = (if uint a + uint b < 2 ^ 64 then Some (a + b) else None)"

definition checked_sub :: "u64 \<Rightarrow> u64 \<Rightarrow> u64 option" where
  "checked_sub a b = (if b \<le> a then Some (a - b) else None)"

definition saturating_sub :: "u64 \<Rightarrow> u64 \<Rightarrow> u64" where
  "saturating_sub a b = (if b \<le> a then a - b else 0)"

lemma checked_add_Some:
  "checked_add a b = Some c \<longleftrightarrow> unat c = unat a + unat b"
proof -
  have "unat (a + b) = unat a + unat b" if "unat a + unat b < 2 ^ 64"
    using that by (simp add: unat_word_ariths)
  moreover have "unat c < 2 ^ 64"
    using unsigned_less [of c] by simp
  moreover have "uint a + uint b < 2 ^ 64 \<longleftrightarrow> unat a + unat b < 2 ^ 64"
  proof -
    have "uint a + uint b = int (unat a + unat b)" by simp
    then show ?thesis by (simp only: of_nat_less_numeral_power_cancel_iff)
  qed
  ultimately show ?thesis
    by (auto simp: checked_add_def simp flip: word_unat_eq_iff)
      (metis word_unat_eq_iff)
qed

lemma checked_sub_Some:
  "checked_sub a b = Some c \<longleftrightarrow> unat a = unat b + unat c"
proof -
  have "unat (a - b) = unat a - unat b" if "b \<le> a"
    using that by (simp add: unat_sub)
  moreover have "b \<le> a \<longleftrightarrow> unat b \<le> unat a" by (simp add: word_le_nat_alt)
  ultimately show ?thesis
    unfolding checked_sub_def by (auto simp: word_unat_eq_iff)
qed

lemma unat_saturating_sub: "unat (saturating_sub a b) = unat a - unat b"
  by (simp add: saturating_sub_def unat_sub word_le_nat_alt)

section \<open>Byte strings\<close>

abbreviation byte :: "char \<Rightarrow> nat" where
  "byte c \<equiv> of_char c"

definition starts_with :: "string \<Rightarrow> string \<Rightarrow> bool" where
  "starts_with s p = (take (length p) s = p)"

fun contains :: "string \<Rightarrow> string \<Rightarrow> bool" where
  "contains [] p = (p = [])"
| "contains (c # s) p = (starts_with (c # s) p \<or> contains s p)"

text \<open>\<open>u8::is_ascii_hexdigit\<close> and the lower-case form used for object hashes.\<close>

definition ascii_digit :: "char \<Rightarrow> bool" where
  "ascii_digit c = (48 \<le> byte c \<and> byte c \<le> 57)"

definition ascii_hexdigit :: "char \<Rightarrow> bool" where
  "ascii_hexdigit c =
     (ascii_digit c \<or> 65 \<le> byte c \<and> byte c \<le> 70 \<or> 97 \<le> byte c \<and> byte c \<le> 102)"

definition lower_hexdigit :: "char \<Rightarrow> bool" where
  "lower_hexdigit c = (ascii_digit c \<or> 97 \<le> byte c \<and> byte c \<le> 102)"

definition valid_hash :: "string \<Rightarrow> bool" where
  "valid_hash h = (length h = 64 \<and> list_all lower_hexdigit h)"

text \<open>
  \<open>s.trim().is_empty()\<close>: every code point of the UTF-8 string has the Unicode
  property \<open>White_Space\<close> (one-byte, two-byte and three-byte encodings).
\<close>

definition ascii_space :: "nat \<Rightarrow> bool" where
  "ascii_space b = (9 \<le> b \<and> b \<le> 13 \<or> b = 32)"

definition space2 :: "nat \<Rightarrow> nat \<Rightarrow> bool" where
  "space2 a b = (a = 194 \<and> (b = 133 \<or> b = 160))"

definition space3 :: "nat \<Rightarrow> nat \<Rightarrow> nat \<Rightarrow> bool" where
  "space3 a b c =
     (a = 225 \<and> b = 154 \<and> c = 128 \<or>
      a = 226 \<and> b = 128 \<and> (128 \<le> c \<and> c \<le> 138 \<or> c = 168 \<or> c = 169 \<or> c = 175) \<or>
      a = 226 \<and> b = 129 \<and> c = 159 \<or>
      a = 227 \<and> b = 128 \<and> c = 128)"

fun blank_bytes :: "nat list \<Rightarrow> bool" where
  "blank_bytes [] = True"
| "blank_bytes [a] = ascii_space a"
| "blank_bytes [a, b] =
     (if ascii_space a then blank_bytes [b] else space2 a b)"
| "blank_bytes (a # b # c # s) =
     (if ascii_space a then blank_bytes (b # c # s)
      else if space2 a b then blank_bytes (c # s)
      else space3 a b c \<and> blank_bytes s)"

definition blank :: "string \<Rightarrow> bool" where
  "blank s = blank_bytes (map byte s)"

lemma blank_Nil [simp]: "blank []"
  by (simp add: blank_def)

text \<open>Decimal rendering of an unsigned integer, as \<open>format!\<close> prints it.\<close>

fun decimal :: "nat \<Rightarrow> string" where
  "decimal n =
     (if n < 10 then [char_of (48 + n)]
      else decimal (n div 10) @ [char_of (48 + n mod 10)])"

declare decimal.simps [simp del]

definition show_u64 :: "u64 \<Rightarrow> string" where
  "show_u64 w = decimal (unat w)"

end
