(* ===== verification/Ordered_Map.thy ===== *)
theory Ordered_Map
  imports Prelude
begin

text \<open>
  The ordered containers of the standard library the ticket store is built on.
  A \<open>BTreeMap\<close> is an association list whose keys increase strictly; its
  iteration order is the list's.  A \<open>BTreeSet\<close> is a strictly increasing list.
  The interface the store relies on is the locale \<open>ordered_map\<close>, interpreted
  below on these definitions.
\<close>

type_synonym ('k, 'v) btree_map = "('k \<times> 'v) list"
type_synonym 'a btree_set = "'a list"

section \<open>Maps\<close>

definition map_get :: "('k, 'v) btree_map \<Rightarrow> 'k \<Rightarrow> 'v option" where
  "map_get m k = map_of m k"

fun map_put :: "'k::linorder \<Rightarrow> 'v \<Rightarrow> ('k, 'v) btree_map \<Rightarrow> ('k, 'v) btree_map" where
  "map_put k v [] = [(k, v)]"
| "map_put k v ((a, b) # m) =
     (if k < a then (k, v) # (a, b) # m
      else if k = a then (k, v) # m
      else (a, b) # map_put k v m)"

definition map_remove :: "'k \<Rightarrow> ('k, 'v) btree_map \<Rightarrow> ('k, 'v) btree_map" where
  "map_remove k m = filter (\<lambda>e. fst e \<noteq> k) m"

definition has_key :: "('k, 'v) btree_map \<Rightarrow> 'k \<Rightarrow> bool" where
  "has_key m k = (map_get m k \<noteq> None)"

definition keys :: "('k, 'v) btree_map \<Rightarrow> 'k list" where
  "keys m = map fst m"

definition vals :: "('k, 'v) btree_map \<Rightarrow> 'v list" where
  "vals m = map snd m"

text \<open>\<open>values_mut\<close>: rewrite every value in place.\<close>

definition map_vals :: "('v \<Rightarrow> 'w) \<Rightarrow> ('k, 'v) btree_map \<Rightarrow> ('k, 'w) btree_map" where
  "map_vals f m = map (\<lambda>e. (fst e, f (snd e))) m"

definition ordered :: "('k::linorder, 'v) btree_map \<Rightarrow> bool" where
  "ordered m = sorted_wrt (<) (map fst m)"

lemma map_get_Nil [simp]: "map_get [] k = None"
  by (simp add: map_get_def)

lemma map_get_Cons: "map_get ((a, b) # m) k = (if a = k then Some b else map_get m k)"
  by (simp add: map_get_def)

lemma map_get_put [simp]: "map_get (map_put k v m) j = (if j = k then Some v else map_get m j)"
  by (induction k v m rule: map_put.induct) (auto simp: map_get_def)

lemma map_get_remove [simp]: "map_get (map_remove k m) j = (if j = k then None else map_get m j)"
  by (induction m) (auto simp: map_get_def map_remove_def)

lemma map_get_vals [simp]: "map_get (map_vals f m) k = map_option f (map_get m k)"
  by (induction m) (auto simp: map_get_def map_vals_def)

lemma has_key_iff: "has_key m k \<longleftrightarrow> (\<exists>v. map_get m k = Some v)"
  by (auto simp: has_key_def)

lemma has_key_put [simp]: "has_key (map_put k v m) j \<longleftrightarrow> j = k \<or> has_key m j"
  by (auto simp: has_key_def)

lemma keys_map_get: "k \<in> set (keys m) \<longleftrightarrow> (\<exists>v. map_get m k = Some v)"
proof -
  have "k \<in> set (keys m) \<longleftrightarrow> map_of m k \<noteq> None"
    by (simp add: keys_def map_of_eq_None_iff)
  then show ?thesis by (auto simp: map_get_def)
qed

lemma map_get_in_vals: "map_get m k = Some v \<Longrightarrow> v \<in> set (vals m)"
  by (force simp: map_get_def vals_def dest: map_of_SomeD)

lemma ordered_distinct: "ordered m \<Longrightarrow> distinct (map fst m)"
  by (simp add: ordered_def strict_sorted_iff)

lemma in_ordered_map: "ordered m \<Longrightarrow> (k, v) \<in> set m \<longleftrightarrow> map_get m k = Some v"
  by (simp add: map_get_def ordered_distinct)

lemma in_vals_ordered: "ordered m \<Longrightarrow> v \<in> set (vals m) \<longleftrightarrow> (\<exists>k. map_get m k = Some v)"
  by (force simp: vals_def simp flip: in_ordered_map)

lemma set_keys_put: "set (map fst (map_put k v m)) = insert k (set (map fst m))"
  by (induction k v m rule: map_put.induct) auto

lemma ordered_Nil [simp]: "ordered []"
  by (simp add: ordered_def)

lemma ordered_put [simp]: "ordered m \<Longrightarrow> ordered (map_put k v m)"
proof (induction k v m rule: map_put.induct)
  case (1 k v)
  show ?case by (simp add: ordered_def)
next
  case (2 k v a b m)
  then show ?case
    using set_keys_put [of k v m] by (auto simp: ordered_def)
qed

lemma ordered_remove [simp]: "ordered m \<Longrightarrow> ordered (map_remove k m)"
  by (induction m) (auto simp: ordered_def map_remove_def)

lemma ordered_map_vals [simp]: "ordered (map_vals f m) = ordered m"
  by (simp add: ordered_def map_vals_def comp_def)

lemma keys_map_vals [simp]: "keys (map_vals f m) = keys m"
  by (simp add: keys_def map_vals_def comp_def)

lemma vals_map_vals [simp]: "vals (map_vals f m) = map f (vals m)"
  by (simp add: vals_def map_vals_def comp_def)

lemma length_map_put:
  "length (map_put k v m) \<le> Suc (length m)"
  by (induction k v m rule: map_put.induct) auto

text \<open>Two ordered maps with the same lookups are the same map.\<close>

lemma ordered_map_eqI:
  assumes "ordered m" "ordered n" "\<And>k. map_get m k = map_get n k"
  shows "m = n"
proof -
  have "set m = set n"
    using assms by (auto simp: in_ordered_map)
  moreover have "sorted_wrt (\<lambda>p q. fst p < fst q) m" "sorted_wrt (\<lambda>p q. fst p < fst q) n"
    using assms(1,2) by (simp_all add: ordered_def sorted_wrt_map)
  ultimately show ?thesis
  proof (induction m arbitrary: n)
    case Nil
    then show ?case by simp
  next
    case (Cons x m)
    from Cons.prems(1) obtain y n' where n: "n = y # n'" by (cases n) auto
    have "x = y"
    proof (rule ccontr)
      assume "x \<noteq> y"
      with Cons.prems(1) n have "x \<in> set n'" "y \<in> set m" by auto
      with Cons.prems(2,3) n have "fst y < fst x" "fst x < fst y" by auto
      then show False by simp
    qed
    moreover have "x \<notin> set m" "y \<notin> set n'"
      using Cons.prems(2,3) n by auto
    ultimately have "set m = set n'" using Cons.prems(1) n by auto
    with Cons n \<open>x = y\<close> show ?case by simp
  qed
qed

section \<open>Sets\<close>

fun set_add :: "'a::linorder \<Rightarrow> 'a btree_set \<Rightarrow> 'a btree_set" where
  "set_add x [] = [x]"
| "set_add x (y # s) =
     (if x < y then x # y # s else if x = y then y # s else y # set_add x s)"

text \<open>\<open>collect::<BTreeSet<_>>()\<close>.\<close>

definition set_of :: "'a::linorder list \<Rightarrow> 'a btree_set" where
  "set_of xs = fold set_add xs []"

lemma set_set_add [simp]: "set (set_add x s) = insert x (set s)"
  by (induction x s rule: set_add.induct) auto

lemma sorted_set_add [simp]: "sorted_wrt (<) s \<Longrightarrow> sorted_wrt (<) (set_add x s)"
  by (induction x s rule: set_add.induct) auto

lemma set_fold_set_add: "set (fold set_add xs s) = set xs \<union> set s"
  by (induction xs arbitrary: s) auto

lemma set_set_of [simp]: "set (set_of xs) = set xs"
  by (simp add: set_of_def set_fold_set_add)

lemma sorted_set_of [simp]: "sorted_wrt (<) (set_of xs)"
proof -
  have "sorted_wrt (<) (fold set_add xs s)" if "sorted_wrt (<) s" for s :: "'a list"
    using that by (induction xs arbitrary: s) auto
  then show ?thesis by (simp add: set_of_def)
qed

lemma set_of_cong: "set xs = set ys \<Longrightarrow> set_of xs = set_of ys"
  by (metis set_set_of sorted_set_of strict_sorted_equal)

lemma distinct_set_of [simp]: "distinct (set_of xs)"
  using sorted_set_of [of xs] strict_sorted_iff by blast

lemma length_set_of: "length (set_of xs) = card (set xs)"
  by (metis distinct_card distinct_set_of set_set_of)

definition subset_list :: "'a list \<Rightarrow> 'a list \<Rightarrow> bool" where
  "subset_list xs ys = list_all (\<lambda>x. x \<in> set ys) xs"

definition disjoint_list :: "'a list \<Rightarrow> 'a list \<Rightarrow> bool" where
  "disjoint_list xs ys = list_all (\<lambda>x. x \<notin> set ys) xs"

lemma subset_list_iff [simp]: "subset_list xs ys \<longleftrightarrow> set xs \<subseteq> set ys"
  by (auto simp: subset_list_def list_all_iff)

lemma disjoint_list_iff [simp]: "disjoint_list xs ys \<longleftrightarrow> set xs \<inter> set ys = {}"
  by (auto simp: disjoint_list_def list_all_iff)

section \<open>The interface\<close>

text \<open>
  What the store relies on: lookup after insert and remove, and that the iteration
  invariant is kept.  The client lemmas are proved once from these laws.
\<close>

locale ordered_map =
  fixes empty :: 'm
    and put :: "'k \<Rightarrow> 'v \<Rightarrow> 'm \<Rightarrow> 'm"
    and del :: "'k \<Rightarrow> 'm \<Rightarrow> 'm"
    and get :: "'m \<Rightarrow> 'k \<Rightarrow> 'v option"
    and entries :: "'m \<Rightarrow> ('k \<times> 'v) list"
    and invar :: "'m \<Rightarrow> bool"
  assumes get_empty: "get empty k = None"
    and get_put: "get (put k v m) j = (if j = k then Some v else get m j)"
    and get_del: "get (del k m) j = (if j = k then None else get m j)"
    and invar_empty: "invar empty"
    and invar_put: "invar m \<Longrightarrow> invar (put k v m)"
    and invar_del: "invar m \<Longrightarrow> invar (del k m)"
    and entries_get: "invar m \<Longrightarrow> (k, v) \<in> set (entries m) \<longleftrightarrow> get m k = Some v"
    and entries_eq: "invar m \<Longrightarrow> invar n \<Longrightarrow> get m = get n \<Longrightarrow> m = n"
begin

lemma put_put_same: "invar m \<Longrightarrow> put k v (put k w m) = put k v m"
  by (rule entries_eq) (auto simp: invar_put get_put fun_eq_iff)

lemma put_commute: "invar m \<Longrightarrow> i \<noteq> j \<Longrightarrow> put i v (put j w m) = put j w (put i v m)"
  by (rule entries_eq) (auto simp: invar_put get_put fun_eq_iff)

lemma put_get_same: "invar m \<Longrightarrow> get m k = Some v \<Longrightarrow> put k v m = m"
  by (rule entries_eq) (auto simp: invar_put get_put fun_eq_iff)

lemma all_entries_put:
  assumes "invar m" "\<forall>(j, w) \<in> set (entries m). j \<noteq> k \<longrightarrow> P j w" "P k v"
  shows "\<forall>(j, w) \<in> set (entries (put k v m)). P j w"
  using assms by (fastforce simp: entries_get invar_put get_put split: if_splits)

end

interpretation bt: ordered_map "[]" map_put map_remove map_get "\<lambda>m. m" ordered
  by unfold_locales (auto simp: in_ordered_map intro: ordered_map_eqI)

end
