(* ===== verification/Canonical_Json.thy ===== *)
theory Canonical_Json
  imports Ordered_Map "HOL-Library.Multiset"
begin

text \<open>
  The canonical form of a JSON value: \<open>canonical_bytes\<close> of \<open>lib.rs\<close> sorts the
  members of every object, at every depth, before it serialises.  Turning a Rust
  value into JSON and JSON into bytes is serde's work and is a parameter of the model
  (see the record \<open>env\<close>); the sorting is the crate's own and is modelled here.
\<close>

text \<open>\<open>serde_json::Value\<close>; a number is kept as its text, an object as its members in
  insertion order.\<close>

datatype json =
    JNull
  | JBool bool
  | JNumber string
  | JString string
  | JArray "json list"
  | JObject "(string \<times> json) list"

text \<open>\<open>map.into_iter().collect::<BTreeMap<_, _>>()\<close>: later members replace earlier ones.\<close>

definition collect_map :: "('k::linorder \<times> 'v) list \<Rightarrow> ('k, 'v) btree_map" where
  "collect_map es = fold (\<lambda>e m. map_put (fst e) (snd e) m) es []"

primrec sort_json :: "json \<Rightarrow> json" where
  "sort_json JNull = JNull"
| "sort_json (JBool b) = JBool b"
| "sort_json (JNumber n) = JNumber n"
| "sort_json (JString s) = JString s"
| "sort_json (JArray xs) = JArray (map sort_json xs)"
| "sort_json (JObject ms) = JObject (collect_map (map (map_prod id sort_json) ms))"

text \<open>A well-formed value has no repeated member names; a canonical one has its members
  in increasing order.\<close>

primrec json_wf :: "json \<Rightarrow> bool" where
  "json_wf JNull = True"
| "json_wf (JBool b) = True"
| "json_wf (JNumber n) = True"
| "json_wf (JString s) = True"
| "json_wf (JArray xs) = list_all id (map json_wf xs)"
| "json_wf (JObject ms) =
     (distinct (map fst ms) \<and> list_all snd (map (map_prod id json_wf) ms))"

primrec json_canonical :: "json \<Rightarrow> bool" where
  "json_canonical JNull = True"
| "json_canonical (JBool b) = True"
| "json_canonical (JNumber n) = True"
| "json_canonical (JString s) = True"
| "json_canonical (JArray xs) = list_all id (map json_canonical xs)"
| "json_canonical (JObject ms) =
     (ordered ms \<and> list_all snd (map (map_prod id json_canonical) ms))"

text \<open>Two values that differ only in the order of object members, at any depth.\<close>

inductive same_json :: "json \<Rightarrow> json \<Rightarrow> bool" where
  null: "same_json JNull JNull"
| bool: "same_json (JBool b) (JBool b)"
| number: "same_json (JNumber n) (JNumber n)"
| string: "same_json (JString s) (JString s)"
| array: "list_all2 same_json xs ys \<Longrightarrow> same_json (JArray xs) (JArray ys)"
| object: "list_all2 (\<lambda>p q. fst p = fst q \<and> same_json (snd p) (snd q)) ms ns \<Longrightarrow>
     mset ns = mset ns' \<Longrightarrow> same_json (JObject ms) (JObject ns')"

inductive_cases same_json_ObjectE: "same_json (JObject ms) j"

section \<open>Collecting\<close>

lemma ordered_fold_put:
  "ordered m \<Longrightarrow> ordered (fold (\<lambda>e m. map_put (fst e) (snd e) m) es m)"
  by (induction es arbitrary: m) auto

lemma ordered_collect_map [simp]: "ordered (collect_map es)"
  by (simp add: collect_map_def ordered_fold_put)

lemma map_get_fold_put:
  "map_get (fold (\<lambda>e m. map_put (fst e) (snd e) m) es m) k =
     (case map_of (rev es) k of Some v \<Rightarrow> Some v | None \<Rightarrow> map_get m k)"
  by (induction es arbitrary: m) (auto split: option.splits)

lemma map_get_collect: "map_get (collect_map es) k = map_of (rev es) k"
  by (simp add: collect_map_def map_get_fold_put split: option.splits)

lemma map_get_collect_distinct:
  assumes "distinct (map fst es)"
  shows "map_get (collect_map es) k = map_of es k"
proof -
  have "map_of (rev es) k = Some v \<longleftrightarrow> map_of es k = Some v" for v
    using assms by (simp flip: rev_map)
  then show ?thesis
    unfolding map_get_collect by (metis option.exhaust)
qed

lemma collect_map_ordered:
  assumes "ordered es"
  shows "collect_map es = es"
proof (rule ordered_map_eqI)
  fix k
  show "map_get (collect_map es) k = map_get es k"
    using ordered_distinct [OF assms] by (simp add: map_get_collect_distinct) (simp add: map_get_def)
qed (use assms in simp_all)

lemma set_collect_distinct:
  assumes "distinct (map fst es)"
  shows "set (collect_map es) = set es"
proof -
  have "(k, v) \<in> set (collect_map es) \<longleftrightarrow> (k, v) \<in> set es" for k v
    using assms by (simp add: in_ordered_map map_get_collect_distinct)
  then show ?thesis by auto
qed

lemma collect_map_perm:
  assumes "distinct (map fst es)" "mset es = mset fs"
  shows "collect_map es = collect_map fs"
proof (rule ordered_map_eqI)
  fix k
  have "distinct (map fst fs)"
    using assms by (metis mset_eq_imp_distinct_iff mset_map)
  moreover have "set es = set fs" using assms(2) by (metis set_mset_mset)
  ultimately have "map_of es = map_of fs"
    using assms(1) by (simp add: map_of_inject_set)
  with assms(1) \<open>distinct (map fst fs)\<close>
  show "map_get (collect_map es) k = map_get (collect_map fs) k"
    by (simp add: map_get_collect_distinct)
qed simp_all

section \<open>Canonical values\<close>

lemma keys_map_prod: "map fst (map (map_prod id f) ms) = map fst ms"
  by (simp add: comp_def)

lemma json_canonical_sort: "json_wf j \<Longrightarrow> json_canonical (sort_json j)"
proof (induction j)
  case (JArray xs)
  then show ?case by (auto simp: list_all_iff)
next
  case (JObject ms)
  let ?ns = "map (map_prod id sort_json) ms"
  have d: "distinct (map fst ?ns)" using JObject.prems by (simp add: comp_def)
  have "json_canonical (sort_json v)" if "(k, v) \<in> set ms" for k v
    using JObject.IH [of "(k, v)" v] JObject.prems that by (force simp: list_all_iff)
  then show ?case
    using set_collect_distinct [OF d] by (auto simp: list_all_iff)
qed simp_all

lemma sort_json_canonical: "json_canonical j \<Longrightarrow> sort_json j = j"
proof (induction j)
  case (JArray xs)
  then show ?case by (auto simp: list_all_iff intro: map_idI)
next
  case (JObject ms)
  have "map_prod id sort_json e = e" if "e \<in> set ms" for e
    using JObject.IH [of e "snd e"] JObject.prems that
    by (cases e) (force simp: list_all_iff)
  then have "map (map_prod id sort_json) ms = ms" by (simp add: map_idI)
  then show ?case using JObject.prems by (simp add: collect_map_ordered)
qed simp_all

lemma sort_json_same: "same_json i j \<Longrightarrow> json_wf i \<Longrightarrow> sort_json i = sort_json j"
proof (induction rule: same_json.induct)
  case (array xs ys)
  then have "list_all2 (\<lambda>x y. sort_json x = sort_json y) xs ys"
    by (auto simp: list_all2_conv_all_nth list_all_length)
  then show ?case by (simp add: list_all2_eq list_all2_map1 list_all2_map2)
next
  case (object ms ns ns')
  let ?s = "map (map_prod id sort_json)"
  have "list_all2 (\<lambda>p q. map_prod id sort_json p = map_prod id sort_json q) ms ns"
    using object.IH object.prems
    by (auto simp: list_all2_conv_all_nth list_all_length prod_eq_iff)
  then have eq: "?s ms = ?s ns" by (simp add: list_all2_eq list_all2_map1 list_all2_map2)
  have "distinct (map fst (?s ms))" using object.prems by (simp add: comp_def)
  then have "collect_map (?s ns) = collect_map (?s ns')"
    using object.hyps eq by (intro collect_map_perm) simp_all
  with eq show ?case by simp
qed simp_all

end
