(* ===== verification/Ticket_Model.thy ===== *)
theory Ticket_Model
  imports Canonical_Json
begin

text \<open>
  The persistent data of the ticket store: \<open>model.rs\<close> and the types of the
  components whose state the snapshot embeds (project, sprint, token budget, message
  resolution, migration).  Struct fields carry a two-letter prefix, since record
  selectors are global; variants carry their enum's initial.  A newtype over a string
  is a datatype with its derived order.
\<close>

section \<open>Identities shared with the domain crate\<close>

datatype project_id = ProjectId (project_id_str: string)

record workspace_binding =
  wb_path :: string
  wb_label :: "string option"
  wb_git_common_dir :: "string option"

datatype task_priority = P_Low | P_Medium | P_High | P_Critical

text \<open>\<open>SprintId\<close> wraps a \<open>ProjectId\<close>; both derive \<open>Ord\<close>.\<close>

datatype sprint_id = SprintId (sprint_id_project: project_id)

instantiation project_id :: linorder
begin

definition less_eq_project_id :: "project_id \<Rightarrow> project_id \<Rightarrow> bool" where
  "less_eq_project_id a b = (project_id_str a \<le> project_id_str b)"

definition less_project_id :: "project_id \<Rightarrow> project_id \<Rightarrow> bool" where
  "less_project_id a b = (project_id_str a < project_id_str b)"

instance
  by standard (auto simp: less_eq_project_id_def less_project_id_def project_id.expand)

end

instantiation sprint_id :: linorder
begin

definition less_eq_sprint_id :: "sprint_id \<Rightarrow> sprint_id \<Rightarrow> bool" where
  "less_eq_sprint_id a b = (sprint_id_project a \<le> sprint_id_project b)"

definition less_sprint_id :: "sprint_id \<Rightarrow> sprint_id \<Rightarrow> bool" where
  "less_sprint_id a b = (sprint_id_project a < sprint_id_project b)"

instance
  by standard (auto simp: less_eq_sprint_id_def less_sprint_id_def sprint_id.expand)

end

section \<open>Tickets\<close>

record scope_binding =
  sb_scope_id :: string
  sb_supervisor_session_id :: string
  sb_binding_revision :: u64

datatype ticket_kind = K_Goal | K_Work | K_Step

datatype work_state =
    W_Draft | W_Ready | W_Active | W_Submitted | W_Accepted | W_Blocked | W_Cancelled

record contract =
  co_title :: string
  co_objective :: string
  co_constraints :: "string list"
  co_acceptance :: "string list"
  co_user_acceptance_required :: bool
  co_allowed_tools :: "string btree_set"

record block_reason =
  br_reason :: string
  br_resume_state :: work_state

record artifact =
  ar_uri :: string
  ar_sha256 :: string

record import_source =
  is_session_id :: string
  is_task_id :: string
  is_snapshot_hash :: string
  is_original_state :: string
  is_artifact :: "artifact option"

record ticket =
  tk_id :: string
  tk_scope_id :: string
  tk_kind :: ticket_kind
  tk_parent :: "string option"
  tk_depends_on :: "string btree_set"
  tk_record_revision :: u64
  tk_contract_revision :: u64
  tk_generation :: u64
  tk_contract :: contract
  tk_priority :: task_priority
  tk_expected_completion_at :: "string option"
  tk_state :: work_state
  tk_blocked :: "block_reason option"
  tk_paused :: bool
  tk_archived :: bool
  tk_active_assignment :: "string option"
  tk_current_submission :: "string option"
  tk_accepted_submission :: "string option"
  tk_updated_seq :: u64
  tk_import_source :: "import_source option"

section \<open>Assignments, effects and submissions\<close>

datatype assignment_state =
    A_Planned | A_DispatchPending | A_Admitted | A_Running | A_Submitted | A_Blocked
  | A_Failed | A_Cancelling | A_Cancelled | A_OutcomeUnknown

record dependency_input =
  di_work_id :: string
  di_submission_id :: string
  di_contract_revision :: u64
  di_artifact_hashes :: "string list"

datatype step_status = S_Pending | S_InProgress | S_Completed | S_Blocked

record local_step =
  ls_id :: string
  ls_parent :: "string option"
  ls_title :: string
  ls_completed :: bool
  ls_status :: "step_status option"

record local_plan =
  lp_plan_revision :: u64
  lp_steps :: "local_step list"

record execution_workspace =
  ew_repo :: string
  ew_base_commit :: string
  ew_branch :: string
  ew_worktree :: string
  ew_write_roots :: "string list"
  ew_claims :: "string btree_set"

record runtime_receipt =
  rr_dispatch_key :: string
  rr_spec_hash :: string
  rr_run_id :: string
  rr_session_id :: string

datatype effect_state =
    E_Planned | E_Started | E_Succeeded | E_FailedBeforeEffect | E_OutcomeUnknown

record file_write_intent =
  fi_principal :: string
  fi_canonical_request :: string

record effect =
  ef_action_fingerprint :: string
  ef_state :: effect_state
  ef_provider_receipt :: "string option"
  ef_artifact :: "artifact option"
  ef_file_intent :: "file_write_intent option"

record assignment =
  as_id :: string
  as_work_id :: string
  as_generation :: u64
  as_contract_revision :: u64
  as_authority_epoch :: u64
  as_record_revision :: u64
  as_state :: assignment_state
  as_dispatch_key :: string
  as_runtime :: "runtime_receipt option"
  as_process_stopped :: bool
  as_awaiting_request :: "string option"
  as_dependency_inputs :: "dependency_input list"
  as_plan :: local_plan
  as_workspace :: "execution_workspace option"
  as_allowed_tools :: "string btree_set"
  as_effects :: "(string, effect) btree_map"
  as_updated_seq :: u64

record submission =
  su_id :: string
  su_work_id :: string
  su_assignment_id :: string
  su_generation :: u64
  su_contract_revision :: u64
  su_runtime :: runtime_receipt
  su_dependency_inputs :: "dependency_input list"
  su_artifacts :: "artifact list"
  su_evidence :: "string list"
  su_effects :: "(string, effect) btree_map"
  su_stale :: bool
  su_updated_seq :: u64

section \<open>Requests, dispatch intents and receipts\<close>

record action =
  ac_kind :: string
  ac_target :: string
  ac_data_hash :: string
  ac_amount :: "string option"
  ac_permissions :: "string btree_set"
  ac_risk :: string

datatype request_kind = Question | Approval action string

datatype request_status =
    R_Open | R_Answered | R_Approved | R_Denied | R_Superseded | R_Expired | R_Consumed

record pending_request =
  rq_id :: string
  rq_work_id :: string
  rq_assignment_id :: "string option"
  rq_generation :: u64
  rq_contract_revision :: u64
  rq_prompt_revision :: u64
  rq_kind :: request_kind
  rq_prompt :: string
  rq_status :: request_status
  rq_answer :: "string option"
  rq_consumed_attempt :: "string option"
  rq_worker_packet_hash :: "string option"
  rq_updated_seq :: u64

record dispatch_spec =
  ds_project_context_hash :: "string option"
  ds_binding :: scope_binding
  ds_work_id :: string
  ds_assignment_id :: string
  ds_generation :: u64
  ds_contract_revision :: u64
  ds_authority_epoch :: u64
  ds_contract :: contract
  ds_dependency_inputs :: "dependency_input list"
  ds_workspace :: "execution_workspace option"

record dispatch_intent =
  in_assignment_id :: string
  in_dispatch_key :: string
  in_immutable_spec :: dispatch_spec
  in_spec_hash :: string
  in_receipt :: "runtime_receipt option"

record operation_receipt =
  or_operation_id :: string
  or_principal :: string
  or_request_hash :: string
  or_canonical_request :: string
  or_committed_seq :: u64
  or_ids :: "(string, string) btree_map"

end
