(* ===== verification/Planning_Model.thy ===== *)
theory Planning_Model
  imports Ticket_Model
begin

text \<open>
  The data of the planning and accounting components whose state lives inside the
  ticket snapshot: project membership and context (\<open>project.rs\<close>), sprints
  (\<open>sprint.rs\<close>), token budgets (\<open>execution_budget.rs\<close>), message resolution
  (\<open>resolution/model.rs\<close>) and offline migration (\<open>migration.rs\<close>).
\<close>

section \<open>Projects\<close>

record project_context =
  pc_project_id :: project_id
  pc_project_revision :: u64
  pc_resource_revision :: u64
  pc_workspace_binding :: workspace_binding
  pc_contract_revision :: u64
  pc_contract :: contract
  pc_sources :: "(string, string) btree_map"

record project_state =
  ps_links :: "(string, project_id) btree_map"
  ps_contexts :: "(string, project_context) btree_map"
  ps_work_contexts :: "(string, string) btree_map"
  ps_assignment_contexts :: "(string, string) btree_map"

section \<open>Sprints\<close>

datatype sprint_status = Sp_Planned | Sp_Active | Sp_Closed

record sprint_definition =
  sd_name :: string
  sd_goal :: string
  sd_starts_at :: "i64 option"
  sd_ends_at :: "i64 option"

datatype membership_change =
    Added
  | Removed
  | CarriedIn sprint_id
  | CarriedOut "sprint_id option"

record membership_event =
  me_work_id :: string
  me_work_revision :: u64
  me_seq :: u64
  me_operation_id :: string
  me_principal :: string
  me_source :: string
  me_change :: membership_change

datatype sprint_destination = ToBacklog | ToSprint sprint_id

datatype close_disposition = D_Accepted | D_Cancelled | D_Backlog | D_Sprint sprint_id

record work_version =
  wv_record_revision :: u64
  wv_contract_revision :: u64
  wv_generation :: u64
  wv_state :: work_state
  wv_blocked_resume_state :: "work_state option"
  wv_paused :: bool
  wv_archived :: bool
  wv_current_submission :: "string option"
  wv_accepted_submission :: "string option"
  wv_active_assignment :: "string option"
  wv_context_hash :: "string option"
  wv_accepted :: bool

record sprint_counts =
  sc_total :: nat
  sc_accepted :: nat
  sc_pending_acceptance :: nat
  sc_blocked :: nat
  sc_cancelled :: nat
  sc_unfinished :: nat

record closed_member =
  cm_version :: work_version
  cm_disposition :: close_disposition

record sprint_closure =
  cl_source_commit :: string
  cl_source_seq :: u64
  cl_closed_seq :: u64
  cl_members :: "(string, closed_member) btree_map"
  cl_counts :: sprint_counts

record sprint =
  sp_id :: sprint_id
  sp_project_id :: project_id
  sp_definition :: sprint_definition
  sp_status :: sprint_status
  sp_revision :: u64
  sp_created_seq :: u64
  sp_updated_seq :: u64
  sp_members :: "string btree_set"
  sp_history :: "membership_event list"
  sp_closure :: "sprint_closure option"

datatype sprint_action =
    Sa_Create sprint_definition
  | Sa_Edit u64 sprint_definition
  | Sa_Start u64
  | Sa_Add u64 string
  | Sa_Remove u64 string
  | Sa_Close u64 "(string, sprint_destination) btree_map" "(sprint_id, u64) btree_map"

record sprint_command =
  sm_operation_id :: string
  sm_binding :: scope_binding
  sm_expected_seq :: u64
  sm_expected_epoch :: u64
  sm_project_id :: project_id
  sm_sprint_id :: sprint_id
  sm_source :: string
  sm_action :: sprint_action

section \<open>Token budgets\<close>

record token_limits =
  tl_work_tokens :: "(string, u64) btree_map"
  tl_utc_day_tokens :: u64
  tl_total_tokens :: u64

datatype budget_purpose = For_Worker | For_Patrol | For_SupervisorDecision

record token_attempt =
  ta_assignment_id :: string
  ta_generation :: u64
  ta_authority_epoch :: u64

record token_request =
  tr_operation_id :: string
  tr_project_id :: project_id
  tr_work_id :: string
  tr_purpose :: budget_purpose
  tr_request_hash :: string
  tr_observed_seq :: u64
  tr_input_cap :: u32
  tr_output_cap :: u32
  tr_attempt :: "token_attempt option"

record token_configuration =
  tc_revision :: u64
  tc_user_id :: string
  tc_committed_seq :: u64
  tc_limits :: "token_limits option"

datatype token_usage = Known u64 u64 | Unknown

record over_cap_usage =
  oc_input_tokens :: "u64 option"
  oc_output_tokens :: "u64 option"
  oc_total_tokens :: "u64 option"

record token_reservation =
  tv_request :: token_request
  tv_receipt :: string
  tv_utc_day :: u64
  tv_usage :: "token_usage option"
  tv_over_cap :: "over_cap_usage option"

datatype token_block = Block_Work | Block_Daily | Block_Total | Block_Capacity | Block_Accounting

record token_budget =
  tb_revision :: u64
  tb_limits :: "token_limits option"
  tb_current_utc_day :: "u64 option"
  tb_last_reservation_ms :: "u64 option"
  tb_total_charged :: u64
  tb_daily_charged :: u64
  tb_work_charged :: "(string, u64) btree_map"
  tb_reservations :: "(string, token_reservation) btree_map"
  tb_configurations :: "(u64, token_configuration) btree_map"

section \<open>Message resolution\<close>

record human_ingress =
  hi_user_id :: string
  hi_source_ingress_seq :: u64
  hi_text :: string
  hi_thread_id :: "string option"
  hi_in_reply_to :: "string option"
  hi_correlation_id :: "string option"

record resolution_basis =
  rb_commit :: string
  rb_seq :: u64
  rb_graph_revision :: u64
  rb_authority_epoch :: u64

datatype ticket_reference =
    Existing string u64 u64 u64
  | Temporary string

record request_reference =
  re_request_id :: string
  re_work_id :: string
  re_assignment_id :: "string option"
  re_generation :: u64
  re_contract_revision :: u64
  re_prompt_revision :: u64

datatype semantic_operation =
    Sem_Create string ticket_kind "ticket_reference option" contract "ticket_reference list"
  | Sem_Ready ticket_reference
  | Sem_Steer ticket_reference contract
  | Sem_SetDependencies ticket_reference "ticket_reference list"
  | Sem_Start ticket_reference string "execution_workspace option"
  | Sem_Pause ticket_reference string
  | Sem_Cancel ticket_reference
  | Sem_Retry ticket_reference
  | Sem_Answer request_reference string
  | Sem_DecideApproval request_reference string bool
  | Sem_Accept ticket_reference string "string list"
  | Sem_Reject ticket_reference string string
  | Sem_Archive ticket_reference bool

record semantic_group =
  sg_group_id :: string
  sg_item_ids :: "string list"
  sg_source_quote :: string
  sg_operations :: "semantic_operation list"
  sg_clarification :: "string option"

record message_proposal =
  mp_groups :: "semantic_group list"

datatype resolution_status =
    Rs_Proposed | Rs_Committed | Rs_NeedsClarification | Rs_Rejected | Rs_Stale

record resolution_group =
  rg_operation_id :: string
  rg_status :: resolution_status
  rg_reason :: "string option"
  rg_item_ids :: "string list"
  rg_receipt :: "operation_receipt option"

record message_resolution =
  mr_message_id :: string
  mr_ingress_seq :: u64
  mr_message_hash :: string
  mr_groups :: "resolution_group list"
  mr_ingress :: "human_ingress option"
  mr_basis :: "resolution_basis option"
  mr_proposal :: "message_proposal option"
  mr_proposal_hash :: "string option"
  mr_updated_seq :: "u64 option"

section \<open>Offline migration\<close>

datatype migration_stage = SourceRetired | SourceTransferred | DestinationActivated

record migration_request =
  mq_operation_id :: string
  mq_binding :: scope_binding
  mq_expected_commit :: string
  mq_expected_seq :: u64
  mq_expected_epoch :: u64
  mq_source_root :: string
  mq_destination_root :: string
  mq_supervisor_snapshot_hash :: "string option"

record migration_receipt =
  mt_request :: migration_request
  mt_principal :: string
  mt_request_hash :: string
  mt_stage :: migration_stage
  mt_retired_seq :: u64
  mt_source_retired_commit :: "string option"
  mt_activation_commit :: "string option"
  mt_activated_seq :: "u64 option"
  mt_supervisor_snapshot :: "artifact option"

end
