(* ===== verification/Snapshot.thy ===== *)
theory Snapshot
  imports Planning_Model
begin

text \<open>
  The snapshot the store publishes, the typed commands that change it, and the record
  \<open>env\<close> of everything the store calls that is not this crate's code: serde, the
  digest, the UUID generator, RFC 3339 parsing and the file system.
\<close>

section \<open>The snapshot\<close>

record snapshot =
  sn_schema :: nat
  sn_execution_budget :: "token_budget option"
  sn_execution_facts_seq :: "u64 option"
  sn_project :: project_state
  sn_sprints :: "(sprint_id, sprint) btree_map"
  sn_binding :: scope_binding
  sn_seq :: u64
  sn_graph_revision :: u64
  sn_authority_epoch :: u64
  sn_tickets :: "(string, ticket) btree_map"
  sn_assignments :: "(string, assignment) btree_map"
  sn_requests :: "(string, pending_request) btree_map"
  sn_submissions :: "(string, submission) btree_map"
  sn_receipts :: "(string, operation_receipt) btree_map"
  sn_intents :: "(string, dispatch_intent) btree_map"
  sn_resolutions :: "(string, message_resolution) btree_map"
  sn_migration :: "migration_receipt option"
  sn_legacy_attachment :: "import_source option"

definition empty_project :: project_state where
  "empty_project =
     \<lparr>ps_links = [], ps_contexts = [], ps_work_contexts = [], ps_assignment_contexts = []\<rparr>"

definition empty_snapshot :: "scope_binding \<Rightarrow> snapshot" where
  "empty_snapshot b = \<lparr>
     sn_schema = 1,
     sn_execution_budget = None,
     sn_execution_facts_seq = None,
     sn_project = empty_project,
     sn_sprints = [],
     sn_binding = b,
     sn_seq = 0,
     sn_graph_revision = 0,
     sn_authority_epoch = 0,
     sn_tickets = [],
     sn_assignments = [],
     sn_requests = [],
     sn_submissions = [],
     sn_receipts = [],
     sn_intents = [],
     sn_resolutions = [],
     sn_migration = None,
     sn_legacy_attachment = None\<rparr>"

definition execution_facts_revision :: "snapshot \<Rightarrow> u64" where
  "execution_facts_revision s =
     (case sn_execution_facts_seq s of Some q \<Rightarrow> q | None \<Rightarrow> sn_seq s)"

section \<open>Commands\<close>

datatype operation =
    Op_AssociateProject string project_id
  | Op_SetProjectContext string project_context
  | Op_Create string ticket_kind "string option" contract "string btree_set"
  | Op_SetPlanningMetadata string u64 task_priority "string option"
  | Op_Ready string
  | Op_UpdateContract string contract
  | Op_SetDependencies string "string btree_set"
  | Op_Start string string "execution_workspace option"
  | Op_Admitted string runtime_receipt
  | Op_Running string
  | Op_ReplacePlan string u64 "local_step list"
  | Op_Ask string string string "action option"
  | Op_YieldForInput string string string
  | Op_Answer string u64 string
  | Op_DecideApproval string u64 string bool
  | Op_ConsumeApproval string string string
  | Op_RecordEffect string string effect
  | Op_Submit string string "artifact list" "string list"
  | Op_Accept string string "string list"
  | Op_AcceptGoal string "string list"
  | Op_Reject string string string
  | Op_Cancel string
  | Op_Pause string string
  | Op_ConfirmStopped string bool
  | Op_RuntimeStopped string runtime_receipt bool
  | Op_ReconcileCompleted string runtime_receipt
  | Op_OutcomeUnknown string string
  | Op_Reopen string
  | Op_Archive string bool
  | Op_ResolveMessage message_resolution
  | Op_Import string contract import_source
  | Op_AttachLegacy import_source

datatype command_source = WorkerTask json

record command =
  cd_operation_id :: string
  cd_binding :: scope_binding
  cd_expected_seq :: u64
  cd_expected_epoch :: u64
  cd_operations :: "operation list"
  cd_source :: "command_source option"

section \<open>Values that are hashed or measured\<close>

text \<open>The context packet of a run (\<open>query.rs\<close>) and the file port's requests.\<close>

record context_artifact =
  ca_source :: dependency_input
  ca_artifact :: artifact
  ca_utf8 :: string

record answered_input =
  ai_request_id :: string
  ai_work_id :: string
  ai_assignment_id :: "string option"
  ai_generation :: u64
  ai_contract_revision :: u64
  ai_prompt_revision :: u64
  ai_prompt :: string
  ai_answer :: string
  ai_updated_seq :: u64

record context_packet =
  wp_project_context :: "project_context option"
  wp_contract_ref :: string
  wp_contract_revision :: u64
  wp_generation :: u64
  wp_assignment_id :: string
  wp_binding :: scope_binding
  wp_contract :: contract
  wp_workspace :: "execution_workspace option"
  wp_inputs :: "dependency_input list"
  wp_input_artifacts :: "context_artifact list"
  wp_answers :: "answered_input list"
  wp_result_contract :: string

datatype file_operation =
    FileRead string
  | FileReadPage string u64 nat "string option"
  | FileWrite string string "string option"

record file_reconcile_request =
  fr_operation_id :: string
  fr_binding :: scope_binding
  fr_expected_commit :: string
  fr_expected_seq :: u64
  fr_expected_epoch :: u64
  fr_assignment_id :: string
  fr_expected_assignment_revision :: u64
  fr_effect_id :: string
  fr_expected_request_hash :: string
  fr_intended_sha256 :: string
  fr_evidence :: string

record search_filter =
  sf_query :: string
  sf_kind :: "ticket_kind option"
  sf_state :: "work_state option"
  sf_updated_after :: "u64 option"
  sf_updated_before :: "u64 option"
  sf_include_archived :: bool

text \<open>What a model sees of a Human message (\<open>resolution/model.rs\<close>).\<close>

record resolution_candidate =
  rk_target :: ticket_reference
  rk_kind :: ticket_kind
  rk_state :: work_state
  rk_contract :: contract
  rk_requests :: "pending_request list"
  rk_current_submission :: "string option"

record resolution_input =
  ri_message_id :: string
  ri_ingress_seq :: u64
  ri_human :: human_ingress
  ri_basis :: resolution_basis
  ri_candidates :: "resolution_candidate list"
  ri_truncated :: bool
  ri_omitted_count :: nat
  ri_coverage :: string

section \<open>What the store calls\<close>

text \<open>Every kind of value the crate passes to \<open>canonical_bytes\<close>.\<close>

datatype payload =
    Pl_Command command
  | Pl_Operations "operation list"
  | Pl_Source command_source
  | Pl_Spec dispatch_spec
  | Pl_Action action
  | Pl_Contract contract
  | Pl_Context project_context
  | Pl_Resolution message_resolution
  | Pl_Import import_source
  | Pl_Ingress human_ingress
  | Pl_Proposal message_proposal
  | Pl_ResolutionInput resolution_input
  | Pl_Sprint sprint_command
  | Pl_TokenRequest scope_binding token_request
  | Pl_Migration migration_request
  | Pl_Packet context_packet
  | Pl_FileOp file_operation
  | Pl_FileReconcile file_reconcile_request
  | Pl_Search search_filter
  | Pl_Snapshot snapshot

text \<open>
  \<open>en_to_json\<close> is \<open>serde_json::to_value\<close> (it may fail), \<open>en_json_bytes\<close> is
  \<open>serde_json::to_vec\<close> on an already canonical value, \<open>en_sha256\<close> the lower-case
  hexadecimal SHA-256, \<open>en_uuid\<close> the sequence of identifiers \<open>Uuid::new_v4\<close>
  yields, \<open>en_canonicalize\<close> and \<open>en_is_dir\<close> the file system during one call (an
  I/O error is \<open>None\<close>), \<open>en_instant\<close> the instant of an RFC 3339 text,
  \<open>en_parse_command\<close> and \<open>en_parse_file\<close> are \<open>serde_json::from_str\<close> on a stored
  canonical request, \<open>en_object\<close> the bytes of a file under a category directory of the
  store (an I/O error or a symbolic link is \<open>None\<close>).
\<close>

record env =
  en_to_json :: "payload \<Rightarrow> json option"
  en_json_bytes :: "json \<Rightarrow> string"
  en_sha256 :: "string \<Rightarrow> string"
  en_uuid :: "nat \<Rightarrow> string"
  en_canonicalize :: "string \<Rightarrow> string option"
  en_is_dir :: "string \<Rightarrow> bool"
  en_instant :: "string \<Rightarrow> int option"
  en_parse_command :: "string \<Rightarrow> command option"
  en_parse_file :: "string \<Rightarrow> file_operation option"
  en_object :: "string \<Rightarrow> string \<Rightarrow> string option"

definition canonical_bytes :: "env \<Rightarrow> payload \<Rightarrow> string result" where
  "canonical_bytes E p =
     and_then (ok_or (en_to_json E p) (Json ''serialize''))
       (\<lambda>j. Inr (en_json_bytes E (sort_json j)))"

definition content_hash :: "env \<Rightarrow> string \<Rightarrow> string" where
  "content_hash E bytes = en_sha256 E bytes"

definition digest :: "env \<Rightarrow> payload \<Rightarrow> string result" where
  "digest E p = and_then (canonical_bytes E p) (\<lambda>b. Inr (content_hash E b))"

lemma safe_canonical_bytes [safe_intros, simp]: "safe (canonical_bytes E p)"
  by (auto simp: canonical_bytes_def intro!: safe_intros)

lemma safe_digest [safe_intros, simp]: "safe (digest E p)"
  by (auto simp: digest_def intro!: safe_intros)

end
