(* ===== verification/Authority.thy ===== *)
theory Authority
  imports Snapshot
begin

text \<open>
  Who may do what: the principals and the checks of \<open>Authority\<close> in
  \<open>service.rs\<close>, the run permit of a Worker, resource ownership of an assignment
  (\<open>holds_resources\<close>), and the small lookups every operation starts with.
\<close>

datatype principal =
    Supervisor string
  | User string
  | Runtime
  | Worker string u64 string string

record authority =
  au_binding :: scope_binding
  au_principal :: principal

definition identity :: "authority \<Rightarrow> string" where
  "identity au =
     (case au_principal au of
        Supervisor session \<Rightarrow> ''supervisor:'' @ session
      | User user \<Rightarrow> ''user:'' @ user
      | Runtime \<Rightarrow> ''runtime''
      | Worker aid gen run session \<Rightarrow>
          ''worker:'' @ aid @ '':'' @ show_u64 gen @ '':'' @ run @ '':'' @ session)"

definition need_supervisor :: "authority \<Rightarrow> unit result" where
  "need_supervisor au =
     (case au_principal au of
        Supervisor session \<Rightarrow>
          if session = sb_supervisor_session_id (au_binding au) then Inr ()
          else fail (ScopeDenied ''Supervisor/User authority required'')
      | User _ \<Rightarrow> Inr ()
      | _ \<Rightarrow> fail (ScopeDenied ''Supervisor/User authority required''))"

definition need_runtime :: "authority \<Rightarrow> unit result" where
  "need_runtime au =
     (case au_principal au of
        Runtime \<Rightarrow> Inr ()
      | _ \<Rightarrow> fail (ScopeDenied ''trusted Runtime authority required''))"

definition need_user :: "authority \<Rightarrow> unit result" where
  "need_user au =
     (case au_principal au of
        User _ \<Rightarrow> Inr ()
      | _ \<Rightarrow> fail (ScopeDenied ''explicit User decision required''))"

definition need_worker :: "authority \<Rightarrow> assignment \<Rightarrow> unit result" where
  "need_worker au a =
     (case (au_principal au, as_runtime a) of
        (Worker aid gen run session, Some receipt) \<Rightarrow>
          if aid = as_id a \<and> gen = as_generation a \<and> run = rr_run_id receipt
             \<and> session = rr_session_id receipt
          then Inr ()
          else fail (ScopeDenied ''worker execution identity mismatch'')
      | _ \<Rightarrow> fail (ScopeDenied ''worker execution identity mismatch''))"

definition is_worker :: "authority \<Rightarrow> bool" where
  "is_worker au = (case au_principal au of Worker _ _ _ _ \<Rightarrow> True | _ \<Rightarrow> False)"

section \<open>Lookups and small updates\<close>

definition find_ticket :: "snapshot \<Rightarrow> string \<Rightarrow> ticket result" where
  "find_ticket s i = ok_or (map_get (sn_tickets s) i) (InvalidTransition ''ticket not found'')"

definition find_assignment :: "snapshot \<Rightarrow> string \<Rightarrow> assignment result" where
  "find_assignment s i =
     ok_or (map_get (sn_assignments s) i) (InvalidTransition ''assignment not found'')"

definition resolve :: "(string, string) btree_map \<Rightarrow> string \<Rightarrow> string" where
  "resolve ids i = (case map_get ids i of Some j \<Rightarrow> j | None \<Rightarrow> i)"

text \<open>The identifiers allocated so far in one batch, and how many UUIDs were drawn.\<close>

record ctx =
  cx_ids :: "(string, string) btree_map"
  cx_drawn :: nat

definition allocate :: "env \<Rightarrow> string \<Rightarrow> ctx \<Rightarrow> (string \<times> ctx) result" where
  "allocate E temp cx =
     (if temp = [] \<or> has_key (cx_ids cx) temp
      then invalid ''duplicate/empty temporary id''
      else let i = en_uuid E (cx_drawn cx)
           in Inr (i, cx\<lparr>cx_ids := map_put temp i (cx_ids cx), cx_drawn := Suc (cx_drawn cx)\<rparr>))"

definition touch :: "u64 \<Rightarrow> ticket \<Rightarrow> ticket" where
  "touch q t = t\<lparr>tk_record_revision := tk_record_revision t + 1, tk_updated_seq := q\<rparr>"

definition bump :: "u64 \<Rightarrow> assignment \<Rightarrow> assignment" where
  "bump q a = a\<lparr>as_record_revision := as_record_revision a + 1, as_updated_seq := q\<rparr>"

definition put_ticket :: "string \<Rightarrow> ticket \<Rightarrow> snapshot \<Rightarrow> snapshot" where
  "put_ticket i t s = s\<lparr>sn_tickets := map_put i t (sn_tickets s)\<rparr>"

definition put_assignment :: "string \<Rightarrow> assignment \<Rightarrow> snapshot \<Rightarrow> snapshot" where
  "put_assignment i a s = s\<lparr>sn_assignments := map_put i a (sn_assignments s)\<rparr>"

definition put_request :: "string \<Rightarrow> pending_request \<Rightarrow> snapshot \<Rightarrow> snapshot" where
  "put_request i r s = s\<lparr>sn_requests := map_put i r (sn_requests s)\<rparr>"

section \<open>Effects, ownership and permits\<close>

definition uncertain_effect :: "effect \<Rightarrow> bool" where
  "uncertain_effect e = (ef_state e = E_Started \<or> ef_state e = E_OutcomeUnknown)"

definition uncertain :: "(string, effect) btree_map \<Rightarrow> bool" where
  "uncertain es = list_ex uncertain_effect (vals es)"

definition holds_resources :: "assignment \<Rightarrow> bool" where
  "holds_resources a =
     ((\<not> as_process_stopped a \<or> uncertain (as_effects a)) \<and>
      as_state a \<in> {A_DispatchPending, A_Blocked, A_Admitted, A_Running, A_Cancelling,
                    A_OutcomeUnknown, A_Submitted})"

definition current_attempt :: "snapshot \<Rightarrow> assignment \<Rightarrow> unit result" where
  "current_attempt s a =
     and_then (find_ticket s (as_work_id a)) (\<lambda>work.
       if as_authority_epoch a \<noteq> sn_authority_epoch s
          \<or> as_contract_revision a \<noteq> tk_contract_revision work
          \<or> as_generation a \<noteq> tk_generation work
          \<or> tk_active_assignment work \<noteq> Some (as_id a)
          \<or> tk_state work \<noteq> W_Active
          \<or> \<not> (as_state a = A_Admitted \<or> as_state a = A_Running)
       then fail (ScopeDenied ''run permission is stale or inactive'')
       else Inr ())"

definition active_permit :: "snapshot \<Rightarrow> assignment \<Rightarrow> unit result" where
  "active_permit s a =
     and_then (current_attempt s a) (\<lambda>_.
       if as_process_stopped a then fail (ScopeDenied ''Worker process has stopped'')
       else Inr ())"

definition validate_authority :: "authority \<Rightarrow> snapshot \<Rightarrow> unit result" where
  "validate_authority au s =
     (if au_binding au \<noteq> sn_binding s then fail (ScopeDenied ''scope binding changed'')
      else case au_principal au of
        Supervisor session \<Rightarrow>
          if session \<noteq> sb_supervisor_session_id (sn_binding s)
          then fail (ScopeDenied ''Supervisor identity'') else Inr ()
      | User user \<Rightarrow>
          if user = [] then fail (ScopeDenied ''User identity'') else Inr ()
      | Worker aid _ _ _ \<Rightarrow> and_then (find_assignment s aid) (need_worker au)
      | Runtime \<Rightarrow> Inr ())"

section \<open>Automation\<close>

lemma find_ticket_Inr [result_simps]:
  "find_ticket s i = Inr t \<longleftrightarrow> map_get (sn_tickets s) i = Some t"
  by (simp add: find_ticket_def result_simps)

lemma find_assignment_Inr [result_simps]:
  "find_assignment s i = Inr a \<longleftrightarrow> map_get (sn_assignments s) i = Some a"
  by (simp add: find_assignment_def result_simps)

text \<open>What a chain of \<open>?\<close> that returned a value says, without the authority checks.\<close>

lemmas call_simps = and_then_Inr ok_or_Inr expect_Inr if_fail_Inr find_ticket_Inr
  find_assignment_Inr

lemma if_Inr: "(if b then Inr x else r) = Inr y \<longleftrightarrow> b \<and> x = y \<or> \<not> b \<and> r = Inr y"
  by auto

lemma need_runtime_Inr [result_simps]:
  "need_runtime au = Inr u \<longleftrightarrow> au_principal au = Runtime"
  by (simp add: need_runtime_def split: principal.splits)

lemma need_user_Inr [result_simps]:
  "need_user au = Inr u \<longleftrightarrow> (\<exists>i. au_principal au = User i)"
  by (simp add: need_user_def split: principal.splits)

lemma need_supervisor_Inr [result_simps]:
  "need_supervisor au = Inr u \<longleftrightarrow>
     (\<exists>i. au_principal au = User i) \<or>
     au_principal au = Supervisor (sb_supervisor_session_id (au_binding au))"
  by (auto simp: need_supervisor_def split: principal.splits if_splits)

lemma need_worker_Inr [result_simps]:
  "need_worker au a = Inr u \<longleftrightarrow>
     (\<exists>r. as_runtime a = Some r \<and>
          au_principal au = Worker (as_id a) (as_generation a) (rr_run_id r) (rr_session_id r))"
  by (auto simp: need_worker_def split: principal.splits option.splits)

lemma allocate_Inr [result_simps]:
  "allocate E temp cx = Inr (i, cx') \<longleftrightarrow>
     temp \<noteq> [] \<and> \<not> has_key (cx_ids cx) temp \<and> i = en_uuid E (cx_drawn cx) \<and>
     cx' = cx\<lparr>cx_ids := map_put temp i (cx_ids cx), cx_drawn := Suc (cx_drawn cx)\<rparr>"
  by (auto simp: allocate_def Let_def)

lemma current_attempt_Inr [result_simps]:
  "current_attempt s a = Inr u \<longleftrightarrow>
     (\<exists>work. map_get (sn_tickets s) (as_work_id a) = Some work \<and>
       as_authority_epoch a = sn_authority_epoch s \<and>
       as_contract_revision a = tk_contract_revision work \<and>
       as_generation a = tk_generation work \<and>
       tk_active_assignment work = Some (as_id a) \<and>
       tk_state work = W_Active \<and>
       (as_state a = A_Admitted \<or> as_state a = A_Running))"
  by (auto simp: current_attempt_def result_simps)

lemma active_permit_Inr [result_simps]:
  "active_permit s a = Inr u \<longleftrightarrow> current_attempt s a = Inr () \<and> \<not> as_process_stopped a"
  by (auto simp: active_permit_def result_simps)

lemma safe_find_ticket [safe_intros, simp]: "safe (find_ticket s i)"
  by (simp add: find_ticket_def)

lemma safe_find_assignment [safe_intros, simp]: "safe (find_assignment s i)"
  by (simp add: find_assignment_def)

lemma safe_need [safe_intros, simp]:
  "safe (need_supervisor au)" "safe (need_runtime au)" "safe (need_user au)" "safe (need_worker au a)"
  by (auto simp: need_supervisor_def need_runtime_def need_user_def need_worker_def
      split: principal.splits option.splits)

lemma safe_allocate [safe_intros, simp]: "safe (allocate E temp cx)"
  by (simp add: allocate_def Let_def)

lemma safe_current_attempt [safe_intros, simp]: "safe (current_attempt s a)"
  by (auto simp: current_attempt_def intro!: safe_intros)

lemma safe_active_permit [safe_intros, simp]: "safe (active_permit s a)"
  by (auto simp: active_permit_def intro!: safe_intros)

lemma safe_validate_authority [safe_intros, simp]: "safe (validate_authority au s)"
  by (auto simp: validate_authority_def intro!: safe_intros split: principal.splits)

text \<open>An identity names one kind of principal; Supervisor and User identities are injective.\<close>

lemma identity_user_inj:
  "au_principal au = User i \<Longrightarrow> identity au = identity av \<Longrightarrow> au_principal av = User i"
  by (auto simp: identity_def split: principal.splits)

end
