(* ===== verification/Invalidation.thy ===== *)
theory Invalidation
  imports Authority
begin

text \<open>
  The graph updates of \<open>service.rs\<close> that follow a change of a contract or an
  acceptance: \<open>invalidate_requests\<close>, \<open>invalidate_parent_goals\<close>,
  \<open>invalidate_dependents\<close>, and the dependency packet of a Work (\<open>dependencies\<close>).
\<close>

section \<open>Requests of a Work\<close>

definition supersede :: "u64 \<Rightarrow> string \<Rightarrow> pending_request \<Rightarrow> pending_request" where
  "supersede q work r =
     (if rq_work_id r = work \<and> (rq_status r = R_Open \<or> rq_status r = R_Approved)
      then r\<lparr>rq_status := R_Superseded, rq_updated_seq := q\<rparr> else r)"

definition invalidate_requests :: "string \<Rightarrow> snapshot \<Rightarrow> snapshot" where
  "invalidate_requests work s =
     s\<lparr>sn_requests := map_vals (supersede (sn_seq s) work) (sn_requests s)\<rparr>"

section \<open>Accepted goals above a ticket\<close>

definition block_goal :: "u64 \<Rightarrow> ticket \<Rightarrow> ticket" where
  "block_goal q g =
     touch q (g\<lparr>tk_blocked := Some \<lparr>
                  br_reason = ''child acceptance changed; Goal needs independent review'',
                  br_resume_state = W_Submitted\<rparr>,
                tk_state := W_Blocked\<rparr>)"

text \<open>
  The loop \<open>while let Some(id) = next\<close>.  It stops when a ticket has no parent; on a
  containment cycle it does not stop.  The fuel counts iterations; one more than the
  number of tickets is enough whenever the loop stops (\<open>goal_walk_fuel\<close> in Propagation), so
  running out of it means that the code loops for ever.
\<close>

fun walk_parents :: "nat \<Rightarrow> snapshot \<Rightarrow> string option \<Rightarrow> snapshot result" where
  "walk_parents n s None = Inr s"
| "walk_parents 0 s (Some i) = Inl Diverges"
| "walk_parents (Suc n) s (Some i) =
     and_then (expect (map_get (sn_tickets s) i) ''validated containment parent'') (\<lambda>g.
       walk_parents n
         (if tk_state g = W_Accepted then put_ticket i (block_goal (sn_seq s) g) s else s)
         (tk_parent g))"

definition parent_of :: "snapshot \<Rightarrow> string \<Rightarrow> string option" where
  "parent_of s i = (case map_get (sn_tickets s) i of Some t \<Rightarrow> tk_parent t | None \<Rightarrow> None)"

definition invalidate_parent_goals :: "string \<Rightarrow> snapshot \<Rightarrow> snapshot result" where
  "invalidate_parent_goals i s = walk_parents (Suc (length (sn_tickets s))) s (parent_of s i)"

section \<open>Works that consumed a revoked result\<close>

definition consumers :: "snapshot \<Rightarrow> string \<Rightarrow> string list" where
  "consumers s i =
     map as_work_id
       (filter (\<lambda>a. list_ex (\<lambda>d. di_work_id d = i) (as_dependency_inputs a))
         (vals (sn_assignments s)))"

text \<open>\<open>if affected.insert(consumer) { frontier.push(consumer) }\<close>; the top of the stack is
  the head of the list.\<close>

definition visit :: "string \<Rightarrow> string btree_set \<times> string list \<Rightarrow> string btree_set \<times> string list" where
  "visit c st =
     (if c \<in> set (fst st) then st else (set_add c (fst st), c # snd st))"

function affected_loop :: "snapshot \<Rightarrow> string btree_set \<Rightarrow> string list \<Rightarrow> string btree_set" where
  "affected_loop s seen [] = seen"
| "affected_loop s seen (i # frontier) =
     (let st = fold visit (consumers s i) (seen, frontier)
      in affected_loop s (fst st) (snd st))"
  by pat_completeness auto

definition all_works :: "snapshot \<Rightarrow> string set" where
  "all_works s = as_work_id ` set (vals (sn_assignments s))"

lemma finite_all_works [simp]: "finite (all_works s)"
  by (simp add: all_works_def)

lemma consumers_subset: "set (consumers s i) \<subseteq> all_works s"
  by (auto simp: consumers_def all_works_def)

lemma fold_visit_measure:
  assumes "set cs \<subseteq> W" "finite W"
  shows "length (snd (fold visit cs st)) + card (W - set (fst (fold visit cs st)))
         = length (snd st) + card (W - set (fst st))"
  using assms(1)
proof (induction cs arbitrary: st)
  case Nil
  then show ?case by simp
next
  case (Cons c cs)
  have "length (snd (visit c st)) + card (W - set (fst (visit c st)))
        = length (snd st) + card (W - set (fst st))"
  proof (cases "c \<in> set (fst st)")
    case True
    then show ?thesis by (simp add: visit_def)
  next
    case False
    have "card (W - set (fst st)) = Suc (card (W - insert c (set (fst st))))"
      using Cons.prems False assms(2)
      by (metis Diff_iff Diff_insert card_Suc_Diff1 finite_Diff list.set_intros(1) subsetD)
    with False show ?thesis by (simp add: visit_def)
  qed
  with Cons show ?case by simp
qed

termination affected_loop
proof (relation "measure (\<lambda>(s, seen, frontier). length frontier + card (all_works s - set seen))")
  fix s seen i frontier and st :: "string btree_set \<times> string list"
  assume "st = fold visit (consumers s i) (seen, frontier)"
  then show "((s, fst st, snd st), s, seen, i # frontier)
    \<in> measure (\<lambda>(s, seen, frontier). length frontier + card (all_works s - set seen))"
    using fold_visit_measure [OF consumers_subset finite_all_works, of s i "(seen, frontier)"]
    by (simp add: case_prod_beta)
qed simp

definition affected_works :: "snapshot \<Rightarrow> string \<Rightarrow> string btree_set" where
  "affected_works s i = affected_loop s [] [i]"

definition revoke_work :: "u64 \<Rightarrow> ticket \<Rightarrow> ticket" where
  "revoke_work q t =
     (if tk_state t \<noteq> W_Cancelled
      then touch q (t\<lparr>tk_blocked := Some \<lparr>
             br_reason = ''accepted dependency input revoked; review required'',
             br_resume_state = tk_state t\<rparr>,
           tk_state := W_Blocked, tk_accepted_submission := None\<rparr>)
      else t)"

text \<open>Ask a live process to stop; an unknown outcome stays unknown.\<close>

definition cancel_assignment :: "u64 \<Rightarrow> assignment \<Rightarrow> assignment" where
  "cancel_assignment q a =
     bump q (if as_state a \<noteq> A_OutcomeUnknown then a\<lparr>as_state := A_Cancelling\<rparr> else a)"

definition invalidate_one :: "snapshot \<Rightarrow> string \<Rightarrow> snapshot result" where
  "invalidate_one s i =
     and_then
       (case map_get (sn_tickets s) i of
          None \<Rightarrow> Inr s
        | Some work \<Rightarrow>
            let work' = revoke_work (sn_seq s) work; s' = put_ticket i work' s
            in case tk_active_assignment work' of
                 None \<Rightarrow> Inr s'
               | Some aid \<Rightarrow>
                   and_then (expect (map_get (sn_assignments s') aid) ''active assignment'') (\<lambda>a.
                     Inr (if as_process_stopped a then s'
                          else put_assignment aid (cancel_assignment (sn_seq s) a) s')))
       (\<lambda>s'. Inr (invalidate_requests i s'))"

definition invalidate_dependents :: "string \<Rightarrow> snapshot \<Rightarrow> snapshot result" where
  "invalidate_dependents i s = try_fold invalidate_one s (affected_works s i)"

section \<open>Dependency inputs\<close>

definition dependency_input_of :: "snapshot \<Rightarrow> string \<Rightarrow> dependency_input result" where
  "dependency_input_of s i =
     and_then (find_ticket s i) (\<lambda>p.
     and_then
       (ok_or (if tk_state p = W_Accepted then tk_accepted_submission p else None)
         (ResourceBlocked (''dependency '' @ i @ '' is not accepted''))) (\<lambda>sid.
     and_then
       (ok_or (map_get (sn_submissions s) sid)
         (InvalidTransition ''missing dependency submission'')) (\<lambda>su.
     Inr \<lparr>di_work_id = i,
           di_submission_id = sid,
           di_contract_revision = tk_contract_revision p,
           di_artifact_hashes = map ar_sha256 (su_artifacts su)\<rparr>)))"

definition dependencies :: "snapshot \<Rightarrow> ticket \<Rightarrow> dependency_input list result" where
  "dependencies s work = try_map (dependency_input_of s) (tk_depends_on work)"

lemma safe_dependency_input_of [safe_intros, simp]: "safe (dependency_input_of s i)"
  by (auto simp: dependency_input_of_def intro!: safe_intros)

lemma safe_dependencies [safe_intros, simp]: "safe (dependencies s w)"
  by (auto simp: dependencies_def intro!: safe_intros)

end
