(* ===== verification/Checks.thy ===== *)
theory Checks
  imports Invalidation
begin

text \<open>
  The stateless validators of \<open>service.rs\<close>: contracts and the native tool ceiling,
  worker plans, workspaces and paths, artifacts, pending requests and effect transitions.
\<close>

section \<open>Paths\<close>

text \<open>\<open>std::path::Path\<close> on Unix: components, prefix and equality by components.\<close>

datatype component = RootDir | CurDir | ParentDir | Normal string

fun segments :: "string \<Rightarrow> string list" where
  "segments [] = [[]]"
| "segments (c # s) =
     (if c = CHR ''/'' then [] # segments s
      else case segments s of [] \<Rightarrow> [[c]] | t # ts \<Rightarrow> (c # t) # ts)"

definition component_of :: "string \<Rightarrow> component option" where
  "component_of t =
     (if t = [] \<or> t = ''.'' then None
      else if t = ''..'' then Some ParentDir else Some (Normal t))"

definition is_absolute :: "string \<Rightarrow> bool" where
  "is_absolute p = starts_with p ''/''"

definition components :: "string \<Rightarrow> component list" where
  "components p =
     (if is_absolute p then [RootDir]
      else if hd (segments p) = ''.'' then [CurDir] else []) @
     List.map_filter component_of (segments p)"

definition path_starts_with :: "string \<Rightarrow> string \<Rightarrow> bool" where
  "path_starts_with p base =
     (take (length (components base)) (components p) = components base)"

definition path_eq :: "string \<Rightarrow> string \<Rightarrow> bool" where
  "path_eq p q = (components p = components q)"

definition canonicalize :: "env \<Rightarrow> string \<Rightarrow> string result" where
  "canonicalize E p = ok_or (en_canonicalize E p) (Io ''canonicalize'')"

lemma path_starts_with_refl [simp]: "path_starts_with p p"
  by (simp add: path_starts_with_def)

lemma path_starts_with_trans:
  "path_starts_with p q \<Longrightarrow> path_starts_with q r \<Longrightarrow> path_starts_with p r"
  unfolding path_starts_with_def by (metis append_eq_conv_conj append_take_drop_id take_take min.absorb2
      nle_le take_all_iff length_take)

section \<open>Contracts\<close>

definition native_tools :: "string list" where
  "native_tools = [''Task'', ''Read'', ''Write'']"

text \<open>\<open>validate_native_tool_ceiling\<close>: every tool is native and one of them is Task.\<close>

fun tool_ceiling :: "bool \<Rightarrow> string list \<Rightarrow> unit result" where
  "tool_ceiling task [] =
     (if \<not> task then fail (ScopeDenied ''unsupported Ticket native ceiling'') else Inr ())"
| "tool_ceiling task (t # ts) =
     (if t \<notin> set native_tools then fail (ScopeDenied ''unsupported Ticket native ceiling'')
      else tool_ceiling (task \<or> t = ''Task'') ts)"

definition validate_native_tool_ceiling :: "string list \<Rightarrow> unit result" where
  "validate_native_tool_ceiling tools = tool_ceiling False tools"

definition work_context_bytes_limit :: nat where
  "work_context_bytes_limit = 65536"

definition validate_contract :: "env \<Rightarrow> contract \<Rightarrow> unit result" where
  "validate_contract E c =
     (if blank (co_title c) \<or> blank (co_objective c) \<or> co_acceptance c = []
         \<or> list_ex blank (co_acceptance c)
      then invalid ''contract must include title, objective and acceptance''
      else and_then (validate_native_tool_ceiling (co_allowed_tools c)) (\<lambda>_.
           and_then (canonical_bytes E (Pl_Contract c)) (\<lambda>b.
           if length b > work_context_bytes_limit then fail ContextBudgetExceeded else Inr ())))"

lemma tool_ceiling_Inr:
  "tool_ceiling task ts = Inr u \<longleftrightarrow>
     set ts \<subseteq> set native_tools \<and> (task \<or> ''Task'' \<in> set ts)"
  by (induction task ts rule: tool_ceiling.induct) auto

lemma validate_native_tool_ceiling_Inr [result_simps]:
  "validate_native_tool_ceiling ts = Inr u \<longleftrightarrow>
     set ts \<subseteq> {''Task'', ''Read'', ''Write''} \<and> ''Task'' \<in> set ts"
  by (simp add: validate_native_tool_ceiling_def tool_ceiling_Inr native_tools_def)

lemma safe_tool_ceiling [simp]: "safe (tool_ceiling task ts)"
  by (induction task ts rule: tool_ceiling.induct) auto

lemma safe_validate_contract [safe_intros, simp]: "safe (validate_contract E c)"
  by (auto simp: validate_contract_def validate_native_tool_ceiling_def intro!: safe_intros)

section \<open>Plans\<close>

definition find_step :: "local_step list \<Rightarrow> string \<Rightarrow> local_step option" where
  "find_step steps i = find (\<lambda>st. ls_id st = i) steps"

text \<open>
  The walk from a step to its root.  \<open>seen.insert\<close> fails on a revisit, so at most one
  more than \<open>length steps\<close> steps are visited; the termination measure counts the known
  identifiers not yet seen.
\<close>

function walk_steps :: "local_step list \<Rightarrow> string list \<Rightarrow> string option \<Rightarrow> unit result" where
  "walk_steps steps seen None = Inr ()"
| "walk_steps steps seen (Some i) =
     (if i \<in> set seen then fail DependencyCycle
      else case find_step steps i of
             None \<Rightarrow> invalid ''Step parent outside LocalPlan''
           | Some st \<Rightarrow> walk_steps steps (i # seen) (ls_parent st))"
  by pat_completeness auto

lemma find_step_id: "find_step steps i = Some st \<Longrightarrow> st \<in> set steps \<and> ls_id st = i"
  by (auto simp: find_step_def find_Some_iff)

termination walk_steps
proof (relation "measure (\<lambda>(steps, seen, nxt). card (ls_id ` set steps - set seen))")
  fix steps :: "local_step list" and seen i st
  assume "i \<notin> set seen" "find_step steps i = Some st"
  then have "i \<in> ls_id ` set steps - set seen" by (auto dest: find_step_id)
  then have "card (ls_id ` set steps - set (i # seen)) < card (ls_id ` set steps - set seen)"
    by (intro psubset_card_mono) auto
  then show "((steps, i # seen, ls_parent st), steps, seen, Some i)
    \<in> measure (\<lambda>(steps, seen, nxt). card (ls_id ` set steps - set seen))" by simp
qed simp

definition validate_step :: "local_step list \<Rightarrow> local_step \<Rightarrow> unit result" where
  "validate_step steps st =
     (if (case ls_status st of None \<Rightarrow> False
          | Some status \<Rightarrow> (status = S_Completed) \<noteq> ls_completed st)
      then invalid ''Step status/completed mismatch''
      else walk_steps steps [] (Some (ls_id st)))"

definition validate_plan :: "local_step list \<Rightarrow> unit result" where
  "validate_plan steps =
     (if length steps > 256 then invalid ''LocalPlan exceeds 256 Steps''
      else let ids = set_of (map ls_id steps)
           in if length ids \<noteq> length steps \<or> [] \<in> set ids
              then invalid ''duplicate/empty Step id''
              else try_each (validate_step steps) steps)"

lemma safe_walk_steps [simp]: "safe (walk_steps steps seen nxt)"
  by (induction steps seen nxt rule: walk_steps.induct) (auto split: option.splits)

lemma safe_validate_plan [safe_intros, simp]: "safe (validate_plan steps)"
  by (auto simp: validate_plan_def validate_step_def Let_def intro!: safe_intros split: option.splits)

section \<open>Workspaces, artifacts, requests, effects\<close>

definition validate_write_root :: "env \<Rightarrow> string \<Rightarrow> string \<Rightarrow> unit result" where
  "validate_write_root E root path =
     (if \<not> is_absolute path \<or> ParentDir \<in> set (components path) \<or> \<not> en_is_dir E path
      then fail (ScopeDenied ''write root escapes worktree'')
      else and_then (canonicalize E path) (\<lambda>c.
        if \<not> path_eq c path \<or> \<not> path_starts_with path root
        then fail (ScopeDenied ''write root escapes worktree'') else Inr ()))"

definition validate_workspace :: "env \<Rightarrow> execution_workspace \<Rightarrow> unit result" where
  "validate_workspace E w =
     (if ew_repo w = [] \<or> length (ew_base_commit w) < 40 \<or> ew_branch w = [] \<or> ew_claims w = []
      then invalid ''code Assignment needs explicit repo/base/branch/resource claims''
      else and_then (canonicalize E (ew_worktree w)) (\<lambda>root.
        if \<not> is_absolute (ew_worktree w) \<or> \<not> path_eq (ew_worktree w) root \<or> \<not> en_is_dir E root
        then invalid ''worktree must be a canonical absolute directory''
        else try_each (validate_write_root E root) (ew_write_roots w)))"

definition validate_artifact :: "artifact \<Rightarrow> unit result" where
  "validate_artifact ar =
     (if length (ar_sha256 ar) \<noteq> 64 \<or> \<not> list_all ascii_hexdigit (ar_sha256 ar)
         \<or> \<not> starts_with (ar_uri ar) ''artifact://'' \<or> drop 11 (ar_uri ar) = []
         \<or> contains (ar_uri ar) ''..'' \<or> contains (ar_uri ar) ''%''
         \<or> contains (ar_uri ar) [char_of (92 :: nat)]
      then invalid ''artifact URI/hash invalid'' else Inr ())"

definition validate_request :: "snapshot \<Rightarrow> string \<Rightarrow> u64 \<Rightarrow> unit result" where
  "validate_request s i prompt_revision =
     and_then (ok_or (map_get (sn_requests s) i) (InvalidTransition ''request missing'')) (\<lambda>r.
     and_then (find_ticket s (rq_work_id r)) (\<lambda>work.
       if rq_status r \<noteq> R_Open \<or> rq_prompt_revision r \<noteq> prompt_revision
          \<or> rq_generation r \<noteq> tk_generation work
          \<or> rq_contract_revision r \<noteq> tk_contract_revision work
          \<or> tk_state work = W_Cancelled
       then invalid ''request is superseded, answered or expired'' else Inr ()))"

definition valid_effect_transition :: "effect_state \<Rightarrow> effect_state \<Rightarrow> bool" where
  "valid_effect_transition old new =
     (old = new \<or>
      old = E_Planned \<and> (new = E_Started \<or> new = E_FailedBeforeEffect) \<or>
      old = E_Started \<and> (new = E_Succeeded \<or> new = E_OutcomeUnknown))"

lemma safe_checks [safe_intros, simp]:
  "safe (validate_workspace E w)" "safe (validate_artifact ar)" "safe (validate_request s i n)"
  "safe (canonicalize E p)" "safe (validate_write_root E root p)"
  by (auto simp: validate_workspace_def validate_artifact_def validate_request_def
      canonicalize_def validate_write_root_def intro!: safe_intros)

lemma validate_request_Inr [result_simps]:
  "validate_request s i n = Inr u \<longleftrightarrow>
     (\<exists>r work. map_get (sn_requests s) i = Some r \<and>
       map_get (sn_tickets s) (rq_work_id r) = Some work \<and>
       rq_status r = R_Open \<and> rq_prompt_revision r = n \<and>
       rq_generation r = tk_generation work \<and>
       rq_contract_revision r = tk_contract_revision work \<and> tk_state work \<noteq> W_Cancelled)"
  by (auto simp: validate_request_def result_simps)

end
