(* ===== verification/Planning.thy ===== *)
theory Planning
  imports Checks
begin

text \<open>
  Owner planning metadata (\<open>planning.rs\<close>): priority and desired deadline of a ticket.
  The RFC 3339 parser is the chrono crate's and is the parameter \<open>en_instant\<close>; the
  pre-checks (length, ASCII, the T separator, no unknown offset) are this crate's.
\<close>

definition ends_with :: "string \<Rightarrow> string \<Rightarrow> bool" where
  "ends_with s p = starts_with (rev s) (rev p)"

definition parse_instant :: "env \<Rightarrow> string \<Rightarrow> string \<Rightarrow> int result" where
  "parse_instant E v field =
     (let bad = InvalidTransition (field @ '' requires RFC 3339 with an explicit known offset'')
      in if length v > 64 \<or> \<not> list_all (\<lambda>c. byte c < 128) v
            \<or> \<not> (10 < length v \<and> (v ! 10 = CHR ''T'' \<or> v ! 10 = CHR ''t''))
            \<or> ends_with v ''-00:00''
         then fail bad else ok_or (en_instant E v) bad)"

definition validate_deadline :: "env \<Rightarrow> string option \<Rightarrow> unit result" where
  "validate_deadline E d =
     (case d of None \<Rightarrow> Inr ()
      | Some v \<Rightarrow> and_then (parse_instant E v ''expected completion'') (\<lambda>_. Inr ()))"

definition overdue_instant :: "env \<Rightarrow> string \<Rightarrow> int result" where
  "overdue_instant E v = parse_instant E v ''overdue_as_of''"

definition is_overdue_at :: "env \<Rightarrow> ticket \<Rightarrow> int \<Rightarrow> bool result" where
  "is_overdue_at E t as_of =
     (if tk_state t = W_Accepted \<or> tk_state t = W_Cancelled then Inr False
      else case tk_expected_completion_at t of
             Some v \<Rightarrow> and_then (parse_instant E v ''expected completion'') (\<lambda>i. Inr (i < as_of))
           | None \<Rightarrow> Inr False)"

definition planning_set ::
  "env \<Rightarrow> authority \<Rightarrow> string \<Rightarrow> u64 \<Rightarrow> task_priority \<Rightarrow> string option \<Rightarrow> snapshot \<Rightarrow> snapshot result"
where
  "planning_set E au i expected priority deadline s =
     and_then (need_user au) (\<lambda>_.
     and_then (validate_deadline E deadline) (\<lambda>_.
     and_then (find_ticket s i) (\<lambda>t.
       if tk_record_revision t \<noteq> expected then fail RevisionConflict
       else if tk_archived t
       then invalid ''unarchive the Ticket before editing planning metadata''
       else
         let t' = t\<lparr>tk_priority := priority, tk_expected_completion_at := deadline,
                    tk_record_revision := tk_record_revision t + 1,
                    tk_updated_seq := sn_seq s\<rparr>
         in Inr ((put_ticket i t' s)\<lparr>sn_schema := max (sn_schema s) 7\<rparr>))))"

definition validate_planning_ticket :: "env \<Rightarrow> nat \<Rightarrow> ticket \<Rightarrow> unit result" where
  "validate_planning_ticket E schema t =
     (if schema < 7 \<and> (tk_priority t \<noteq> P_Medium \<or> tk_expected_completion_at t \<noteq> None)
      then invalid ''Ticket planning metadata requires schema 7''
      else validate_deadline E (tk_expected_completion_at t))"

definition validate_planning :: "env \<Rightarrow> snapshot \<Rightarrow> unit result" where
  "validate_planning E s =
     try_each (validate_planning_ticket E (sn_schema s)) (vals (sn_tickets s))"

lemma safe_parse_instant [safe_intros, simp]: "safe (parse_instant E v f)"
  by (auto simp: parse_instant_def Let_def)

lemma safe_validate_deadline [safe_intros, simp]: "safe (validate_deadline E d)"
  by (auto simp: validate_deadline_def intro!: safe_intros split: option.splits)

lemma safe_planning_set [safe_intros, simp]: "safe (planning_set E au i n p d s)"
  by (auto simp: planning_set_def Let_def intro!: safe_intros)

lemma safe_validate_planning [safe_intros, simp]: "safe (validate_planning E s)"
  by (auto simp: validate_planning_def validate_planning_ticket_def intro!: safe_intros)

text \<open>A successful edit passes the ticket check of the next validation.\<close>

lemma planning_set_Inr:
  assumes "planning_set E au i n p d s = Inr s'"
  shows "\<exists>u t. au_principal au = User u \<and> map_get (sn_tickets s) i = Some t \<and>
     tk_record_revision t = n \<and> \<not> tk_archived t \<and> validate_deadline E d = Inr () \<and>
     s' = (put_ticket i (t\<lparr>tk_priority := p, tk_expected_completion_at := d,
             tk_record_revision := tk_record_revision t + 1, tk_updated_seq := sn_seq s\<rparr>) s)
            \<lparr>sn_schema := max (sn_schema s) 7\<rparr>"
  using assms by (auto simp: planning_set_def result_simps Let_def)

end
