(* ===== verification/Project.thy ===== *)
theory Project
  imports Planning
begin

text \<open>
  Scope-local project membership and the immutable execution context a Work adopts
  when it starts (\<open>project.rs\<close>).
\<close>

definition project_is_empty :: "project_state \<Rightarrow> bool" where
  "project_is_empty p =
     (ps_links p = [] \<and> ps_contexts p = [] \<and> ps_work_contexts p = [] \<and>
      ps_assignment_contexts p = [])"

definition link_of :: "snapshot \<Rightarrow> string \<Rightarrow> project_id option" where
  "link_of s i = map_get (ps_links (sn_project s)) i"

definition associate :: "string \<Rightarrow> project_id \<Rightarrow> snapshot \<Rightarrow> snapshot result" where
  "associate i project s =
     and_then (find_ticket s i) (\<lambda>t.
       case link_of s i of
         Some existing \<Rightarrow>
           if existing = project then Inr s else invalid ''Project membership is immutable''
       | None \<Rightarrow>
           if tk_generation t \<noteq> 0 \<or> tk_active_assignment t \<noteq> None
              \<or> \<not> (tk_state t = W_Draft \<or> tk_state t = W_Ready)
              \<or> list_ex (\<lambda>c. tk_parent c = Some i) (vals (sn_tickets s))
           then invalid ''associate a new or unexecuted leaf Ticket only''
           else Inr ((put_ticket i (touch (sn_seq s) t) s)
                      \<lparr>sn_project := (sn_project s)\<lparr>ps_links := map_put i project (ps_links (sn_project s))\<rparr>,
                       sn_schema := max (sn_schema s) 5\<rparr>))"

definition same_execution_inputs :: "project_context \<Rightarrow> project_context \<Rightarrow> bool" where
  "same_execution_inputs a b =
     (pc_project_id a = pc_project_id b \<and>
      pc_workspace_binding a = pc_workspace_binding b \<and>
      pc_contract_revision a = pc_contract_revision b \<and>
      pc_contract a = pc_contract b \<and>
      pc_sources a = pc_sources b)"

definition project_context_bytes_limit :: nat where
  "project_context_bytes_limit = 16 * 1024"

definition validate_context :: "env \<Rightarrow> project_context \<Rightarrow> unit result" where
  "validate_context E c =
     and_then (canonical_bytes E (Pl_Context c)) (\<lambda>b.
       if length b > project_context_bytes_limit then fail ContextBudgetExceeded
       else if pc_project_revision c = 0 \<or> pc_resource_revision c = 0 \<or> pc_contract_revision c = 0
         \<or> wb_path (pc_workspace_binding c) = [] \<or> length (pc_sources c) > 32
         \<or> list_ex (\<lambda>e. fst e = [] \<or> snd e = []) (pc_sources c)
       then invalid ''invalid bounded Project context'' else Inr ())"

text \<open>Adoption for a running Work may only queue newer metadata of the same inputs.\<close>

definition check_live_context :: "string \<Rightarrow> ticket \<Rightarrow> project_context \<Rightarrow> snapshot \<Rightarrow> unit result" where
  "check_live_context i work c s =
     (let p = sn_project s;
          adopted = (case tk_active_assignment work of
               Some aid \<Rightarrow>
                 if tk_state work = W_Active \<or> tk_state work = W_Blocked
                 then Option.bind (map_get (ps_assignment_contexts p) aid) (map_get (ps_contexts p))
                 else None
             | None \<Rightarrow> None)
      in and_then (ok_or adopted (InvalidTransition ''context adoption requires stopped Draft/Ready Work'')) (\<lambda>a.
         if \<not> same_execution_inputs a c
         then invalid ''running context inputs require a confirmed stop''
         else
           and_then (ok_or (Option.bind (map_get (ps_work_contexts p) i) (map_get (ps_contexts p)))
             (InvalidTransition ''current context missing'')) (\<lambda>cur.
             if pc_project_revision c < pc_project_revision cur
                \<or> pc_resource_revision c < pc_resource_revision cur
             then fail RevisionConflict else Inr ())))"

definition set_context :: "env \<Rightarrow> string \<Rightarrow> project_context \<Rightarrow> snapshot \<Rightarrow> snapshot result" where
  "set_context E i c s =
     and_then (ok_or (map_get (sn_tickets s) i) (InvalidTransition ''work not found'')) (\<lambda>work.
       if tk_kind work \<noteq> K_Work \<or> tk_archived work
       then invalid ''context requires an unarchived Work''
       else
         and_then
           (if tk_active_assignment work = None \<and> (tk_state work = W_Draft \<or> tk_state work = W_Ready)
            then Inr () else check_live_context i work c s) (\<lambda>_.
         if link_of s i \<noteq> Some (pc_project_id c)
            \<or> tk_contract_revision work \<noteq> pc_contract_revision c
            \<or> tk_contract work \<noteq> pc_contract c
         then invalid ''context Project or contract mismatch''
         else
           and_then (validate_context E c) (\<lambda>_.
           and_then (digest E (Pl_Context c)) (\<lambda>h.
             Inr ((put_ticket i (touch (sn_seq s) work) s)
               \<lparr>sn_project := (sn_project s)
                  \<lparr>ps_contexts := map_put h c (ps_contexts (sn_project s)),
                   ps_work_contexts := map_put i h (ps_work_contexts (sn_project s))\<rparr>,
                sn_schema := max (sn_schema s) 5\<rparr>)))))"

definition context_for_start ::
  "snapshot \<Rightarrow> ticket \<Rightarrow> execution_workspace option \<Rightarrow> string option result"
where
  "context_for_start s work workspace =
     (case link_of s (tk_id work) of
        None \<Rightarrow> Inr None
      | Some project \<Rightarrow>
          and_then (ok_or (map_get (ps_work_contexts (sn_project s)) (tk_id work))
            (InvalidTransition ''linked Work requires explicit Project context'')) (\<lambda>h.
          and_then (ok_or (map_get (ps_contexts (sn_project s)) h)
            (InvalidTransition ''context missing'')) (\<lambda>c.
          if pc_project_id c \<noteq> project \<or> pc_contract_revision c \<noteq> tk_contract_revision work
             \<or> pc_contract c \<noteq> tk_contract work
          then invalid ''Project context is stale; adopt at a stopped boundary''
          else
            and_then (ok_or workspace
              (InvalidTransition ''linked Work requires one execution workspace'')) (\<lambda>w.
            if ew_repo w \<noteq> wb_path (pc_workspace_binding c)
            then invalid ''execution repository differs from adopted binding''
            else Inr (Some h)))))"

section \<open>Validation\<close>

definition related :: "ticket \<Rightarrow> string list" where
  "related t = (case tk_parent t of Some p \<Rightarrow> [p] | None \<Rightarrow> []) @ tk_depends_on t"

definition validate_link :: "snapshot \<Rightarrow> string \<times> project_id \<Rightarrow> unit result" where
  "validate_link s e =
     and_then (ok_or (map_get (sn_tickets s) (fst e)) (InvalidTransition ''dangling Project link'')) (\<lambda>t.
       if list_ex (\<lambda>o'. link_of s o' \<noteq> Some (snd e)) (related t)
       then invalid ''cross-Project or unlinked containment/dependency'' else Inr ())"

definition validate_membership :: "snapshot \<Rightarrow> ticket \<Rightarrow> unit result" where
  "validate_membership s t =
     (if list_ex (\<lambda>o'. link_of s (tk_id t) \<noteq> link_of s o') (related t)
      then invalid ''Project membership must match related Tickets'' else Inr ())"

definition validate_context_entry :: "env \<Rightarrow> string \<times> project_context \<Rightarrow> unit result" where
  "validate_context_entry E e =
     and_then (validate_context E (snd e)) (\<lambda>_.
     and_then (digest E (Pl_Context (snd e))) (\<lambda>h.
       if fst e \<noteq> h then invalid ''Project context hash mismatch'' else Inr ()))"

definition validate_work_context :: "snapshot \<Rightarrow> string \<times> string \<Rightarrow> unit result" where
  "validate_work_context s e =
     and_then (ok_or (map_get (ps_contexts (sn_project s)) (snd e))
       (InvalidTransition ''missing Work context'')) (\<lambda>c.
       if link_of s (fst e) \<noteq> Some (pc_project_id c)
       then invalid ''Work context Project mismatch'' else Inr ())"

definition validate_assignment_context :: "snapshot \<Rightarrow> string \<times> string \<Rightarrow> unit result" where
  "validate_assignment_context s e =
     and_then (ok_or (map_get (sn_assignments s) (fst e))
       (InvalidTransition ''missing context Assignment'')) (\<lambda>a.
     and_then (ok_or (map_get (ps_contexts (sn_project s)) (snd e))
       (InvalidTransition ''missing adopted context'')) (\<lambda>c.
       if (case map_get (sn_intents s) (as_dispatch_key a) of
             None \<Rightarrow> None | Some i \<Rightarrow> ds_project_context_hash (in_immutable_spec i)) \<noteq> Some (snd e)
          \<or> link_of s (as_work_id a) \<noteq> Some (pc_project_id c)
          \<or> as_contract_revision a \<noteq> pc_contract_revision c
          \<or> (case as_workspace a of None \<Rightarrow> True
             | Some w \<Rightarrow> ew_repo w \<noteq> wb_path (pc_workspace_binding c))
       then invalid ''adopted Assignment context mismatch'' else Inr ()))"

definition validate_linked_assignment :: "snapshot \<Rightarrow> assignment \<Rightarrow> unit result" where
  "validate_linked_assignment s a =
     (if has_key (ps_links (sn_project s)) (as_work_id a)
         \<and> \<not> has_key (ps_assignment_contexts (sn_project s)) (as_id a)
      then invalid ''linked Assignment missing adopted context'' else Inr ())"

definition validate_project :: "env \<Rightarrow> snapshot \<Rightarrow> unit result" where
  "validate_project E s =
     (if \<not> project_is_empty (sn_project s) \<and> sn_schema s < 5
      then invalid ''Project references require schema 5''
      else
        and_then (try_each (validate_link s) (ps_links (sn_project s))) (\<lambda>_.
        and_then (try_each (validate_membership s) (vals (sn_tickets s))) (\<lambda>_.
        and_then (try_each (validate_context_entry E) (ps_contexts (sn_project s))) (\<lambda>_.
        and_then (try_each (validate_work_context s) (ps_work_contexts (sn_project s))) (\<lambda>_.
        and_then (try_each (validate_assignment_context s) (ps_assignment_contexts (sn_project s))) (\<lambda>_.
          try_each (validate_linked_assignment s) (vals (sn_assignments s))))))))"

lemma safe_project [safe_intros, simp]:
  "safe (associate i p s)" "safe (validate_context E c)" "safe (set_context E i c s)"
  "safe (context_for_start s w ws)" "safe (validate_project E s)"
  by (auto simp: associate_def validate_context_def set_context_def check_live_context_def
      context_for_start_def validate_project_def validate_link_def validate_membership_def
      validate_context_entry_def validate_work_context_def validate_assignment_context_def
      validate_linked_assignment_def Let_def
      intro!: safe_intros split: option.splits)

section \<open>Board columns\<close>

datatype board_stage = Todo | Doing | Testing | Done

definition stage :: "ticket \<Rightarrow> board_stage option" where
  "stage t =
     (let st = (if tk_state t = W_Blocked
                then (case tk_blocked t of Some b \<Rightarrow> br_resume_state b | None \<Rightarrow> W_Blocked)
                else tk_state t)
      in case st of
           W_Draft \<Rightarrow> Some Todo | W_Ready \<Rightarrow> Some Todo
         | W_Active \<Rightarrow> Some Doing
         | W_Submitted \<Rightarrow> Some Testing
         | W_Accepted \<Rightarrow> Some Done
         | W_Blocked \<Rightarrow> None | W_Cancelled \<Rightarrow> None)"

end
