(* ===== verification/Sprint.thy ===== *)
theory Sprint
  imports Project
begin

text \<open>
  Sprint planning over the Works of a project (\<open>sprint.rs\<close>): the actions, the
  atomic close with its carry-over, and the validation of the stored history.
\<close>

definition sprint_member_limit :: nat where
  "sprint_member_limit = 128"

definition history_limit :: nat where
  "history_limit = 2048"

definition definition_valid :: "sprint_definition \<Rightarrow> unit result" where
  "definition_valid d =
     (if blank (sd_name d) \<or> length (sd_name d) > 256
         \<or> blank (sd_goal d) \<or> length (sd_goal d) > 4096
         \<or> (case (sd_starts_at d, sd_ends_at d) of
              (Some a, Some b) \<Rightarrow> sint b < sint a | _ \<Rightarrow> False)
      then invalid ''invalid Sprint name, goal or dates'' else Inr ())"

definition work_in :: "snapshot \<Rightarrow> project_id \<Rightarrow> string \<Rightarrow> ticket result" where
  "work_in s project i =
     and_then (ok_or (map_get (sn_tickets s) i) (InvalidTransition ''Work not found'')) (\<lambda>w.
       if tk_kind w \<noteq> K_Work \<or> link_of s i \<noteq> Some project
       then fail (ScopeDenied ''Sprint requires a Work in the same Project'') else Inr w)"

definition find_sprint :: "snapshot \<Rightarrow> project_id \<Rightarrow> sprint_id \<Rightarrow> sprint result" where
  "find_sprint s project i =
     and_then (ok_or (map_get (sn_sprints s) i) (InvalidTransition ''Sprint not found'')) (\<lambda>sp.
       if sp_project_id sp \<noteq> project then fail (ScopeDenied ''Sprint Project mismatch'') else Inr sp)"

definition open_revision :: "sprint \<Rightarrow> u64 \<Rightarrow> unit result" where
  "open_revision sp expected =
     (if sp_revision sp \<noteq> expected then fail RevisionConflict
      else if sp_status sp = Sp_Closed then invalid ''closed Sprint is immutable'' else Inr ())"

text \<open>Accepted means current exact accepted evidence, not only the state label.\<close>

definition version_accepted :: "snapshot \<Rightarrow> ticket \<Rightarrow> bool" where
  "version_accepted s w =
     (tk_state w = W_Accepted \<and>
      (case Option.bind (tk_accepted_submission w) (map_get (sn_submissions s)) of
         None \<Rightarrow> False
       | Some su \<Rightarrow> \<not> su_stale su \<and> su_work_id su = tk_id w \<and> su_generation su = tk_generation w
           \<and> su_contract_revision su = tk_contract_revision w
           \<and> tk_current_submission w = Some (su_id su)))"

definition version_of :: "snapshot \<Rightarrow> ticket \<Rightarrow> work_version" where
  "version_of s w = \<lparr>
     wv_record_revision = tk_record_revision w,
     wv_contract_revision = tk_contract_revision w,
     wv_generation = tk_generation w,
     wv_state = tk_state w,
     wv_blocked_resume_state = map_option br_resume_state (tk_blocked w),
     wv_paused = tk_paused w,
     wv_archived = tk_archived w,
     wv_current_submission = tk_current_submission w,
     wv_accepted_submission = tk_accepted_submission w,
     wv_active_assignment = tk_active_assignment w,
     wv_context_hash = map_get (ps_work_contexts (sn_project s)) (tk_id w),
     wv_accepted = version_accepted s w\<rparr>"

definition zero_counts :: sprint_counts where
  "zero_counts = \<lparr>sc_total = 0, sc_accepted = 0, sc_pending_acceptance = 0, sc_blocked = 0,
                  sc_cancelled = 0, sc_unfinished = 0\<rparr>"

definition unfinished :: "work_version \<Rightarrow> bool" where
  "unfinished v = (\<not> wv_accepted v \<and> wv_state v \<noteq> W_Cancelled)"

definition count_version :: "work_version \<Rightarrow> sprint_counts \<Rightarrow> sprint_counts" where
  "count_version v c = \<lparr>
     sc_total = sc_total c + 1,
     sc_accepted = sc_accepted c + of_bool (wv_accepted v),
     sc_pending_acceptance = sc_pending_acceptance c + of_bool (wv_state v = W_Submitted),
     sc_blocked = sc_blocked c + of_bool (wv_state v = W_Blocked),
     sc_cancelled = sc_cancelled c + of_bool (wv_state v = W_Cancelled),
     sc_unfinished = sc_unfinished c + of_bool (unfinished v)\<rparr>"

definition counts :: "work_version list \<Rightarrow> sprint_counts" where
  "counts vs = fold count_version vs zero_counts"

definition event_of ::
  "sprint_command \<Rightarrow> authority \<Rightarrow> u64 \<Rightarrow> ticket \<Rightarrow> membership_change \<Rightarrow> membership_event"
where
  "event_of cmd au q w change = \<lparr>
     me_work_id = tk_id w, me_work_revision = tk_record_revision w, me_seq = q,
     me_operation_id = sm_operation_id cmd, me_principal = identity au,
     me_source = sm_source cmd, me_change = change\<rparr>"

definition touch_sprint :: "u64 \<Rightarrow> sprint \<Rightarrow> sprint result" where
  "touch_sprint q sp =
     and_then (ok_or (checked_add (sp_revision sp) 1)
       (InvalidTransition ''Sprint revision overflow'')) (\<lambda>n.
       Inr (sp\<lparr>sp_revision := n, sp_updated_seq := q\<rparr>))"

definition put_sprint :: "sprint_id \<Rightarrow> sprint \<Rightarrow> snapshot \<Rightarrow> snapshot" where
  "put_sprint i sp s = s\<lparr>sn_sprints := map_put i sp (sn_sprints s)\<rparr>"

text \<open>\<open>get_mut(id).expect("checked")\<close>, a change, then \<open>touch\<close>.\<close>

definition update_sprint :: "sprint_id \<Rightarrow> (sprint \<Rightarrow> sprint) \<Rightarrow> snapshot \<Rightarrow> snapshot result" where
  "update_sprint i f s =
     and_then (expect (map_get (sn_sprints s) i) ''checked'') (\<lambda>sp.
     and_then (touch_sprint (sn_seq s) (f sp)) (\<lambda>sp'. Inr (put_sprint i sp' s)))"

section \<open>Actions\<close>

definition new_sprint :: "snapshot \<Rightarrow> sprint_command \<Rightarrow> sprint_definition \<Rightarrow> sprint" where
  "new_sprint s cmd d = \<lparr>
     sp_id = sm_sprint_id cmd, sp_project_id = sm_project_id cmd, sp_definition = d,
     sp_status = Sp_Planned, sp_revision = 1, sp_created_seq = sn_seq s,
     sp_updated_seq = sn_seq s, sp_members = [], sp_history = [], sp_closure = None\<rparr>"

definition sprint_create :: "sprint_command \<Rightarrow> sprint_definition \<Rightarrow> snapshot \<Rightarrow> snapshot result" where
  "sprint_create cmd d s =
     and_then (definition_valid d) (\<lambda>_.
       if has_key (sn_sprints s) (sm_sprint_id cmd) then invalid ''Sprint already exists''
       else Inr (put_sprint (sm_sprint_id cmd) (new_sprint s cmd d) s))"

definition sprint_edit ::
  "sprint_command \<Rightarrow> u64 \<Rightarrow> sprint_definition \<Rightarrow> snapshot \<Rightarrow> snapshot result"
where
  "sprint_edit cmd expected d s =
     and_then (find_sprint s (sm_project_id cmd) (sm_sprint_id cmd)) (\<lambda>sp.
     and_then (open_revision sp expected) (\<lambda>_.
     and_then (definition_valid d) (\<lambda>_.
       update_sprint (sm_sprint_id cmd) (\<lambda>sp. sp\<lparr>sp_definition := d\<rparr>) s)))"

definition sprint_start :: "sprint_command \<Rightarrow> u64 \<Rightarrow> snapshot \<Rightarrow> snapshot result" where
  "sprint_start cmd expected s =
     and_then (find_sprint s (sm_project_id cmd) (sm_sprint_id cmd)) (\<lambda>sp.
     and_then (open_revision sp expected) (\<lambda>_.
       if sp_status sp \<noteq> Sp_Planned then invalid ''only planned Sprint can start''
       else if list_ex (\<lambda>x. sp_project_id x = sm_project_id cmd \<and> sp_status x = Sp_Active)
                 (vals (sn_sprints s))
       then invalid ''Project already has an active Sprint''
       else update_sprint (sm_sprint_id cmd) (\<lambda>sp. sp\<lparr>sp_status := Sp_Active\<rparr>) s))"

definition can_join :: "snapshot \<Rightarrow> sprint \<Rightarrow> ticket \<Rightarrow> string \<Rightarrow> unit result" where
  "can_join s sp w i =
     (if tk_archived w then invalid ''archived Work cannot join a Sprint''
      else if length (sp_members sp) \<ge> sprint_member_limit then fail ContextBudgetExceeded
      else if list_ex (\<lambda>x. sp_status x \<noteq> Sp_Closed \<and> i \<in> set (sp_members x)) (vals (sn_sprints s))
      then invalid ''Work already belongs to an open Sprint'' else Inr ())"

definition sprint_member ::
  "bool \<Rightarrow> authority \<Rightarrow> sprint_command \<Rightarrow> u64 \<Rightarrow> string \<Rightarrow> snapshot \<Rightarrow> snapshot result"
where
  "sprint_member adding au cmd expected i s =
     and_then (find_sprint s (sm_project_id cmd) (sm_sprint_id cmd)) (\<lambda>sp.
     and_then (open_revision sp expected) (\<lambda>_.
       if length (sp_history sp) \<ge> history_limit - sprint_member_limit
       then fail ContextBudgetExceeded
       else
         and_then (work_in s (sm_project_id cmd) i) (\<lambda>w.
         and_then
           (if adding then can_join s sp w i
            else if i \<notin> set (sp_members sp) then invalid ''Work is not a member''
            else Inr ()) (\<lambda>_.
         let e = event_of cmd au (sn_seq s) w (if adding then Added else Removed)
         in update_sprint (sm_sprint_id cmd)
              (\<lambda>sp. sp\<lparr>sp_members := (if adding then set_add i (sp_members sp)
                                       else filter (\<lambda>x. x \<noteq> i) (sp_members sp)),
                       sp_history := sp_history sp @ [e]\<rparr>) s))))"

section \<open>Close\<close>

definition versions_of ::
  "snapshot \<Rightarrow> project_id \<Rightarrow> string list \<Rightarrow> (string, work_version) btree_map result"
where
  "versions_of s project ids =
     and_then (try_map (\<lambda>i. and_then (work_in s project i) (\<lambda>w. Inr (i, version_of s w))) ids)
       (\<lambda>es. Inr (collect_map es))"

definition count_target ::
  "sprint_destination \<Rightarrow> (sprint_id, nat) btree_map \<Rightarrow> (sprint_id, nat) btree_map"
where
  "count_target d m =
     (case d of
        ToBacklog \<Rightarrow> m
      | ToSprint i \<Rightarrow> map_put i (Suc (case map_get m i of None \<Rightarrow> 0 | Some n \<Rightarrow> n)) m)"

definition carry_targets ::
  "(string, sprint_destination) btree_map \<Rightarrow> (sprint_id, nat) btree_map"
where
  "carry_targets ds = fold count_target (vals ds) []"

definition check_target ::
  "snapshot \<Rightarrow> sprint_command \<Rightarrow> (sprint_id, u64) btree_map \<Rightarrow> sprint_id \<times> nat \<Rightarrow> unit result"
where
  "check_target s cmd revs e =
     (if fst e = sm_sprint_id cmd then invalid ''cannot carry Work into closing Sprint''
      else
        and_then (find_sprint s (sm_project_id cmd) (fst e)) (\<lambda>sp.
        and_then (expect (map_get revs (fst e)) ''index'') (\<lambda>n.
        and_then (open_revision sp n) (\<lambda>_.
          if length (sp_members sp) + snd e > sprint_member_limit
             \<or> length (sp_history sp) + snd e > history_limit - sprint_member_limit
          then fail ContextBudgetExceeded else Inr ()))))"

record close_state =
  cs_snapshot :: snapshot
  cs_members :: "(string, closed_member) btree_map"
  cs_outgoing :: "membership_event list"

definition carry_in ::
  "sprint_command \<Rightarrow> authority \<Rightarrow> ticket \<Rightarrow> string \<Rightarrow> sprint_id option \<Rightarrow> snapshot \<Rightarrow> snapshot result"
where
  "carry_in cmd au w i to s =
     (case to of
        None \<Rightarrow> Inr s
      | Some target \<Rightarrow>
          and_then (expect (map_get (sn_sprints s) target) ''checked'') (\<lambda>sp.
            Inr (put_sprint target
              (sp\<lparr>sp_members := set_add i (sp_members sp),
                  sp_history := sp_history sp @
                    [event_of cmd au (sn_seq s) w (CarriedIn (sm_sprint_id cmd))]\<rparr>) s)))"

definition destination :: "sprint_destination \<Rightarrow> sprint_id option" where
  "destination d = (case d of ToBacklog \<Rightarrow> None | ToSprint i \<Rightarrow> Some i)"

definition close_member ::
  "sprint_command \<Rightarrow> authority \<Rightarrow> (string, sprint_destination) btree_map \<Rightarrow> close_state \<Rightarrow>
   string \<times> work_version \<Rightarrow> close_state result"
where
  "close_member cmd au ds st e =
     (let i = fst e; v = snd e;
          add = (\<lambda>d st'. st'\<lparr>cs_members :=
                  map_put i \<lparr>cm_version = v, cm_disposition = d\<rparr> (cs_members st')\<rparr>)
      in if wv_accepted v then Inr (add D_Accepted st)
         else if wv_state v = W_Cancelled then Inr (add D_Cancelled st)
         else
           and_then (expect (map_get ds i) ''index'') (\<lambda>d.
           and_then (work_in (cs_snapshot st) (sm_project_id cmd) i) (\<lambda>w.
             let to = destination d
             in if to \<noteq> None \<and> tk_archived w
                then invalid ''archived Work cannot join a Sprint''
                else
                  and_then (carry_in cmd au w i to (cs_snapshot st)) (\<lambda>s'.
                    Inr (add (case to of None \<Rightarrow> D_Backlog | Some target \<Rightarrow> D_Sprint target)
                      (st\<lparr>cs_snapshot := s',
                          cs_outgoing := cs_outgoing st @
                            [event_of cmd au (sn_seq (cs_snapshot st)) w (CarriedOut to)]\<rparr>))))))"

definition touch_target :: "snapshot \<Rightarrow> sprint_id \<Rightarrow> snapshot result" where
  "touch_target s i = update_sprint i (\<lambda>sp. sp) s"

definition closure_of :: "string \<Rightarrow> u64 \<Rightarrow> (string, closed_member) btree_map \<Rightarrow> sprint_closure" where
  "closure_of commit q members = \<lparr>
     cl_source_commit = commit, cl_source_seq = q - 1, cl_closed_seq = q,
     cl_members = members, cl_counts = counts (map cm_version (vals members))\<rparr>"

definition sprint_close ::
  "string \<Rightarrow> authority \<Rightarrow> sprint_command \<Rightarrow> u64 \<Rightarrow> (string, sprint_destination) btree_map \<Rightarrow>
   (sprint_id, u64) btree_map \<Rightarrow> snapshot \<Rightarrow> (snapshot \<times> sprint_closure) result"
where
  "sprint_close commit au cmd expected ds revs s =
     and_then (find_sprint s (sm_project_id cmd) (sm_sprint_id cmd)) (\<lambda>source.
     and_then (open_revision source expected) (\<lambda>_.
       if sp_status source \<noteq> Sp_Active then invalid ''only active Sprint can close''
       else
         and_then (versions_of s (sm_project_id cmd) (sp_members source)) (\<lambda>versions.
           let open_ids = map fst (filter (\<lambda>e. unfinished (snd e)) versions);
               targets = carry_targets ds
           in if set (keys ds) \<noteq> set open_ids
              then invalid ''every unfinished Work needs exactly one explicit disposition''
              else if set (keys targets) \<noteq> set (keys revs)
              then invalid ''carry-over target revisions must match exact destinations''
              else
                and_then (try_each (check_target s cmd revs) targets) (\<lambda>_.
                and_then (try_fold (close_member cmd au ds)
                  \<lparr>cs_snapshot = s, cs_members = [], cs_outgoing = []\<rparr> versions) (\<lambda>st.
                and_then (try_fold touch_target (cs_snapshot st) (keys targets)) (\<lambda>s1.
                let closure = closure_of commit (sn_seq s) (cs_members st)
                in and_then (update_sprint (sm_sprint_id cmd)
                     (\<lambda>sp. sp\<lparr>sp_status := Sp_Closed,
                              sp_history := sp_history sp @ cs_outgoing st,
                              sp_closure := Some closure\<rparr>) s1) (\<lambda>s2.
                   Inr (s2, closure))))))))"

fun apply_sprint ::
  "string \<Rightarrow> authority \<Rightarrow> sprint_command \<Rightarrow> sprint_action \<Rightarrow> snapshot \<Rightarrow>
   (snapshot \<times> sprint_closure option) result"
where
  "apply_sprint commit au cmd (Sa_Create d) s =
     and_then (sprint_create cmd d s) (\<lambda>s'. Inr (s', None))"
| "apply_sprint commit au cmd (Sa_Edit expected d) s =
     and_then (sprint_edit cmd expected d s) (\<lambda>s'. Inr (s', None))"
| "apply_sprint commit au cmd (Sa_Start expected) s =
     and_then (sprint_start cmd expected s) (\<lambda>s'. Inr (s', None))"
| "apply_sprint commit au cmd (Sa_Add expected i) s =
     and_then (sprint_member True au cmd expected i s) (\<lambda>s'. Inr (s', None))"
| "apply_sprint commit au cmd (Sa_Remove expected i) s =
     and_then (sprint_member False au cmd expected i s) (\<lambda>s'. Inr (s', None))"
| "apply_sprint commit au cmd (Sa_Close expected ds revs) s =
     and_then (sprint_close commit au cmd expected ds revs s) (\<lambda>(s', c). Inr (s', Some c))"

section \<open>Validation\<close>

definition disposition_of :: "sprint_id option \<Rightarrow> close_disposition" where
  "disposition_of to = (case to of None \<Rightarrow> D_Backlog | Some i \<Rightarrow> D_Sprint i)"

definition carried_in_matches :: "sprint \<Rightarrow> membership_event \<Rightarrow> sprint_id \<Rightarrow> bool" where
  "carried_in_matches source e i =
     (case sp_closure source of
        None \<Rightarrow> False
      | Some c \<Rightarrow>
          cl_closed_seq c = me_seq e \<and>
          (case map_get (cl_members c) (me_work_id e) of
             None \<Rightarrow> False
           | Some m \<Rightarrow> wv_record_revision (cm_version m) = me_work_revision e
                      \<and> cm_disposition m = D_Sprint i))"

definition carried_out_matches :: "sprint \<Rightarrow> membership_event \<Rightarrow> sprint_id option \<Rightarrow> bool" where
  "carried_out_matches sp e to =
     (case sp_closure sp of
        None \<Rightarrow> False
      | Some c \<Rightarrow>
          cl_closed_seq c = me_seq e \<and>
          (case map_get (cl_members c) (me_work_id e) of
             None \<Rightarrow> False
           | Some m \<Rightarrow> cm_disposition m = disposition_of to))"

text \<open>The members implied by the history; an event that does not fit is an error.\<close>

definition replay_change ::
  "snapshot \<Rightarrow> sprint \<Rightarrow> string btree_set \<Rightarrow> membership_event \<Rightarrow> string btree_set result"
where
  "replay_change s sp members e =
     (let i = me_work_id e; bad = invalid ''invalid Sprint membership history''
      in case me_change e of
           Added \<Rightarrow> if i \<in> set members then bad else Inr (set_add i members)
         | Removed \<Rightarrow> if i \<in> set members then Inr (filter (\<lambda>x. x \<noteq> i) members) else bad
         | CarriedIn from_id \<Rightarrow>
             and_then (find_sprint s (sp_project_id sp) from_id) (\<lambda>source.
               if carried_in_matches source e (sp_id sp) \<and> i \<notin> set members
               then Inr (set_add i members) else bad)
         | CarriedOut to \<Rightarrow>
             and_then
               (case to of None \<Rightarrow> Inr ()
                | Some j \<Rightarrow> and_then (find_sprint s (sp_project_id sp) j) (\<lambda>_. Inr ())) (\<lambda>_.
               if i \<in> set members \<and> carried_out_matches sp e to then Inr members else bad))"

definition check_event ::
  "snapshot \<Rightarrow> sprint \<Rightarrow> u64 \<times> string btree_set \<Rightarrow> membership_event \<Rightarrow>
   (u64 \<times> string btree_set) result"
where
  "check_event s sp st e =
     and_then (work_in s (sp_project_id sp) (me_work_id e)) (\<lambda>_.
       if me_seq e < fst st \<or> sp_updated_seq sp < me_seq e \<or> me_work_revision e = 0
          \<or> blank (me_source e) \<or> length (me_source e) > 512 \<or> me_principal e = []
          \<or> (case map_get (sn_receipts s) (me_operation_id e) of
               None \<Rightarrow> True
             | Some r \<Rightarrow> or_principal r \<noteq> me_principal e \<or> or_committed_seq r \<noteq> me_seq e)
       then invalid ''invalid Sprint membership provenance''
       else and_then (replay_change s sp (snd st) e) (\<lambda>members. Inr (me_seq e, members)))"

definition valid_disposition :: "sprint \<Rightarrow> sprint_closure \<Rightarrow> string \<times> closed_member \<Rightarrow> bool" where
  "valid_disposition sp c e =
     (let v = cm_version (snd e)
      in case cm_disposition (snd e) of
           D_Accepted \<Rightarrow> wv_accepted v \<and> wv_state v = W_Accepted \<and> wv_accepted_submission v \<noteq> None
             \<and> wv_accepted_submission v = wv_current_submission v
         | D_Cancelled \<Rightarrow> wv_state v = W_Cancelled \<and> \<not> wv_accepted v
         | _ \<Rightarrow> \<not> wv_accepted v \<and> wv_state v \<noteq> W_Cancelled
             \<and> list_ex (\<lambda>h. me_work_id h = fst e \<and> me_seq h = cl_closed_seq c
                          \<and> (case me_change h of CarriedOut _ \<Rightarrow> True | _ \<Rightarrow> False))
                 (sp_history sp))"

definition check_closure :: "sprint \<Rightarrow> unit result" where
  "check_closure sp =
     (case sp_closure sp of
        None \<Rightarrow>
          if sp_status sp = Sp_Closed then invalid ''Sprint status and closure mismatch'' else Inr ()
      | Some c \<Rightarrow>
          if sp_status sp \<noteq> Sp_Closed then invalid ''Sprint status and closure mismatch''
          else if \<not> valid_hash (cl_source_commit c)
             \<or> checked_add (cl_source_seq c) 1 \<noteq> Some (cl_closed_seq c)
             \<or> cl_closed_seq c \<noteq> sp_updated_seq sp
             \<or> set (keys (cl_members c)) \<noteq> set (sp_members sp)
             \<or> counts (map cm_version (vals (cl_members c))) \<noteq> cl_counts c
          then invalid ''invalid frozen Sprint closure''
          else if \<not> list_all (valid_disposition sp c) (cl_members c)
          then invalid ''invalid Sprint closing disposition'' else Inr ())"

definition claim_member ::
  "snapshot \<Rightarrow> sprint \<Rightarrow> string btree_set \<Rightarrow> string \<Rightarrow> string btree_set result"
where
  "claim_member s sp claimed i =
     and_then (work_in s (sp_project_id sp) i) (\<lambda>_.
       if sp_status sp = Sp_Closed then Inr claimed
       else if i \<in> set claimed then invalid ''multiple open Sprint memberships''
       else Inr (set_add i claimed))"

text \<open>The loop state: the projects with an active sprint and the Works in open sprints.\<close>

definition check_sprint ::
  "snapshot \<Rightarrow> project_id btree_set \<times> string btree_set \<Rightarrow> sprint_id \<times> sprint \<Rightarrow>
   (project_id btree_set \<times> string btree_set) result"
where
  "check_sprint s st e =
     (let i = fst e; sp = snd e
      in and_then (definition_valid (sp_definition sp)) (\<lambda>_.
         if i \<noteq> sp_id sp \<or> sp_revision sp = 0 \<or> sp_created_seq sp = 0
            \<or> sp_updated_seq sp < sp_created_seq sp \<or> sn_seq s < sp_updated_seq sp
            \<or> length (sp_members sp) > sprint_member_limit
            \<or> length (sp_history sp) > history_limit
         then invalid ''invalid Sprint identity, revision or bounds''
         else if sp_status sp = Sp_Active \<and> sp_project_id sp \<in> set (fst st)
         then invalid ''multiple active Sprints in Project''
         else
           and_then (try_fold (claim_member s sp) (snd st) (sp_members sp)) (\<lambda>claimed.
           and_then (try_fold (check_event s sp) (sp_created_seq sp, []) (sp_history sp)) (\<lambda>h.
             if set (snd h) \<noteq> set (sp_members sp)
             then invalid ''Sprint members differ from history''
             else
               and_then (check_closure sp) (\<lambda>_.
                 Inr (if sp_status sp = Sp_Active then set_add (sp_project_id sp) (fst st) else fst st,
                      claimed))))))"

definition validate_sprints :: "snapshot \<Rightarrow> unit result" where
  "validate_sprints s =
     (if sn_sprints s \<noteq> [] \<and> sn_schema s < 6
      then invalid ''Sprint planning requires schema 6''
      else and_then (try_fold (check_sprint s) ([], []) (sn_sprints s)) (\<lambda>_. Inr ()))"

end
