(* ===== verification/Token_Budget.thy ===== *)
theory Token_Budget
  imports Authority
begin

text \<open>
  The token ledger of a scope (\<open>execution_budget.rs\<close>): what a reservation is charged,
  the validation of the counters against the reservations, and the pure part of
  configure, reserve, settle and over-cap report (the next snapshot each would publish).
\<close>

definition day_ms :: u64 where
  "day_ms = 86400000"

definition max_records :: nat where
  "max_records = 1024"

definition max_limit :: u64 where
  "max_limit = 1000000000000"

definition request_cap :: "token_request \<Rightarrow> u64" where
  "request_cap r = ucast (tr_input_cap r) + ucast (tr_output_cap r)"

definition exceeds :: "over_cap_usage \<Rightarrow> token_request \<Rightarrow> bool" where
  "exceeds u r =
     ((case oc_input_tokens u of None \<Rightarrow> False | Some n \<Rightarrow> ucast (tr_input_cap r) < n) \<or>
      (case oc_output_tokens u of None \<Rightarrow> False | Some n \<Rightarrow> ucast (tr_output_cap r) < n) \<or>
      (case oc_total_tokens u of None \<Rightarrow> False | Some n \<Rightarrow> request_cap r < n))"

definition bad_attempt :: "token_attempt \<Rightarrow> bool" where
  "bad_attempt a =
     (ta_assignment_id a = [] \<or> length (ta_assignment_id a) > 256
      \<or> ta_generation a = 0 \<or> ta_authority_epoch a = 0)"

definition valid_token_request :: "token_request \<Rightarrow> unit result" where
  "valid_token_request r =
     (if tr_operation_id r = [] \<or> length (tr_operation_id r) > 256
         \<or> tr_work_id r = [] \<or> length (tr_work_id r) > 256
         \<or> \<not> valid_hash (tr_request_hash r)
         \<or> tr_input_cap r = 0 \<or> tr_output_cap r = 0
         \<or> 1048576 < tr_input_cap r \<or> 1048576 < tr_output_cap r
      then invalid ''invalid bounded Work token request''
      else if (tr_purpose r = For_Worker \<or> tr_purpose r = For_Patrol) \<and> tr_attempt r = None
         \<or> (case tr_attempt r of None \<Rightarrow> False | Some a \<Rightarrow> bad_attempt a)
      then invalid ''invalid token attempt identity'' else Inr ())"

section \<open>The attempt a reservation is bound to\<close>

definition yielded_for_input :: "snapshot \<Rightarrow> assignment \<Rightarrow> bool" where
  "yielded_for_input s a =
     (as_state a = A_Blocked \<and> as_process_stopped a \<and>
      (case Option.bind (as_awaiting_request a) (map_get (sn_requests s)) of
         None \<Rightarrow> False | Some r \<Rightarrow> rq_status r = R_Open))"

definition current_yielded_review ::
  "snapshot \<Rightarrow> token_request \<Rightarrow> ticket \<Rightarrow> assignment \<Rightarrow> bool"
where
  "current_yielded_review s r work a =
     (tr_purpose r = For_SupervisorDecision \<and> tk_state work = W_Blocked
      \<and> tk_active_assignment work = None \<and> tk_current_submission work = None
      \<and> yielded_for_input s a
      \<and> \<not> list_ex (\<lambda>o'. as_id o' \<noteq> as_id a \<and> as_work_id o' = tk_id work
              \<and> as_generation o' = tk_generation work
              \<and> as_contract_revision o' = tk_contract_revision work
              \<and> yielded_for_input s o') (vals (sn_assignments s)))"

definition attempt_changed ::
  "snapshot \<Rightarrow> token_request \<Rightarrow> token_attempt \<Rightarrow> ticket \<Rightarrow> assignment \<Rightarrow> dispatch_intent \<Rightarrow> bool"
where
  "attempt_changed s r at work a intent =
     (let spec = in_immutable_spec intent
      in as_work_id a \<noteq> tk_id work
         \<or> tk_generation work \<noteq> ta_generation at
         \<or> as_generation a \<noteq> ta_generation at
         \<or> as_contract_revision a \<noteq> tk_contract_revision work
         \<or> in_assignment_id intent \<noteq> as_id a
         \<or> in_dispatch_key intent \<noteq> as_dispatch_key a
         \<or> ds_assignment_id spec \<noteq> as_id a
         \<or> ds_work_id spec \<noteq> tk_id work
         \<or> ds_generation spec \<noteq> ta_generation at
         \<or> ds_contract_revision spec \<noteq> tk_contract_revision work
         \<or> ds_authority_epoch spec \<noteq> ta_authority_epoch at
         \<or> ds_binding spec \<noteq> sn_binding s)"

definition current_submission_of :: "snapshot \<Rightarrow> ticket \<Rightarrow> assignment \<Rightarrow> bool" where
  "current_submission_of s work a =
     (case Option.bind (tk_current_submission work) (map_get (sn_submissions s)) of
        None \<Rightarrow> False | Some su \<Rightarrow> su_assignment_id su = as_id a)"

definition budget_attempt :: "env \<Rightarrow> snapshot \<Rightarrow> token_request \<Rightarrow> unit result" where
  "budget_attempt E s r =
     (case tr_attempt r of
        None \<Rightarrow> Inr ()
      | Some at \<Rightarrow>
          and_then (ok_or (map_get (sn_tickets s) (tr_work_id r))
            (InvalidTransition ''budget Work missing'')) (\<lambda>work.
          and_then (ok_or (map_get (sn_assignments s) (ta_assignment_id at))
            (ScopeDenied ''budget Assignment missing'')) (\<lambda>a.
          and_then (ok_or (map_get (sn_intents s) (as_dispatch_key a))
            (ScopeDenied ''budget DispatchSpec missing'')) (\<lambda>intent.
            if attempt_changed s r at work a intent
            then fail (ScopeDenied ''token reservation attempt changed'')
            else
              and_then (digest E (Pl_Spec (in_immutable_spec intent))) (\<lambda>h.
                if in_spec_hash intent \<noteq> h \<or> as_runtime a \<noteq> in_receipt intent
                   \<or> (tk_active_assignment work \<noteq> Some (as_id a)
                      \<and> \<not> current_submission_of s work a
                      \<and> \<not> current_yielded_review s r work a)
                   \<or> tk_state work = W_Accepted \<or> tk_state work = W_Cancelled
                then fail (ScopeDenied ''token reservation attempt changed'') else Inr ())))))"

section \<open>Charges and limits\<close>

definition charge :: "token_reservation \<Rightarrow> u64 result" where
  "charge v =
     (let r = tv_request v
      in case tv_usage v of
           Some (Known i n) \<Rightarrow>
             if ucast (tr_input_cap r) < i \<or> ucast (tr_output_cap r) < n
             then invalid ''measured token usage exceeds the reserved caps''
             else ok_or (checked_add i n) (InvalidTransition ''measured token overflow'')
         | _ \<Rightarrow> Inr (request_cap r))"

definition in_limit :: "u64 \<Rightarrow> bool" where
  "in_limit n = (1 \<le> n \<and> n \<le> max_limit)"

definition is_work :: "snapshot \<Rightarrow> string \<Rightarrow> bool" where
  "is_work s i = (case map_get (sn_tickets s) i of None \<Rightarrow> False | Some t \<Rightarrow> tk_kind t = K_Work)"

definition limits_valid :: "snapshot \<Rightarrow> token_limits option \<Rightarrow> unit result" where
  "limits_valid s limits =
     (case limits of
        None \<Rightarrow> Inr ()
      | Some l \<Rightarrow>
          if tl_work_tokens l = [] \<or> length (tl_work_tokens l) > 64
             \<or> \<not> in_limit (tl_utc_day_tokens l) \<or> \<not> in_limit (tl_total_tokens l)
          then invalid ''finite Work/day/total token limits are required''
          else try_each (\<lambda>e. if \<not> in_limit (snd e) \<or> \<not> is_work s (fst e)
                             then invalid ''budget limit needs an existing Work and finite cap''
                             else Inr ()) (tl_work_tokens l))"

section \<open>Validation of the ledger\<close>

definition check_configuration :: "snapshot \<Rightarrow> token_budget \<Rightarrow> u64 \<Rightarrow> unit result" where
  "check_configuration s b revision =
     and_then (ok_or (map_get (tb_configurations b) revision)
       (InvalidTransition ''budget configuration audit gap'')) (\<lambda>c.
       if tc_revision c \<noteq> revision \<or> tc_user_id c = [] \<or> length (tc_user_id c) > 256
          \<or> sn_seq s < tc_committed_seq c
       then invalid ''invalid explicit User budget decision''
       else limits_valid s (tc_limits c))"

record totals =
  to_total :: u64
  to_daily :: u64
  to_works :: "(string, u64) btree_map"

definition no_totals :: totals where
  "no_totals = \<lparr>to_total = 0, to_daily = 0, to_works = []\<rparr>"

definition charged_so_far :: "(string, u64) btree_map \<Rightarrow> string \<Rightarrow> u64" where
  "charged_so_far m i = (case map_get m i of None \<Rightarrow> 0 | Some n \<Rightarrow> n)"

definition add_charge ::
  "u64 option \<Rightarrow> token_reservation \<Rightarrow> u64 \<Rightarrow> totals \<Rightarrow> totals result"
where
  "add_charge today v n t =
     and_then (ok_or (checked_add (to_total t) n) (InvalidTransition ''token total overflow'')) (\<lambda>total.
     and_then (ok_or (checked_add (charged_so_far (to_works t) (tr_work_id (tv_request v))) n)
       (InvalidTransition ''Work tokens overflow'')) (\<lambda>work.
     and_then
       (if Some (tv_utc_day v) = today
        then ok_or (checked_add (to_daily t) n) (InvalidTransition ''daily tokens overflow'')
        else Inr (to_daily t)) (\<lambda>daily.
     Inr \<lparr>to_total = total, to_daily = daily,
           to_works = map_put (tr_work_id (tv_request v)) work (to_works t)\<rparr>)))"

definition is_known :: "token_usage option \<Rightarrow> bool" where
  "is_known u = (case u of Some (Known _ _) \<Rightarrow> True | _ \<Rightarrow> False)"

definition check_reservation ::
  "env \<Rightarrow> snapshot \<Rightarrow> token_budget \<Rightarrow> totals \<Rightarrow> string \<times> token_reservation \<Rightarrow> totals result"
where
  "check_reservation E s b t e =
     (let v = snd e; r = tv_request v
      in and_then (valid_token_request r) (\<lambda>_.
         if \<not> is_work s (tr_work_id r)
            \<or> map_get (ps_links (sn_project s)) (tr_work_id r) \<noteq> Some (tr_project_id r)
         then invalid ''Work token receipt lost its Work/Project identity''
         else if (case tv_over_cap v of None \<Rightarrow> False
                  | Some u \<Rightarrow> \<not> exceeds u r \<or> is_known (tv_usage v))
         then invalid ''invalid retained over-cap provider report''
         else if fst e \<noteq> tr_operation_id r then invalid ''invalid immutable Work token receipt''
         else
           and_then (digest E (Pl_TokenRequest (sn_binding s) r)) (\<lambda>h.
             if tv_receipt v \<noteq> h
                \<or> (case tb_current_utc_day b of None \<Rightarrow> True | Some d \<Rightarrow> d < tv_utc_day v)
             then invalid ''invalid immutable Work token receipt''
             else and_then (charge v) (\<lambda>n. add_charge (tb_current_utc_day b) v n t))))"

definition over_limits :: "token_limits \<Rightarrow> totals \<Rightarrow> bool" where
  "over_limits l t =
     (tl_total_tokens l < to_total t \<or> tl_utc_day_tokens l < to_daily t \<or>
      list_ex (\<lambda>e. case map_get (tl_work_tokens l) (fst e) of
                     None \<Rightarrow> True | Some limit \<Rightarrow> limit < snd e) (to_works t))"

definition check_totals :: "token_budget \<Rightarrow> totals \<Rightarrow> unit result" where
  "check_totals b t =
     (if to_total t \<noteq> tb_total_charged b \<or> to_daily t \<noteq> tb_daily_charged b
         \<or> to_works t \<noteq> tb_work_charged b
         \<or> (case tb_limits b of None \<Rightarrow> False | Some l \<Rightarrow> over_limits l t)
         \<or> map_option (\<lambda>ms. ms div day_ms) (tb_last_reservation_ms b) \<noteq> tb_current_utc_day b
      then invalid ''Work token counters/limits do not match canonical reservations''
      else Inr ())"

definition validate_ledger :: "env \<Rightarrow> snapshot \<Rightarrow> token_budget \<Rightarrow> unit result" where
  "validate_ledger E s b =
     (if sn_schema s < 8 \<or> tb_revision b = 0 \<or> length (tb_reservations b) > max_records
      then invalid ''invalid Work token budget schema/revision/capacity''
      else
        and_then (limits_valid s (tb_limits b)) (\<lambda>_.
          if length (tb_configurations b) > 128
             \<or> of_nat (length (tb_configurations b)) \<noteq> tb_revision b
          then invalid ''budget configuration audit capacity/revision mismatch''
          else
            and_then (try_each (check_configuration s b)
              (map of_nat [1..<Suc (unat (tb_revision b))])) (\<lambda>_.
              if (case map_get (tb_configurations b) (tb_revision b) of
                    None \<Rightarrow> True | Some c \<Rightarrow> tc_limits c \<noteq> tb_limits b)
              then invalid ''budget limits differ from their explicit User decision''
              else
                and_then (try_fold (check_reservation E s b) no_totals (tb_reservations b))
                  (check_totals b))))"

definition validate_budget :: "env \<Rightarrow> snapshot \<Rightarrow> unit result" where
  "validate_budget E s =
     (if (case sn_execution_facts_seq s of None \<Rightarrow> False
          | Some q \<Rightarrow> sn_schema s < 8 \<or> sn_seq s < q)
      then invalid ''invalid execution-facts revision''
      else
        case sn_execution_budget s of
          None \<Rightarrow>
            if sn_schema s \<ge> 8 then invalid ''budget schema cannot erase its canonical ledger''
            else Inr ()
        | Some b \<Rightarrow> validate_ledger E s b)"

section \<open>Reserve\<close>

datatype reserve_plan =
    Existing_Reservation token_reservation
  | Reserve_Blocked token_block
  | New_Reservation token_reservation snapshot

definition quota_block ::
  "token_budget \<Rightarrow> token_request \<Rightarrow> u64 \<Rightarrow> token_block option"
where
  "quota_block b r daily =
     (case tb_limits b of
        None \<Rightarrow> None
      | Some l \<Rightarrow>
          if (case map_get (tl_work_tokens l) (tr_work_id r) of
                None \<Rightarrow> True
              | Some limit \<Rightarrow> saturating_sub limit (charged_so_far (tb_work_charged b) (tr_work_id r))
                             < request_cap r)
          then Some Block_Work
          else if saturating_sub (tl_utc_day_tokens l) daily < request_cap r then Some Block_Daily
          else if saturating_sub (tl_total_tokens l) (tb_total_charged b) < request_cap r
          then Some Block_Total else None)"

definition new_reservation ::
  "env \<Rightarrow> snapshot \<Rightarrow> token_request \<Rightarrow> u64 \<Rightarrow> token_reservation result"
where
  "new_reservation E s r day =
     and_then (digest E (Pl_TokenRequest (sn_binding s) r)) (\<lambda>h.
       Inr \<lparr>tv_request = r, tv_receipt = h, tv_utc_day = day, tv_usage = None, tv_over_cap = None\<rparr>)"

definition charge_reservation ::
  "token_budget \<Rightarrow> token_reservation \<Rightarrow> u64 \<Rightarrow> u64 \<Rightarrow> token_budget result"
where
  "charge_reservation b v now_ms daily =
     (let r = tv_request v; n = request_cap r
      in and_then (ok_or (checked_add daily n) (InvalidTransition ''daily token overflow'')) (\<lambda>d.
         and_then (ok_or (checked_add (tb_total_charged b) n)
           (InvalidTransition ''total token overflow'')) (\<lambda>total.
         and_then (ok_or (checked_add (charged_so_far (tb_work_charged b) (tr_work_id r)) n)
           (InvalidTransition ''Work token overflow'')) (\<lambda>work.
         Inr (b\<lparr>tb_current_utc_day := Some (tv_utc_day v), tb_last_reservation_ms := Some now_ms,
                tb_daily_charged := d, tb_total_charged := total,
                tb_work_charged := map_put (tr_work_id r) work (tb_work_charged b),
                tb_reservations := map_put (tr_operation_id r) v (tb_reservations b)\<rparr>)))))"

definition next_seq :: "snapshot \<Rightarrow> snapshot result" where
  "next_seq s =
     and_then (ok_or (checked_add (sn_seq s) 1) RevisionConflict) (\<lambda>q. Inr (s\<lparr>sn_seq := q\<rparr>))"

definition reserve :: "env \<Rightarrow> token_request \<Rightarrow> u64 \<Rightarrow> snapshot \<Rightarrow> reserve_plan result" where
  "reserve E r now_ms s =
     (if \<not> is_work s (tr_work_id r)
         \<or> map_get (ps_links (sn_project s)) (tr_work_id r) \<noteq> Some (tr_project_id r)
      then fail (ScopeDenied ''token request Work/Project mismatch'')
      else
        and_then (ok_or (sn_execution_budget s)
          (ResourceBlocked ''Work token limits are not configured'')) (\<lambda>b.
          case map_get (tb_reservations b) (tr_operation_id r) of
            Some v \<Rightarrow>
              if tv_request v = r then Inr (Existing_Reservation v) else fail IdempotencyConflict
          | None \<Rightarrow>
              if tr_observed_seq r \<noteq> sn_seq s then fail RevisionConflict
              else
                and_then (budget_attempt E s r) (\<lambda>_.
                  if (case tb_last_reservation_ms b of None \<Rightarrow> False | Some last_ms \<Rightarrow> now_ms < last_ms)
                  then fail (ResourceBlocked ''Work token clock regressed'')
                  else if list_ex (\<lambda>v. tv_over_cap v \<noteq> None) (vals (tb_reservations b))
                  then Inr (Reserve_Blocked Block_Accounting)
                  else if length (tb_reservations b) \<ge> max_records
                  then Inr (Reserve_Blocked Block_Capacity)
                  else
                    let day = now_ms div day_ms;
                        daily = (if Some day = tb_current_utc_day b then tb_daily_charged b else 0)
                    in case quota_block b r daily of
                         Some block \<Rightarrow> Inr (Reserve_Blocked block)
                       | None \<Rightarrow>
                           and_then (new_reservation E s r day) (\<lambda>v.
                           and_then (charge_reservation b v now_ms daily) (\<lambda>b'.
                           and_then (next_seq (s\<lparr>sn_execution_budget := Some b'\<rparr>)) (\<lambda>s'.
                             Inr (New_Reservation v s')))))))"

section \<open>Settle and report\<close>

datatype settle_plan =
    Settled token_reservation
  | Settle token_reservation snapshot
  | Settle_OverCap snapshot

definition usage_over_cap :: "token_request \<Rightarrow> token_usage \<Rightarrow> over_cap_usage option" where
  "usage_over_cap r u =
     (case u of
        Known i n \<Rightarrow>
          if ucast (tr_input_cap r) < i \<or> ucast (tr_output_cap r) < n
          then Some \<lparr>oc_input_tokens = Some i, oc_output_tokens = Some n, oc_total_tokens = None\<rparr>
          else None
      | Unknown \<Rightarrow> None)"

definition with_reservation :: "token_budget \<Rightarrow> string \<Rightarrow> token_reservation \<Rightarrow> token_budget" where
  "with_reservation b i v = b\<lparr>tb_reservations := map_put i v (tb_reservations b)\<rparr>"

definition refund_work :: "token_budget \<Rightarrow> string \<Rightarrow> u64 \<Rightarrow> token_budget result" where
  "refund_work b i refund =
     and_then (ok_or (map_get (tb_work_charged b) i) (InvalidTransition ''charged Work missing'')) (\<lambda>n.
     and_then (ok_or (checked_sub n refund) (InvalidTransition ''Work token refund underflow'')) (\<lambda>m.
       Inr (b\<lparr>tb_work_charged := map_put i m (tb_work_charged b)\<rparr>)))"

definition refund_reservation ::
  "token_budget \<Rightarrow> token_reservation \<Rightarrow> u64 \<Rightarrow> token_budget result"
where
  "refund_reservation b v refund =
     and_then (ok_or (checked_sub (tb_total_charged b) refund)
       (InvalidTransition ''total token refund underflow'')) (\<lambda>total.
     and_then (refund_work b (tr_work_id (tv_request v)) refund) (\<lambda>b1.
     and_then
       (if Some (tv_utc_day v) = tb_current_utc_day b
        then ok_or (checked_sub (tb_daily_charged b) refund)
               (InvalidTransition ''daily token refund underflow'')
        else Inr (tb_daily_charged b)) (\<lambda>daily.
     Inr (b1\<lparr>tb_total_charged := total, tb_daily_charged := daily\<rparr>))))"

definition settle ::
  "string \<Rightarrow> string \<Rightarrow> string \<Rightarrow> token_usage \<Rightarrow> snapshot \<Rightarrow> settle_plan result"
where
  "settle op_id request_hash receipt usage s =
     and_then (ok_or (sn_execution_budget s) (ResourceBlocked ''token ledger unavailable'')) (\<lambda>b.
     and_then (ok_or (map_get (tb_reservations b) op_id) (ScopeDenied ''unknown token receipt'')) (\<lambda>old.
       if tv_receipt old \<noteq> receipt \<or> tr_request_hash (tv_request old) \<noteq> request_hash
       then fail IdempotencyConflict
       else if tv_over_cap old \<noteq> None
       then fail (ResourceBlocked ''provider usage exceeded reserved ceilings; accounting halted'')
       else if tv_usage old = Some usage then Inr (Settled old)
       else if is_known (tv_usage old) then fail IdempotencyConflict
       else
         case usage_over_cap (tv_request old) usage of
           Some over \<Rightarrow>
             and_then (next_seq (s\<lparr>sn_execution_budget :=
                 Some (with_reservation b op_id (old\<lparr>tv_over_cap := Some over\<rparr>))\<rparr>)) (\<lambda>s'.
               Inr (Settle_OverCap s'))
         | None \<Rightarrow>
             let v = old\<lparr>tv_usage := Some usage\<rparr>
             in and_then (charge old) (\<lambda>before.
                and_then (charge v) (\<lambda>after.
                and_then (ok_or (checked_sub before after)
                  (InvalidTransition ''token settlement increases a reservation'')) (\<lambda>refund.
                and_then (refund_reservation b v refund) (\<lambda>b'.
                and_then (next_seq (s\<lparr>sn_execution_budget :=
                    Some (with_reservation b' op_id v)\<rparr>)) (\<lambda>s'.
                  Inr (Settle v s'))))))))"

definition report_over_cap ::
  "string \<Rightarrow> string \<Rightarrow> string \<Rightarrow> over_cap_usage \<Rightarrow> snapshot \<Rightarrow> settle_plan result"
where
  "report_over_cap op_id request_hash receipt report s =
     and_then (ok_or (Option.bind (sn_execution_budget s) (\<lambda>b. map_get (tb_reservations b) op_id))
       (ScopeDenied ''unknown token receipt'')) (\<lambda>old.
       if tv_receipt old \<noteq> receipt \<or> tr_request_hash (tv_request old) \<noteq> request_hash
       then fail IdempotencyConflict
       else
         case tv_over_cap old of
           Some previous \<Rightarrow> if previous = report then Inr (Settled old) else fail IdempotencyConflict
         | None \<Rightarrow>
             if is_known (tv_usage old) \<or> \<not> exceeds report (tv_request old)
             then invalid ''report does not prove an unsettled reservation exceeded its ceilings''
             else
               let v = old\<lparr>tv_over_cap := Some report\<rparr>
               in and_then (expect (sn_execution_budget s) ''configured'') (\<lambda>b.
                  and_then (next_seq (s\<lparr>sn_execution_budget := Some (with_reservation b op_id v)\<rparr>)) (\<lambda>s'.
                    Inr (Settle v s'))))"

section \<open>Configure\<close>

definition empty_budget :: "token_limits option \<Rightarrow> token_budget" where
  "empty_budget limits = \<lparr>
     tb_revision = 0, tb_limits = limits, tb_current_utc_day = None,
     tb_last_reservation_ms = None, tb_total_charged = 0, tb_daily_charged = 0,
     tb_work_charged = [], tb_reservations = [], tb_configurations = []\<rparr>"

definition configure ::
  "string \<Rightarrow> u64 \<Rightarrow> token_limits option \<Rightarrow> snapshot \<Rightarrow> (token_configuration \<times> snapshot) result"
where
  "configure user expected limits s =
     and_then (limits_valid s limits) (\<lambda>_.
       if (case sn_execution_budget s of None \<Rightarrow> 0 | Some b \<Rightarrow> tb_revision b) \<noteq> expected
       then fail RevisionConflict
       else
         let b = (case sn_execution_budget s of None \<Rightarrow> empty_budget limits | Some b \<Rightarrow> b)
         in if length (tb_configurations b) \<ge> 128
            then fail (ResourceBlocked ''budget configuration audit is full'')
            else
              and_then (ok_or (checked_add (tb_revision b) 1) RevisionConflict) (\<lambda>n.
              and_then (next_seq (s\<lparr>sn_schema := max (sn_schema s) 8\<rparr>)) (\<lambda>s1.
                let c = \<lparr>tc_revision = n, tc_user_id = user, tc_committed_seq = sn_seq s1,
                         tc_limits = limits\<rparr>
                in Inr (c, s1\<lparr>sn_execution_budget := Some
                     (b\<lparr>tb_limits := limits, tb_revision := n,
                        tb_configurations := map_put n c (tb_configurations b)\<rparr>)\<rparr>))))"

end
