(* ===== verification/Integrity.thy ===== *)
theory Integrity
  imports Checks
begin

text \<open>
  The validators of the components whose facts are embedded in a snapshot: offline
  migration (\<open>migration.rs\<close>), frozen file intents (\<open>file_reconciliation.rs\<close>) and the
  history of human messages (\<open>resolution/validation.rs\<close>).
\<close>

section \<open>Migration receipts\<close>

definition managed_prefix :: string where
  "managed_prefix = ''artifact://ticket/''"

definition has_file_effect :: "snapshot \<Rightarrow> bool" where
  "has_file_effect s =
     list_ex (\<lambda>a. list_ex (\<lambda>e. ef_artifact e \<noteq> None) (vals (as_effects a))) (vals (sn_assignments s))"

definition imported_artifact :: "snapshot \<Rightarrow> bool" where
  "imported_artifact s =
     list_ex (\<lambda>w. case tk_import_source w of None \<Rightarrow> False | Some x \<Rightarrow> is_artifact x \<noteq> None)
       (vals (sn_tickets s))"

text \<open>The conjuncts of the receipt check before and after the request hash is computed.\<close>

definition migration_request_invalid :: "snapshot \<Rightarrow> migration_receipt \<Rightarrow> bool" where
  "migration_request_invalid s r =
     (let q = mt_request r
      in mq_binding q \<noteq> sn_binding s \<or> mt_principal r = []
         \<or> \<not> valid_hash (mq_expected_commit q)
         \<or> mq_operation_id q = [] \<or> length (mq_operation_id q) > 256)"

definition migration_roots_invalid :: "migration_receipt \<Rightarrow> bool" where
  "migration_roots_invalid r =
     (let q = mt_request r
      in mq_source_root q = mq_destination_root q
         \<or> \<not> is_absolute (mq_source_root q) \<or> \<not> is_absolute (mq_destination_root q)
         \<or> map_option ar_sha256 (mt_supervisor_snapshot r) \<noteq> mq_supervisor_snapshot_hash q)"

definition some_hash :: "string option \<Rightarrow> bool" where
  "some_hash h = (case h of None \<Rightarrow> False | Some x \<Rightarrow> valid_hash x)"

definition stage_matches :: "snapshot \<Rightarrow> migration_receipt \<Rightarrow> u64 \<Rightarrow> bool" where
  "stage_matches s r activation =
     (case mt_stage r of
        SourceRetired \<Rightarrow>
          sn_seq s = mt_retired_seq r
          \<and> sn_authority_epoch s = mq_expected_epoch (mt_request r)
          \<and> mt_source_retired_commit r = None \<and> mt_activation_commit r = None
          \<and> mt_activated_seq r = None
      | SourceTransferred \<Rightarrow>
          sn_seq s = activation
          \<and> sn_authority_epoch s = mq_expected_epoch (mt_request r)
          \<and> some_hash (mt_source_retired_commit r) \<and> some_hash (mt_activation_commit r)
          \<and> mt_activated_seq r = Some activation
      | DestinationActivated \<Rightarrow>
          activation \<le> sn_seq s
          \<and> mq_expected_epoch (mt_request r) < sn_authority_epoch s
          \<and> some_hash (mt_source_retired_commit r) \<and> mt_activation_commit r = None
          \<and> mt_activated_seq r = Some activation)"

definition migration_receipt_matches :: "snapshot \<Rightarrow> migration_receipt \<Rightarrow> string \<Rightarrow> u64 \<Rightarrow> unit result" where
  "migration_receipt_matches s r bytes activation =
     and_then (ok_or (map_get (sn_receipts s) (mq_operation_id (mt_request r)))
       (AuthorityUnavailable ''migration lacks immutable operation receipt'')) (\<lambda>receipt.
       if or_principal receipt \<noteq> mt_principal r
          \<or> or_request_hash receipt \<noteq> mt_request_hash r
          \<or> or_committed_seq receipt \<noteq> mt_retired_seq r
          \<or> or_canonical_request receipt \<noteq> bytes
       then fail (AuthorityUnavailable ''migration operation receipt mismatch'')
       else if \<not> stage_matches s r activation
       then fail (AuthorityUnavailable ''migration stage/header mismatch'') else Inr ())"

definition validate_migration_receipt :: "env \<Rightarrow> snapshot \<Rightarrow> migration_receipt \<Rightarrow> unit result" where
  "validate_migration_receipt E s r =
     (let bad = fail (AuthorityUnavailable ''invalid migration receipt'')
      in and_then (ok_or (checked_add (mt_retired_seq r) 1)
           (AuthorityUnavailable ''migration sequence overflow'')) (\<lambda>activation.
         if migration_request_invalid s r then bad
         else
           and_then (canonical_bytes E (Pl_Migration (mt_request r))) (\<lambda>bytes.
             if mt_request_hash r \<noteq> content_hash E bytes then bad
             else
               and_then (ok_or (checked_add (mq_expected_seq (mt_request r)) 1) RevisionConflict) (\<lambda>retired.
                 if mt_retired_seq r \<noteq> retired \<or> migration_roots_invalid r then bad
                 else migration_receipt_matches s r bytes activation))))"

definition schema_supported :: "snapshot \<Rightarrow> bool" where
  "schema_supported s =
     (let n = sn_schema s; legacy = (sn_legacy_attachment s \<noteq> None \<or> imported_artifact s)
      in n = 1 \<and> \<not> legacy \<or> n = 2 \<and> legacy
         \<or> (n = 3 \<or> n = 4) \<and> has_file_effect s
         \<or> n = 5 \<and> \<not> (ps_links (sn_project s) = [] \<and> ps_contexts (sn_project s) = []
                        \<and> ps_work_contexts (sn_project s) = []
                        \<and> ps_assignment_contexts (sn_project s) = [])
         \<or> n = 6 \<and> sn_sprints s \<noteq> []
         \<or> n = 7 \<or> n = 8 \<and> sn_execution_budget s \<noteq> None)"

definition validate_source :: "import_source \<Rightarrow> unit result" where
  "validate_source x =
     (case is_artifact x of
        None \<Rightarrow> Inr ()
      | Some ar \<Rightarrow>
          if \<not> valid_hash (is_snapshot_hash x) \<or> ar_sha256 ar \<noteq> is_snapshot_hash x
             \<or> ar_uri ar \<noteq> managed_prefix @ is_snapshot_hash x
          then fail (AuthorityUnavailable ''legacy source Artifact/hash mismatch'') else Inr ())"

definition option_list :: "'a option \<Rightarrow> 'a list" where
  "option_list x = (case x of None \<Rightarrow> [] | Some y \<Rightarrow> [y])"

definition validate_migration :: "env \<Rightarrow> snapshot \<Rightarrow> unit result" where
  "validate_migration E s =
     (if has_file_effect s \<and> \<not> (3 \<le> sn_schema s \<and> sn_schema s \<le> 8)
      then fail (AuthorityUnavailable ''file effect ledger requires schema 3..=8'')
      else
        and_then
          (case sn_migration s of
             None \<Rightarrow>
               if schema_supported s then Inr ()
               else fail (AuthorityUnavailable ''unsupported or incomplete snapshot schema'')
           | Some r \<Rightarrow>
               if 2 \<le> sn_schema s \<and> sn_schema s \<le> 8 then validate_migration_receipt E s r
               else fail (AuthorityUnavailable ''unsupported or incomplete snapshot schema'')) (\<lambda>_.
        and_then (try_each validate_source
          (List.map_filter tk_import_source (vals (sn_tickets s))
           @ option_list (sn_legacy_attachment s))) (\<lambda>_.
          case Option.bind (sn_migration s) mt_supervisor_snapshot of
            None \<Rightarrow> Inr ()
          | Some ar \<Rightarrow>
              if \<not> valid_hash (ar_sha256 ar) \<or> ar_uri ar \<noteq> managed_prefix @ ar_sha256 ar
              then fail (AuthorityUnavailable ''Supervisor snapshot Artifact invalid'') else Inr ())))"

section \<open>Frozen file intents\<close>

definition file_bytes_limit :: nat where
  "file_bytes_limit = 16384"

definition worker_principal :: "assignment \<Rightarrow> runtime_receipt \<Rightarrow> string" where
  "worker_principal a r =
     ''worker:'' @ as_id a @ '':'' @ show_u64 (as_generation a) @ '':'' @ rr_run_id r
       @ '':'' @ rr_session_id r"

definition write_intent :: "env \<Rightarrow> assignment \<Rightarrow> string \<Rightarrow> file_operation result" where
  "write_intent E a i =
     (if as_workspace a = None then invalid ''file intent lacks an isolated workspace''
      else
        and_then (ok_or (map_get (as_effects a) i) (InvalidTransition ''file effect missing'')) (\<lambda>e.
        and_then (ok_or (ef_file_intent e)
          (ResourceBlocked ''legacy file effect lacks a frozen request'')) (\<lambda>intent.
        and_then (ok_or (as_runtime a) (InvalidTransition ''file intent lacks Runtime receipt'')) (\<lambda>r.
        and_then (ok_or (en_parse_file E (fi_canonical_request intent)) (Json ''file intent'')) (\<lambda>op.
          case op of
            FileWrite path content expected \<Rightarrow>
              if \<not> starts_with i ''worker-file/''
                 \<or> fi_principal intent \<noteq> worker_principal a r
                 \<or> length (fi_canonical_request intent) > 32768
                 \<or> length content > file_bytes_limit
              then invalid ''invalid immutable file intent''
              else
                and_then (canonical_bytes E (Pl_FileOp op)) (\<lambda>bytes.
                  if bytes \<noteq> fi_canonical_request intent
                     \<or> content_hash E (fi_canonical_request intent) \<noteq> ef_action_fingerprint e
                     \<or> (case ef_artifact e of None \<Rightarrow> True
                        | Some ar \<Rightarrow> ar_sha256 ar \<noteq> content_hash E content)
                  then invalid ''invalid immutable file intent'' else Inr op)
          | _ \<Rightarrow> invalid ''file intent is not a write'')))))"

definition validate_effect_intent ::
  "env \<Rightarrow> snapshot \<Rightarrow> assignment \<Rightarrow> string \<times> effect \<Rightarrow> unit result"
where
  "validate_effect_intent E s a e =
     (if ef_file_intent (snd e) = None then Inr ()
      else if sn_schema s < 4
      then fail (AuthorityUnavailable ''frozen file intent requires schema 4'')
      else and_then (write_intent E a (fst e)) (\<lambda>_. Inr ()))"

definition validate_file_intents :: "env \<Rightarrow> snapshot \<Rightarrow> unit result" where
  "validate_file_intents E s =
     try_each (\<lambda>a. try_each (validate_effect_intent E s a) (as_effects a)) (vals (sn_assignments s))"

section \<open>Human message history\<close>

definition group_operation_id :: "env \<Rightarrow> string \<Rightarrow> string \<Rightarrow> string" where
  "group_operation_id E message g =
     ''message/'' @ content_hash E message @ ''/'' @ content_hash E g"

definition bad_group_item :: "string \<Rightarrow> bool" where
  "bad_group_item i = (i = [] \<or> length i > 64)"

text \<open>\<open>items.insert(id)\<close> along the items of a group: the first repeated item fails.\<close>

fun add_items :: "string list \<Rightarrow> string btree_set \<Rightarrow> string btree_set option" where
  "add_items [] seen = Some seen"
| "add_items (i # is) seen =
     (if bad_group_item i \<or> i \<in> set seen then None else add_items is (set_add i seen))"

definition check_group ::
  "string btree_set \<times> string btree_set \<Rightarrow> semantic_group \<Rightarrow>
   (string btree_set \<times> string btree_set) result"
where
  "check_group st g =
     (let bad = invalid ''invalid semantic group/item bounds''
      in if sg_group_id g = [] \<or> length (sg_group_id g) > 64 \<or> sg_group_id g \<in> set (fst st)
            \<or> sg_item_ids g = [] \<or> length (sg_item_ids g) > 16
         then bad
         else
           case add_items (sg_item_ids g) (snd st) of
             None \<Rightarrow> bad
           | Some items \<Rightarrow>
               if length (sg_source_quote g) > 32768
                  \<or> (case sg_clarification g of None \<Rightarrow> False
                     | Some c \<Rightarrow> c = [] \<or> length c > 2048)
               then bad else Inr (set_add (sg_group_id g) (fst st), items))"

definition validate_shape :: "env \<Rightarrow> message_proposal \<Rightarrow> unit result" where
  "validate_shape E p =
     (if length (mp_groups p) > 16 then fail ContextBudgetExceeded
      else
        and_then (canonical_bytes E (Pl_Proposal p)) (\<lambda>bytes.
          if length bytes > 131072
             \<or> sum_list (map (\<lambda>g. length (sg_operations g)) (mp_groups p)) > 64
          then fail ContextBudgetExceeded
          else and_then (try_fold check_group ([], []) (mp_groups p)) (\<lambda>_. Inr ())))"

definition check_outcome ::
  "env \<Rightarrow> snapshot \<Rightarrow> string \<Rightarrow> human_ingress \<Rightarrow> semantic_group \<times> resolution_group \<Rightarrow> unit result"
where
  "check_outcome E s i human e =
     (let proposed = fst e; g = snd e
      in if rg_operation_id g \<noteq> group_operation_id E i (sg_group_id proposed)
            \<or> rg_item_ids g \<noteq> sg_item_ids proposed
         then invalid ''saved semantic group identity changed''
         else if rg_status g = Rs_Committed
         then
           and_then (ok_or (rg_receipt g) (InvalidTransition ''committed group lacks receipt'')) (\<lambda>r.
             if map_get (sn_receipts s) (rg_operation_id g) \<noteq> Some r
                \<or> or_principal r \<noteq> ''user:'' @ hi_user_id human
             then invalid ''semantic receipt subject mismatch'' else Inr ())
         else if rg_receipt g \<noteq> None
         then invalid ''uncommitted group has success receipt'' else Inr ())"

definition check_proposal ::
  "env \<Rightarrow> snapshot \<Rightarrow> string \<Rightarrow> message_resolution \<Rightarrow> human_ingress \<Rightarrow> message_proposal \<Rightarrow> unit result"
where
  "check_proposal E s i r human p =
     (if mr_basis r = None then invalid ''proposal lacks fixed basis''
      else
        and_then (validate_shape E p) (\<lambda>_.
        and_then (digest E (Pl_Proposal p)) (\<lambda>h.
          if mr_proposal_hash r \<noteq> Some h \<or> length (mp_groups p) \<noteq> length (mr_groups r)
          then invalid ''saved proposal hash/group mismatch''
          else try_each (check_outcome E s i human) (zip (mp_groups p) (mr_groups r)))))"

definition check_resolution ::
  "env \<Rightarrow> snapshot \<Rightarrow> u64 btree_set \<Rightarrow> string \<times> message_resolution \<Rightarrow> u64 btree_set result"
where
  "check_resolution E s seen e =
     (let i = fst e; r = snd e; seen' = set_add (mr_ingress_seq r) seen
      in if i \<noteq> mr_message_id r \<or> mr_ingress_seq r \<in> set seen
         then invalid ''resolution identity/sequence mismatch''
         else
           case mr_ingress r of
             None \<Rightarrow> Inr seen'
           | Some human \<Rightarrow>
               if hi_user_id human = [] \<or> hi_source_ingress_seq human = 0
               then invalid ''Human resolution hash/basis mismatch''
               else
                 and_then (digest E (Pl_Ingress human)) (\<lambda>h.
                   if mr_message_hash r \<noteq> h
                      \<or> (case mr_basis r of None \<Rightarrow> False | Some b \<Rightarrow> length (rb_commit b) \<noteq> 64)
                      \<or> (case mr_updated_seq r of None \<Rightarrow> True | Some q \<Rightarrow> sn_seq s < q)
                   then invalid ''Human resolution hash/basis mismatch''
                   else
                     and_then
                       (case mr_proposal r of
                          Some p \<Rightarrow> check_proposal E s i r human p
                        | None \<Rightarrow>
                            if mr_proposal_hash r \<noteq> None \<or> mr_groups r \<noteq> []
                            then invalid ''unsaved proposal has group outcomes'' else Inr ())
                       (\<lambda>_. Inr seen')))"

definition validate_history :: "env \<Rightarrow> snapshot \<Rightarrow> unit result" where
  "validate_history E s =
     and_then (try_fold (check_resolution E s) [] (sn_resolutions s)) (\<lambda>_. Inr ())"

end
