(* ===== verification/Validate.thy ===== *)
theory Validate
  imports Project Sprint Token_Budget Integrity
begin

text \<open>
  \<open>validate_snapshot\<close> of \<open>service.rs\<close>: what every published snapshot satisfies.
  The two walks (containment upwards, dependencies by an explicit stack) are written as
  the loops they are, with the termination argument that the visited set only grows
  inside the finite set of known tickets.
\<close>

section \<open>Containment\<close>

definition containment_kinds :: "ticket_kind \<Rightarrow> ticket_kind \<Rightarrow> bool" where
  "containment_kinds parent child =
     (parent = K_Goal \<and> (child = K_Goal \<or> child = K_Work)
      \<or> parent = K_Work \<and> child = K_Step
      \<or> parent = K_Step \<and> child = K_Step)"

definition validate_parent :: "snapshot \<Rightarrow> ticket \<Rightarrow> unit result" where
  "validate_parent s work =
     (case tk_parent work of
        None \<Rightarrow> Inr ()
      | Some p \<Rightarrow>
          and_then (find_ticket s p) (\<lambda>parent.
            if containment_kinds (tk_kind parent) (tk_kind work) then Inr ()
            else invalid ''invalid containment kinds''))"

definition ticket_ids :: "snapshot \<Rightarrow> string set" where
  "ticket_ids s = set (keys (sn_tickets s))"

lemma finite_ticket_ids [simp]: "finite (ticket_ids s)"
  by (simp add: ticket_ids_def)

lemma in_ticket_ids: "i \<in> ticket_ids s \<longleftrightarrow> (\<exists>t. map_get (sn_tickets s) i = Some t)"
  by (simp add: ticket_ids_def keys_map_get)

function walk_ancestors :: "snapshot \<Rightarrow> string list \<Rightarrow> string option \<Rightarrow> unit result" where
  "walk_ancestors s seen None = Inr ()"
| "walk_ancestors s seen (Some i) =
     (if i \<in> set seen then fail DependencyCycle
      else case map_get (sn_tickets s) i of
             None \<Rightarrow> invalid ''ticket not found''
           | Some t \<Rightarrow> walk_ancestors s (i # seen) (tk_parent t))"
  by pat_completeness auto

termination walk_ancestors
proof (relation "measure (\<lambda>(s, seen, nxt). card (ticket_ids s - set seen))")
  fix s :: snapshot and seen i t
  assume "i \<notin> set seen" "map_get (sn_tickets s) i = Some t"
  then have "i \<in> ticket_ids s - set seen" by (auto simp: in_ticket_ids)
  then have "card (ticket_ids s - set (i # seen)) < card (ticket_ids s - set seen)"
    by (intro psubset_card_mono) auto
  then show "((s, i # seen, tk_parent t), s, seen, Some i)
    \<in> measure (\<lambda>(s, seen, nxt). card (ticket_ids s - set seen))" by simp
qed simp

section \<open>Dependencies\<close>

text \<open>
  \<open>frontier\<close> is the stack, its head the top; \<open>frontier.extend(xs)\<close> pushes \<open>xs\<close> in
  order, so the last dependency is visited first.
\<close>

function walk_dependencies ::
  "snapshot \<Rightarrow> string \<Rightarrow> string list \<Rightarrow> string list \<Rightarrow> unit result"
where
  "walk_dependencies s start visited [] = Inr ()"
| "walk_dependencies s start visited (i # frontier) =
     (if i = start then fail DependencyCycle
      else if i \<in> set visited then walk_dependencies s start visited frontier
      else case map_get (sn_tickets s) i of
             None \<Rightarrow> invalid ''ticket not found''
           | Some t \<Rightarrow>
               if tk_kind t \<noteq> K_Work then invalid ''dependency prerequisite must be Work''
               else walk_dependencies s start (i # visited) (rev (tk_depends_on t) @ frontier))"
  by pat_completeness auto

termination walk_dependencies
proof (relation "measures [\<lambda>(s, start, visited, frontier). card (ticket_ids s - set visited),
                           \<lambda>(s, start, visited, frontier). length frontier]")
  fix s :: snapshot and start i t and visited frontier :: "string list"
  assume "i \<notin> set visited" "map_get (sn_tickets s) i = Some t"
  then have "i \<in> ticket_ids s - set visited" by (auto simp: in_ticket_ids)
  then have "card (ticket_ids s - set (i # visited)) < card (ticket_ids s - set visited)"
    by (intro psubset_card_mono) auto
  then show "((s, start, i # visited, rev (tk_depends_on t) @ frontier), s, start, visited, i # frontier)
    \<in> measures [\<lambda>(s, start, visited, frontier). card (ticket_ids s - set visited),
                \<lambda>(s, start, visited, frontier). length frontier]" by simp
qed simp_all

section \<open>The validator\<close>

definition validate_ticket :: "snapshot \<Rightarrow> string \<times> ticket \<Rightarrow> unit result" where
  "validate_ticket s e =
     (let i = fst e; work = snd e
      in if i \<noteq> tk_id work then invalid ''Ticket manifest identity mismatch''
         else if tk_scope_id work \<noteq> sb_scope_id (sn_binding s)
         then fail (ScopeDenied ''cross-scope Ticket'')
         else if tk_paused work \<and> (tk_state work \<noteq> W_Blocked \<or> tk_blocked work = None)
         then invalid ''paused Work requires an explicit blocked reason''
         else
           and_then (validate_parent s work) (\<lambda>_.
           and_then (walk_ancestors s [] (Some (tk_id work))) (\<lambda>_.
             if tk_depends_on work \<noteq> [] \<and> tk_kind work \<noteq> K_Work
             then invalid ''only Work can have execution dependencies''
             else
               and_then (walk_dependencies s (tk_id work) [] (rev (tk_depends_on work))) (\<lambda>_.
                 case tk_active_assignment work of
                   None \<Rightarrow> Inr ()
                 | Some aid \<Rightarrow>
                     and_then (find_assignment s aid) (\<lambda>a.
                       if as_work_id a \<noteq> tk_id work
                       then invalid ''active assignment mismatch'' else Inr ())))))"

definition validate_question :: "snapshot \<Rightarrow> assignment \<Rightarrow> unit result" where
  "validate_question s a =
     (case as_awaiting_request a of
        None \<Rightarrow> Inr ()
      | Some i \<Rightarrow>
          and_then (ok_or (map_get (sn_requests s) i)
            (InvalidTransition ''Assignment question reference missing'')) (\<lambda>r.
            if rq_kind r \<noteq> Question \<or> rq_assignment_id r \<noteq> Some (as_id a)
               \<or> rq_work_id r \<noteq> as_work_id a \<or> rq_generation r \<noteq> as_generation a
               \<or> rq_contract_revision r \<noteq> as_contract_revision a
               \<or> (case rq_worker_packet_hash r of None \<Rightarrow> True | Some h \<Rightarrow> length h \<noteq> 64)
            then invalid ''Assignment question binding invalid'' else Inr ()))"

definition validate_assignment :: "env \<Rightarrow> snapshot \<Rightarrow> assignment \<Rightarrow> unit result" where
  "validate_assignment E s a =
     and_then (find_ticket s (as_work_id a)) (\<lambda>_.
     and_then (validate_question s a) (\<lambda>_.
     and_then (ok_or (map_get (sn_intents s) (as_dispatch_key a))
       (InvalidTransition ''Assignment missing atomic DispatchIntent'')) (\<lambda>intent.
       if in_assignment_id intent \<noteq> as_id a then invalid ''DispatchIntent mismatch''
       else
         and_then (digest E (Pl_Spec (in_immutable_spec intent))) (\<lambda>h.
           if in_spec_hash intent \<noteq> h then invalid ''DispatchIntent mismatch'' else Inr ()))))"

definition validate_snapshot :: "env \<Rightarrow> snapshot \<Rightarrow> unit result" where
  "validate_snapshot E s =
     and_then (validate_budget E s) (\<lambda>_.
     and_then (validate_project E s) (\<lambda>_.
     and_then (validate_sprints s) (\<lambda>_.
     and_then (validate_planning E s) (\<lambda>_.
     and_then (validate_migration E s) (\<lambda>_.
     and_then (validate_file_intents E s) (\<lambda>_.
     and_then (validate_history E s) (\<lambda>_.
     and_then (try_each (validate_ticket s) (sn_tickets s)) (\<lambda>_.
       try_each (validate_assignment E s) (vals (sn_assignments s))))))))))"

end
