(* ===== verification/Graphs.thy ===== *)
theory Graphs
  imports Validate
begin

text \<open>
  What the graph walks of \<open>service.rs\<close> decide.  Two of them follow parent pointers (the
  containment walk of \<open>validate_snapshot\<close> and the plan walk of \<open>validate_plan\<close>):
  their contract is the locale \<open>parent_walk\<close>, proved once and interpreted on both.  The
  dependency walk is a depth-first search with a stack, the invalidation of consumers a
  worklist, the walk over accepted goals a loop whose fuel is shown to be enough.
\<close>

section \<open>Parent chains\<close>

text \<open>\<open>link i\<close>: the node is unknown, has no parent, or has a parent.\<close>

inductive rooted :: "('k \<Rightarrow> 'k option option) \<Rightarrow> 'k \<Rightarrow> bool" for link where
  root: "link i = Some None \<Longrightarrow> rooted link i"
| up: "link i = Some (Some p) \<Longrightarrow> rooted link p \<Longrightarrow> rooted link i"

inductive_cases rootedE: "rooted link i"

definition uplinks :: "('k \<Rightarrow> 'k option option) \<Rightarrow> ('k \<times> 'k) set" where
  "uplinks link = {(i, p). link i = Some (Some p)}"

lemma rooted_no_cycle: "rooted link i \<Longrightarrow> (i, i) \<notin> (uplinks link)\<^sup>+"
proof (induction rule: rooted.induct)
  case (root i)
  then show ?case by (auto simp: uplinks_def dest: tranclD)
next
  case (up i p)
  show ?case
  proof
    assume "(i, i) \<in> (uplinks link)\<^sup>+"
    then obtain z where "(i, z) \<in> uplinks link" "(z, i) \<in> (uplinks link)\<^sup>*"
      by (auto dest: tranclD)
    with up(1) have "(p, i) \<in> (uplinks link)\<^sup>*" "(i, p) \<in> uplinks link"
      by (auto simp: uplinks_def)
    then have "(p, p) \<in> (uplinks link)\<^sup>+" by (rule rtrancl_into_trancl1)
    with up.IH show False by simp
  qed
qed

lemma rooted_up_closed:
  assumes "(i, j) \<in> (uplinks link)\<^sup>*" "rooted link i"
  shows "rooted link j"
  using assms
  by (induction rule: rtrancl_induct) (auto simp: uplinks_def elim: rootedE)

locale parent_walk =
  fixes link :: "'k \<Rightarrow> 'k option option"
    and walk :: "'k list \<Rightarrow> 'k option \<Rightarrow> unit result"
    and missing :: error
  assumes walk_None: "walk seen None = Inr ()"
    and walk_Some: "walk seen (Some i) =
      (if i \<in> set seen then fail DependencyCycle
       else case link i of None \<Rightarrow> fail missing | Some p \<Rightarrow> walk (i # seen) p)"
    and finite_nodes: "finite {i. link i \<noteq> None}"
begin

lemma walk_sound:
  "walk seen (Some i) = Inr u \<Longrightarrow> rooted link i \<and> (\<forall>j \<in> set seen. (i, j) \<notin> (uplinks link)\<^sup>*)"
proof (induction "card ({i. link i \<noteq> None} - set seen)" arbitrary: seen i rule: less_induct)
  case less
  from less.prems obtain p where i: "i \<notin> set seen" "link i = Some p" and w: "walk (i # seen) p = Inr u"
    by (auto simp: walk_Some split: if_splits option.splits)
  show ?case
  proof (cases p)
    case None
    with i have "(i, j) \<notin> (uplinks link)\<^sup>*" if "j \<in> set seen" for j
      using that by (auto simp: uplinks_def elim: converse_rtranclE)
    with None i show ?thesis by (auto intro: rooted.root)
  next
    case (Some q)
    have "card ({i. link i \<noteq> None} - set (i # seen)) < card ({i. link i \<noteq> None} - set seen)"
      using finite_nodes i by (intro psubset_card_mono) auto
    then have ih: "rooted link q" "\<forall>j \<in> set (i # seen). (q, j) \<notin> (uplinks link)\<^sup>*"
      using less.hyps w Some by blast+
    have "(i, j) \<notin> (uplinks link)\<^sup>*" if "j \<in> set seen" for j
    proof
      assume "(i, j) \<in> (uplinks link)\<^sup>*"
      then show False
      proof (cases rule: converse_rtranclE)
        case base
        with that i show False by simp
      next
        case (step z)
        with i Some have "z = q" by (simp add: uplinks_def)
        with step ih that show False by simp
      qed
    qed
    with ih i Some show ?thesis by (auto intro: rooted.up)
  qed
qed

lemma walk_complete:
  "rooted link i \<Longrightarrow> \<forall>j \<in> set seen. (i, j) \<notin> (uplinks link)\<^sup>* \<Longrightarrow> walk seen (Some i) = Inr ()"
proof (induction arbitrary: seen rule: rooted.induct)
  case (root i)
  then have "i \<notin> set seen" by auto
  with root show ?case by (simp add: walk_Some walk_None)
next
  case (up i p)
  then have i: "i \<notin> set seen" and e: "(i, p) \<in> uplinks link"
    by (auto simp: uplinks_def)
  have "(p, i) \<notin> (uplinks link)\<^sup>*"
    using rooted_no_cycle [OF rooted.up [OF up(1,2)]] e by (meson rtrancl_into_trancl2)
  moreover have "(p, j) \<notin> (uplinks link)\<^sup>*" if "j \<in> set seen" for j
    using up.prems e that by (meson converse_rtrancl_into_rtrancl)
  ultimately have "walk (i # seen) (Some p) = Inr ()" by (intro up.IH) auto
  with i up(1) show ?case by (simp add: walk_Some)
qed

lemma walk_iff: "walk [] (Some i) = Inr u \<longleftrightarrow> rooted link i"
  using walk_sound [of "[]" i] walk_complete [of i "[]"] by auto

lemma all_walks_acyclic:
  assumes "\<And>i. link i \<noteq> None \<Longrightarrow> walk [] (Some i) = Inr ()"
  shows "acyclic (uplinks link)"
  unfolding acyclic_def
proof (intro allI)
  fix i
  show "(i, i) \<notin> (uplinks link)\<^sup>+"
  proof
    assume c: "(i, i) \<in> (uplinks link)\<^sup>+"
    then have "link i \<noteq> None" by (auto simp: uplinks_def dest: tranclD)
    with assms have "rooted link i" by (simp add: walk_iff)
    with c rooted_no_cycle show False by metis
  qed
qed

end

definition parent_link :: "snapshot \<Rightarrow> string \<Rightarrow> string option option" where
  "parent_link s i = map_option tk_parent (map_get (sn_tickets s) i)"

definition step_link :: "local_step list \<Rightarrow> string \<Rightarrow> string option option" where
  "step_link steps i = map_option ls_parent (find_step steps i)"

interpretation anc: parent_walk "parent_link s" "walk_ancestors s"
    "InvalidTransition ''ticket not found''" for s
proof
  show "finite {i. parent_link s i \<noteq> None}"
    by (rule finite_subset [OF _ finite_ticket_ids [of s]])
      (auto simp: parent_link_def in_ticket_ids)
qed (auto simp: parent_link_def split: option.splits)

interpretation stp: parent_walk "step_link steps" "walk_steps steps"
    "InvalidTransition ''Step parent outside LocalPlan''" for steps
proof
  show "finite {i. step_link steps i \<noteq> None}"
    by (rule finite_subset [of _ "ls_id ` set steps"])
      (auto simp: step_link_def dest: find_step_id)
qed (auto simp: step_link_def split: option.splits)

section \<open>The dependency search\<close>

definition depends :: "snapshot \<Rightarrow> (string \<times> string) set" where
  "depends s = {(i, d). \<exists>t. map_get (sn_tickets s) i = Some t \<and> d \<in> set (tk_depends_on t)}"

definition closed_works :: "snapshot \<Rightarrow> string set \<Rightarrow> bool" where
  "closed_works s V =
     (\<forall>v \<in> V. \<exists>t. map_get (sn_tickets s) v = Some t \<and> tk_kind t = K_Work \<and>
        set (tk_depends_on t) \<subseteq> V)"

lemma walk_dependencies_sound:
  assumes "walk_dependencies s start visited frontier = Inr u"
    and "start \<notin> set visited"
    and "\<forall>v \<in> set visited. \<exists>t. map_get (sn_tickets s) v = Some t \<and> tk_kind t = K_Work \<and>
        set (tk_depends_on t) \<subseteq> set visited \<union> set frontier"
  shows "\<exists>V. set visited \<union> set frontier \<subseteq> V \<and> start \<notin> V \<and> closed_works s V"
  using assms
proof (induction s start visited frontier rule: walk_dependencies.induct)
  case (1 s start visited)
  then show ?case by (intro exI [of _ "set visited"]) (simp add: closed_works_def)
next
  case (2 s start visited i frontier)
  show ?case
  proof (cases "i \<in> set visited")
    case True
    with "2.prems"(1) have ne: "i \<noteq> start" and w: "walk_dependencies s start visited frontier = Inr u"
      by (auto split: if_splits)
    have "set visited \<union> set (i # frontier) = set visited \<union> set frontier" using True by auto
    with "2.IH"(1) [OF ne True w "2.prems"(2)] "2.prems"(3) show ?thesis by simp
  next
    case False
    with "2.prems"(1) obtain t where t: "i \<noteq> start" "map_get (sn_tickets s) i = Some t"
      "tk_kind t = K_Work"
      and w: "walk_dependencies s start (i # visited) (rev (tk_depends_on t) @ frontier) = Inr u"
      by (auto split: if_splits option.splits)
    have "\<exists>V. set (i # visited) \<union> set (rev (tk_depends_on t) @ frontier) \<subseteq> V \<and> start \<notin> V
        \<and> closed_works s V"
    proof (rule "2.IH"(2) [OF t(1) False t(2) _ w])
      show "\<not> tk_kind t \<noteq> K_Work" using t by simp
      show "start \<notin> set (i # visited)" using t "2.prems"(2) by simp
      show "\<forall>v \<in> set (i # visited). \<exists>t'. map_get (sn_tickets s) v = Some t' \<and> tk_kind t' = K_Work \<and>
          set (tk_depends_on t') \<subseteq> set (i # visited) \<union> set (rev (tk_depends_on t) @ frontier)"
        using "2.prems"(3) t by fastforce
    qed
    then show ?thesis by auto
  qed
qed

lemma walk_dependencies_complete:
  "closed_works s V \<Longrightarrow> start \<notin> V \<Longrightarrow> set frontier \<subseteq> V \<Longrightarrow>
     walk_dependencies s start visited frontier = Inr ()"
proof (induction s start visited frontier rule: walk_dependencies.induct)
  case (2 s start visited i frontier)
  from "2.prems" obtain t where t: "map_get (sn_tickets s) i = Some t" "tk_kind t = K_Work"
    "set (tk_depends_on t) \<subseteq> V"
    by (auto simp: closed_works_def)
  have "i \<noteq> start" using "2.prems" by auto
  with 2 t show ?case by auto
qed simp

lemma closed_works_reach:
  assumes "closed_works s V" "(i, j) \<in> (depends s)\<^sup>*" "i \<in> V"
  shows "j \<in> V"
  using assms(2,3,1)
  by (induction rule: rtrancl_induct) (fastforce simp: depends_def closed_works_def)+

lemma walk_dependencies_iff:
  assumes "map_get (sn_tickets s) i = Some w"
  shows "walk_dependencies s i [] (rev (tk_depends_on w)) = Inr u \<longleftrightarrow>
    (\<forall>j. (i, j) \<in> (depends s)\<^sup>+ \<longrightarrow> j \<noteq> i \<and> is_work s j)"
proof
  assume "walk_dependencies s i [] (rev (tk_depends_on w)) = Inr u"
  then obtain V where V: "set (tk_depends_on w) \<subseteq> V" "i \<notin> V" "closed_works s V"
    using walk_dependencies_sound [of s i "[]" "rev (tk_depends_on w)" u] by auto
  show "\<forall>j. (i, j) \<in> (depends s)\<^sup>+ \<longrightarrow> j \<noteq> i \<and> is_work s j"
  proof (intro allI impI)
    fix j assume "(i, j) \<in> (depends s)\<^sup>+"
    then obtain d where "(i, d) \<in> depends s" "(d, j) \<in> (depends s)\<^sup>*" by (auto dest: tranclD)
    then have "j \<in> V" using V assms by (auto simp: depends_def intro: closed_works_reach)
    with V show "j \<noteq> i \<and> is_work s j" by (fastforce simp: closed_works_def is_work_def)
  qed
next
  assume r: "\<forall>j. (i, j) \<in> (depends s)\<^sup>+ \<longrightarrow> j \<noteq> i \<and> is_work s j"
  let ?V = "{j. (i, j) \<in> (depends s)\<^sup>+}"
  have "walk_dependencies s i [] (rev (tk_depends_on w)) = Inr ()"
  proof (rule walk_dependencies_complete [of s ?V])
    show "closed_works s ?V"
      unfolding closed_works_def
    proof
      fix v assume v: "v \<in> ?V"
      with r obtain t where t: "map_get (sn_tickets s) v = Some t" "tk_kind t = K_Work"
        by (auto simp: is_work_def split: option.splits)
      with v have "set (tk_depends_on t) \<subseteq> ?V"
        by (auto simp: depends_def intro: trancl_into_trancl)
      with t show "\<exists>t. map_get (sn_tickets s) v = Some t \<and> tk_kind t = K_Work \<and>
          set (tk_depends_on t) \<subseteq> ?V" by blast
    qed
    show "set (rev (tk_depends_on w)) \<subseteq> ?V"
      using assms by (auto simp: depends_def)
  qed (use r in blast)
  then show "walk_dependencies s i [] (rev (tk_depends_on w)) = Inr u" by simp
qed

section \<open>What a validated snapshot guarantees\<close>

definition tickets_valid :: "snapshot \<Rightarrow> bool" where
  "tickets_valid s = (try_each (validate_ticket s) (sn_tickets s) = Inr ())"

lemma map_get_in_map: "map_get m k = Some v \<Longrightarrow> (k, v) \<in> set m"
  by (auto simp: map_get_def dest: map_of_SomeD)

lemma tickets_validD:
  "tickets_valid s \<Longrightarrow> map_get (sn_tickets s) i = Some t \<Longrightarrow> validate_ticket s (i, t) = Inr ()"
  by (auto simp: tickets_valid_def result_simps dest: map_get_in_map)

lemma validate_ticket_Inr:
  "validate_ticket s (i, t) = Inr u \<Longrightarrow>
     i = tk_id t \<and> tk_scope_id t = sb_scope_id (sn_binding s)
     \<and> (tk_paused t \<longrightarrow> tk_state t = W_Blocked \<and> tk_blocked t \<noteq> None)
     \<and> validate_parent s t = Inr () \<and> walk_ancestors s [] (Some i) = Inr ()
     \<and> (tk_depends_on t \<noteq> [] \<longrightarrow> tk_kind t = K_Work)
     \<and> walk_dependencies s i [] (rev (tk_depends_on t)) = Inr ()"
  by (auto simp: validate_ticket_def Let_def result_simps)

lemma validate_snapshot_tickets: "validate_snapshot E s = Inr u \<Longrightarrow> tickets_valid s"
  by (auto simp: validate_snapshot_def tickets_valid_def result_simps)

lemma tickets_valid_parents:
  assumes "tickets_valid s"
  shows "acyclic (uplinks (parent_link s))"
  by (rule anc.all_walks_acyclic)
    (use assms in \<open>auto simp: parent_link_def dest!: tickets_validD validate_ticket_Inr\<close>)

lemma tickets_valid_dependencies:
  assumes "tickets_valid s"
  shows "acyclic (depends s)"
  unfolding acyclic_def
proof (intro allI notI)
  fix i assume c: "(i, i) \<in> (depends s)\<^sup>+"
  then obtain t where t: "map_get (sn_tickets s) i = Some t"
    by (auto simp: depends_def dest: tranclD)
  with assms have "walk_dependencies s i [] (rev (tk_depends_on t)) = Inr ()"
    by (auto dest!: tickets_validD validate_ticket_Inr)
  with c show False unfolding walk_dependencies_iff [OF t] by blast
qed

end
