(* ===== verification/Work_Ops.thy ===== *)
theory Work_Ops
  imports Project
begin

text \<open>
  The operations of \<open>apply\<close> in \<open>service.rs\<close> that act on a ticket as a whole, one
  definition per arm: create, ready, contract and dependency changes, acceptance,
  rejection, cancellation, pause, reopen, archive, import, legacy attachment and the
  old message resolution.  An operation takes the snapshot it would mutate and returns
  the mutated one; on an error the caller drops it, as \<open>execute\<close> does.
\<close>

section \<open>Creation and contract\<close>

definition new_ticket ::
  "snapshot \<Rightarrow> string \<Rightarrow> ticket_kind \<Rightarrow> string option \<Rightarrow> string btree_set \<Rightarrow> contract \<Rightarrow> ticket"
where
  "new_ticket s i kind parent deps c = \<lparr>
     tk_id = i, tk_scope_id = sb_scope_id (sn_binding s), tk_kind = kind, tk_parent = parent,
     tk_depends_on = deps, tk_record_revision = 1, tk_contract_revision = 1, tk_generation = 0,
     tk_contract = c, tk_priority = P_Medium, tk_expected_completion_at = None,
     tk_state = W_Draft, tk_blocked = None, tk_paused = False, tk_archived = False,
     tk_active_assignment = None, tk_current_submission = None, tk_accepted_submission = None,
     tk_updated_seq = sn_seq s, tk_import_source = None\<rparr>"

definition op_create ::
  "env \<Rightarrow> authority \<Rightarrow> string \<Rightarrow> ticket_kind \<Rightarrow> string option \<Rightarrow> contract \<Rightarrow> string btree_set \<Rightarrow>
   snapshot \<Rightarrow> ctx \<Rightarrow> (snapshot \<times> ctx) result"
where
  "op_create E au temp kind parent c deps s cx =
     and_then (need_supervisor au) (\<lambda>_.
       if kind = K_Step then invalid ''Steps belong to Worker LocalPlan''
       else
         and_then (validate_contract E c) (\<lambda>_.
         and_then (allocate E temp cx) (\<lambda>(i, cx').
           let parent' = map_option (resolve (cx_ids cx')) parent;
               t = new_ticket s i kind parent' (set_of (map (resolve (cx_ids cx')) deps)) c;
               s1 = put_ticket i t s;
               p = sn_project s1;
               s2 = (case Option.bind parent' (map_get (ps_links p)) of
                       None \<Rightarrow> s1
                     | Some project \<Rightarrow>
                         s1\<lparr>sn_project := p\<lparr>ps_links := map_put i project (ps_links p)\<rparr>\<rparr>)
           in Inr (s2\<lparr>sn_graph_revision := sn_graph_revision s2 + 1\<rparr>, cx'))))"

definition op_ready :: "authority \<Rightarrow> string \<Rightarrow> snapshot \<Rightarrow> snapshot result" where
  "op_ready au i s =
     and_then (need_supervisor au) (\<lambda>_.
     and_then (find_ticket s i) (\<lambda>work.
       if tk_state work \<noteq> W_Draft \<and> \<not> (tk_paused work \<and> tk_active_assignment work = None)
       then invalid ''ready requires draft or a stopped explicit pause''
       else Inr (put_ticket i
         (touch (sn_seq s) (work\<lparr>tk_state := W_Ready, tk_paused := False, tk_blocked := None\<rparr>)) s)))"

definition replace_contract :: "u64 \<Rightarrow> contract \<Rightarrow> ticket \<Rightarrow> ticket" where
  "replace_contract q c old =
     touch q
       ((if tk_active_assignment old \<noteq> None \<or> tk_paused old
         then old\<lparr>tk_state := W_Blocked,
                  tk_blocked := Some \<lparr>
                    br_reason = (if tk_paused old then ''explicitly paused; contract changed''
                                 else ''contract changed; waiting for old run to stop''),
                    br_resume_state = W_Ready\<rparr>\<rparr>
         else old\<lparr>tk_state := W_Ready, tk_blocked := None\<rparr>)
        \<lparr>tk_contract := c, tk_contract_revision := tk_contract_revision old + 1,
         tk_accepted_submission := None, tk_current_submission := None\<rparr>)"

definition op_update_contract ::
  "env \<Rightarrow> authority \<Rightarrow> string \<Rightarrow> contract \<Rightarrow> snapshot \<Rightarrow> snapshot result"
where
  "op_update_contract E au i c s =
     and_then (need_supervisor au) (\<lambda>_.
     and_then (validate_contract E c) (\<lambda>_.
     and_then (find_ticket s i) (\<lambda>old.
       if tk_contract old = c then Inr s
       else if tk_kind old \<noteq> K_Work \<and> tk_kind old \<noteq> K_Goal
       then invalid ''cannot edit Step contract''
       else
         and_then
           (case tk_active_assignment old of
              None \<Rightarrow> Inr s
            | Some aid \<Rightarrow>
                and_then (ok_or (map_get (sn_assignments s) aid)
                  (InvalidTransition ''assignment missing'')) (\<lambda>a.
                Inr (put_assignment aid (cancel_assignment (sn_seq s) a) s))) (\<lambda>s1.
         let s2 = invalidate_requests i (put_ticket i (replace_contract (sn_seq s) c old) s1)
         in and_then (invalidate_dependents i s2) (invalidate_parent_goals i)))))"

definition op_set_dependencies ::
  "authority \<Rightarrow> (string, string) btree_map \<Rightarrow> string \<Rightarrow> string btree_set \<Rightarrow> snapshot \<Rightarrow> snapshot result"
where
  "op_set_dependencies au ids i deps s =
     and_then (need_supervisor au) (\<lambda>_.
     and_then (ok_or (map_get (sn_tickets s) i) (InvalidTransition ''work not found'')) (\<lambda>work.
       if tk_active_assignment work \<noteq> None \<or> \<not> (tk_state work = W_Draft \<or> tk_state work = W_Ready)
       then invalid ''dependencies frozen during execution/review''
       else
         let work' = touch (sn_seq s)
               (work\<lparr>tk_depends_on := set_of (map (resolve ids) deps),
                     tk_contract_revision := tk_contract_revision work + 1\<rparr>);
             s1 = put_ticket i work' s
         in Inr (invalidate_requests i (s1\<lparr>sn_graph_revision := sn_graph_revision s1 + 1\<rparr>))))"

section \<open>Acceptance\<close>

text \<open>\<open>controls.rs\<close>: the assignment that produced exactly the current submission.\<close>

definition matching_submission_assignment ::
  "snapshot \<Rightarrow> ticket \<Rightarrow> submission \<Rightarrow> assignment option"
where
  "matching_submission_assignment s work su =
     (case map_get (sn_assignments s) (su_assignment_id su) of
        None \<Rightarrow> None
      | Some a \<Rightarrow>
          if tk_current_submission work = Some (su_id su) \<and> \<not> su_stale su
             \<and> su_work_id su = tk_id work
             \<and> su_generation su = tk_generation work
             \<and> su_contract_revision su = tk_contract_revision work
             \<and> as_work_id a = tk_id work
             \<and> as_generation a = su_generation su
             \<and> as_contract_revision a = su_contract_revision su
             \<and> as_runtime a = Some (su_runtime su)
          then Some a else None)"

record control_facts =
  cf_accept_requires_stopped_assignment :: bool
  cf_submission_id :: "string option"
  cf_assignment_id :: "string option"
  cf_process_stopped :: "bool option"

definition control_facts_of :: "snapshot \<Rightarrow> ticket \<Rightarrow> control_facts" where
  "control_facts_of s work =
     (let su = Option.bind (tk_current_submission work) (map_get (sn_submissions s));
          a = Option.bind su (matching_submission_assignment s work)
      in \<lparr>cf_accept_requires_stopped_assignment = True,
          cf_submission_id = tk_current_submission work,
          cf_assignment_id = map_option su_assignment_id su,
          cf_process_stopped = map_option as_process_stopped a\<rparr>)"

definition op_accept ::
  "authority \<Rightarrow> string \<Rightarrow> string \<Rightarrow> string list \<Rightarrow> snapshot \<Rightarrow> snapshot result"
where
  "op_accept au i sid evidence s =
     and_then (need_supervisor au) (\<lambda>_.
     and_then (find_ticket s i) (\<lambda>work.
     and_then (if co_user_acceptance_required (tk_contract work) then need_user au else Inr ()) (\<lambda>_.
     and_then (ok_or (map_get (sn_submissions s) sid) (InvalidTransition ''submission missing'')) (\<lambda>su.
       if tk_state work \<noteq> W_Submitted \<or> tk_current_submission work \<noteq> Some sid
          \<or> su_work_id su \<noteq> i \<or> su_stale su
          \<or> su_generation su \<noteq> tk_generation work
          \<or> su_contract_revision su \<noteq> tk_contract_revision work
          \<or> evidence = []
       then invalid ''acceptance requires current exact submission and evidence''
       else
         and_then (dependencies s work) (\<lambda>inputs.
           if inputs \<noteq> su_dependency_inputs su \<or> uncertain (su_effects su)
           then invalid ''acceptance requires current exact submission and evidence''
           else
             and_then (ok_or (matching_submission_assignment s work su)
               (ScopeDenied ''acceptance Assignment differs from the exact Submission'')) (\<lambda>a.
             if \<not> as_process_stopped a
             then fail (ResourceBlocked
               ''acceptance awaits host-confirmed process stop for the exact Assignment'')
             else Inr (put_ticket i
               (touch (sn_seq s)
                 (work\<lparr>tk_state := W_Accepted, tk_accepted_submission := Some sid\<rparr>)) s)))))))"

definition op_accept_goal :: "authority \<Rightarrow> string \<Rightarrow> string list \<Rightarrow> snapshot \<Rightarrow> snapshot result" where
  "op_accept_goal au i evidence s =
     and_then (need_supervisor au) (\<lambda>_.
     and_then (find_ticket s i) (\<lambda>goal.
     and_then (if co_user_acceptance_required (tk_contract goal) then need_user au else Inr ()) (\<lambda>_.
       if tk_kind goal \<noteq> K_Goal \<or> evidence = [] \<or> tk_state goal = W_Cancelled
          \<or> list_ex (\<lambda>t. tk_parent t = Some i \<and> tk_state t \<noteq> W_Accepted) (vals (sn_tickets s))
       then invalid ''Goal requires its own evidence and accepted children''
       else Inr (put_ticket i (touch (sn_seq s) (goal\<lparr>tk_state := W_Accepted\<rparr>)) s))))"

definition op_reject ::
  "authority \<Rightarrow> string \<Rightarrow> string \<Rightarrow> string \<Rightarrow> snapshot \<Rightarrow> snapshot result"
where
  "op_reject au i sid reason s =
     and_then (need_supervisor au) (\<lambda>_.
     and_then (ok_or (map_get (sn_tickets s) i) (InvalidTransition ''work missing'')) (\<lambda>work.
       if tk_state work \<noteq> W_Submitted \<or> tk_current_submission work \<noteq> Some sid \<or> reason = []
       then invalid ''reject requires exact current submission''
       else Inr (put_ticket i
         (touch (sn_seq s) (work\<lparr>tk_state := W_Ready, tk_current_submission := None\<rparr>)) s)))"

section \<open>Cancellation, pause, reopen, archive\<close>

definition op_cancel :: "authority \<Rightarrow> string \<Rightarrow> snapshot \<Rightarrow> snapshot result" where
  "op_cancel au i s =
     and_then (need_supervisor au) (\<lambda>_.
     and_then (ok_or (map_get (sn_tickets s) i) (InvalidTransition ''work missing'')) (\<lambda>work.
       let s1 = put_ticket i
             (touch (sn_seq s)
               (work\<lparr>tk_state := W_Cancelled, tk_paused := False, tk_blocked := None,
                     tk_accepted_submission := None\<rparr>)) s
       in and_then
            (case tk_active_assignment work of
               None \<Rightarrow> Inr s1
             | Some aid \<Rightarrow>
                 and_then (expect (map_get (sn_assignments s1) aid) ''assignment'') (\<lambda>a.
                 Inr (put_assignment aid (cancel_assignment (sn_seq s) a) s1))) (\<lambda>s2.
          and_then (invalidate_dependents i (invalidate_requests i s2))
            (invalidate_parent_goals i))))"

definition op_pause :: "authority \<Rightarrow> string \<Rightarrow> string \<Rightarrow> snapshot \<Rightarrow> snapshot result" where
  "op_pause au i reason s =
     and_then (need_supervisor au) (\<lambda>_.
     and_then (find_ticket s i) (\<lambda>old.
       if tk_kind old \<noteq> K_Work \<or> blank reason
          \<or> tk_state old \<notin> {W_Draft, W_Ready, W_Active, W_Blocked}
       then invalid ''pause requires unfinished Work and a reason''
       else
         and_then
           (case tk_active_assignment old of
              None \<Rightarrow> Inr s
            | Some aid \<Rightarrow>
                and_then (expect (map_get (sn_assignments s) aid) ''assignment'') (\<lambda>a.
                Inr (if as_process_stopped a then s
                     else put_assignment aid (cancel_assignment (sn_seq s) a) s))) (\<lambda>s1.
         Inr (invalidate_requests i (put_ticket i
           (touch (sn_seq s)
             (old\<lparr>tk_paused := True, tk_state := W_Blocked,
                  tk_blocked := Some \<lparr>br_reason = reason, br_resume_state = W_Ready\<rparr>\<rparr>)) s1)))))"

definition op_reopen :: "authority \<Rightarrow> string \<Rightarrow> snapshot \<Rightarrow> snapshot result" where
  "op_reopen au i s =
     and_then (need_supervisor au) (\<lambda>_.
     and_then (find_ticket s i) (\<lambda>old.
     and_then
       (case tk_active_assignment old of
          None \<Rightarrow> Inr ()
        | Some aid \<Rightarrow>
            and_then (find_assignment s aid) (\<lambda>a.
              if \<not> as_process_stopped a \<or> holds_resources a
              then fail (ResourceBlocked ''old execution or unreconciled effects still own resources'')
              else Inr ())) (\<lambda>_.
       let s1 = put_ticket i
             (touch (sn_seq s)
               (old\<lparr>tk_active_assignment := None, tk_paused := False, tk_state := W_Ready,
                    tk_blocked := None, tk_accepted_submission := None,
                    tk_current_submission := None\<rparr>)) s
       in and_then (invalidate_dependents i (invalidate_requests i s1))
            (invalidate_parent_goals i))))"

definition op_archive :: "authority \<Rightarrow> string \<Rightarrow> bool \<Rightarrow> snapshot \<Rightarrow> snapshot result" where
  "op_archive au i archived s =
     and_then (need_supervisor au) (\<lambda>_.
     and_then (ok_or (map_get (sn_tickets s) i) (InvalidTransition ''ticket missing'')) (\<lambda>work.
       Inr (put_ticket i (touch (sn_seq s) (work\<lparr>tk_archived := archived\<rparr>)) s)))"

section \<open>Messages, legacy attachment, import\<close>

definition next_ingress_seq :: "snapshot \<Rightarrow> u64" where
  "next_ingress_seq s = fold max (map mr_ingress_seq (vals (sn_resolutions s))) 0 + 1"

definition op_resolve_message ::
  "env \<Rightarrow> authority \<Rightarrow> message_resolution \<Rightarrow> snapshot \<Rightarrow> snapshot result"
where
  "op_resolve_message E au r s =
     and_then (need_supervisor au) (\<lambda>_.
       if mr_ingress r \<noteq> None \<or> mr_basis r \<noteq> None \<or> mr_proposal r \<noteq> None \<or> mr_proposal_hash r \<noteq> None
       then fail (ScopeDenied ''canonical Human ingress needs its Host port'')
       else
         case map_get (sn_resolutions s) (mr_message_id r) of
           Some previous \<Rightarrow>
             and_then (canonical_bytes E (Pl_Resolution previous)) (\<lambda>old.
             and_then (canonical_bytes E (Pl_Resolution r)) (\<lambda>new.
               if old \<noteq> new then fail IdempotencyConflict else Inr s))
         | None \<Rightarrow>
             if next_ingress_seq s \<noteq> mr_ingress_seq r
             then invalid ''ingress resolution out of sequence''
             else Inr (s\<lparr>sn_resolutions := map_put (mr_message_id r) r (sn_resolutions s)\<rparr>))"

definition op_attach_legacy :: "env \<Rightarrow> authority \<Rightarrow> import_source \<Rightarrow> snapshot \<Rightarrow> snapshot result" where
  "op_attach_legacy E au source s =
     and_then (need_user au) (\<lambda>_.
       if is_session_id source \<noteq> sb_supervisor_session_id (sn_binding s)
          \<or> is_task_id source \<noteq> ''_scope_attach'' \<or> is_artifact source = None
       then invalid ''attach requires a verified complete Supervisor snapshot''
       else
         case sn_legacy_attachment s of
           Some prior \<Rightarrow>
             and_then (canonical_bytes E (Pl_Import prior)) (\<lambda>old.
             and_then (canonical_bytes E (Pl_Import source)) (\<lambda>new.
               if old \<noteq> new then fail IdempotencyConflict else Inr s))
         | None \<Rightarrow>
             Inr (s\<lparr>sn_legacy_attachment := Some source, sn_schema := max (sn_schema s) 2\<rparr>))"

definition same_source :: "import_source \<Rightarrow> ticket \<Rightarrow> bool" where
  "same_source source w =
     (case tk_import_source w of None \<Rightarrow> False
      | Some x \<Rightarrow> is_session_id x = is_session_id source \<and> is_task_id x = is_task_id source
                 \<and> is_snapshot_hash x = is_snapshot_hash source)"

definition op_import ::
  "env \<Rightarrow> authority \<Rightarrow> string \<Rightarrow> contract \<Rightarrow> import_source \<Rightarrow> snapshot \<Rightarrow> ctx \<Rightarrow>
   (snapshot \<times> ctx) result"
where
  "op_import E au temp c source s cx =
     and_then (need_supervisor au) (\<lambda>_.
     and_then (validate_contract E c) (\<lambda>_.
       let s1 = (if is_artifact source \<noteq> None then s\<lparr>sn_schema := max (sn_schema s) 2\<rparr> else s)
       in if is_session_id source = [] \<or> is_task_id source = [] \<or> length (is_snapshot_hash source) \<noteq> 64
          then invalid ''import source identity incomplete''
          else
            case find (same_source source) (vals (sn_tickets s1)) of
              Some w \<Rightarrow> Inr (s1, cx\<lparr>cx_ids := map_put temp (tk_id w) (cx_ids cx)\<rparr>)
            | None \<Rightarrow>
                and_then (allocate E temp cx) (\<lambda>(i, cx').
                  let t = (new_ticket s1 i K_Work None [] c)
                            \<lparr>tk_state := W_Blocked,
                             tk_blocked := Some \<lparr>br_reason =
                               ''imported legacy task requires explicit review; no runtime ownership transferred'',
                               br_resume_state = W_Submitted\<rparr>,
                             tk_import_source := Some source\<rparr>;
                      s2 = put_ticket i t s1
                  in Inr (s2\<lparr>sn_graph_revision := sn_graph_revision s2 + 1\<rparr>, cx'))))"

end
