(* ===== verification/Request_Ops.thy ===== *)
theory Request_Ops
  imports Project
begin

text \<open>
  Questions and approvals (\<open>service.rs\<close>): a Worker or Supervisor asks, the User
  answers or decides, a Worker consumes an approval for exactly one attempt or yields
  its run until the answer arrives.
\<close>

definition new_request ::
  "string \<Rightarrow> string \<Rightarrow> string option \<Rightarrow> ticket \<Rightarrow> request_kind \<Rightarrow> string \<Rightarrow> u64 \<Rightarrow> pending_request"
where
  "new_request i work_id aid work kind prompt q = \<lparr>
     rq_id = i, rq_work_id = work_id, rq_assignment_id = aid,
     rq_generation = tk_generation work, rq_contract_revision = tk_contract_revision work,
     rq_prompt_revision = 1, rq_kind = kind, rq_prompt = prompt, rq_status = R_Open,
     rq_answer = None, rq_consumed_attempt = None, rq_worker_packet_hash = None,
     rq_updated_seq = q\<rparr>"

definition op_ask ::
  "env \<Rightarrow> authority \<Rightarrow> string \<Rightarrow> string \<Rightarrow> string \<Rightarrow> action option \<Rightarrow> snapshot \<Rightarrow> ctx \<Rightarrow>
   (snapshot \<times> ctx) result"
where
  "op_ask E au i temp prompt act s cx =
     and_then (find_ticket s i) (\<lambda>work.
       if tk_state work = W_Cancelled then invalid ''cancelled Work cannot ask''
       else
         and_then
           (if is_worker au then
              and_then (ok_or (tk_active_assignment work)
                (InvalidTransition ''no active assignment'')) (\<lambda>aid.
              and_then (find_assignment s aid) (\<lambda>a.
              and_then (need_worker au a) (\<lambda>_.
              and_then (active_permit s a) (\<lambda>_. Inr (Some aid)))))
            else and_then (need_supervisor au) (\<lambda>_. Inr (tk_active_assignment work))) (\<lambda>aid.
         if blank prompt then invalid ''empty request prompt''
         else
           and_then
             (case act of
                Some x \<Rightarrow> and_then (digest E (Pl_Action x)) (\<lambda>h. Inr (Approval x h))
              | None \<Rightarrow> Inr Question) (\<lambda>kind.
           and_then (allocate E temp cx) (\<lambda>(r, cx').
             Inr (put_request r (new_request r i aid work kind prompt (sn_seq s)) s, cx')))))"

text \<open>An answer restarts the Work once the yielded process has stopped and nothing else is open.\<close>

definition waiting_for_answer :: "snapshot \<Rightarrow> string \<Rightarrow> ticket \<Rightarrow> bool" where
  "waiting_for_answer s i work =
     list_ex (\<lambda>a. as_work_id a = i \<and> as_awaiting_request a \<noteq> None \<and> as_process_stopped a
                 \<and> as_generation a = tk_generation work
                 \<and> as_contract_revision a = tk_contract_revision work)
       (vals (sn_assignments s))"

definition has_open_request :: "snapshot \<Rightarrow> string \<Rightarrow> bool" where
  "has_open_request s i =
     list_ex (\<lambda>r. rq_work_id r = i \<and> rq_status r = R_Open) (vals (sn_requests s))"

definition op_answer ::
  "authority \<Rightarrow> string \<Rightarrow> u64 \<Rightarrow> string \<Rightarrow> snapshot \<Rightarrow> snapshot result"
where
  "op_answer au rid prompt_revision answer s =
     and_then (need_user au) (\<lambda>_.
     and_then (validate_request s rid prompt_revision) (\<lambda>_.
     and_then (expect (map_get (sn_requests s) rid) ''request'') (\<lambda>r.
       if rq_kind r \<noteq> Question then invalid ''question answer cannot approve an action''
       else if blank answer then invalid ''empty answer''
       else
         let s1 = put_request rid
               (r\<lparr>rq_answer := Some answer, rq_status := R_Answered, rq_updated_seq := sn_seq s\<rparr>) s;
             i = rq_work_id r
         in and_then (expect (map_get (sn_tickets s1) i) ''work'') (\<lambda>work.
            Inr (if waiting_for_answer s1 i work \<and> \<not> has_open_request s1 i
                    \<and> tk_state work = W_Blocked \<and> \<not> tk_paused work
                    \<and> tk_active_assignment work = None
                 then put_ticket i
                   (touch (sn_seq s) (work\<lparr>tk_state := W_Ready, tk_blocked := None\<rparr>)) s1
                 else s1)))))"

definition op_yield_for_input ::
  "authority \<Rightarrow> string \<Rightarrow> string \<Rightarrow> string \<Rightarrow> snapshot \<Rightarrow> snapshot result"
where
  "op_yield_for_input au aid rid packet_hash s =
     and_then (find_assignment s aid) (\<lambda>a.
     and_then (need_worker au a) (\<lambda>_.
     and_then (active_permit s a) (\<lambda>_.
     and_then (validate_request s rid 1) (\<lambda>_.
     and_then (expect (map_get (sn_requests s) rid) ''request'') (\<lambda>r.
       if rq_kind r \<noteq> Question \<or> rq_assignment_id r \<noteq> Some aid
          \<or> rq_work_id r \<noteq> as_work_id a
          \<or> length packet_hash \<noteq> 64 \<or> \<not> list_all ascii_hexdigit packet_hash
       then invalid ''question yield binding mismatch''
       else
         let s1 = put_request rid (r\<lparr>rq_worker_packet_hash := Some packet_hash\<rparr>) s;
             s2 = put_assignment aid
               (bump (sn_seq s) (a\<lparr>as_awaiting_request := Some rid, as_state := A_Blocked\<rparr>)) s1
         in and_then (expect (map_get (sn_tickets s2) (as_work_id a)) ''work'') (\<lambda>work.
            Inr (put_ticket (as_work_id a)
              (touch (sn_seq s)
                (work\<lparr>tk_state := W_Blocked,
                      tk_blocked := Some \<lparr>
                        br_reason = ''awaiting a precise User answer and owned process stop'',
                        br_resume_state = W_Ready\<rparr>\<rparr>)) s2)))))))"

definition has_fingerprint :: "pending_request \<Rightarrow> string \<Rightarrow> bool" where
  "has_fingerprint r fp = (case rq_kind r of Approval _ actual \<Rightarrow> actual = fp | Question \<Rightarrow> False)"

definition op_decide_approval ::
  "authority \<Rightarrow> string \<Rightarrow> u64 \<Rightarrow> string \<Rightarrow> bool \<Rightarrow> snapshot \<Rightarrow> snapshot result"
where
  "op_decide_approval au rid prompt_revision fp approve s =
     and_then (need_user au) (\<lambda>_.
     and_then (validate_request s rid prompt_revision) (\<lambda>_.
     and_then (expect (map_get (sn_requests s) rid) ''request'') (\<lambda>r.
       if \<not> has_fingerprint r fp then invalid ''action fingerprint mismatch''
       else Inr (put_request rid
         (r\<lparr>rq_status := (if approve then R_Approved else R_Denied),
            rq_updated_seq := sn_seq s\<rparr>) s))))"

definition planned_effect :: "string \<Rightarrow> effect" where
  "planned_effect fp = \<lparr>ef_action_fingerprint = fp, ef_state = E_Planned,
     ef_provider_receipt = None, ef_artifact = None, ef_file_intent = None\<rparr>"

definition op_consume_approval ::
  "authority \<Rightarrow> string \<Rightarrow> string \<Rightarrow> string \<Rightarrow> snapshot \<Rightarrow> snapshot result"
where
  "op_consume_approval au rid fp attempt s =
     and_then (ok_or (map_get (sn_requests s) rid) (InvalidTransition ''request missing'')) (\<lambda>r.
     and_then (ok_or (rq_assignment_id r)
       (InvalidTransition ''approval has no execution binding'')) (\<lambda>aid.
     and_then (find_assignment s aid) (\<lambda>a.
     and_then (need_worker au a) (\<lambda>_.
     and_then (active_permit s a) (\<lambda>_.
       if attempt = [] \<or> starts_with attempt ''worker-file/'' \<or> \<not> has_fingerprint r fp
          \<or> rq_generation r \<noteq> as_generation a \<or> rq_contract_revision r \<noteq> as_contract_revision a
       then invalid ''approval binding mismatch''
       else if rq_status r = R_Consumed \<and> rq_consumed_attempt r = Some attempt then Inr s
       else if rq_status r \<noteq> R_Approved then invalid ''action is not approved or already consumed''
       else if has_key (as_effects a) attempt
       then invalid ''action attempt already belongs to another approval''
       else
         let s1 = put_request rid
               (r\<lparr>rq_status := R_Consumed, rq_consumed_attempt := Some attempt,
                  rq_updated_seq := sn_seq s\<rparr>) s
         in and_then (expect (map_get (sn_assignments s1) (as_id a)) ''assignment'') (\<lambda>a'.
            Inr (put_assignment (as_id a)
              (a'\<lparr>as_effects := map_put attempt (planned_effect fp) (as_effects a')\<rparr>) s1)))))))"

end
