(* ===== verification/Run_Ops.thy ===== *)
theory Run_Ops
  imports Project
begin

text \<open>
  The life of one execution attempt (\<open>service.rs\<close>): start, admission, running, plan
  replacement, effects, submission, and the four ways it ends (stop confirmed, Runtime
  stopped, completion reconciled, outcome unknown).
\<close>

section \<open>Start\<close>

definition conflicts :: "execution_workspace \<Rightarrow> execution_workspace \<Rightarrow> bool" where
  "conflicts w old =
     (\<not> disjoint_list (ew_claims w) (ew_claims old) \<or>
      list_ex (\<lambda>c. list_ex (\<lambda>o'. path_starts_with c o' \<or> path_starts_with o' c)
        (ew_write_roots old)) (ew_write_roots w))"

definition owner_conflict :: "snapshot \<Rightarrow> execution_workspace \<Rightarrow> bool" where
  "owner_conflict s w =
     list_ex (\<lambda>a. holds_resources a \<and>
        (case as_workspace a of None \<Rightarrow> False | Some old \<Rightarrow> conflicts w old))
       (vals (sn_assignments s))"

definition needs_write_roots :: "contract \<Rightarrow> bool" where
  "needs_write_roots c = list_ex (\<lambda>t. t = ''Read'' \<or> t = ''Write'') (co_allowed_tools c)"

definition check_start_workspace :: "env \<Rightarrow> snapshot \<Rightarrow> execution_workspace option \<Rightarrow> unit result" where
  "check_start_workspace E s ws =
     (case ws of
        None \<Rightarrow> Inr ()
      | Some w \<Rightarrow>
          and_then (validate_workspace E w) (\<lambda>_.
          and_then (canonicalize E (ew_worktree w)) (\<lambda>canonical.
            if (''worktree:'' @ canonical) \<notin> set (ew_claims w)
            then invalid ''code Assignment requires canonical worktree resource claim''
            else if owner_conflict s w
            then fail (ResourceBlocked ''workspace has an unconfirmed or active owner'')
            else Inr ())))"

definition dispatch_key_of :: "snapshot \<Rightarrow> string \<Rightarrow> u64 \<Rightarrow> string" where
  "dispatch_key_of s aid gen =
     sb_scope_id (sn_binding s) @ ''/'' @ aid @ ''/'' @ show_u64 gen"

definition spec_of ::
  "snapshot \<Rightarrow> string \<Rightarrow> ticket \<Rightarrow> string \<Rightarrow> string option \<Rightarrow> dependency_input list \<Rightarrow>
   execution_workspace option \<Rightarrow> dispatch_spec"
where
  "spec_of s i work aid context inputs ws = \<lparr>
     ds_project_context_hash = context, ds_binding = sn_binding s, ds_work_id = i,
     ds_assignment_id = aid, ds_generation = tk_generation work + 1,
     ds_contract_revision = tk_contract_revision work,
     ds_authority_epoch = sn_authority_epoch s, ds_contract = tk_contract work,
     ds_dependency_inputs = inputs, ds_workspace = ws\<rparr>"

definition new_assignment ::
  "snapshot \<Rightarrow> string \<Rightarrow> ticket \<Rightarrow> string \<Rightarrow> dependency_input list \<Rightarrow>
   execution_workspace option \<Rightarrow> assignment"
where
  "new_assignment s i work aid inputs ws = \<lparr>
     as_id = aid, as_work_id = i, as_generation = tk_generation work + 1,
     as_contract_revision = tk_contract_revision work,
     as_authority_epoch = sn_authority_epoch s, as_record_revision = 1,
     as_state = A_DispatchPending,
     as_dispatch_key = dispatch_key_of s aid (tk_generation work + 1),
     as_runtime = None, as_process_stopped = False, as_awaiting_request = None,
     as_dependency_inputs = inputs, as_plan = \<lparr>lp_plan_revision = 0, lp_steps = []\<rparr>,
     as_workspace = ws, as_allowed_tools = co_allowed_tools (tk_contract work),
     as_effects = [], as_updated_seq = sn_seq s\<rparr>"

definition start_work :: "u64 \<Rightarrow> string \<Rightarrow> ticket \<Rightarrow> ticket" where
  "start_work q aid work =
     touch q (work\<lparr>tk_generation := tk_generation work + 1, tk_active_assignment := Some aid,
                   tk_state := W_Active, tk_current_submission := None\<rparr>)"

definition install_start ::
  "snapshot \<Rightarrow> string \<Rightarrow> ticket \<Rightarrow> string \<Rightarrow> string option \<Rightarrow> string \<Rightarrow> dependency_input list \<Rightarrow>
   execution_workspace option \<Rightarrow> snapshot"
where
  "install_start s i work aid context h inputs ws =
     (let a = new_assignment s i work aid inputs ws;
          s1 = put_assignment aid a s;
          s2 = (case context of
                  None \<Rightarrow> s1
                | Some c \<Rightarrow> s1\<lparr>sn_project := (sn_project s1)\<lparr>ps_assignment_contexts :=
                    map_put aid c (ps_assignment_contexts (sn_project s1))\<rparr>\<rparr>);
          s3 = s2\<lparr>sn_intents := map_put (as_dispatch_key a)
                 \<lparr>in_assignment_id = aid, in_dispatch_key = as_dispatch_key a,
                  in_immutable_spec = spec_of s i work aid context inputs ws,
                  in_spec_hash = h, in_receipt = None\<rparr> (sn_intents s2)\<rparr>
      in put_ticket i (start_work (sn_seq s) aid work) s3)"

definition op_start ::
  "env \<Rightarrow> authority \<Rightarrow> string \<Rightarrow> string \<Rightarrow> execution_workspace option \<Rightarrow> snapshot \<Rightarrow> ctx \<Rightarrow>
   (snapshot \<times> ctx) result"
where
  "op_start E au i temp ws s cx =
     and_then (need_supervisor au) (\<lambda>_.
     and_then (find_ticket s i) (\<lambda>work.
       if tk_kind work \<noteq> K_Work \<or> tk_state work \<noteq> W_Ready \<or> tk_active_assignment work \<noteq> None
       then invalid ''start requires ready Work without an active Assignment''
       else
         and_then (validate_contract E (tk_contract work)) (\<lambda>_.
           if needs_write_roots (tk_contract work)
              \<and> (case ws of None \<Rightarrow> True | Some w \<Rightarrow> ew_write_roots w = [])
           then invalid ''file tools require nonempty canonical workspace write roots''
           else
             and_then (check_start_workspace E s ws) (\<lambda>_.
             and_then (context_for_start s work ws) (\<lambda>context.
             and_then (dependencies s work) (\<lambda>inputs.
             and_then (allocate E temp cx) (\<lambda>(aid, cx').
             and_then (digest E (Pl_Spec (spec_of s i work aid context inputs ws))) (\<lambda>h.
               Inr (install_start s i work aid context h inputs ws, cx')))))))))"

section \<open>Admission and running\<close>

definition admission_conflict :: "assignment \<Rightarrow> runtime_receipt \<Rightarrow> assignment \<Rightarrow> unit result" where
  "admission_conflict a receipt other =
     (if as_id other \<noteq> as_id a \<and> holds_resources other
      then
        if (case (as_workspace a, as_workspace other) of
              (Some w, Some v) \<Rightarrow> \<not> disjoint_list (ew_claims w) (ew_claims v)
            | _ \<Rightarrow> False)
        then fail (ResourceBlocked ''workspace claim already owned'')
        else if (case as_runtime other of None \<Rightarrow> False
                 | Some r \<Rightarrow> rr_session_id r = rr_session_id receipt)
        then fail (ResourceBlocked ''Session already has a writable Assignment'')
        else Inr ()
      else Inr ())"

definition admit :: "u64 \<Rightarrow> runtime_receipt \<Rightarrow> assignment \<Rightarrow> assignment" where
  "admit q receipt a = bump q (a\<lparr>as_runtime := Some receipt, as_state := A_Admitted\<rparr>)"

definition op_admitted ::
  "authority \<Rightarrow> string \<Rightarrow> runtime_receipt \<Rightarrow> snapshot \<Rightarrow> snapshot result"
where
  "op_admitted au aid receipt s =
     and_then (need_runtime au) (\<lambda>_.
     and_then (find_assignment s aid) (\<lambda>a.
     and_then (ok_or (map_get (sn_intents s) (as_dispatch_key a))
       (InvalidTransition ''missing intent'')) (\<lambda>intent.
       if rr_dispatch_key receipt \<noteq> as_dispatch_key a \<or> rr_spec_hash receipt \<noteq> in_spec_hash intent
          \<or> rr_run_id receipt = [] \<or> rr_session_id receipt = []
       then invalid ''Runtime receipt does not match immutable dispatch''
       else
         case as_runtime a of
           Some previous \<Rightarrow> if previous \<noteq> receipt then fail IdempotencyConflict else Inr s
         | None \<Rightarrow>
             and_then
               (if as_state a \<noteq> A_DispatchPending
                then invalid ''assignment is not dispatchable''
                else and_then (find_ticket s (as_work_id a)) (\<lambda>work.
                  if tk_state work = W_Cancelled
                  then invalid ''assignment is not dispatchable'' else Inr ())) (\<lambda>_.
             and_then (try_each (admission_conflict a receipt) (vals (sn_assignments s))) (\<lambda>_.
               Inr ((put_assignment aid (admit (sn_seq s) receipt a) s)
                      \<lparr>sn_intents := map_put (as_dispatch_key a)
                         (intent\<lparr>in_receipt := Some receipt\<rparr>) (sn_intents s)\<rparr>))))))"

definition op_running :: "authority \<Rightarrow> string \<Rightarrow> snapshot \<Rightarrow> snapshot result" where
  "op_running au aid s =
     and_then (need_runtime au) (\<lambda>_.
     and_then (find_assignment s aid) (\<lambda>a.
       if as_state a \<noteq> A_Admitted then invalid ''running requires admitted''
       else and_then (active_permit s a) (\<lambda>_.
         Inr (put_assignment aid (bump (sn_seq s) (a\<lparr>as_state := A_Running\<rparr>)) s))))"

definition op_replace_plan ::
  "authority \<Rightarrow> string \<Rightarrow> u64 \<Rightarrow> local_step list \<Rightarrow> snapshot \<Rightarrow> snapshot result"
where
  "op_replace_plan au aid expected steps s =
     and_then (find_assignment s aid) (\<lambda>a.
     and_then (need_worker au a) (\<lambda>_.
     and_then (active_permit s a) (\<lambda>_.
       if expected \<noteq> lp_plan_revision (as_plan a) then fail RevisionConflict
       else and_then (validate_plan steps) (\<lambda>_.
         Inr (put_assignment aid
           (bump (sn_seq s)
             (a\<lparr>as_plan := \<lparr>lp_plan_revision = lp_plan_revision (as_plan a) + 1,
                            lp_steps = steps\<rparr>\<rparr>)) s)))))"

section \<open>Effects and submission\<close>

definition op_record_effect ::
  "authority \<Rightarrow> string \<Rightarrow> string \<Rightarrow> effect \<Rightarrow> snapshot \<Rightarrow> snapshot result"
where
  "op_record_effect au aid attempt e s =
     and_then (find_assignment s aid) (\<lambda>a.
     and_then (need_worker au a) (\<lambda>_.
     and_then (active_permit s a) (\<lambda>_.
     and_then (ok_or (map_get (as_effects a) attempt)
       (InvalidTransition ''action attempt was not atomically authorized'')) (\<lambda>old.
       if starts_with attempt ''worker-file/'' \<or> ef_artifact old \<noteq> ef_artifact e
          \<or> ef_file_intent old \<noteq> ef_file_intent e
       then fail (ScopeDenied ''Host file receipts cannot be supplied by Worker'')
       else if ef_action_fingerprint old \<noteq> ef_action_fingerprint e
          \<or> \<not> valid_effect_transition (ef_state old) (ef_state e)
          \<or> ef_state old = ef_state e \<and> old \<noteq> e
       then invalid ''invalid effect transition''
       else if ef_state e = E_Succeeded
          \<and> (case ef_provider_receipt e of None \<Rightarrow> True | Some r \<Rightarrow> r = [])
       then invalid ''successful effect requires provider receipt''
       else Inr (put_assignment aid
         (bump (sn_seq s) (a\<lparr>as_effects := map_put attempt e (as_effects a)\<rparr>)) s)))))"

definition submission_stale :: "snapshot \<Rightarrow> assignment \<Rightarrow> ticket \<Rightarrow> bool" where
  "submission_stale s a work =
     (\<not> is_ok (current_attempt s a) \<or> tk_state work = W_Blocked
      \<or> dependencies s work \<noteq> Inr (as_dependency_inputs a))"

definition new_submission ::
  "snapshot \<Rightarrow> assignment \<Rightarrow> string \<Rightarrow> runtime_receipt \<Rightarrow> artifact list \<Rightarrow> string list \<Rightarrow> bool \<Rightarrow> submission"
where
  "new_submission s a i receipt artifacts evidence stale = \<lparr>
     su_id = i, su_work_id = as_work_id a, su_assignment_id = as_id a,
     su_generation = as_generation a, su_contract_revision = as_contract_revision a,
     su_runtime = receipt, su_dependency_inputs = as_dependency_inputs a,
     su_artifacts = artifacts, su_evidence = evidence, su_effects = as_effects a,
     su_stale = stale, su_updated_seq = sn_seq s\<rparr>"

definition put_submission :: "string \<Rightarrow> submission \<Rightarrow> snapshot \<Rightarrow> snapshot" where
  "put_submission i su s = s\<lparr>sn_submissions := map_put i su (sn_submissions s)\<rparr>"

definition op_submit ::
  "env \<Rightarrow> authority \<Rightarrow> string \<Rightarrow> string \<Rightarrow> artifact list \<Rightarrow> string list \<Rightarrow> snapshot \<Rightarrow> ctx \<Rightarrow>
   (snapshot \<times> ctx) result"
where
  "op_submit E au aid temp artifacts evidence s cx =
     and_then (find_assignment s aid) (\<lambda>a.
     and_then (need_worker au a) (\<lambda>_.
       if evidence = [] \<or> artifacts = []
       then invalid ''submission requires artifacts and evidence''
       else
         and_then (try_each validate_artifact artifacts) (\<lambda>_.
         and_then (find_ticket s (as_work_id a)) (\<lambda>work.
         and_then (allocate E temp cx) (\<lambda>(i, cx').
         and_then (expect (as_runtime a) ''verified Runtime'') (\<lambda>receipt.
           let stale = submission_stale s a work;
               s1 = put_submission i (new_submission s a i receipt artifacts evidence stale) s
           in if stale then Inr (s1, cx')
              else
                let s2 = put_ticket (as_work_id a)
                      (touch (sn_seq s)
                        (work\<lparr>tk_state := W_Submitted, tk_current_submission := Some i,
                              tk_active_assignment := None\<rparr>)) s1;
                    s3 = put_assignment aid (bump (sn_seq s) (a\<lparr>as_state := A_Submitted\<rparr>)) s2
                in Inr (invalidate_requests (as_work_id a) s3, cx')))))))"

section \<open>How an attempt ends\<close>

definition op_confirm_stopped :: "authority \<Rightarrow> string \<Rightarrow> bool \<Rightarrow> snapshot \<Rightarrow> snapshot result" where
  "op_confirm_stopped au aid reconciled s =
     and_then (need_runtime au) (\<lambda>_.
     and_then (find_assignment s aid) (\<lambda>a.
       if \<not> reconciled \<or> uncertain (as_effects a)
       then fail (ResourceBlocked ''effects not reconciled'')
       else if as_state a \<notin> {A_Cancelling, A_OutcomeUnknown, A_Failed, A_Submitted}
       then invalid ''stop confirmation requires terminal/cancelling/unknown attempt''
       else
         let a' = bump (sn_seq s)
               (a\<lparr>as_process_stopped := True,
                  as_state := (if as_state a \<noteq> A_Submitted then A_Cancelled else A_Submitted)\<rparr>);
             s1 = put_assignment aid a' s
         in and_then (expect (map_get (sn_tickets s1) (as_work_id a)) ''work'') (\<lambda>work.
            Inr (if tk_active_assignment work = Some aid
                 then put_ticket (as_work_id a)
                   (touch (sn_seq s)
                     (let w = work\<lparr>tk_active_assignment := None\<rparr>
                      in if tk_state w = W_Blocked \<and> \<not> tk_paused w
                            \<and> (case tk_blocked w of None \<Rightarrow> False | Some b \<Rightarrow> br_resume_state b = W_Ready)
                         then w\<lparr>tk_state := W_Ready, tk_blocked := None\<rparr> else w)) s1
                 else s1))))"

definition stopped_state ::
  "bool \<Rightarrow> bool \<Rightarrow> bool \<Rightarrow> bool \<Rightarrow> assignment_state \<Rightarrow> assignment_state"
where
  "stopped_state effects_unknown cancelled waiting completed st =
     (if effects_unknown then A_OutcomeUnknown
      else if cancelled then A_Cancelled
      else if waiting then A_Blocked
      else if \<not> completed \<and> st \<noteq> A_Submitted then A_Failed
      else st)"

text \<open>A late stopped run changes the Work only when it is the Work's active attempt.\<close>

definition stopped_work ::
  "u64 \<Rightarrow> assignment \<Rightarrow> bool \<Rightarrow> bool \<Rightarrow> bool \<Rightarrow> bool \<Rightarrow> bool \<Rightarrow> ticket \<Rightarrow> ticket"
where
  "stopped_work q a effects_unknown cancelled waiting unanswered completed work =
     (if waiting \<and> \<not> effects_unknown \<and> \<not> cancelled
         \<and> as_generation a = tk_generation work
         \<and> as_contract_revision a = tk_contract_revision work
      then
        let w = work\<lparr>tk_active_assignment := None\<rparr>
        in touch q (if \<not> unanswered \<and> \<not> tk_paused w
                    then w\<lparr>tk_state := W_Ready, tk_blocked := None\<rparr> else w)
      else if (cancelled \<or> tk_paused work) \<and> \<not> effects_unknown
      then touch q (work\<lparr>tk_active_assignment := None\<rparr>)
      else if effects_unknown \<or> \<not> completed
      then
        let w = work\<lparr>tk_blocked := Some \<lparr>
              br_reason = (if effects_unknown
                           then ''stopped process has unreconciled external effects''
                           else ''Runtime stopped without a completed result''),
              br_resume_state = W_Ready\<rparr>\<rparr>
        in touch q (if \<not> cancelled then w\<lparr>tk_state := W_Blocked\<rparr> else w)
      else work)"

definition op_runtime_stopped ::
  "authority \<Rightarrow> string \<Rightarrow> runtime_receipt \<Rightarrow> bool \<Rightarrow> snapshot \<Rightarrow> snapshot result"
where
  "op_runtime_stopped au aid receipt completed s =
     and_then (need_runtime au) (\<lambda>_.
     and_then (find_assignment s aid) (\<lambda>a.
       if as_runtime a \<noteq> Some receipt
       then fail (ScopeDenied ''stop proof differs from Runtime receipt'')
       else
         and_then (find_ticket s (as_work_id a)) (\<lambda>work.
           let unknown = uncertain (as_effects a);
               cancelled = (tk_state work = W_Cancelled);
               waiting = (as_awaiting_request a \<noteq> None);
               unanswered = list_ex (\<lambda>r. rq_work_id r = as_work_id a \<and> rq_status r = R_Open)
                              (vals (sn_requests s));
               a' = bump (sn_seq s)
                 (a\<lparr>as_process_stopped := True,
                    as_state := stopped_state unknown cancelled waiting completed (as_state a)\<rparr>);
               s1 = put_assignment aid a' s
           in Inr (if tk_active_assignment work = Some aid
                   then put_ticket (as_work_id a)
                     (stopped_work (sn_seq s) a unknown cancelled waiting unanswered completed work) s1
                   else s1))))"

definition reconcilable :: "snapshot \<Rightarrow> string \<Rightarrow> assignment \<Rightarrow> runtime_receipt \<Rightarrow> ticket \<Rightarrow> bool" where
  "reconcilable s aid a receipt work =
     (as_process_stopped a \<and> as_runtime a = Some receipt \<and> \<not> uncertain (as_effects a)
      \<and> tk_generation work = as_generation a
      \<and> tk_contract_revision work = as_contract_revision a
      \<and> tk_active_assignment work = Some aid \<and> tk_state work \<noteq> W_Cancelled)"

definition op_reconcile_completed ::
  "authority \<Rightarrow> string \<Rightarrow> runtime_receipt \<Rightarrow> snapshot \<Rightarrow> snapshot result"
where
  "op_reconcile_completed au aid receipt s =
     and_then (need_runtime au) (\<lambda>_.
     and_then (find_assignment s aid) (\<lambda>a.
     and_then (find_ticket s (as_work_id a)) (\<lambda>work.
       if \<not> reconcilable s aid a receipt work
       then invalid ''canonical completed attempt cannot be reconciled''
       else
         and_then (dependencies s work) (\<lambda>inputs.
           if inputs \<noteq> as_dependency_inputs a
              \<or> \<not> (as_state a = A_OutcomeUnknown \<or> as_state a = A_Running)
           then invalid ''canonical completed attempt cannot be reconciled''
           else
             let s1 = put_assignment aid
                   (bump (sn_seq s)
                     (a\<lparr>as_authority_epoch := sn_authority_epoch s, as_state := A_Running\<rparr>)) s
             in Inr (put_ticket (as_work_id a)
               (touch (sn_seq s) (work\<lparr>tk_state := W_Active, tk_blocked := None\<rparr>)) s1)))))"

definition op_outcome_unknown :: "authority \<Rightarrow> string \<Rightarrow> string \<Rightarrow> snapshot \<Rightarrow> snapshot result" where
  "op_outcome_unknown au aid reason s =
     and_then (need_runtime au) (\<lambda>_.
     and_then (ok_or (map_get (sn_assignments s) aid)
       (InvalidTransition ''assignment missing'')) (\<lambda>a.
       let s1 = put_assignment aid (bump (sn_seq s) (a\<lparr>as_state := A_OutcomeUnknown\<rparr>)) s
       in and_then (expect (map_get (sn_tickets s1) (as_work_id a)) ''work'') (\<lambda>work.
          Inr (if tk_state work \<noteq> W_Cancelled
               then put_ticket (as_work_id a)
                 (touch (sn_seq s)
                   (work\<lparr>tk_blocked := Some \<lparr>br_reason = reason, br_resume_state = tk_state work\<rparr>,
                         tk_state := W_Blocked\<rparr>)) s1
               else s1))))"

end
