(* ===== verification/Apply.thy ===== *)
theory Apply
  imports Work_Ops Request_Ops Run_Ops
begin

text \<open>
  The dispatcher \<open>apply\<close> of \<open>service.rs\<close> and the batch \<open>apply_operations\<close>.  An
  operation runs on the result of the previous ones; nothing is validated between them.
\<close>

definition keep_ctx :: "ctx \<Rightarrow> snapshot result \<Rightarrow> (snapshot \<times> ctx) result" where
  "keep_ctx cx r = and_then r (\<lambda>s. Inr (s, cx))"

lemma keep_ctx_Inr [result_simps]:
  "keep_ctx cx r = Inr p \<longleftrightarrow> (\<exists>s. r = Inr s \<and> p = (s, cx))"
  by (auto simp: keep_ctx_def result_simps)

fun apply_op :: "env \<Rightarrow> authority \<Rightarrow> operation \<Rightarrow> snapshot \<Rightarrow> ctx \<Rightarrow> (snapshot \<times> ctx) result" where
  "apply_op E au (Op_AssociateProject i project) s cx =
     keep_ctx cx (and_then (need_supervisor au) (\<lambda>_. associate (resolve (cx_ids cx) i) project s))"
| "apply_op E au (Op_SetProjectContext i c) s cx =
     keep_ctx cx (and_then (need_supervisor au) (\<lambda>_. set_context E (resolve (cx_ids cx) i) c s))"
| "apply_op E au (Op_Create temp kind parent c deps) s cx = op_create E au temp kind parent c deps s cx"
| "apply_op E au (Op_SetPlanningMetadata i expected priority deadline) s cx =
     keep_ctx cx (planning_set E au (resolve (cx_ids cx) i) expected priority deadline s)"
| "apply_op E au (Op_Ready i) s cx = keep_ctx cx (op_ready au (resolve (cx_ids cx) i) s)"
| "apply_op E au (Op_UpdateContract i c) s cx =
     keep_ctx cx (op_update_contract E au (resolve (cx_ids cx) i) c s)"
| "apply_op E au (Op_SetDependencies i deps) s cx =
     keep_ctx cx (op_set_dependencies au (cx_ids cx) (resolve (cx_ids cx) i) deps s)"
| "apply_op E au (Op_Start i temp ws) s cx = op_start E au (resolve (cx_ids cx) i) temp ws s cx"
| "apply_op E au (Op_Admitted aid receipt) s cx = keep_ctx cx (op_admitted au aid receipt s)"
| "apply_op E au (Op_Running aid) s cx = keep_ctx cx (op_running au aid s)"
| "apply_op E au (Op_ReplacePlan aid expected steps) s cx =
     keep_ctx cx (op_replace_plan au aid expected steps s)"
| "apply_op E au (Op_Ask i temp prompt act) s cx =
     op_ask E au (resolve (cx_ids cx) i) temp prompt act s cx"
| "apply_op E au (Op_YieldForInput aid rid h) s cx =
     keep_ctx cx (op_yield_for_input au aid (resolve (cx_ids cx) rid) h s)"
| "apply_op E au (Op_Answer rid n answer) s cx = keep_ctx cx (op_answer au rid n answer s)"
| "apply_op E au (Op_DecideApproval rid n fp approve) s cx =
     keep_ctx cx (op_decide_approval au rid n fp approve s)"
| "apply_op E au (Op_ConsumeApproval rid fp attempt) s cx =
     keep_ctx cx (op_consume_approval au rid fp attempt s)"
| "apply_op E au (Op_RecordEffect aid attempt e) s cx =
     keep_ctx cx (op_record_effect au aid attempt e s)"
| "apply_op E au (Op_Submit aid temp artifacts evidence) s cx =
     op_submit E au aid temp artifacts evidence s cx"
| "apply_op E au (Op_Accept i sid evidence) s cx = keep_ctx cx (op_accept au i sid evidence s)"
| "apply_op E au (Op_AcceptGoal i evidence) s cx = keep_ctx cx (op_accept_goal au i evidence s)"
| "apply_op E au (Op_Reject i sid reason) s cx = keep_ctx cx (op_reject au i sid reason s)"
| "apply_op E au (Op_Cancel i) s cx = keep_ctx cx (op_cancel au i s)"
| "apply_op E au (Op_Pause i reason) s cx = keep_ctx cx (op_pause au i reason s)"
| "apply_op E au (Op_ConfirmStopped aid reconciled) s cx =
     keep_ctx cx (op_confirm_stopped au aid reconciled s)"
| "apply_op E au (Op_RuntimeStopped aid receipt completed) s cx =
     keep_ctx cx (op_runtime_stopped au aid receipt completed s)"
| "apply_op E au (Op_ReconcileCompleted aid receipt) s cx =
     keep_ctx cx (op_reconcile_completed au aid receipt s)"
| "apply_op E au (Op_OutcomeUnknown aid reason) s cx =
     keep_ctx cx (op_outcome_unknown au aid reason s)"
| "apply_op E au (Op_Reopen i) s cx = keep_ctx cx (op_reopen au i s)"
| "apply_op E au (Op_Archive i archived) s cx = keep_ctx cx (op_archive au i archived s)"
| "apply_op E au (Op_ResolveMessage r) s cx = keep_ctx cx (op_resolve_message E au r s)"
| "apply_op E au (Op_Import temp c source) s cx = op_import E au temp c source s cx"
| "apply_op E au (Op_AttachLegacy source) s cx = keep_ctx cx (op_attach_legacy E au source s)"

text \<open>A Worker's write roots must not overlap the directory of the store.\<close>

definition check_store_root :: "env \<Rightarrow> string \<Rightarrow> string \<Rightarrow> unit result" where
  "check_store_root E root write_root =
     and_then (canonicalize E write_root) (\<lambda>path.
       if path_starts_with root path \<or> path_starts_with path root
       then fail (ScopeDenied ''Ticket authority cannot be in a Worker write root'')
       else Inr ())"

definition check_roots :: "env \<Rightarrow> string \<Rightarrow> operation \<Rightarrow> unit result" where
  "check_roots E root op =
     (case op of
        Op_Start _ _ (Some w) \<Rightarrow> try_each (check_store_root E root) (ew_write_roots w)
      | _ \<Rightarrow> Inr ())"

definition apply_step ::
  "env \<Rightarrow> string \<Rightarrow> authority \<Rightarrow> snapshot \<times> ctx \<Rightarrow> operation \<Rightarrow> (snapshot \<times> ctx) result"
where
  "apply_step E root au p op =
     and_then (check_roots E root op) (\<lambda>_. apply_op E au op (fst p) (snd p))"

definition initial_ctx :: ctx where
  "initial_ctx = \<lparr>cx_ids = [], cx_drawn = 0\<rparr>"

definition apply_operations ::
  "env \<Rightarrow> string \<Rightarrow> authority \<Rightarrow> operation list \<Rightarrow> snapshot \<Rightarrow>
   (snapshot \<times> (string, string) btree_map) result"
where
  "apply_operations E root au ops s =
     and_then (try_fold (apply_step E root au) (s, initial_ctx) ops)
       (\<lambda>p. Inr (fst p, cx_ids (snd p)))"

text \<open>An invariant every operation keeps is kept by a batch.\<close>

lemma apply_operations_invariant:
  assumes "apply_operations E root au ops s = Inr (t, ids)" "P s"
    and step: "\<And>op s cx s' cx'. op \<in> set ops \<Longrightarrow> P s \<Longrightarrow> apply_op E au op s cx = Inr (s', cx') \<Longrightarrow> P s'"
  shows "P t"
proof -
  from assms(1) obtain p where p: "try_fold (apply_step E root au) (s, initial_ctx) ops = Inr p" "t = fst p"
    by (auto simp: apply_operations_def result_simps)
  have "P (fst p)"
    using p(1)
    by (rule try_fold_invariant [where P = "\<lambda>p. P (fst p)"])
      (use assms(2) step in \<open>auto simp: apply_step_def result_simps\<close>)
  with p show ?thesis by simp
qed

end
