(* ===== verification/Evolution.thy ===== *)
theory Evolution
  imports Apply
begin

text \<open>
  What no operation ever undoes.  Each kind of record has a preorder: the fields that
  never change, and the direction in which the others may move.  \<open>keeps N\<close> lifts a
  preorder to a map whose entries are never removed and that gains entries for the
  identifiers \<open>N\<close> only; \<open>evolves N\<close> collects the maps of a snapshot.  The lifting
  is proved once, in the locale \<open>evolving\<close>.
\<close>

section \<open>Maps whose entries only move forward\<close>

definition keeps ::
  "('v \<Rightarrow> 'v \<Rightarrow> bool) \<Rightarrow> ('k \<Rightarrow> 'v \<Rightarrow> bool) \<Rightarrow> ('k, 'v) btree_map \<Rightarrow> ('k, 'v) btree_map \<Rightarrow> bool"
where
  "keeps le new m n =
     ((\<forall>k v. map_get m k = Some v \<longrightarrow> (\<exists>w. map_get n k = Some w \<and> le v w)) \<and>
      (\<forall>k w. map_get m k = None \<longrightarrow> map_get n k = Some w \<longrightarrow> new k w))"

text \<open>A record added under one of the identifiers \<open>N\<close>, which is its own.\<close>

definition named_by :: "('v \<Rightarrow> 'k) \<Rightarrow> 'k set \<Rightarrow> 'k \<Rightarrow> 'v \<Rightarrow> bool" where
  "named_by f N k v = (k \<in> N \<and> f v = k)"

definition any_new :: "'k \<Rightarrow> 'v \<Rightarrow> bool" where
  "any_new k v = True"

lemma keepsD:
  "keeps le new m n \<Longrightarrow> map_get m k = Some v \<Longrightarrow> \<exists>w. map_get n k = Some w \<and> le v w"
  by (simp add: keeps_def)

lemma keeps_newD:
  "keeps le new m n \<Longrightarrow> map_get n k = Some w \<Longrightarrow> map_get m k = None \<Longrightarrow> new k w"
  by (simp add: keeps_def)

lemma keeps_has_key: "keeps le new m n \<Longrightarrow> has_key m k \<Longrightarrow> has_key n k"
  by (auto simp: has_key_iff dest: keepsD)

text \<open>Records stored under their own identifier stay so.\<close>

lemma keeps_keyed:
  assumes "keeps le (named_by f N) m n" "\<forall>k v. map_get m k = Some v \<longrightarrow> f v = k"
    and "\<And>v w. le v w \<Longrightarrow> f w = f v"
  shows "\<forall>k v. map_get n k = Some v \<longrightarrow> f v = k"
proof (intro allI impI)
  fix k w assume w: "map_get n k = Some w"
  show "f w = k"
  proof (cases "map_get m k")
    case None
    with assms(1) w show ?thesis by (auto simp: named_by_def dest: keeps_newD)
  next
    case (Some v)
    with assms w show ?thesis by (metis keepsD option.inject)
  qed
qed

locale evolving =
  fixes le :: "'v \<Rightarrow> 'v \<Rightarrow> bool"
    and new :: "'k::linorder \<Rightarrow> 'v \<Rightarrow> bool"
  assumes le_refl: "le v v"
    and le_trans: "le u v \<Longrightarrow> le v w \<Longrightarrow> le u w"
    and new_le: "new k v \<Longrightarrow> le v w \<Longrightarrow> new k w"
begin

lemma keeps_refl: "keeps le new m m"
  by (simp add: keeps_def le_refl)

lemma keeps_trans:
  assumes "keeps le new l m" "keeps le new m n"
  shows "keeps le new l n"
  unfolding keeps_def
proof (intro conjI allI impI)
  fix k v assume "map_get l k = Some v"
  then obtain u where u: "map_get m k = Some u" "le v u" using assms(1) by (auto dest: keepsD)
  then obtain w where "map_get n k = Some w" "le u w" using assms(2) by (auto dest: keepsD)
  with le_trans [OF u(2)] show "\<exists>w. map_get n k = Some w \<and> le v w" by blast
next
  fix k w assume l: "map_get l k = None" and n: "map_get n k = Some w"
  show "new k w"
  proof (cases "map_get m k")
    case None
    then show ?thesis using keeps_newD [OF assms(2) n] by blast
  next
    case (Some v)
    then have "new k v" using keeps_newD [OF assms(1)] l by blast
    moreover have "le v w" using assms(2) Some n by (metis keepsD option.inject)
    ultimately show ?thesis by (rule new_le)
  qed
qed

lemma keeps_put: "map_get m k = Some v \<Longrightarrow> le v w \<Longrightarrow> keeps le new m (map_put k w m)"
  by (auto simp: keeps_def le_refl)

lemma keeps_new: "map_get m k = None \<Longrightarrow> new k w \<Longrightarrow> keeps le new m (map_put k w m)"
  by (auto simp: keeps_def le_refl)

lemma keeps_map_vals: "(\<And>v. le v (f v)) \<Longrightarrow> keeps le new m (map_vals f m)"
  by (auto simp: keeps_def)

end

section \<open>Effects\<close>

definition effect_state_le :: "effect_state \<Rightarrow> effect_state \<Rightarrow> bool" where
  "effect_state_le old new =
     (old = new \<or> old = E_Planned \<or> old = E_Started \<and> (new = E_Succeeded \<or> new = E_OutcomeUnknown))"

lemma valid_effect_transition_le: "valid_effect_transition old new \<Longrightarrow> effect_state_le old new"
  by (auto simp: valid_effect_transition_def effect_state_le_def)

definition effect_le :: "effect \<Rightarrow> effect \<Rightarrow> bool" where
  "effect_le e e' =
     (ef_action_fingerprint e' = ef_action_fingerprint e \<and> ef_artifact e' = ef_artifact e
      \<and> ef_file_intent e' = ef_file_intent e \<and> effect_state_le (ef_state e) (ef_state e'))"

interpretation ek: evolving effect_le any_new
  by unfold_locales (auto simp: effect_le_def effect_state_le_def any_new_def)

section \<open>Attempts\<close>

definition attempt_le :: "assignment \<Rightarrow> assignment \<Rightarrow> bool" where
  "attempt_le a a' =
     (as_id a' = as_id a \<and> as_work_id a' = as_work_id a \<and> as_generation a' = as_generation a
      \<and> as_contract_revision a' = as_contract_revision a \<and> as_dispatch_key a' = as_dispatch_key a
      \<and> as_dependency_inputs a' = as_dependency_inputs a \<and> as_workspace a' = as_workspace a
      \<and> as_allowed_tools a' = as_allowed_tools a
      \<and> (as_runtime a \<noteq> None \<longrightarrow> as_runtime a' = as_runtime a)
      \<and> keeps effect_le any_new (as_effects a) (as_effects a')
      \<and> (as_process_stopped a \<longrightarrow> as_process_stopped a' \<and> as_effects a' = as_effects a))"

interpretation ak: evolving attempt_le "named_by as_id N" for N
  by unfold_locales (auto simp: attempt_le_def named_by_def ek.keeps_refl intro: ek.keeps_trans)

section \<open>Tickets, requests, intents\<close>

definition ticket_le :: "ticket \<Rightarrow> ticket \<Rightarrow> bool" where
  "ticket_le t t' =
     (tk_id t' = tk_id t \<and> tk_scope_id t' = tk_scope_id t \<and> tk_kind t' = tk_kind t
      \<and> tk_parent t' = tk_parent t \<and> tk_import_source t' = tk_import_source t)"

interpretation tk: evolving ticket_le "named_by tk_id N" for N
  by unfold_locales (auto simp: ticket_le_def named_by_def)

definition request_status_le :: "request_status \<Rightarrow> request_status \<Rightarrow> bool" where
  "request_status_le old new =
     (old = new \<or> old = R_Open
      \<or> old = R_Approved \<and> (new = R_Consumed \<or> new = R_Superseded \<or> new = R_Expired))"

definition request_le :: "pending_request \<Rightarrow> pending_request \<Rightarrow> bool" where
  "request_le r r' =
     (rq_id r' = rq_id r \<and> rq_work_id r' = rq_work_id r \<and> rq_assignment_id r' = rq_assignment_id r
      \<and> rq_generation r' = rq_generation r \<and> rq_contract_revision r' = rq_contract_revision r
      \<and> rq_prompt_revision r' = rq_prompt_revision r \<and> rq_kind r' = rq_kind r
      \<and> rq_prompt r' = rq_prompt r
      \<and> request_status_le (rq_status r) (rq_status r')
      \<and> (rq_status r \<noteq> R_Open \<longrightarrow> rq_answer r' = rq_answer r)
      \<and> (rq_status r = R_Consumed \<longrightarrow> rq_consumed_attempt r' = rq_consumed_attempt r))"

interpretation rk: evolving request_le "named_by rq_id N" for N
  by unfold_locales (auto simp: request_le_def request_status_le_def named_by_def)

definition intent_le :: "dispatch_intent \<Rightarrow> dispatch_intent \<Rightarrow> bool" where
  "intent_le i i' =
     (in_assignment_id i' = in_assignment_id i \<and> in_dispatch_key i' = in_dispatch_key i
      \<and> in_immutable_spec i' = in_immutable_spec i \<and> in_spec_hash i' = in_spec_hash i)"

interpretation nk: evolving intent_le any_new
  by unfold_locales (auto simp: intent_le_def any_new_def)

text \<open>Submissions are never rewritten.\<close>

interpretation sk: evolving "(=)" "named_by su_id N" for N
  by unfold_locales simp_all

section \<open>Snapshots\<close>

text \<open>An intent is added with the attempt it dispatches, under that attempt's key.\<close>

definition new_intents :: "string set \<Rightarrow> snapshot \<Rightarrow> snapshot \<Rightarrow> bool" where
  "new_intents N s t =
     (\<forall>k i. map_get (sn_intents t) k = Some i \<longrightarrow> map_get (sn_intents s) k = None \<longrightarrow>
        in_assignment_id i \<in> N \<and> in_dispatch_key i = k \<and>
        k = dispatch_key_of s (in_assignment_id i) (ds_generation (in_immutable_spec i)) \<and>
        has_key (sn_assignments t) (in_assignment_id i))"

definition evolves :: "string set \<Rightarrow> snapshot \<Rightarrow> snapshot \<Rightarrow> bool" where
  "evolves N s t =
     (sn_binding t = sn_binding s
      \<and> sn_receipts t = sn_receipts s
      \<and> keeps ticket_le (named_by tk_id N) (sn_tickets s) (sn_tickets t)
      \<and> keeps attempt_le (named_by as_id N) (sn_assignments s) (sn_assignments t)
      \<and> keeps request_le (named_by rq_id N) (sn_requests s) (sn_requests t)
      \<and> keeps (=) (named_by su_id N) (sn_submissions s) (sn_submissions t)
      \<and> keeps intent_le any_new (sn_intents s) (sn_intents t)
      \<and> new_intents N s t)"

lemmas keeps_refls = tk.keeps_refl ak.keeps_refl rk.keeps_refl sk.keeps_refl nk.keeps_refl

lemma new_intents_same [simp]: "sn_intents t = sn_intents s \<Longrightarrow> new_intents N s t"
  by (simp add: new_intents_def)

lemma new_intents_trans:
  assumes "new_intents N s t" "new_intents N t u" "sn_binding t = sn_binding s"
    and "keeps intent_le any_new (sn_intents t) (sn_intents u)"
    and "keeps attempt_le (named_by as_id N) (sn_assignments t) (sn_assignments u)"
  shows "new_intents N s u"
  unfolding new_intents_def
proof (intro allI impI)
  fix k i
  assume u: "map_get (sn_intents u) k = Some i" and s: "map_get (sn_intents s) k = None"
  show "in_assignment_id i \<in> N \<and> in_dispatch_key i = k \<and>
        k = dispatch_key_of s (in_assignment_id i) (ds_generation (in_immutable_spec i)) \<and>
        has_key (sn_assignments u) (in_assignment_id i)"
  proof (cases "map_get (sn_intents t) k")
    case None
    then show ?thesis
      using assms(2,3) u by (auto simp: new_intents_def dispatch_key_of_def)
  next
    case (Some j)
    with assms(4) u have "intent_le j i" by (metis keepsD option.inject)
    moreover have "in_assignment_id j \<in> N \<and> in_dispatch_key j = k \<and>
        k = dispatch_key_of s (in_assignment_id j) (ds_generation (in_immutable_spec j)) \<and>
        has_key (sn_assignments t) (in_assignment_id j)"
      using assms(1) Some s by (auto simp: new_intents_def)
    ultimately show ?thesis
      using keeps_has_key [OF assms(5)] by (auto simp: intent_le_def)
  qed
qed

interpretation sn: evolving "evolves N" "any_new :: nat \<Rightarrow> snapshot \<Rightarrow> bool" for N :: "string set"
proof
  show "evolves N s s" for s by (simp add: evolves_def keeps_refls)
next
  show "evolves N s t \<Longrightarrow> evolves N t u \<Longrightarrow> evolves N s u" for s t u
    by (auto simp: evolves_def intro: tk.keeps_trans ak.keeps_trans rk.keeps_trans
        sk.keeps_trans nk.keeps_trans new_intents_trans)
qed (simp add: any_new_def)

lemma evolves_put_ticket:
  "map_get (sn_tickets s) i = Some t \<Longrightarrow> ticket_le t t' \<Longrightarrow> evolves N s (put_ticket i t' s)"
  by (simp add: evolves_def put_ticket_def keeps_refls tk.keeps_put)

lemma evolves_put_assignment:
  "map_get (sn_assignments s) i = Some a \<Longrightarrow> attempt_le a a' \<Longrightarrow> evolves N s (put_assignment i a' s)"
  by (simp add: evolves_def put_assignment_def keeps_refls ak.keeps_put)

lemma evolves_put_request:
  "map_get (sn_requests s) i = Some r \<Longrightarrow> request_le r r' \<Longrightarrow> evolves N s (put_request i r' s)"
  by (simp add: evolves_def put_request_def keeps_refls rk.keeps_put)

lemma request_le_supersede: "request_le r (supersede q i r)"
  by (auto simp: request_le_def supersede_def request_status_le_def)

lemma evolves_invalidate_requests: "evolves N s (invalidate_requests i s)"
  by (simp add: evolves_def invalidate_requests_def keeps_refls rk.keeps_map_vals
      request_le_supersede)

lemma evolves_frame:
  assumes "sn_binding t = sn_binding s" "sn_tickets t = sn_tickets s"
    "sn_assignments t = sn_assignments s" "sn_requests t = sn_requests s"
    "sn_submissions t = sn_submissions s" "sn_receipts t = sn_receipts s"
    "sn_intents t = sn_intents s"
  shows "evolves N s t"
  using assms by (simp add: evolves_def keeps_refls)

text \<open>How single updates extend an evolution.\<close>

lemma evolves_then_ticket:
  "evolves N s t \<Longrightarrow> map_get (sn_tickets t) i = Some w \<Longrightarrow> ticket_le w w' \<Longrightarrow> evolves N s (put_ticket i w' t)"
  by (rule sn.le_trans [OF _ evolves_put_ticket])

lemma evolves_then_assignment:
  "evolves N s t \<Longrightarrow> map_get (sn_assignments t) i = Some a \<Longrightarrow> attempt_le a a' \<Longrightarrow>
     evolves N s (put_assignment i a' t)"
  by (rule sn.le_trans [OF _ evolves_put_assignment])

lemma evolves_then_request:
  "evolves N s t \<Longrightarrow> map_get (sn_requests t) i = Some r \<Longrightarrow> request_le r r' \<Longrightarrow>
     evolves N s (put_request i r' t)"
  by (rule sn.le_trans [OF _ evolves_put_request])

lemma evolves_then_invalidate: "evolves N s t \<Longrightarrow> evolves N s (invalidate_requests i t)"
  by (rule sn.le_trans [OF _ evolves_invalidate_requests])

lemma put_frames [simp]:
  "sn_assignments (put_ticket i t s) = sn_assignments s"
  "sn_requests (put_ticket i t s) = sn_requests s"
  "sn_tickets (put_ticket i t s) = map_put i t (sn_tickets s)"
  "sn_submissions (put_ticket i t s) = sn_submissions s"
  "sn_intents (put_ticket i t s) = sn_intents s"
  "sn_receipts (put_ticket i t s) = sn_receipts s"
  "sn_binding (put_ticket i t s) = sn_binding s"
  "sn_seq (put_ticket i t s) = sn_seq s"
  "sn_authority_epoch (put_ticket i t s) = sn_authority_epoch s"
  "sn_project (put_ticket i t s) = sn_project s"
  "sn_tickets (put_assignment i a s) = sn_tickets s"
  "sn_requests (put_assignment i a s) = sn_requests s"
  "sn_assignments (put_assignment i a s) = map_put i a (sn_assignments s)"
  "sn_submissions (put_assignment i a s) = sn_submissions s"
  "sn_intents (put_assignment i a s) = sn_intents s"
  "sn_receipts (put_assignment i a s) = sn_receipts s"
  "sn_binding (put_assignment i a s) = sn_binding s"
  "sn_seq (put_assignment i a s) = sn_seq s"
  "sn_authority_epoch (put_assignment i a s) = sn_authority_epoch s"
  "sn_project (put_assignment i a s) = sn_project s"
  by (simp_all add: put_ticket_def put_assignment_def)

lemma put_request_frames [simp]:
  "sn_tickets (put_request i r s) = sn_tickets s"
  "sn_assignments (put_request i r s) = sn_assignments s"
  "sn_requests (put_request i r s) = map_put i r (sn_requests s)"
  "sn_submissions (put_request i r s) = sn_submissions s"
  "sn_intents (put_request i r s) = sn_intents s"
  "sn_receipts (put_request i r s) = sn_receipts s"
  "sn_binding (put_request i r s) = sn_binding s"
  "sn_seq (put_request i r s) = sn_seq s"
  "sn_authority_epoch (put_request i r s) = sn_authority_epoch s"
  "sn_tickets (invalidate_requests w s) = sn_tickets s"
  "sn_assignments (invalidate_requests w s) = sn_assignments s"
  "sn_submissions (invalidate_requests w s) = sn_submissions s"
  "sn_intents (invalidate_requests w s) = sn_intents s"
  "sn_receipts (invalidate_requests w s) = sn_receipts s"
  "sn_binding (invalidate_requests w s) = sn_binding s"
  "sn_seq (invalidate_requests w s) = sn_seq s"
  "sn_authority_epoch (invalidate_requests w s) = sn_authority_epoch s"
  by (simp_all add: put_request_def invalidate_requests_def)

lemmas evolves_steps = evolves_then_ticket evolves_then_assignment evolves_then_request
  evolves_then_invalidate

section \<open>Tickets and attempts that an update leaves in place\<close>

lemma ticket_le_touch [simp]: "ticket_le t (touch q t') \<longleftrightarrow> ticket_le t t'"
  by (simp add: ticket_le_def touch_def)

lemma attempt_le_bump [simp]: "attempt_le a (bump q a') \<longleftrightarrow> attempt_le a a'"
  by (simp add: attempt_le_def bump_def)

lemma attempt_le_cancel [simp]: "attempt_le a (cancel_assignment q a)"
  by (auto simp: cancel_assignment_def bump_def attempt_le_def ek.keeps_refl)

lemma ticket_le_block_goal [simp]: "ticket_le t (block_goal q t)"
  by (simp add: block_goal_def ticket_le_def touch_def)

lemma ticket_le_revoke [simp]: "ticket_le t (revoke_work q t)"
  by (simp add: revoke_work_def ticket_le_def touch_def)

lemma ticket_le_replace [simp]: "ticket_le t (replace_contract q c t)"
  by (simp add: replace_contract_def ticket_le_def touch_def)

lemma walk_parents_evolves:
  "walk_parents n s nxt = Inr t \<Longrightarrow> evolves N u s \<Longrightarrow> evolves N u t"
proof (induction n s nxt arbitrary: t rule: walk_parents.induct)
  case (3 n s i)
  then obtain g where g: "map_get (sn_tickets s) i = Some g"
    and rest: "walk_parents n
       (if tk_state g = W_Accepted then put_ticket i (block_goal (sn_seq s) g) s else s)
       (tk_parent g) = Inr t"
    by (auto simp: result_simps)
  show ?case
    by (rule "3.IH" [OF rest]) (use g "3.prems"(2) in \<open>auto simp: evolves_then_ticket\<close>)
qed auto

lemma invalidate_parent_goals_evolves:
  "invalidate_parent_goals i s = Inr t \<Longrightarrow> evolves N u s \<Longrightarrow> evolves N u t"
  by (auto simp: invalidate_parent_goals_def intro: walk_parents_evolves)

lemma invalidate_one_evolves:
  assumes "invalidate_one s i = Inr t" "evolves N u s"
  shows "evolves N u t"
  using assms
  by (auto simp: invalidate_one_def result_simps Let_def
      intro!: evolves_steps split: option.splits if_splits)

lemma invalidate_dependents_evolves:
  assumes "invalidate_dependents i s = Inr t" "evolves N u s"
  shows "evolves N u t"
  using assms(1) unfolding invalidate_dependents_def
  by (rule try_fold_invariant) (use assms(2) in \<open>auto intro: invalidate_one_evolves\<close>)

lemma downstream_evolves:
  "invalidate_dependents i x = Inr y \<Longrightarrow> invalidate_parent_goals i y = Inr t \<Longrightarrow> evolves N s x \<Longrightarrow>
     evolves N s t"
  by (blast intro: invalidate_parent_goals_evolves invalidate_dependents_evolves)

section \<open>Every operation\<close>

lemma active_permit_alive: "active_permit s a = Inr u \<Longrightarrow> \<not> as_process_stopped a"
  by (simp add: active_permit_Inr)

lemma evolves_update [simp]:
  "evolves N s (t\<lparr>sn_project := p\<rparr>) \<longleftrightarrow> evolves N s t"
  "evolves N s (t\<lparr>sn_schema := n\<rparr>) \<longleftrightarrow> evolves N s t"
  "evolves N s (t\<lparr>sn_graph_revision := q\<rparr>) \<longleftrightarrow> evolves N s t"
  "evolves N s (t\<lparr>sn_seq := q\<rparr>) \<longleftrightarrow> evolves N s t"
  "evolves N s (t\<lparr>sn_resolutions := rs\<rparr>) \<longleftrightarrow> evolves N s t"
  "evolves N s (t\<lparr>sn_legacy_attachment := l\<rparr>) \<longleftrightarrow> evolves N s t"
  "evolves N s (t\<lparr>sn_authority_epoch := q\<rparr>) \<longleftrightarrow> evolves N s t"
  by (simp_all add: evolves_def new_intents_def)

text \<open>A new record under an identifier that is not in use.\<close>

lemma evolves_new_ticket:
  "evolves N s t \<Longrightarrow> map_get (sn_tickets t) i = None \<Longrightarrow> i \<in> N \<Longrightarrow> tk_id w = i \<Longrightarrow>
     evolves N s (put_ticket i w t)"
  by (rule sn.le_trans, assumption) (simp add: evolves_def keeps_refls tk.keeps_new named_by_def)

lemma evolves_new_assignment:
  "evolves N s t \<Longrightarrow> map_get (sn_assignments t) i = None \<Longrightarrow> i \<in> N \<Longrightarrow> as_id a = i \<Longrightarrow>
     evolves N s (put_assignment i a t)"
  by (rule sn.le_trans, assumption) (simp add: evolves_def keeps_refls ak.keeps_new named_by_def)

lemma evolves_new_request:
  "evolves N s t \<Longrightarrow> map_get (sn_requests t) i = None \<Longrightarrow> i \<in> N \<Longrightarrow> rq_id r = i \<Longrightarrow>
     evolves N s (put_request i r t)"
  by (rule sn.le_trans, assumption) (simp add: evolves_def keeps_refls rk.keeps_new named_by_def)

lemma evolves_new_submission:
  "evolves N s t \<Longrightarrow> map_get (sn_submissions t) i = None \<Longrightarrow> i \<in> N \<Longrightarrow> su_id su = i \<Longrightarrow>
     evolves N s (put_submission i su t)"
  by (rule sn.le_trans, assumption) (simp add: evolves_def keeps_refls sk.keeps_new named_by_def put_submission_def)

lemma evolves_put_intent:
  "evolves N s t \<Longrightarrow> map_get (sn_intents t) k = Some i \<Longrightarrow> intent_le i i' \<Longrightarrow>
     evolves N s (t\<lparr>sn_intents := map_put k i' (sn_intents t)\<rparr>)"
  by (rule sn.le_trans, assumption)
    (auto simp: evolves_def keeps_refls nk.keeps_put new_intents_def)

lemma evolves_new_intent:
  assumes "evolves N s t" "map_get (sn_intents t) k = None" "in_assignment_id i \<in> N"
    and "in_dispatch_key i = k"
    and "k = dispatch_key_of t (in_assignment_id i) (ds_generation (in_immutable_spec i))"
    and "has_key (sn_assignments t) (in_assignment_id i)"
  shows "evolves N s (t\<lparr>sn_intents := map_put k i (sn_intents t)\<rparr>)"
proof -
  have "evolves N t (t\<lparr>sn_intents := map_put k i (sn_intents t)\<rparr>)"
    using assms(2-) by (auto simp: evolves_def keeps_refls nk.keeps_new any_new_def new_intents_def)
  with assms(1) show ?thesis by (rule sn.le_trans)
qed

lemmas evolves_rules = sn.le_refl evolves_steps

text \<open>Ticket fields of the record updates the operations make.\<close>

lemma ticket_le_updates [simp]:
  "ticket_le t (t'\<lparr>tk_state := st\<rparr>) \<longleftrightarrow> ticket_le t t'"
  "ticket_le t (t'\<lparr>tk_blocked := b\<rparr>) \<longleftrightarrow> ticket_le t t'"
  "ticket_le t (t'\<lparr>tk_paused := p\<rparr>) \<longleftrightarrow> ticket_le t t'"
  "ticket_le t (t'\<lparr>tk_archived := p\<rparr>) \<longleftrightarrow> ticket_le t t'"
  "ticket_le t (t'\<lparr>tk_active_assignment := x\<rparr>) \<longleftrightarrow> ticket_le t t'"
  "ticket_le t (t'\<lparr>tk_current_submission := x\<rparr>) \<longleftrightarrow> ticket_le t t'"
  "ticket_le t (t'\<lparr>tk_accepted_submission := x\<rparr>) \<longleftrightarrow> ticket_le t t'"
  "ticket_le t (t'\<lparr>tk_depends_on := d\<rparr>) \<longleftrightarrow> ticket_le t t'"
  "ticket_le t (t'\<lparr>tk_contract_revision := q\<rparr>) \<longleftrightarrow> ticket_le t t'"
  "ticket_le t (t'\<lparr>tk_generation := q\<rparr>) \<longleftrightarrow> ticket_le t t'"
  "ticket_le t (t'\<lparr>tk_priority := pr\<rparr>) \<longleftrightarrow> ticket_le t t'"
  "ticket_le t (t'\<lparr>tk_expected_completion_at := e\<rparr>) \<longleftrightarrow> ticket_le t t'"
  "ticket_le t (t'\<lparr>tk_record_revision := q\<rparr>) \<longleftrightarrow> ticket_le t t'"
  "ticket_le t (t'\<lparr>tk_updated_seq := q\<rparr>) \<longleftrightarrow> ticket_le t t'"
  "ticket_le t t"
  by (simp_all add: ticket_le_def)

lemma attempt_le_updates [simp]:
  "attempt_le a (a'\<lparr>as_state := st\<rparr>) \<longleftrightarrow> attempt_le a a'"
  "attempt_le a (a'\<lparr>as_plan := p\<rparr>) \<longleftrightarrow> attempt_le a a'"
  "attempt_le a (a'\<lparr>as_awaiting_request := r\<rparr>) \<longleftrightarrow> attempt_le a a'"
  "attempt_le a (a'\<lparr>as_authority_epoch := q\<rparr>) \<longleftrightarrow> attempt_le a a'"
  "attempt_le a a"
  "attempt_le a (a\<lparr>as_process_stopped := True\<rparr>)"
  by (simp_all add: attempt_le_def ek.keeps_refl)

lemma associate_evolves: "associate i p s = Inr t \<Longrightarrow> evolves N s t"
  by (auto simp: associate_def result_simps intro!: evolves_rules split: option.splits if_splits)

lemma set_context_evolves: "set_context E i c s = Inr t \<Longrightarrow> evolves N s t"
  by (auto simp: set_context_def result_simps intro!: evolves_rules split: if_splits)

lemma planning_set_evolves: "planning_set E au i n p d s = Inr t \<Longrightarrow> evolves N s t"
  by (auto dest!: planning_set_Inr intro!: evolves_rules)

lemma op_ready_evolves: "op_ready au i s = Inr t \<Longrightarrow> evolves N s t"
  by (auto simp: op_ready_def result_simps intro!: evolves_rules)

lemma op_set_dependencies_evolves: "op_set_dependencies au ids i deps s = Inr t \<Longrightarrow> evolves N s t"
  by (auto simp: op_set_dependencies_def result_simps Let_def intro!: evolves_rules)

lemma op_accept_evolves: "op_accept au i sid ev s = Inr t \<Longrightarrow> evolves N s t"
  by (auto simp: op_accept_def result_simps intro!: evolves_rules)

lemma op_accept_goal_evolves: "op_accept_goal au i ev s = Inr t \<Longrightarrow> evolves N s t"
  by (auto simp: op_accept_goal_def result_simps intro!: evolves_rules)

lemma op_reject_evolves: "op_reject au i sid reason s = Inr t \<Longrightarrow> evolves N s t"
  by (auto simp: op_reject_def result_simps intro!: evolves_rules)

lemma op_archive_evolves: "op_archive au i b s = Inr t \<Longrightarrow> evolves N s t"
  by (auto simp: op_archive_def result_simps intro!: evolves_rules)

lemma op_pause_evolves: "op_pause au i reason s = Inr t \<Longrightarrow> evolves N s t"
  by (auto simp: op_pause_def result_simps intro!: evolves_rules split: option.splits if_splits)

lemma op_update_contract_evolves: "op_update_contract E au i c s = Inr t \<Longrightarrow> evolves N s t"
  by (auto simp: op_update_contract_def result_simps Let_def
      elim!: downstream_evolves intro!: evolves_rules
      split: option.splits if_splits)

lemma op_cancel_evolves: "op_cancel au i s = Inr t \<Longrightarrow> evolves N s t"
  by (auto simp: op_cancel_def result_simps Let_def
      elim!: downstream_evolves intro!: evolves_rules
      split: option.splits)

lemma op_reopen_evolves: "op_reopen au i s = Inr t \<Longrightarrow> evolves N s t"
  by (auto simp: op_reopen_def result_simps Let_def
      elim!: downstream_evolves intro!: evolves_rules
      split: option.splits)

lemma op_resolve_message_evolves: "op_resolve_message E au r s = Inr t \<Longrightarrow> evolves N s t"
  by (auto simp: op_resolve_message_def result_simps intro!: evolves_rules
      split: option.splits if_splits)

lemma op_attach_legacy_evolves: "op_attach_legacy E au x s = Inr t \<Longrightarrow> evolves N s t"
  by (auto simp: op_attach_legacy_def result_simps intro!: evolves_rules
      split: option.splits if_splits)

text \<open>Operations that allocate: the new record is the only one added.\<close>

definition fresh_id :: "snapshot \<Rightarrow> string \<Rightarrow> bool" where
  "fresh_id s i =
     (\<not> has_key (sn_tickets s) i \<and> \<not> has_key (sn_assignments s) i
      \<and> \<not> has_key (sn_requests s) i \<and> \<not> has_key (sn_submissions s) i)"

lemma fresh_id_None:
  assumes "fresh_id s i"
  shows "map_get (sn_tickets s) i = None" "map_get (sn_assignments s) i = None"
    "map_get (sn_requests s) i = None" "map_get (sn_submissions s) i = None"
  using assms by (auto simp: fresh_id_def has_key_def)

text \<open>Every intent is stored under the key of its attempt, and that attempt exists.\<close>

definition intents_keyed :: "snapshot \<Rightarrow> bool" where
  "intents_keyed s =
     (\<forall>k i. map_get (sn_intents s) k = Some i \<longrightarrow>
        in_dispatch_key i = k \<and>
        k = dispatch_key_of s (in_assignment_id i) (ds_generation (in_immutable_spec i)) \<and>
        has_key (sn_assignments s) (in_assignment_id i))"

lemma intents_keyed_evolves:
  assumes "evolves N s t" "intents_keyed s"
  shows "intents_keyed t"
  unfolding intents_keyed_def
proof (intro allI impI)
  fix k i
  assume i: "map_get (sn_intents t) k = Some i"
  have b: "sn_binding t = sn_binding s" using assms(1) by (simp add: evolves_def)
  show "in_dispatch_key i = k \<and>
        k = dispatch_key_of t (in_assignment_id i) (ds_generation (in_immutable_spec i)) \<and>
        has_key (sn_assignments t) (in_assignment_id i)"
  proof (cases "map_get (sn_intents s) k")
    case None
    then show ?thesis
      using assms(1) i by (auto simp: evolves_def new_intents_def dispatch_key_of_def)
  next
    case (Some j)
    with assms(1) i have "intent_le j i"
      unfolding evolves_def by (metis keepsD option.inject)
    with Some assms b show ?thesis
      by (auto simp: intents_keyed_def intent_le_def evolves_def dispatch_key_of_def
          intro: keeps_has_key)
  qed
qed

lemma decimal_digits: "c \<in> set (decimal n) \<Longrightarrow> 48 \<le> byte c \<and> byte c \<le> 57"
proof (induction n rule: decimal.induct)
  case (1 n)
  have d: "byte (char_of (48 + k)) = 48 + k" if "k < 10" for k :: nat
    using that by simp
  show ?case
  proof (cases "n < 10")
    case True
    with 1 d [of n] show ?thesis by (simp add: decimal.simps)
  next
    case False
    with 1 d [of "n mod 10"] show ?thesis by (auto simp: decimal.simps [of n])
  qed
qed

lemma slash_not_digit: "CHR ''/'' \<notin> set (show_u64 g)"
  using decimal_digits [of "CHR ''/''"] by (fastforce simp: show_u64_def)

text \<open>The text before the last separator is determined.\<close>

lemma before_last:
  assumes "xs @ c # us = ys @ c # vs" "c \<notin> set us" "c \<notin> set vs"
  shows "xs = ys"
proof -
  have "dropWhile (\<lambda>x. x \<noteq> c) (rev us @ c # rev xs) = c # rev xs" if "c \<notin> set us" for us xs
    using that by (subst dropWhile_append2) auto
  moreover have "rev us @ c # rev xs = rev vs @ c # rev ys"
    using arg_cong [OF assms(1), of rev] by simp
  ultimately have "c # rev xs = c # rev ys" using assms(2,3) by metis
  then show ?thesis by simp
qed

lemma dispatch_key_inj:
  assumes "dispatch_key_of s i g = dispatch_key_of s j h"
  shows "i = j"
proof -
  have "i @ CHR ''/'' # show_u64 g = j @ CHR ''/'' # show_u64 h"
    using assms by (simp add: dispatch_key_of_def)
  then show ?thesis by (rule before_last) (rule slash_not_digit)+
qed

lemma fresh_dispatch_key:
  assumes "intents_keyed s" "\<not> has_key (sn_assignments s) i"
  shows "map_get (sn_intents s) (dispatch_key_of s i g) = None"
proof (rule ccontr)
  assume "map_get (sn_intents s) (dispatch_key_of s i g) \<noteq> None"
  then obtain j where "map_get (sn_intents s) (dispatch_key_of s i g) = Some j" by auto
  with assms(1) have "dispatch_key_of s i g
      = dispatch_key_of s (in_assignment_id j) (ds_generation (in_immutable_spec j))"
    "has_key (sn_assignments s) (in_assignment_id j)"
    by (auto simp: intents_keyed_def)
  with assms(2) show False by (metis dispatch_key_inj)
qed

lemma op_create_evolves:
  assumes "op_create E au temp kind parent c deps s cx = Inr (t, cx')"
    and "fresh_id s (en_uuid E (cx_drawn cx))"
  shows "evolves {en_uuid E (cx_drawn cx)} s t"
  using assms
  by (auto simp: op_create_def new_ticket_def result_simps Let_def fresh_id_None
      intro!: evolves_new_ticket sn.le_refl split: option.splits)

lemma op_import_evolves:
  assumes "op_import E au temp c source s cx = Inr (t, cx')"
    and "fresh_id s (en_uuid E (cx_drawn cx))"
  shows "evolves {en_uuid E (cx_drawn cx)} s t"
  using assms
  by (auto simp: op_import_def new_ticket_def result_simps Let_def fresh_id_None sn.le_refl
      intro!: evolves_new_ticket split: option.splits if_splits)

lemma op_ask_evolves:
  assumes "op_ask E au i temp prompt act s cx = Inr (t, cx')"
    and "fresh_id s (en_uuid E (cx_drawn cx))"
  shows "evolves {en_uuid E (cx_drawn cx)} s t"
  using assms
  by (auto simp: op_ask_def new_request_def result_simps Let_def fresh_id_None sn.le_refl
      intro!: evolves_new_request)

lemma op_submit_evolves:
  assumes "op_submit E au aid temp arts ev s cx = Inr (t, cx')"
    and "fresh_id s (en_uuid E (cx_drawn cx))"
  shows "evolves {en_uuid E (cx_drawn cx)} s t"
  using assms
  by (auto simp: op_submit_def new_submission_def result_simps Let_def fresh_id_None sn.le_refl
        put_submission_def
      intro!: evolves_steps evolves_new_submission [unfolded put_submission_def] split: if_splits)

lemma install_start_evolves:
  assumes work: "map_get (sn_tickets s) i = Some work"
    and fresh: "fresh_id s aid" and keyed: "intents_keyed s"
  shows "evolves {aid} s (install_start s i work aid context h inputs ws)"
proof -
  let ?a = "new_assignment s i work aid inputs ws"
  let ?s1 = "put_assignment aid ?a s"
  let ?s2 = "case context of None \<Rightarrow> ?s1
     | Some c \<Rightarrow> ?s1\<lparr>sn_project := (sn_project ?s1)\<lparr>ps_assignment_contexts :=
         map_put aid c (ps_assignment_contexts (sn_project ?s1))\<rparr>\<rparr>"
  let ?i = "\<lparr>in_assignment_id = aid, in_dispatch_key = as_dispatch_key ?a,
     in_immutable_spec = spec_of s i work aid context inputs ws, in_spec_hash = h,
     in_receipt = None\<rparr>"
  have s1: "evolves {aid} s ?s1"
    by (rule evolves_new_assignment) (use fresh in \<open>simp_all add: sn.le_refl fresh_id_None new_assignment_def\<close>)
  then have s2: "evolves {aid} s ?s2" by (simp split: option.splits)
  have tickets: "sn_tickets ?s2 = sn_tickets s" and intents: "sn_intents ?s2 = sn_intents s"
    and keys: "has_key (sn_assignments ?s2) aid" and bind: "sn_binding ?s2 = sn_binding s"
    by (simp_all split: option.splits)
  have key: "as_dispatch_key ?a = dispatch_key_of s aid (tk_generation work + 1)"
    by (simp add: new_assignment_def)
  have "evolves {aid} s (?s2\<lparr>sn_intents := map_put (as_dispatch_key ?a) ?i (sn_intents ?s2)\<rparr>)"
    by (rule evolves_new_intent [OF s2])
      (use fresh keyed fresh_dispatch_key [of s aid] in
        \<open>simp_all add: intents keys key bind dispatch_key_of_def spec_of_def fresh_id_def\<close>)
  then show ?thesis
    unfolding install_start_def Let_def
    by (rule evolves_then_ticket [where w = work]) (simp_all add: tickets work start_work_def)
qed

lemma op_start_evolves:
  assumes "op_start E au i temp ws s cx = Inr (t, cx')"
    and "fresh_id s (en_uuid E (cx_drawn cx))" "intents_keyed s"
  shows "evolves {en_uuid E (cx_drawn cx)} s t"
proof -
  from assms(1) obtain work cref inputs h where
    "map_get (sn_tickets s) i = Some work"
    "t = install_start s i work (en_uuid E (cx_drawn cx)) cref h inputs ws"
    by (auto simp: op_start_def result_simps split: if_splits)
  with assms(2,3) show ?thesis by (simp add: install_start_evolves)
qed

lemma op_admitted_evolves:
  assumes "op_admitted au aid receipt s = Inr t"
  shows "evolves N s t"
proof (cases "t = s")
  case False
  with assms obtain a intent where a: "map_get (sn_assignments s) aid = Some a"
    and i: "map_get (sn_intents s) (as_dispatch_key a) = Some intent" "as_runtime a = None"
    and t: "t = (put_assignment aid (admit (sn_seq s) receipt a) s)
            \<lparr>sn_intents := map_put (as_dispatch_key a) (intent\<lparr>in_receipt := Some receipt\<rparr>)
               (sn_intents s)\<rparr>"
    by (auto simp: op_admitted_def result_simps split: option.splits if_splits)
  have "attempt_le a (admit (sn_seq s) receipt a)"
    using i(2) by (simp add: admit_def bump_def attempt_le_def ek.keeps_refl)
  then have "evolves N s (put_assignment aid (admit (sn_seq s) receipt a) s)"
    by (rule evolves_put_assignment [OF a])
  then show ?thesis
    using evolves_put_intent [of N s "put_assignment aid (admit (sn_seq s) receipt a) s"
        "as_dispatch_key a" intent "intent\<lparr>in_receipt := Some receipt\<rparr>"] i(1) t
    by (simp add: intent_le_def)
qed (simp add: sn.le_refl)

lemma op_running_evolves: "op_running au aid s = Inr t \<Longrightarrow> evolves N s t"
  by (auto simp: op_running_def result_simps intro!: evolves_rules)

lemma op_replace_plan_evolves: "op_replace_plan au aid n steps s = Inr t \<Longrightarrow> evolves N s t"
  by (auto simp: op_replace_plan_def result_simps intro!: evolves_rules)

lemma attempt_le_effect:
  assumes "\<not> as_process_stopped a"
    and "map_get (as_effects a) k = None \<or> (\<exists>e. map_get (as_effects a) k = Some e \<and> effect_le e e')"
  shows "attempt_le a (a\<lparr>as_effects := map_put k e' (as_effects a)\<rparr>)"
  using assms by (auto simp: attempt_le_def any_new_def intro: ek.keeps_new ek.keeps_put)

lemma op_record_effect_evolves: "op_record_effect au aid attempt e s = Inr t \<Longrightarrow> evolves N s t"
  by (auto simp: op_record_effect_def result_simps effect_le_def
      intro!: evolves_rules attempt_le_effect valid_effect_transition_le)

lemma request_le_self [simp]: "request_le r r"
  by (rule rk.le_refl)

definition attempts_keyed :: "snapshot \<Rightarrow> bool" where
  "attempts_keyed s = (\<forall>k a. map_get (sn_assignments s) k = Some a \<longrightarrow> as_id a = k)"

lemma attempts_keyed_evolves: "evolves N s t \<Longrightarrow> attempts_keyed s \<Longrightarrow> attempts_keyed t"
  unfolding attempts_keyed_def evolves_def
  by (rule keeps_keyed [where le = attempt_le]) (auto simp: attempt_le_def)

lemma op_consume_approval_Inr:
  "op_consume_approval au rid fp attempt s = Inr t \<Longrightarrow>
     t = s \<or>
     (\<exists>r aid a a'. map_get (sn_requests s) rid = Some r \<and> rq_assignment_id r = Some aid \<and>
        map_get (sn_assignments s) aid = Some a \<and> map_get (sn_assignments s) (as_id a) = Some a' \<and>
        rq_status r = R_Approved \<and> need_worker au a = Inr () \<and> active_permit s a = Inr () \<and>
        has_fingerprint r fp \<and> rq_generation r = as_generation a \<and>
        rq_contract_revision r = as_contract_revision a \<and> attempt \<noteq> [] \<and>
        map_get (as_effects a) attempt = None \<and>
        t = put_assignment (as_id a)
          (a'\<lparr>as_effects := map_put attempt (planned_effect fp) (as_effects a')\<rparr>)
          (put_request rid
            (r\<lparr>rq_status := R_Consumed, rq_consumed_attempt := Some attempt,
               rq_updated_seq := sn_seq s\<rparr>) s))"
  by (cases "t = s") (clarsimp simp: op_consume_approval_def has_key_def call_simps if_Inr Let_def)+

lemma op_consume_approval_evolves:
  assumes "op_consume_approval au rid fp attempt s = Inr t" "attempts_keyed s"
  shows "evolves N s t"
proof (cases "t = s")
  case False
  with op_consume_approval_Inr [OF assms(1)] obtain r aid a a' where
    r: "map_get (sn_requests s) rid = Some r" "rq_status r = R_Approved"
    and a: "map_get (sn_assignments s) aid = Some a" "map_get (sn_assignments s) (as_id a) = Some a'"
      "active_permit s a = Inr ()" "map_get (as_effects a) attempt = None"
    and t: "t = put_assignment (as_id a)
          (a'\<lparr>as_effects := map_put attempt (planned_effect fp) (as_effects a')\<rparr>)
          (put_request rid
            (r\<lparr>rq_status := R_Consumed, rq_consumed_attempt := Some attempt,
               rq_updated_seq := sn_seq s\<rparr>) s)"
    by blast
  have same: "a' = a" using a(1,2) assms(2) by (auto simp: attempts_keyed_def)
  have "attempt_le a (a\<lparr>as_effects := map_put attempt (planned_effect fp) (as_effects a)\<rparr>)"
    by (rule attempt_le_effect) (use a in \<open>auto dest: active_permit_alive\<close>)
  moreover have "request_le r (r\<lparr>rq_status := R_Consumed, rq_consumed_attempt := Some attempt,
      rq_updated_seq := sn_seq s\<rparr>)"
    using r by (simp add: request_le_def request_status_le_def)
  ultimately show ?thesis
    unfolding t same
    by (intro evolves_then_assignment evolves_put_request [OF r(1)]) (use a same in simp_all)
qed (simp add: sn.le_refl)

lemma op_decide_approval_evolves:
  "op_decide_approval au rid n fp approve s = Inr t \<Longrightarrow> evolves N s t"
  by (auto simp: op_decide_approval_def result_simps request_le_def request_status_le_def
      intro!: evolves_rules)

lemma op_answer_evolves: "op_answer au rid n answer s = Inr t \<Longrightarrow> evolves N s t"
  by (auto simp: op_answer_def result_simps request_le_def request_status_le_def Let_def
      intro!: evolves_rules)

lemma op_yield_for_input_evolves: "op_yield_for_input au aid rid h s = Inr t \<Longrightarrow> evolves N s t"
  by (auto simp: op_yield_for_input_def result_simps request_le_def request_status_le_def Let_def
      intro!: evolves_rules)

lemma attempt_le_stop [simp]:
  "attempt_le a (a\<lparr>as_process_stopped := True, as_state := st\<rparr>)"
  by (simp add: attempt_le_def ek.keeps_refl)

lemma op_confirm_stopped_evolves: "op_confirm_stopped au aid b s = Inr t \<Longrightarrow> evolves N s t"
  by (auto simp: op_confirm_stopped_def result_simps Let_def intro!: evolves_rules)

lemma ticket_le_stopped [simp]: "ticket_le w (stopped_work q a u c wt un co w)"
  by (simp add: stopped_work_def Let_def)

lemma op_runtime_stopped_evolves: "op_runtime_stopped au aid r b s = Inr t \<Longrightarrow> evolves N s t"
  by (auto simp: op_runtime_stopped_def result_simps Let_def intro!: evolves_rules)

lemma op_reconcile_completed_evolves: "op_reconcile_completed au aid r s = Inr t \<Longrightarrow> evolves N s t"
  by (auto simp: op_reconcile_completed_def result_simps Let_def intro!: evolves_rules)

lemma op_outcome_unknown_evolves: "op_outcome_unknown au aid reason s = Inr t \<Longrightarrow> evolves N s t"
  by (auto simp: op_outcome_unknown_def result_simps Let_def intro!: evolves_rules)

section \<open>The dispatcher and a batch\<close>

lemma keeps_named_mono:
  "keeps le (named_by f N) m n \<Longrightarrow> N \<subseteq> M \<Longrightarrow> keeps le (named_by f M) m n"
  by (auto simp: keeps_def named_by_def)

lemma new_intents_mono: "new_intents N s t \<Longrightarrow> N \<subseteq> M \<Longrightarrow> new_intents M s t"
  by (auto simp: new_intents_def)

lemma evolves_mono: "evolves N s t \<Longrightarrow> N \<subseteq> M \<Longrightarrow> evolves M s t"
  by (auto simp: evolves_def intro: keeps_named_mono new_intents_mono)

lemma keeps_absent:
  "keeps le (named_by f N) m n \<Longrightarrow> \<not> has_key m i \<Longrightarrow> i \<notin> N \<Longrightarrow> \<not> has_key n i"
  by (cases "map_get n i") (auto simp: has_key_def named_by_def dest: keeps_newD)

lemma fresh_id_evolves: "evolves N s t \<Longrightarrow> fresh_id s i \<Longrightarrow> i \<notin> N \<Longrightarrow> fresh_id t i"
  by (auto simp: evolves_def fresh_id_def dest: keeps_absent)

text \<open>Every record is stored under its own identifier.\<close>

definition keyed :: "snapshot \<Rightarrow> bool" where
  "keyed s =
     (attempts_keyed s \<and> intents_keyed s
      \<and> (\<forall>k t. map_get (sn_tickets s) k = Some t \<longrightarrow> tk_id t = k)
      \<and> (\<forall>k r. map_get (sn_requests s) k = Some r \<longrightarrow> rq_id r = k)
      \<and> (\<forall>k u. map_get (sn_submissions s) k = Some u \<longrightarrow> su_id u = k))"

lemma keyed_evolves:
  assumes "evolves N s t" "keyed s"
  shows "keyed t"
proof -
  have k: "keeps ticket_le (named_by tk_id N) (sn_tickets s) (sn_tickets t)"
    "keeps request_le (named_by rq_id N) (sn_requests s) (sn_requests t)"
    "keeps (=) (named_by su_id N) (sn_submissions s) (sn_submissions t)"
    using assms(1) by (simp_all add: evolves_def)
  have "\<forall>i v. map_get (sn_tickets t) i = Some v \<longrightarrow> tk_id v = i"
    by (rule keeps_keyed [OF k(1)]) (use assms(2) in \<open>simp_all add: keyed_def ticket_le_def\<close>)
  moreover have "\<forall>i v. map_get (sn_requests t) i = Some v \<longrightarrow> rq_id v = i"
    by (rule keeps_keyed [OF k(2)]) (use assms(2) in \<open>simp_all add: keyed_def request_le_def\<close>)
  moreover have "\<forall>i v. map_get (sn_submissions t) i = Some v \<longrightarrow> su_id v = i"
    by (rule keeps_keyed [OF k(3)]) (use assms(2) in \<open>simp_all add: keyed_def\<close>)
  ultimately show ?thesis
    using assms(2) attempts_keyed_evolves [OF assms(1)] intents_keyed_evolves [OF assms(1)]
    by (simp add: keyed_def)
qed

definition uuid_supply :: "env \<Rightarrow> nat \<Rightarrow> snapshot \<Rightarrow> bool" where
  "uuid_supply E n s = (inj_on (en_uuid E) {n..} \<and> (\<forall>k \<ge> n. fresh_id s (en_uuid E k)))"

definition drawn :: "env \<Rightarrow> ctx \<Rightarrow> ctx \<Rightarrow> string set" where
  "drawn E cx cx' = en_uuid E ` {cx_drawn cx..<cx_drawn cx'}"

lemma uuid_supply_evolves:
  assumes "evolves (drawn E cx cx') s t" "uuid_supply E (cx_drawn cx) s" "cx_drawn cx \<le> cx_drawn cx'"
  shows "uuid_supply E (cx_drawn cx') t"
  unfolding uuid_supply_def
proof (intro conjI allI impI)
  show "inj_on (en_uuid E) {cx_drawn cx'..}"
    using assms(2,3) by (auto simp: uuid_supply_def intro: inj_on_subset)
next
  fix k assume k: "cx_drawn cx' \<le> k"
  have "en_uuid E k \<notin> drawn E cx cx'"
  proof
    assume "en_uuid E k \<in> drawn E cx cx'"
    then obtain j where "en_uuid E k = en_uuid E j" "cx_drawn cx \<le> j" "j < cx_drawn cx'"
      by (auto simp: drawn_def)
    with assms(2,3) k show False
      by (auto simp: uuid_supply_def dest: inj_onD)
  qed
  with assms k show "fresh_id t (en_uuid E k)"
    by (auto simp: uuid_supply_def intro: fresh_id_evolves)
qed

lemma drawn_same [simp]: "drawn E cx cx = {}"
  by (simp add: drawn_def)

lemma drawn_one: "cx_drawn cx' = Suc (cx_drawn cx) \<Longrightarrow> drawn E cx cx' = {en_uuid E (cx_drawn cx)}"
  by (simp add: drawn_def)

text \<open>How many identifiers an operation draws.\<close>

lemma op_create_drawn:
  "op_create E au temp kind parent c deps s cx = Inr (t, cx') \<Longrightarrow> cx_drawn cx' = Suc (cx_drawn cx)"
  by (auto simp: op_create_def result_simps Let_def)

lemma op_start_drawn:
  "op_start E au i temp ws s cx = Inr (t, cx') \<Longrightarrow> cx_drawn cx' = Suc (cx_drawn cx)"
  by (auto simp: op_start_def result_simps split: if_splits)

lemma op_ask_drawn:
  "op_ask E au i temp prompt act s cx = Inr (t, cx') \<Longrightarrow> cx_drawn cx' = Suc (cx_drawn cx)"
  by (auto simp: op_ask_def result_simps)

lemma op_submit_drawn:
  "op_submit E au aid temp arts ev s cx = Inr (t, cx') \<Longrightarrow> cx_drawn cx' = Suc (cx_drawn cx)"
  by (auto simp: op_submit_def result_simps Let_def split: if_splits)

lemma op_import_drawn:
  "op_import E au temp c source s cx = Inr (t, cx') \<Longrightarrow>
     cx_drawn cx' = Suc (cx_drawn cx) \<or>
     cx_drawn cx' = cx_drawn cx \<and> evolves {} s t"
  by (auto simp: op_import_def result_simps Let_def sn.le_refl split: option.splits if_splits)

lemma apply_op_evolves:
  assumes op: "apply_op E au op s cx = Inr (t, cx')"
    and fresh: "fresh_id s (en_uuid E (cx_drawn cx))" and keyed: "keyed s"
  shows "cx_drawn cx \<le> cx_drawn cx' \<and> evolves (drawn E cx cx') s t"
proof -
  note all = associate_evolves set_context_evolves planning_set_evolves op_ready_evolves
    op_update_contract_evolves op_set_dependencies_evolves op_admitted_evolves op_running_evolves
    op_replace_plan_evolves op_yield_for_input_evolves op_answer_evolves
    op_decide_approval_evolves op_record_effect_evolves op_accept_evolves op_accept_goal_evolves
    op_reject_evolves op_cancel_evolves op_pause_evolves op_confirm_stopped_evolves
    op_runtime_stopped_evolves op_reconcile_completed_evolves op_outcome_unknown_evolves
    op_reopen_evolves op_archive_evolves op_resolve_message_evolves op_attach_legacy_evolves
  have att: "attempts_keyed s" and int: "intents_keyed s"
    using keyed by (simp_all add: keyed_def)
  show ?thesis
  proof (cases op)
    case (Op_Create temp kind parent c deps)
    with op have r: "op_create E au temp kind parent c deps s cx = Inr (t, cx')" by simp
    show ?thesis using op_create_drawn [OF r] op_create_evolves [OF r fresh] by (simp add: drawn_one)
  next
    case (Op_Start i temp ws)
    with op have r: "op_start E au (resolve (cx_ids cx) i) temp ws s cx = Inr (t, cx')" by simp
    show ?thesis using op_start_drawn [OF r] op_start_evolves [OF r fresh int] by (simp add: drawn_one)
  next
    case (Op_Ask i temp prompt act)
    with op have r: "op_ask E au (resolve (cx_ids cx) i) temp prompt act s cx = Inr (t, cx')" by simp
    show ?thesis using op_ask_drawn [OF r] op_ask_evolves [OF r fresh] by (simp add: drawn_one)
  next
    case (Op_Submit aid temp arts ev)
    with op have r: "op_submit E au aid temp arts ev s cx = Inr (t, cx')" by simp
    show ?thesis using op_submit_drawn [OF r] op_submit_evolves [OF r fresh] by (simp add: drawn_one)
  next
    case (Op_Import temp c source)
    with op have "op_import E au temp c source s cx = Inr (t, cx')" by simp
    with op_import_drawn [OF this] op_import_evolves [OF this fresh] show ?thesis
      by (auto simp: drawn_one) (simp add: drawn_def)
  next
    case (Op_ConsumeApproval rid fp attempt)
    with op att show ?thesis by (auto simp: keep_ctx_Inr op_consume_approval_evolves)
  qed (use op in \<open>auto simp: keep_ctx_Inr and_then_Inr dest: all [where N = "{}"]\<close>)
qed

text \<open>The identifiers of a whole batch.\<close>

lemma apply_operations_evolves:
  assumes "apply_operations E root au ops s = Inr (t, ids)" "uuid_supply E 0 s" "keyed s"
  shows "\<exists>k. evolves (en_uuid E ` {0..<k}) s t"
proof -
  from assms(1) obtain p where p: "try_fold (apply_step E root au) (s, initial_ctx) ops = Inr p"
    "t = fst p" by (auto simp: apply_operations_def result_simps)
  let ?P = "\<lambda>p. uuid_supply E (cx_drawn (snd p)) (fst p) \<and>
     evolves (drawn E initial_ctx (snd p)) s (fst p) \<and> keyed (fst p)"
  have "?P p"
    using p(1)
  proof (rule try_fold_invariant [where P = ?P])
    show "?P (s, initial_ctx)"
      using assms(2,3) by (simp add: initial_ctx_def sn.le_refl)
  next
    fix q op q' assume P: "?P q" and step: "apply_step E root au q op = Inr q'"
    then have ap: "apply_op E au op (fst q) (snd q) = Inr (fst q', snd q')"
      by (simp add: apply_step_def and_then_Inr)
    from P have fresh: "fresh_id (fst q) (en_uuid E (cx_drawn (snd q)))"
      by (simp add: uuid_supply_def)
    note e = apply_op_evolves [OF ap fresh]
    have le: "cx_drawn (snd q) \<le> cx_drawn (snd q')"
      and ev: "evolves (drawn E (snd q) (snd q')) (fst q) (fst q')"
      using e P by auto
    have "drawn E initial_ctx (snd q) \<subseteq> drawn E initial_ctx (snd q')"
      "drawn E (snd q) (snd q') \<subseteq> drawn E initial_ctx (snd q')"
      using le by (auto simp: drawn_def initial_ctx_def)
    then have "evolves (drawn E initial_ctx (snd q')) s (fst q')"
      using P ev by (meson evolves_mono sn.le_trans)
    then show "?P q'"
      using P ev le uuid_supply_evolves keyed_evolves by blast
  qed
  then show ?thesis using p(2) by (auto simp: drawn_def initial_ctx_def)
qed

end
