(* ===== verification/Context_Packet.thy ===== *)
theory Context_Packet
  imports Apply Integrity
begin

text \<open>
  The complete context packet of a run (\<open>build_context_packet\<close> in \<open>query.rs\<close>), the
  verified artifact reader it uses (\<open>store.rs\<close>), and the two checks of \<open>service.rs\<close>
  that a packet still fits before an assignment or an answer is published.
\<close>

section \<open>UTF-8\<close>

text \<open>\<open>String::from_utf8\<close>: well-formed UTF-8, no overlong forms, no surrogates.\<close>

definition continuation :: "nat \<Rightarrow> bool" where
  "continuation b = (128 \<le> b \<and> b \<le> 191)"

definition second3 :: "nat \<Rightarrow> nat \<Rightarrow> bool" where
  "second3 a b = (continuation b \<and> (a = 224 \<longrightarrow> 160 \<le> b) \<and> (a = 237 \<longrightarrow> b \<le> 159))"

definition second4 :: "nat \<Rightarrow> nat \<Rightarrow> bool" where
  "second4 a b = (continuation b \<and> (a = 240 \<longrightarrow> 144 \<le> b) \<and> (a = 244 \<longrightarrow> b \<le> 143))"

fun utf8_bytes :: "nat list \<Rightarrow> bool" where
  "utf8_bytes [] = True"
| "utf8_bytes [a] = (a < 128)"
| "utf8_bytes [a, b] =
     (if a < 128 then utf8_bytes [b] else 194 \<le> a \<and> a \<le> 223 \<and> continuation b)"
| "utf8_bytes [a, b, c] =
     (if a < 128 then utf8_bytes [b, c]
      else if 194 \<le> a \<and> a \<le> 223 then continuation b \<and> utf8_bytes [c]
      else 224 \<le> a \<and> a \<le> 239 \<and> second3 a b \<and> continuation c)"
| "utf8_bytes (a # b # c # d # s) =
     (if a < 128 then utf8_bytes (b # c # d # s)
      else if 194 \<le> a \<and> a \<le> 223 then continuation b \<and> utf8_bytes (c # d # s)
      else if 224 \<le> a \<and> a \<le> 239
      then second3 a b \<and> continuation c \<and> utf8_bytes (d # s)
      else 240 \<le> a \<and> a \<le> 244 \<and> second4 a b \<and> continuation c \<and> continuation d \<and> utf8_bytes s)"

definition utf8_valid :: "string \<Rightarrow> bool" where
  "utf8_valid s = utf8_bytes (map byte s)"

section \<open>Reading a managed artifact\<close>

definition max_artifact_bytes :: nat where
  "max_artifact_bytes = 1024 * 1024"

text \<open>\<open>managed_artifact_hash\<close>: not managed, a hash, or a mismatch.\<close>

definition managed_artifact_hash :: "artifact \<Rightarrow> string option result" where
  "managed_artifact_hash ar =
     (if \<not> starts_with (ar_uri ar) managed_prefix then Inr None
      else
        let h = drop (length managed_prefix) (ar_uri ar)
        in if \<not> valid_hash h \<or> h \<noteq> ar_sha256 ar
           then invalid ''managed Artifact URI/hash mismatch'' else Inr (Some h))"

definition read_object :: "env \<Rightarrow> string \<Rightarrow> string \<Rightarrow> string result" where
  "read_object E category h =
     (if \<not> valid_hash h then fail (AuthorityUnavailable ''invalid object hash'')
      else
        and_then (ok_or (en_object E category h) (Io ''read object'')) (\<lambda>bytes.
          if content_hash E bytes \<noteq> h then fail (AuthorityUnavailable ''object hash mismatch'')
          else Inr bytes))"

definition read_artifact :: "env \<Rightarrow> artifact \<Rightarrow> nat \<Rightarrow> string result" where
  "read_artifact E ar budget =
     and_then (managed_artifact_hash ar) (\<lambda>managed.
     and_then (ok_or managed
       (AuthorityUnavailable ''external Artifact requires a trusted resolver'')) (\<lambda>h.
     and_then (ok_or (en_object E ''objects'' h) (Io ''metadata'')) (\<lambda>bytes.
       if length bytes > min budget max_artifact_bytes then fail ContextBudgetExceeded
       else read_object E ''objects'' h)))"

section \<open>The packet\<close>

definition input_outdated :: "snapshot \<Rightarrow> dependency_input \<Rightarrow> bool" where
  "input_outdated s i =
     (case map_get (sn_tickets s) (di_work_id i) of
        None \<Rightarrow> True
      | Some up \<Rightarrow> tk_state up \<noteq> W_Accepted
          \<or> tk_accepted_submission up \<noteq> Some (di_submission_id i)
          \<or> tk_contract_revision up \<noteq> di_contract_revision i)"

definition add_artifact ::
  "env \<Rightarrow> nat \<Rightarrow> dependency_input \<Rightarrow> nat \<times> context_artifact list \<Rightarrow> artifact \<Rightarrow>
   (nat \<times> context_artifact list) result"
where
  "add_artifact E budget i st ar =
     and_then (read_artifact E ar budget) (\<lambda>bytes.
       let total = fst st + length bytes
       in if total > budget then fail ContextBudgetExceeded
          else if \<not> utf8_valid bytes
          then fail (AuthorityUnavailable ''input Artifact requires a supported lossless UTF-8 resolver'')
          else Inr (total, snd st @ [\<lparr>ca_source = i, ca_artifact = ar, ca_utf8 = bytes\<rparr>]))"

definition add_input ::
  "env \<Rightarrow> snapshot \<Rightarrow> nat \<Rightarrow> nat \<times> context_artifact list \<Rightarrow> dependency_input \<Rightarrow>
   (nat \<times> context_artifact list) result"
where
  "add_input E s budget st i =
     and_then (ok_or (map_get (sn_submissions s) (di_submission_id i)) RevisionConflict) (\<lambda>su.
       if su_work_id su \<noteq> di_work_id i \<or> su_contract_revision su \<noteq> di_contract_revision i
          \<or> map ar_sha256 (su_artifacts su) \<noteq> di_artifact_hashes i
       then fail RevisionConflict
       else try_fold (add_artifact E budget i) st (su_artifacts su))"

definition answered_for :: "string \<Rightarrow> assignment \<Rightarrow> pending_request \<Rightarrow> bool" where
  "answered_for work_id a r =
     (rq_work_id r = work_id \<and> rq_contract_revision r = as_contract_revision a
      \<and> rq_generation r < as_generation a \<and> rq_kind r = Question \<and> rq_status r = R_Answered)"

definition answered_input_of :: "pending_request \<Rightarrow> answered_input result" where
  "answered_input_of r =
     and_then (expect (rq_answer r) ''answered question'') (\<lambda>answer.
       Inr \<lparr>ai_request_id = rq_id r, ai_work_id = rq_work_id r,
            ai_assignment_id = rq_assignment_id r, ai_generation = rq_generation r,
            ai_contract_revision = rq_contract_revision r,
            ai_prompt_revision = rq_prompt_revision r, ai_prompt = rq_prompt r,
            ai_answer = answer, ai_updated_seq = rq_updated_seq r\<rparr>)"

definition packet_of ::
  "snapshot \<Rightarrow> assignment \<Rightarrow> ticket \<Rightarrow> context_artifact list \<Rightarrow> answered_input list \<Rightarrow> context_packet"
where
  "packet_of s a work artifacts answers = \<lparr>
     wp_project_context =
       Option.bind (map_get (ps_assignment_contexts (sn_project s)) (as_id a))
         (map_get (ps_contexts (sn_project s))),
     wp_contract_ref = tk_id work, wp_contract_revision = tk_contract_revision work,
     wp_generation = as_generation a, wp_assignment_id = as_id a, wp_binding = sn_binding s,
     wp_contract = tk_contract work, wp_workspace = as_workspace a,
     wp_inputs = as_dependency_inputs a, wp_input_artifacts = artifacts, wp_answers = answers,
     wp_result_contract =
       ''Submit exact assignment/generation/contract/input versions, artifact hashes and evidence. Completion means submitted.''\<rparr>"

definition build_context_packet ::
  "env \<Rightarrow> snapshot \<Rightarrow> assignment \<Rightarrow> nat \<Rightarrow> context_packet result"
where
  "build_context_packet E s a budget =
     and_then (expect (map_get (sn_tickets s) (as_work_id a)) ''index'') (\<lambda>work.
       if tk_contract_revision work \<noteq> as_contract_revision a
          \<or> tk_generation work \<noteq> as_generation a
          \<or> tk_state work \<noteq> W_Active \<or> tk_active_assignment work \<noteq> Some (as_id a)
          \<or> list_ex (input_outdated s) (as_dependency_inputs a)
       then fail RevisionConflict
       else if budget < 128 \<or> work_context_bytes_limit < budget then fail ContextBudgetExceeded
       else
         and_then (try_fold (add_input E s budget) (0, []) (as_dependency_inputs a)) (\<lambda>st.
         and_then (try_map answered_input_of
           (filter (answered_for (tk_id work) a) (vals (sn_requests s)))) (\<lambda>answers.
           let packet = packet_of s a work (snd st) answers
           in and_then (canonical_bytes E (Pl_Packet packet)) (\<lambda>bytes.
                if length bytes > budget then fail ContextBudgetExceeded else Inr packet))))"

section \<open>Checks before publication\<close>

definition validate_new_assignment_contexts ::
  "env \<Rightarrow> snapshot \<Rightarrow> snapshot \<Rightarrow> unit result"
where
  "validate_new_assignment_contexts E before next_s =
     try_each (\<lambda>a.
       if has_key (sn_assignments before) (as_id a) then Inr ()
       else
         and_then (expect (map_get (sn_tickets next_s) (as_work_id a)) ''index'') (\<lambda>work.
           if tk_active_assignment work = Some (as_id a)
           then and_then (build_context_packet E next_s a work_context_bytes_limit) (\<lambda>_. Inr ())
           else Inr ())) (vals (sn_assignments next_s))"

definition answer_changed :: "snapshot \<Rightarrow> snapshot \<Rightarrow> pending_request \<Rightarrow> bool" where
  "answer_changed before next_s r =
     (rq_kind r = Question \<and> rq_status r = R_Answered \<and>
      ((case map_get (sn_requests before) (rq_id r) of
          None \<Rightarrow> True | Some old \<Rightarrow> rq_answer old \<noteq> rq_answer r) \<or>
       (map_get (ps_work_contexts (sn_project before)) (rq_work_id r)
          \<noteq> map_get (ps_work_contexts (sn_project next_s)) (rq_work_id r) \<and>
        (case map_get (sn_tickets next_s) (rq_work_id r) of
           None \<Rightarrow> False
         | Some work \<Rightarrow> tk_contract_revision work = rq_contract_revision r))))"

text \<open>\<open>max_by_key(|a| a.generation)\<close> keeps the last of the greatest.\<close>

definition later_generation :: "assignment \<Rightarrow> assignment option \<Rightarrow> assignment option" where
  "later_generation a best =
     (case best of None \<Rightarrow> Some a
      | Some b \<Rightarrow> if as_generation a < as_generation b then Some b else Some a)"

definition previous_attempt :: "snapshot \<Rightarrow> ticket \<Rightarrow> string \<Rightarrow> assignment option" where
  "previous_attempt s work i =
     fold later_generation
       (filter (\<lambda>a. as_work_id a = i \<and> as_contract_revision a = tk_contract_revision work)
         (vals (sn_assignments s))) None"

definition projected_id :: string where
  "projected_id = ''00000000-0000-0000-0000-000000000000''"

definition projected_assignment ::
  "snapshot \<Rightarrow> string \<Rightarrow> ticket \<Rightarrow> dependency_input list \<Rightarrow> assignment"
where
  "projected_assignment s i work inputs =
     new_assignment s i work projected_id inputs
       (Option.bind (previous_attempt s work i) as_workspace)"

definition projected_snapshot :: "snapshot \<Rightarrow> string \<Rightarrow> ticket \<Rightarrow> snapshot" where
  "projected_snapshot s i work =
     (let p = sn_project s;
          contexts = map_remove projected_id (ps_assignment_contexts p);
          contexts' = (case map_get (ps_work_contexts p) i of
                         None \<Rightarrow> contexts | Some h \<Rightarrow> map_put projected_id h contexts)
      in put_ticket i
           (work\<lparr>tk_generation := tk_generation work + 1, tk_state := W_Active,
                 tk_active_assignment := Some projected_id\<rparr>)
           (s\<lparr>sn_project := p\<lparr>ps_assignment_contexts := contexts'\<rparr>\<rparr>))"

definition accepted_dependencies :: "snapshot \<Rightarrow> ticket \<Rightarrow> ticket" where
  "accepted_dependencies s work =
     work\<lparr>tk_depends_on := filter (\<lambda>i. case map_get (sn_tickets s) i of
                             None \<Rightarrow> False | Some up \<Rightarrow> tk_state up = W_Accepted)
                           (tk_depends_on work)\<rparr>"

definition validate_answer_contexts :: "env \<Rightarrow> snapshot \<Rightarrow> snapshot \<Rightarrow> unit result" where
  "validate_answer_contexts E before next_s =
     try_each (\<lambda>i.
       and_then (expect (map_get (sn_tickets next_s) i) ''index'') (\<lambda>work.
       and_then (dependencies next_s (accepted_dependencies next_s work)) (\<lambda>inputs.
       and_then (build_context_packet E (projected_snapshot next_s i work)
         (projected_assignment next_s i work inputs) work_context_bytes_limit) (\<lambda>_. Inr ()))))
       (set_of (map rq_work_id (filter (answer_changed before next_s) (vals (sn_requests next_s)))))"

end
