(* ===== verification/Store.thy ===== *)
theory Store
  imports Snapshot
begin

text \<open>
  The published state of a scope as \<open>store.rs\<close> keeps it in memory: the last published
  snapshot with its commit hash, the health of the authority, and the publication.
  What the disk does with a snapshot is a parameter with the three outcomes the code
  distinguishes: durable, failed before the HEAD rename, failed after it.
\<close>

datatype health = Writable | ReadOnly string

datatype disk_outcome = Durable string | NotRenamed error | Renamed error

type_synonym disk = "snapshot \<Rightarrow> disk_outcome"

record store =
  st_root :: string
  st_health :: health
  st_published :: "(string \<times> snapshot) option"
  st_offline_original_writable :: bool

definition published :: "store \<Rightarrow> (string \<times> snapshot) result" where
  "published st = ok_or (st_published st) (AuthorityUnavailable ''no verified snapshot'')"

definition require_writable :: "store \<Rightarrow> unit result" where
  "require_writable st =
     (if st_health st = Writable then Inr () else fail (AuthorityUnavailable ''ReadOnly''))"

definition publish_snapshot :: "disk \<Rightarrow> snapshot \<Rightarrow> store \<Rightarrow> store \<times> string result" where
  "publish_snapshot disk s st =
     (if st_health st \<noteq> Writable then (st, fail (AuthorityUnavailable ''ReadOnly''))
      else
        case disk s of
          Durable h \<Rightarrow> (st\<lparr>st_published := Some (h, s)\<rparr>, Inr h)
        | NotRenamed e \<Rightarrow> (st, fail e)
        | Renamed e \<Rightarrow>
            (st\<lparr>st_health := ReadOnly ''HEAD publication needs reconciliation''\<rparr>, fail e))"

definition with_facts_seq :: "snapshot \<Rightarrow> snapshot" where
  "with_facts_seq s =
     (if sn_execution_budget s \<noteq> None \<or> sn_execution_facts_seq s \<noteq> None
      then s\<lparr>sn_execution_facts_seq := Some (sn_seq s)\<rparr> else s)"

definition publish :: "disk \<Rightarrow> snapshot \<Rightarrow> store \<Rightarrow> store \<times> string result" where
  "publish disk s st = publish_snapshot disk (with_facts_seq s) st"

text \<open>Accounting may change the budget, the schema and the sequence only.\<close>

definition unchanged_facts :: "snapshot \<Rightarrow> snapshot \<Rightarrow> snapshot" where
  "unchanged_facts current s =
     s\<lparr>sn_seq := sn_seq current, sn_schema := sn_schema current,
       sn_execution_budget := sn_execution_budget current,
       sn_execution_facts_seq := sn_execution_facts_seq current\<rparr>"

definition accounting_snapshot :: "env \<Rightarrow> snapshot \<Rightarrow> store \<Rightarrow> snapshot result" where
  "accounting_snapshot E s st =
     and_then (ok_or (st_published st)
       (AuthorityUnavailable ''accounting needs a published Ticket snapshot'')) (\<lambda>p.
     and_then (canonical_bytes E (Pl_Snapshot (unchanged_facts (snd p) s))) (\<lambda>new.
     and_then (canonical_bytes E (Pl_Snapshot (snd p))) (\<lambda>old.
       if new \<noteq> old then fail (ScopeDenied ''accounting cannot change execution facts'')
       else Inr (s\<lparr>sn_execution_facts_seq := Some (execution_facts_revision (snd p))\<rparr>))))"

definition publish_accounting :: "env \<Rightarrow> disk \<Rightarrow> snapshot \<Rightarrow> store \<Rightarrow> store \<times> string result" where
  "publish_accounting E disk s st =
     (case accounting_snapshot E s st of
        Inl e \<Rightarrow> (st, Inl e)
      | Inr s' \<Rightarrow> publish_snapshot disk s' st)"

section \<open>Calls on the store\<close>

text \<open>
  Every port first decides under the lock what to do and only then publishes: the
  decision is a value to return, or a next snapshot with the value to return once it
  is published.
\<close>

datatype 'r decision = Reply 'r | Commit snapshot 'r

definition run ::
  "(snapshot \<Rightarrow> store \<Rightarrow> store \<times> string result) \<Rightarrow> (store \<Rightarrow> 'r decision result) \<Rightarrow> store \<Rightarrow>
   store \<times> 'r result"
where
  "run pub decide st =
     (case decide st of
        Inl e \<Rightarrow> (st, Inl e)
      | Inr (Reply r) \<Rightarrow> (st, Inr r)
      | Inr (Commit s r) \<Rightarrow>
          (case pub s st of
             (st', Inl e) \<Rightarrow> (st', Inl e)
           | (st', Inr _) \<Rightarrow> (st', Inr r)))"

lemma publish_snapshot_Inr:
  "publish_snapshot disk s st = (st', Inr h) \<longleftrightarrow>
     st_health st = Writable \<and> disk s = Durable h \<and> st' = st\<lparr>st_published := Some (h, s)\<rparr>"
  by (auto simp: publish_snapshot_def split: disk_outcome.splits)

lemma publish_snapshot_Inl:
  "publish_snapshot disk s st = (st', Inl e) \<Longrightarrow>
     st_published st' = st_published st \<and> (st_health st' = st_health st \<or> st_health st' \<noteq> Writable)"
  by (auto simp: publish_snapshot_def split: disk_outcome.splits if_splits)

lemma publish_Inr:
  "publish disk s st = (st', Inr h) \<longleftrightarrow>
     st_health st = Writable \<and> disk (with_facts_seq s) = Durable h \<and>
     st' = st\<lparr>st_published := Some (h, with_facts_seq s)\<rparr>"
  by (simp add: publish_def publish_snapshot_Inr)

lemma with_facts_seq_frame [simp]:
  "sn_receipts (with_facts_seq s) = sn_receipts s"
  "sn_binding (with_facts_seq s) = sn_binding s"
  "sn_assignments (with_facts_seq s) = sn_assignments s"
  "sn_tickets (with_facts_seq s) = sn_tickets s"
  "sn_requests (with_facts_seq s) = sn_requests s"
  "sn_submissions (with_facts_seq s) = sn_submissions s"
  "sn_intents (with_facts_seq s) = sn_intents s"
  "sn_sprints (with_facts_seq s) = sn_sprints s"
  "sn_project (with_facts_seq s) = sn_project s"
  "sn_migration (with_facts_seq s) = sn_migration s"
  "sn_seq (with_facts_seq s) = sn_seq s"
  "sn_schema (with_facts_seq s) = sn_schema s"
  "sn_execution_budget (with_facts_seq s) = sn_execution_budget s"
  "sn_authority_epoch (with_facts_seq s) = sn_authority_epoch s"
  by (simp_all add: with_facts_seq_def)

text \<open>A call that fails never changes the published snapshot.\<close>

lemma run_Inl_published:
  assumes "run (publish disk) decide st = (st', Inl e)"
  shows "st_published st' = st_published st"
  using assms
  by (auto simp: run_def publish_def split: sum.splits decision.splits prod.splits
      dest: publish_snapshot_Inl)

lemma run_Inr:
  assumes "run (publish disk) decide st = (st', Inr r)"
  shows "(decide st = Inr (Reply r) \<and> st' = st) \<or>
         (\<exists>s h. decide st = Inr (Commit s r) \<and> st_health st = Writable \<and>
            disk (with_facts_seq s) = Durable h \<and>
            st' = st\<lparr>st_published := Some (h, with_facts_seq s)\<rparr>)"
  using assms
  by (auto simp: run_def publish_Inr split: sum.splits decision.splits prod.splits)

end
