(* ===== verification/Ticket_Service.thy ===== *)
theory Ticket_Service
  imports Context_Packet Validate Store
begin

text \<open>
  The ports of \<open>TicketService\<close>: executing a command (\<open>execute\<close>), preparing and
  replaying one, authorising a tool call, restarting a writer (\<open>from_store\<close>), the
  permission to read an artifact, and the claim selection of \<open>claiming.rs\<close>.
\<close>

section \<open>Executing a command\<close>

definition is_object :: "json \<Rightarrow> bool" where
  "is_object j = (case j of JObject _ \<Rightarrow> True | _ \<Rightarrow> False)"

definition validate_command_source :: "env \<Rightarrow> authority \<Rightarrow> command_source \<Rightarrow> unit result" where
  "validate_command_source E au src =
     (if \<not> is_worker au
      then fail (ScopeDenied ''Worker adapter input requires Worker identity'')
      else case src of WorkerTask args \<Rightarrow>
        if \<not> is_object args then invalid ''adapter arguments must be an object''
        else and_then (canonical_bytes E (Pl_Source src)) (\<lambda>b.
          if length b > 65536 then invalid ''adapter input exceeds 64 KiB'' else Inr ()))"

definition receipt_of ::
  "authority \<Rightarrow> string \<Rightarrow> string \<Rightarrow> string \<Rightarrow> u64 \<Rightarrow> (string, string) btree_map \<Rightarrow> operation_receipt"
where
  "receipt_of au op_id h bytes q ids = \<lparr>
     or_operation_id = op_id, or_principal = identity au, or_request_hash = h,
     or_canonical_request = bytes, or_committed_seq = q, or_ids = ids\<rparr>"

definition put_receipt :: "operation_receipt \<Rightarrow> snapshot \<Rightarrow> snapshot" where
  "put_receipt r s = s\<lparr>sn_receipts := map_put (or_operation_id r) r (sn_receipts s)\<rparr>"

text \<open>The answer to a command whose operation id already has a receipt.\<close>

definition replay_receipt :: "authority \<Rightarrow> string \<Rightarrow> operation_receipt \<Rightarrow> operation_receipt result" where
  "replay_receipt au h r =
     (if or_principal r \<noteq> identity au then fail (ScopeDenied ''receipt subject'')
      else if or_request_hash r = h then Inr r else fail IdempotencyConflict)"

definition check_command :: "env \<Rightarrow> authority \<Rightarrow> command \<Rightarrow> snapshot \<Rightarrow> unit result" where
  "check_command E au cmd s =
     and_then (validate_authority au s) (\<lambda>_.
       if cd_binding cmd \<noteq> sn_binding s then fail (ScopeDenied ''command scope'')
       else if cd_operation_id cmd = [] \<or> length (cd_operation_id cmd) > 256
       then invalid ''invalid operation id''
       else case cd_source cmd of None \<Rightarrow> Inr () | Some src \<Rightarrow> validate_command_source E au src)"

definition migration_owns :: "snapshot \<Rightarrow> string \<Rightarrow> bool" where
  "migration_owns s i =
     (case sn_migration s of None \<Rightarrow> False | Some r \<Rightarrow> mq_operation_id (mt_request r) = i)"

text \<open>The next snapshot of a fresh command, validated, with its receipt.\<close>

definition perform ::
  "env \<Rightarrow> string \<Rightarrow> authority \<Rightarrow> command \<Rightarrow> string \<Rightarrow> snapshot \<Rightarrow> (snapshot \<times> operation_receipt) result"
where
  "perform E root au cmd bytes s =
     and_then (apply_operations E root au (cd_operations cmd) (s\<lparr>sn_seq := sn_seq s + 1\<rparr>)) (\<lambda>(t, ids).
     and_then (validate_snapshot E t) (\<lambda>_.
     and_then (validate_new_assignment_contexts E s t) (\<lambda>_.
     and_then (validate_answer_contexts E s t) (\<lambda>_.
       let r = receipt_of au (cd_operation_id cmd) (content_hash E bytes) bytes (sn_seq t) ids
       in Inr (put_receipt r t, r)))))"

definition decide_execute ::
  "env \<Rightarrow> authority \<Rightarrow> command \<Rightarrow> store \<Rightarrow> operation_receipt decision result"
where
  "decide_execute E au cmd st =
     and_then (published st) (\<lambda>p.
     let s = snd p in
     and_then (check_command E au cmd s) (\<lambda>_.
     and_then (canonical_bytes E (Pl_Command cmd)) (\<lambda>bytes.
       if migration_owns s (cd_operation_id cmd) then fail IdempotencyConflict
       else
         case map_get (sn_receipts s) (cd_operation_id cmd) of
           Some r \<Rightarrow> and_then (replay_receipt au (content_hash E bytes) r) (\<lambda>r. Inr (Reply r))
         | None \<Rightarrow>
             and_then (require_writable st) (\<lambda>_.
               if cd_expected_seq cmd \<noteq> sn_seq s \<or> cd_expected_epoch cmd \<noteq> sn_authority_epoch s
               then fail RevisionConflict
               else if cd_operations cmd = [] \<or> length (cd_operations cmd) > 64
               then invalid ''operation batch must contain 1..=64 operations''
               else
                 and_then (perform E (st_root st) au cmd bytes s) (\<lambda>(t, r). Inr (Commit t r))))))"

definition execute ::
  "env \<Rightarrow> disk \<Rightarrow> authority \<Rightarrow> command \<Rightarrow> store \<Rightarrow> store \<times> operation_receipt result"
where
  "execute E disk au cmd st = run (publish disk) (decide_execute E au cmd) st"

section \<open>Preparing and replaying commands\<close>

definition source_matches :: "env \<Rightarrow> command \<Rightarrow> command_source \<Rightarrow> bool result" where
  "source_matches E cmd src =
     and_then (ok_or (cd_source cmd)
       (AuthorityUnavailable ''legacy adapter receipt lacks original input; retry needs original command'')) (\<lambda>stored.
     and_then (canonical_bytes E (Pl_Source stored)) (\<lambda>a.
     and_then (canonical_bytes E (Pl_Source src)) (\<lambda>b. Inr (a = b))))"

definition original_command :: "env \<Rightarrow> operation_receipt \<Rightarrow> command result" where
  "original_command E r =
     (if or_canonical_request r = []
      then fail (AuthorityUnavailable ''legacy receipt lacks canonical request; retry needs original command'')
      else ok_or (en_parse_command E (or_canonical_request r)) IdempotencyConflict)"

definition same_input ::
  "env \<Rightarrow> command \<Rightarrow> operation list \<Rightarrow> command_source option \<Rightarrow> bool result"
where
  "same_input E original ops src =
     (case src of
        Some x \<Rightarrow> source_matches E original x
      | None \<Rightarrow>
          and_then (canonical_bytes E (Pl_Operations (cd_operations original))) (\<lambda>a.
          and_then (canonical_bytes E (Pl_Operations ops)) (\<lambda>b. Inr (a = b))))"

definition prepare_request ::
  "env \<Rightarrow> authority \<Rightarrow> string \<Rightarrow> operation list \<Rightarrow> command_source option \<Rightarrow> store \<Rightarrow> command result"
where
  "prepare_request E au op_id ops src st =
     and_then (published st) (\<lambda>p.
     let s = snd p in
     and_then (validate_authority au s) (\<lambda>_.
       case map_get (sn_receipts s) op_id of
         Some r \<Rightarrow>
           if or_principal r \<noteq> identity au then fail (ScopeDenied ''receipt subject'')
           else
             and_then (original_command E r) (\<lambda>original.
             and_then (same_input E original ops src) (\<lambda>same.
               if \<not> same then fail IdempotencyConflict else Inr original))
       | None \<Rightarrow>
           Inr \<lparr>cd_operation_id = op_id, cd_binding = sn_binding s, cd_expected_seq = sn_seq s,
                cd_expected_epoch = sn_authority_epoch s, cd_operations = ops, cd_source = src\<rparr>))"

definition prepare_command ::
  "env \<Rightarrow> authority \<Rightarrow> string \<Rightarrow> operation list \<Rightarrow> store \<Rightarrow> command result"
where
  "prepare_command E au op_id ops st = prepare_request E au op_id ops None st"

definition prepare_source_command ::
  "env \<Rightarrow> authority \<Rightarrow> string \<Rightarrow> operation list \<Rightarrow> command_source \<Rightarrow> store \<Rightarrow> command result"
where
  "prepare_source_command E au op_id ops src st =
     and_then (validate_command_source E au src) (\<lambda>_. prepare_request E au op_id ops (Some src) st)"

definition replay_source_command ::
  "env \<Rightarrow> authority \<Rightarrow> string \<Rightarrow> command_source \<Rightarrow> store \<Rightarrow> command option result"
where
  "replay_source_command E au op_id src st =
     and_then (published st) (\<lambda>p.
     let s = snd p in
     and_then (validate_authority au s) (\<lambda>_.
       case map_get (sn_receipts s) op_id of
         None \<Rightarrow> Inr None
       | Some r \<Rightarrow>
           if or_principal r \<noteq> identity au then fail (ScopeDenied ''receipt subject'')
           else
             and_then (validate_command_source E au src) (\<lambda>_.
             and_then (original_command E r) (\<lambda>original.
             and_then (source_matches E original src) (\<lambda>same.
               if \<not> same then fail IdempotencyConflict else Inr (Some original))))))"

section \<open>Permits\<close>

definition authorize_tool :: "authority \<Rightarrow> string \<Rightarrow> store \<Rightarrow> unit result" where
  "authorize_tool au tool st =
     and_then (published st) (\<lambda>p.
     let s = snd p in
     and_then (validate_authority au s) (\<lambda>_.
       case au_principal au of
         Worker aid _ _ _ \<Rightarrow>
           and_then (find_assignment s aid) (\<lambda>a.
           and_then (need_worker au a) (\<lambda>_.
           and_then (active_permit s a) (\<lambda>_.
             if tool \<notin> set (as_allowed_tools a)
             then fail (ScopeDenied ''tool is outside contract capability'') else Inr ())))
       | _ \<Rightarrow> fail (ScopeDenied ''Worker permit required'')))"

definition own_assignment :: "authority \<Rightarrow> string \<Rightarrow> bool" where
  "own_assignment au aid =
     (case au_principal au of Worker own _ _ _ \<Rightarrow> aid = own | _ \<Rightarrow> True)"

definition scope_artifact :: "snapshot \<Rightarrow> artifact \<Rightarrow> bool" where
  "scope_artifact s ar =
     (Option.bind (sn_migration s) mt_supervisor_snapshot = Some ar
      \<or> Option.bind (sn_legacy_attachment s) is_artifact = Some ar
      \<or> list_ex (\<lambda>w. Option.bind (tk_import_source w) is_artifact = Some ar) (vals (sn_tickets s)))"

definition readable_submission :: "authority \<Rightarrow> snapshot \<Rightarrow> submission \<Rightarrow> bool result" where
  "readable_submission au s su =
     (case au_principal au of
        Worker aid _ _ _ \<Rightarrow>
          if su_assignment_id su = aid then Inr True
          else and_then (expect (map_get (sn_assignments s) aid) ''index'') (\<lambda>a.
            Inr (list_ex (\<lambda>d. di_submission_id d = su_id su) (as_dependency_inputs a)))
      | _ \<Rightarrow> Inr True)"

text \<open>\<open>any\<close> with a predicate that may panic.\<close>

fun try_ex :: "('a \<Rightarrow> bool result) \<Rightarrow> 'a list \<Rightarrow> bool result" where
  "try_ex f [] = Inr False"
| "try_ex f (x # xs) = and_then (f x) (\<lambda>b. if b then Inr True else try_ex f xs)"

definition artifact_permitted :: "authority \<Rightarrow> snapshot \<Rightarrow> artifact \<Rightarrow> bool result" where
  "artifact_permitted au s ar =
     (if \<not> is_worker au \<and> scope_artifact s ar
         \<or> list_ex (\<lambda>a. list_ex (\<lambda>e. ef_artifact e = Some ar) (vals (as_effects a))
                        \<and> own_assignment au (as_id a)) (vals (sn_assignments s))
      then Inr True
      else try_ex (\<lambda>su. if ar \<in> set (su_artifacts su) then readable_submission au s su else Inr False)
             (vals (sn_submissions s)))"

definition read_scope_artifact ::
  "env \<Rightarrow> authority \<Rightarrow> artifact \<Rightarrow> nat \<Rightarrow> store \<Rightarrow> string result"
where
  "read_scope_artifact E au ar budget st =
     and_then (published st) (\<lambda>p.
     and_then (validate_authority au (snd p)) (\<lambda>_.
     and_then (artifact_permitted au (snd p) ar) (\<lambda>permitted.
       if \<not> permitted then fail (ScopeDenied ''Artifact is not a readable scope reference'')
       else read_artifact E ar budget)))"

section \<open>Restarting a writer\<close>

definition interrupted :: "assignment \<Rightarrow> bool" where
  "interrupted a =
     (as_state a \<in> {A_DispatchPending, A_Admitted, A_Running, A_Cancelling}
      \<or> as_state a = A_Blocked \<and> \<not> as_process_stopped a)"

definition block_restarted :: "u64 \<Rightarrow> ticket \<Rightarrow> ticket" where
  "block_restarted q w =
     touch q (w\<lparr>tk_state := W_Blocked,
                tk_blocked := Some \<lparr>
                  br_reason = ''writer restarted; Runtime execution requires reconciliation'',
                  br_resume_state = W_Ready\<rparr>\<rparr>)"

definition restart_assignment :: "string \<times> assignment \<Rightarrow> snapshot \<Rightarrow> snapshot" where
  "restart_assignment e s =
     (let a = snd e
      in if \<not> interrupted a then s
         else
           let s1 = put_assignment (fst e) (bump (sn_seq s) (a\<lparr>as_state := A_OutcomeUnknown\<rparr>)) s
           in case map_get (sn_tickets s1) (as_work_id a) of
                None \<Rightarrow> s1
              | Some w \<Rightarrow>
                  if tk_active_assignment w = Some (as_id a) \<and> tk_state w = W_Active
                  then put_ticket (as_work_id a) (block_restarted (sn_seq s) w) s1 else s1)"

definition expire :: "u64 \<Rightarrow> pending_request \<Rightarrow> pending_request" where
  "expire q r =
     (if (case rq_kind r of Approval _ _ \<Rightarrow> True | Question \<Rightarrow> False)
         \<and> (rq_status r = R_Open \<or> rq_status r = R_Approved)
      then r\<lparr>rq_status := R_Expired, rq_updated_seq := q\<rparr> else r)"

definition restart_snapshot :: "u64 \<Rightarrow> snapshot \<Rightarrow> snapshot" where
  "restart_snapshot epoch s =
     (let s0 = s\<lparr>sn_authority_epoch := epoch, sn_seq := sn_seq s + 1\<rparr>;
          s1 = fold restart_assignment (sn_assignments s0) s0
      in s1\<lparr>sn_requests := map_vals (expire (sn_seq s1)) (sn_requests s1)\<rparr>)"

definition check_opened :: "env \<Rightarrow> store \<Rightarrow> store result" where
  "check_opened E st =
     (if st_health st \<noteq> Writable then Inr st
      else
        and_then (expect (st_published st) ''healthy store snapshot'') (\<lambda>p.
          case validate_snapshot E (snd p) of
            Inl (Fail e) \<Rightarrow> Inr (st\<lparr>st_health := ReadOnly ''invalid snapshot''\<rparr>)
          | Inl other \<Rightarrow> Inl other
          | Inr _ \<Rightarrow> Inr st))"

definition decide_restart :: "env \<Rightarrow> store \<Rightarrow> unit decision result" where
  "decide_restart E st =
     (if st_health st \<noteq> Writable then Inr (Reply ())
      else
        and_then (expect (st_published st) ''healthy store snapshot'') (\<lambda>p.
        and_then (ok_or (checked_add (sn_authority_epoch (snd p)) 1)
          (AuthorityUnavailable ''epoch overflow'')) (\<lambda>epoch.
          Inr (Commit (restart_snapshot epoch (snd p)) ()))))"

definition from_store :: "env \<Rightarrow> disk \<Rightarrow> store \<Rightarrow> store \<times> unit result" where
  "from_store E disk st =
     (case check_opened E st of
        Inl e \<Rightarrow> (st, Inl e)
      | Inr st' \<Rightarrow> run (publish disk) (decide_restart E) st')"

section \<open>Claim selection\<close>

record claim_candidate =
  cc_work_id :: string
  cc_workspace :: "execution_workspace option"

record snapshot_ref =
  sr_commit :: string
  sr_seq :: u64
  sr_authority_epoch :: u64

datatype claim_decision =
    Prepared command
  | CapacityBlocked nat nat
  | NoEligibleWork

definition claim_candidate_limit :: nat where
  "claim_candidate_limit = 64"

definition occupied :: "snapshot \<Rightarrow> nat" where
  "occupied s = length (filter holds_resources (vals (sn_assignments s)))"

definition claimable :: "snapshot \<Rightarrow> ticket \<Rightarrow> bool" where
  "claimable s work =
     (tk_kind work = K_Work \<and> tk_state work = W_Ready \<and> \<not> tk_paused work \<and> \<not> tk_archived work
      \<and> tk_active_assignment work = None
      \<and> list_all (\<lambda>i. case map_get (sn_tickets s) i of
                   None \<Rightarrow> False
                 | Some d \<Rightarrow> tk_state d = W_Accepted
                     \<and> (case tk_accepted_submission d of
                          None \<Rightarrow> False | Some su \<Rightarrow> has_key (sn_submissions s) su))
          (tk_depends_on work))"

definition eligible :: "snapshot \<Rightarrow> claim_candidate \<Rightarrow> (ticket \<times> claim_candidate) option" where
  "eligible s c =
     (case map_get (sn_tickets s) (cc_work_id c) of
        None \<Rightarrow> None
      | Some work \<Rightarrow> if claimable s work then Some (work, c) else None)"

definition before_in_queue :: "ticket \<Rightarrow> ticket \<Rightarrow> bool" where
  "before_in_queue a b =
     (tk_updated_seq a < tk_updated_seq b
      \<or> tk_updated_seq a = tk_updated_seq b \<and> tk_id a < tk_id b)"

text \<open>\<open>min_by\<close> keeps the first of the least.\<close>

definition pick ::
  "ticket \<times> claim_candidate \<Rightarrow> (ticket \<times> claim_candidate) option \<Rightarrow> (ticket \<times> claim_candidate) option"
where
  "pick e best =
     (case best of None \<Rightarrow> Some e
      | Some b \<Rightarrow> if before_in_queue (fst e) (fst b) then Some e else Some b)"

definition oldest ::
  "(ticket \<times> claim_candidate) list \<Rightarrow> (ticket \<times> claim_candidate) option"
where
  "oldest es = fold pick es None"

definition start_command :: "snapshot \<Rightarrow> string \<Rightarrow> ticket \<Rightarrow> claim_candidate \<Rightarrow> command" where
  "start_command s op_id work c = \<lparr>
     cd_operation_id = op_id, cd_binding = sn_binding s, cd_expected_seq = sn_seq s,
     cd_expected_epoch = sn_authority_epoch s,
     cd_operations = [Op_Start (tk_id work) ''assignment'' (cc_workspace c)],
     cd_source = None\<rparr>"

definition claimant :: "authority \<Rightarrow> bool" where
  "claimant au = (case au_principal au of Supervisor _ \<Rightarrow> True | User _ \<Rightarrow> True | _ \<Rightarrow> False)"

definition prepare_ready_claim ::
  "authority \<Rightarrow> snapshot_ref \<Rightarrow> string \<Rightarrow> claim_candidate list \<Rightarrow> nat \<Rightarrow> store \<Rightarrow> claim_decision result"
where
  "prepare_ready_claim au observed op_id candidates capacity st =
     and_then (published st) (\<lambda>p.
     let s = snd p in
     and_then (validate_authority au s) (\<lambda>_.
       if \<not> claimant au then fail (ScopeDenied ''Supervisor/User claim authority required'')
       else if sr_commit observed \<noteq> fst p \<or> sr_seq observed \<noteq> sn_seq s
          \<or> sr_authority_epoch observed \<noteq> sn_authority_epoch s
       then fail RevisionConflict
       else if op_id = [] \<or> length op_id > 256 \<or> length candidates > claim_candidate_limit
          \<or> length (set_of (map cc_work_id candidates)) \<noteq> length candidates
       then invalid ''invalid claim id or candidate bound''
       else if has_key (sn_receipts s) op_id then fail IdempotencyConflict
       else if occupied s \<ge> capacity then Inr (CapacityBlocked (occupied s) capacity)
       else
         case oldest (List.map_filter (eligible s) candidates) of
           None \<Rightarrow> Inr NoEligibleWork
         | Some (work, c) \<Rightarrow> Inr (Prepared (start_command s op_id work c))))"

end
