(* ===== verification/Planning_Ports.thy ===== *)
theory Planning_Ports
  imports Ticket_Service
begin

text \<open>
  The ports of the planning and accounting components: \<open>execute_sprint\<close>
  (\<open>sprint.rs\<close>) and the token ledger's configure, reserve, settle and over-cap report
  (\<open>execution_budget.rs\<close>), on the same published snapshot as \<open>execute\<close>.
\<close>

section \<open>Sprints\<close>

record sprint_receipt =
  sr_operation :: operation_receipt
  sr_closure :: "sprint_closure option"

definition sprint_identity_invalid :: "sprint_command \<Rightarrow> bool" where
  "sprint_identity_invalid cmd =
     (sm_operation_id cmd = [] \<or> length (sm_operation_id cmd) > 256
      \<or> blank (sm_source cmd) \<or> length (sm_source cmd) > 512)"

definition check_sprint_command :: "authority \<Rightarrow> sprint_command \<Rightarrow> snapshot \<Rightarrow> unit result" where
  "check_sprint_command au cmd s =
     and_then (validate_authority au s) (\<lambda>_.
     and_then (need_supervisor au) (\<lambda>_.
       if sm_binding cmd \<noteq> sn_binding s then fail (ScopeDenied ''command scope'')
       else if sprint_identity_invalid cmd
       then invalid ''invalid Sprint operation identity or source'' else Inr ()))"

definition replay_sprint ::
  "authority \<Rightarrow> sprint_command \<Rightarrow> string \<Rightarrow> snapshot \<Rightarrow> operation_receipt \<Rightarrow> sprint_receipt result"
where
  "replay_sprint au cmd h s r =
     and_then (replay_receipt au h r) (\<lambda>r.
       case sm_action cmd of
         Sa_Close _ _ _ \<Rightarrow>
           and_then (find_sprint s (sm_project_id cmd) (sm_sprint_id cmd)) (\<lambda>sp.
             Inr \<lparr>sr_operation = r, sr_closure = sp_closure sp\<rparr>)
       | _ \<Rightarrow> Inr \<lparr>sr_operation = r, sr_closure = None\<rparr>)"

definition sprint_id_str :: "sprint_id \<Rightarrow> string" where
  "sprint_id_str i = project_id_str (sprint_id_project i)"

definition perform_sprint ::
  "env \<Rightarrow> authority \<Rightarrow> sprint_command \<Rightarrow> string \<Rightarrow> string \<Rightarrow> snapshot \<Rightarrow>
   (snapshot \<times> sprint_receipt) result"
where
  "perform_sprint E au cmd bytes commit s =
     and_then (next_seq s) (\<lambda>s1.
     and_then (apply_sprint commit au cmd (sm_action cmd)
       (s1\<lparr>sn_schema := max (sn_schema s1) 6\<rparr>)) (\<lambda>(t, closure).
       let r = receipt_of au (sm_operation_id cmd) (content_hash E bytes) bytes (sn_seq t)
                 [(''sprint'', sprint_id_str (sm_sprint_id cmd))];
           t' = put_receipt r t
       in and_then (validate_snapshot E t') (\<lambda>_.
            Inr (t', \<lparr>sr_operation = r, sr_closure = closure\<rparr>))))"

definition decide_sprint ::
  "env \<Rightarrow> authority \<Rightarrow> sprint_command \<Rightarrow> store \<Rightarrow> sprint_receipt decision result"
where
  "decide_sprint E au cmd st =
     and_then (published st) (\<lambda>p.
     let s = snd p in
     and_then (check_sprint_command au cmd s) (\<lambda>_.
     and_then (canonical_bytes E (Pl_Sprint cmd)) (\<lambda>bytes.
       if length bytes > 256 * 1024 then fail ContextBudgetExceeded
       else
         case map_get (sn_receipts s) (sm_operation_id cmd) of
           Some r \<Rightarrow>
             and_then (replay_sprint au cmd (content_hash E bytes) s r) (\<lambda>r. Inr (Reply r))
         | None \<Rightarrow>
             and_then (require_writable st) (\<lambda>_.
               if sm_expected_seq cmd \<noteq> sn_seq s \<or> sm_expected_epoch cmd \<noteq> sn_authority_epoch s
               then fail RevisionConflict
               else if \<not> list_ex (\<lambda>p. p = sm_project_id cmd) (vals (ps_links (sn_project s)))
               then fail (ScopeDenied ''Project has no verified link in this scope'')
               else
                 and_then (perform_sprint E au cmd bytes (fst p) s) (\<lambda>(t, r).
                   Inr (Commit t r))))))"

definition execute_sprint ::
  "env \<Rightarrow> disk \<Rightarrow> authority \<Rightarrow> sprint_command \<Rightarrow> store \<Rightarrow> store \<times> sprint_receipt result"
where
  "execute_sprint E disk au cmd st = run (publish disk) (decide_sprint E au cmd) st"

section \<open>Token ledger\<close>

definition need_budget_runtime :: "authority \<Rightarrow> unit result" where
  "need_budget_runtime au =
     (if au_principal au = Runtime then Inr ()
      else fail (ScopeDenied ''trusted Runtime token accounting required''))"

definition require_ledger :: "store \<Rightarrow> unit result" where
  "require_ledger st =
     (if st_health st = Writable then Inr ()
      else fail (AuthorityUnavailable ''token ledger is not writable''))"

text \<open>Publishing accounting facts only.\<close>

definition run_accounting ::
  "env \<Rightarrow> disk \<Rightarrow> (store \<Rightarrow> 'r decision result) \<Rightarrow> store \<Rightarrow> store \<times> 'r result"
where
  "run_accounting E disk decide st = run (publish_accounting E disk) decide st"

definition previous_configuration ::
  "snapshot \<Rightarrow> string \<Rightarrow> u64 option \<Rightarrow> u64 \<Rightarrow> token_limits option \<Rightarrow> token_configuration option result"
where
  "previous_configuration s user epoch expected limits =
     (if epoch = None then Inr None
      else
        and_then (ok_or (checked_add expected 1) RevisionConflict) (\<lambda>n.
          case Option.bind (sn_execution_budget s) (\<lambda>b. map_get (tb_configurations b) n) of
            None \<Rightarrow> Inr None
          | Some c \<Rightarrow>
              if tc_user_id c = user \<and> tc_limits c = limits then Inr (Some c)
              else fail IdempotencyConflict))"

definition decide_configure ::
  "env \<Rightarrow> authority \<Rightarrow> u64 option \<Rightarrow> u64 \<Rightarrow> token_limits option \<Rightarrow> store \<Rightarrow>
   token_configuration decision result"
where
  "decide_configure E au epoch expected limits st =
     and_then (published st) (\<lambda>p.
     let s = snd p in
     and_then (validate_authority au s) (\<lambda>_.
       case au_principal au of
         User user \<Rightarrow>
           if (case epoch of None \<Rightarrow> False | Some e \<Rightarrow> e \<noteq> sn_authority_epoch s)
           then fail RevisionConflict
           else
             and_then (previous_configuration s user epoch expected limits) (\<lambda>prev.
               case prev of
                 Some c \<Rightarrow> Inr (Reply c)
               | None \<Rightarrow>
                   and_then (require_ledger st) (\<lambda>_.
                   and_then (configure user expected limits s) (\<lambda>(c, t).
                   and_then (validate_snapshot E t) (\<lambda>_. Inr (Commit t c)))))
       | _ \<Rightarrow> fail (ScopeDenied ''explicit User token-budget decision required'')))"

definition configure_budget ::
  "env \<Rightarrow> disk \<Rightarrow> authority \<Rightarrow> u64 option \<Rightarrow> u64 \<Rightarrow> token_limits option \<Rightarrow> store \<Rightarrow>
   store \<times> token_configuration result"
where
  "configure_budget E disk au epoch expected limits st =
     run_accounting E disk (decide_configure E au epoch expected limits) st"

datatype token_submission =
    New_Submission token_reservation
  | Existing_Submission token_reservation
  | Blocked_Submission token_block

definition decide_reserve ::
  "env \<Rightarrow> authority \<Rightarrow> token_request \<Rightarrow> u64 \<Rightarrow> store \<Rightarrow> token_submission decision result"
where
  "decide_reserve E au r now_ms st =
     and_then (published st) (\<lambda>p.
     let s = snd p in
     and_then (validate_authority au s) (\<lambda>_.
     and_then (need_budget_runtime au) (\<lambda>_.
     and_then (valid_token_request r) (\<lambda>_.
     and_then (require_ledger st) (\<lambda>_.
     and_then (reserve E r now_ms s) (\<lambda>plan.
       case plan of
         Existing_Reservation v \<Rightarrow> Inr (Reply (Existing_Submission v))
       | Reserve_Blocked b \<Rightarrow> Inr (Reply (Blocked_Submission b))
       | New_Reservation v t \<Rightarrow>
           and_then (validate_snapshot E t) (\<lambda>_. Inr (Commit t (New_Submission v)))))))))"

definition reserve_tokens ::
  "env \<Rightarrow> disk \<Rightarrow> authority \<Rightarrow> token_request \<Rightarrow> u64 \<Rightarrow> store \<Rightarrow> store \<times> token_submission result"
where
  "reserve_tokens E disk au r now_ms st = run_accounting E disk (decide_reserve E au r now_ms) st"

text \<open>
  A settlement above the reserved caps is published as such and then reported as an
  error: the decision carries \<open>None\<close> for it.
\<close>

definition settle_decision ::
  "env \<Rightarrow> settle_plan \<Rightarrow> token_reservation option decision result"
where
  "settle_decision E plan =
     (case plan of
        Settled v \<Rightarrow> Inr (Reply (Some v))
      | Settle v t \<Rightarrow> and_then (validate_snapshot E t) (\<lambda>_. Inr (Commit t (Some v)))
      | Settle_OverCap t \<Rightarrow> and_then (validate_snapshot E t) (\<lambda>_. Inr (Commit t None)))"

definition decide_settle ::
  "env \<Rightarrow> authority \<Rightarrow> (snapshot \<Rightarrow> settle_plan result) \<Rightarrow> store \<Rightarrow>
   token_reservation option decision result"
where
  "decide_settle E au plan st =
     and_then (published st) (\<lambda>p.
     and_then (validate_authority au (snd p)) (\<lambda>_.
     and_then (need_budget_runtime au) (\<lambda>_.
     and_then (require_ledger st) (\<lambda>_.
     and_then (plan (snd p)) (settle_decision E)))))"

definition halted :: "token_reservation option result \<Rightarrow> token_reservation result" where
  "halted r =
     and_then r (\<lambda>v. ok_or v
       (ResourceBlocked ''provider usage exceeded reserved ceilings; accounting halted''))"

definition settle_tokens ::
  "env \<Rightarrow> disk \<Rightarrow> authority \<Rightarrow> string \<Rightarrow> string \<Rightarrow> string \<Rightarrow> token_usage \<Rightarrow> store \<Rightarrow>
   store \<times> token_reservation result"
where
  "settle_tokens E disk au op_id request_hash receipt usage st =
     apsnd halted
       (run_accounting E disk (decide_settle E au (settle op_id request_hash receipt usage)) st)"

definition report_tokens ::
  "env \<Rightarrow> disk \<Rightarrow> authority \<Rightarrow> string \<Rightarrow> string \<Rightarrow> string \<Rightarrow> over_cap_usage \<Rightarrow> store \<Rightarrow>
   store \<times> token_reservation result"
where
  "report_tokens E disk au op_id request_hash receipt report st =
     apsnd halted
       (run_accounting E disk (decide_settle E au (report_over_cap op_id request_hash receipt report)) st)"

end
