(* ===== verification/Examples.thy ===== *)
theory Examples
  imports Planning_Ports "HOL-Library.Code_Target_Nat"
begin

text \<open>
  A concrete environment and a small scope on which the properties are evaluated: a goal
  with an accepted Work \<open>a\<close>, and a Work \<open>b\<close> that depends on \<open>a\<close> and is being run.
  The environment instantiates the store's parameters with simple functions; the digest
  keeps 64 hexadecimal characters.
\<close>

definition demo_env :: env where
  "demo_env = \<lparr>
     en_to_json = (\<lambda>p. case p of
         Pl_Command c \<Rightarrow> Some (JString (decimal (length (cd_operations c))))
       | _ \<Rightarrow> Some JNull),
     en_json_bytes = (\<lambda>j. case j of JString x \<Rightarrow> x | _ \<Rightarrow> ''00''),
     en_sha256 = (\<lambda>b. take 64 (b @ replicate 64 CHR ''a'')),
     en_uuid = (\<lambda>n. ''u'' @ decimal n),
     en_canonicalize = Some,
     en_is_dir = (\<lambda>_. True),
     en_instant = (\<lambda>_. None),
     en_parse_command = (\<lambda>_. None),
     en_parse_file = (\<lambda>_. None),
     en_object = (\<lambda>_ _. None)\<rparr>"

definition demo_binding :: scope_binding where
  "demo_binding =
     \<lparr>sb_scope_id = ''s'', sb_supervisor_session_id = ''sup'', sb_binding_revision = 1\<rparr>"

definition demo_au :: "principal \<Rightarrow> authority" where
  "demo_au p = \<lparr>au_binding = demo_binding, au_principal = p\<rparr>"

definition demo_contract :: "string \<Rightarrow> contract" where
  "demo_contract title = \<lparr>
     co_title = title, co_objective = ''o'', co_constraints = [], co_acceptance = [''ok''],
     co_user_acceptance_required = False, co_allowed_tools = [''Read'', ''Task'']\<rparr>"

definition demo_ticket ::
  "string \<Rightarrow> ticket_kind \<Rightarrow> string option \<Rightarrow> string list \<Rightarrow> work_state \<Rightarrow> ticket"
where
  "demo_ticket i kind parent deps st =
     (new_ticket (empty_snapshot demo_binding) i kind parent deps (demo_contract ''t''))
       \<lparr>tk_state := st\<rparr>"

definition demo_artifact :: artifact where
  "demo_artifact = \<lparr>ar_uri = ''artifact://r'', ar_sha256 = replicate 64 CHR ''a''\<rparr>"

definition demo_receipt :: "string \<Rightarrow> runtime_receipt" where
  "demo_receipt aid = \<lparr>
     rr_dispatch_key = ''s/'' @ aid @ ''/1'', rr_spec_hash = take 64 (''00'' @ replicate 64 CHR ''a''),
     rr_run_id = ''run-'' @ aid, rr_session_id = ''ses-'' @ aid\<rparr>"

definition demo_workspace :: "string \<Rightarrow> execution_workspace" where
  "demo_workspace i = \<lparr>
     ew_repo = ''/r'', ew_base_commit = replicate 40 CHR ''0'', ew_branch = ''w'',
     ew_worktree = ''/w/'' @ i, ew_write_roots = [''/w/'' @ i],
     ew_claims = [''worktree:/w/'' @ i]\<rparr>"

definition demo_input :: dependency_input where
  "demo_input = \<lparr>di_work_id = ''a'', di_submission_id = ''sa'', di_contract_revision = 1,
     di_artifact_hashes = [replicate 64 CHR ''a'']\<rparr>"

definition demo_attempt ::
  "string \<Rightarrow> string \<Rightarrow> dependency_input list \<Rightarrow> assignment_state \<Rightarrow> bool \<Rightarrow> assignment"
where
  "demo_attempt aid work inputs st stopped =
     (new_assignment (empty_snapshot demo_binding) work (demo_ticket work K_Work None [] W_Ready)
        aid inputs (Some (demo_workspace aid)))
       \<lparr>as_state := st, as_process_stopped := stopped, as_runtime := Some (demo_receipt aid)\<rparr>"

definition demo_intent :: "string \<Rightarrow> string \<Rightarrow> dependency_input list \<Rightarrow> dispatch_intent" where
  "demo_intent aid work inputs = \<lparr>
     in_assignment_id = aid, in_dispatch_key = ''s/'' @ aid @ ''/1'',
     in_immutable_spec = spec_of (empty_snapshot demo_binding) work
        (demo_ticket work K_Work None [] W_Ready) aid None inputs (Some (demo_workspace aid)),
     in_spec_hash = take 64 (''00'' @ replicate 64 CHR ''a''), in_receipt = Some (demo_receipt aid)\<rparr>"

definition demo_submission :: submission where
  "demo_submission = \<lparr>
     su_id = ''sa'', su_work_id = ''a'', su_assignment_id = ''x'', su_generation = 1,
     su_contract_revision = 1, su_runtime = demo_receipt ''x'', su_dependency_inputs = [],
     su_artifacts = [demo_artifact], su_evidence = [''e''], su_effects = [], su_stale = False,
     su_updated_seq = 5\<rparr>"

text \<open>Work \<open>a\<close> in a given state with its submission, Work \<open>b\<close> running.\<close>

definition demo_a :: "work_state \<Rightarrow> ticket" where
  "demo_a st =
     (demo_ticket ''a'' K_Work (Some ''g'') [] st)
       \<lparr>tk_generation := 1, tk_current_submission := Some ''sa'',
        tk_accepted_submission := (if st = W_Accepted then Some ''sa'' else None)\<rparr>"

definition demo_b :: ticket where
  "demo_b =
     (demo_ticket ''b'' K_Work (Some ''g'') [''a''] W_Active)
       \<lparr>tk_generation := 1, tk_active_assignment := Some ''y''\<rparr>"

definition demo :: snapshot where
  "demo = (empty_snapshot demo_binding)
     \<lparr>sn_seq := 9,
      sn_tickets := [(''a'', demo_a W_Accepted), (''b'', demo_b),
                     (''g'', demo_ticket ''g'' K_Goal None [] W_Draft)],
      sn_assignments := [(''x'', demo_attempt ''x'' ''a'' [] A_Submitted True),
                         (''y'', demo_attempt ''y'' ''b'' [demo_input] A_Running False)],
      sn_submissions := [(''sa'', demo_submission)],
      sn_intents := [(''s/x/1'', demo_intent ''x'' ''a'' []),
                     (''s/y/1'', demo_intent ''y'' ''b'' [demo_input])]\<rparr>"

definition demo_store :: "snapshot \<Rightarrow> store" where
  "demo_store s = \<lparr>st_root = ''/store'', st_health = Writable, st_published = Some (''c'', s),
     st_offline_original_writable = True\<rparr>"

definition demo_disk :: disk where
  "demo_disk s = Durable (''c'' @ decimal (unat (sn_seq s)))"

lemma demo_valid: "validate_snapshot demo_env demo = Inr ()"
  by code_simp

end
