(* ===== verification/Propagation.thy ===== *)
theory Propagation
  imports Graphs Evolution Examples
begin

text \<open>
  What a change of a contract or an acceptance propagates to: the walk over the goals above a
  ticket blocks the accepted ones, or does not end, or meets a missing parent; the worklist of
  consumers computes a transitive closure, and every Work in it loses its acceptance.
\<close>

section \<open>The walk over accepted goals\<close>

text \<open>One iteration of \<open>while let Some(id) = next\<close>, for the parent pointers only.\<close>

definition next_parent :: "snapshot \<Rightarrow> string option \<Rightarrow> string option" where
  "next_parent s x = Option.bind x (parent_of s)"

lemma next_parent_None [simp]: "(next_parent s ^^ n) None = None"
  by (induction n) (simp_all add: next_parent_def)

lemma next_parent_simps [simp]: "next_parent s (Some i) = parent_of s i" "next_parent s None = None"
  by (simp_all add: next_parent_def)

lemma parent_of_block_goal:
  assumes "map_get (sn_tickets s) i = Some g"
  shows "next_parent (put_ticket i (block_goal q g) s) = next_parent s"
  using assms
  by (auto simp: next_parent_def parent_of_def fun_eq_iff block_goal_def touch_def
      split: option.splits intro!: arg_cong [where f = "Option.bind _"])

lemma walk_parents_Diverges:
  "walk_parents n s x = Inl Diverges \<longleftrightarrow> (next_parent s ^^ n) x \<noteq> None"
proof (induction n s x rule: walk_parents.induct)
  case (3 n s i)
  show ?case
  proof (cases "map_get (sn_tickets s) i")
    case None
    then have "next_parent s (Some i) = None" by (simp add: next_parent_def parent_of_def)
    with None show ?thesis by (simp add: funpow_Suc_right del: funpow.simps)
  next
    case (Some g)
    have "next_parent s (Some i) = tk_parent g"
      using Some by (simp add: next_parent_def parent_of_def)
    moreover have "next_parent (if tk_state g = W_Accepted then put_ticket i (block_goal (sn_seq s) g) s
        else s) = next_parent s"
      using parent_of_block_goal [OF Some] by simp
    ultimately show ?thesis
      using "3.IH" [of g] Some by (simp add: funpow_Suc_right del: funpow.simps)
  qed
qed simp_all

lemma walk_parents_more_fuel:
  "walk_parents n s x \<noteq> Inl Diverges \<Longrightarrow> n \<le> m \<Longrightarrow> walk_parents m s x = walk_parents n s x"
proof (induction n s x arbitrary: m rule: walk_parents.induct)
  case (3 n s i)
  from "3.prems"(2) obtain m' where m: "m = Suc m'" "n \<le> m'" by (cases m) auto
  show ?case
  proof (cases "map_get (sn_tickets s) i")
    case (Some g)
    with "3.prems"(1) have "walk_parents n
        (if tk_state g = W_Accepted then put_ticket i (block_goal (sn_seq s) g) s else s)
        (tk_parent g) \<noteq> Inl Diverges" by simp
    then show ?thesis using "3.IH" [of g m'] m Some by simp
  qed (simp add: m)
qed simp_all

lemma next_parent_collides:
  assumes n: "(next_parent s ^^ n) x \<noteq> None" "length (sn_tickets s) < n"
  obtains i j where "i < j" "j < n" "(next_parent s ^^ i) x = (next_parent s ^^ j) x"
    "\<forall>k \<le> n. (next_parent s ^^ k) x \<noteq> None"
proof -
  let ?f = "next_parent s" and ?K = "Some ` set (keys (sn_tickets s))"
  have here: "(?f ^^ k) x \<noteq> None" if "k \<le> n" for k
  proof
    assume z: "(?f ^^ k) x = None"
    have "(?f ^^ n) x = (?f ^^ (n - k)) ((?f ^^ k) x)"
      using that by (metis add_diff_inverse_nat comp_apply funpow_add linorder_not_le add.commute)
    with z n(1) show False by simp
  qed
  have known: "(?f ^^ k) x \<in> ?K" if "k < n" for k
  proof -
    have "(?f ^^ k) x \<noteq> None" using here [of k] that by simp
    then obtain i where i: "(?f ^^ k) x = Some i" by blast
    have "?f (Some i) \<noteq> None" using here [of "Suc k"] that i by simp
    with i show ?thesis
      by (auto simp: next_parent_def parent_of_def keys_map_get split: option.splits)
  qed
  have "card ((\<lambda>k. (?f ^^ k) x) ` {0..<n}) \<le> card ?K"
    by (rule card_mono) (use known in auto)
  also have "\<dots> \<le> length (sn_tickets s)"
    by (metis card_image_le card_length finite_set keys_def le_trans length_map)
  finally have "card ((\<lambda>k. (?f ^^ k) x) ` {0..<n}) < card {0..<n}" using n(2) by simp
  then have "\<not> inj_on (\<lambda>k. (?f ^^ k) x) {0..<n}" by (rule pigeonhole)
  then obtain i j where "i < j" "j < n" "(?f ^^ i) x = (?f ^^ j) x"
    unfolding inj_on_def by (metis atLeastLessThan_iff linorder_neqE_nat)
  with here that show ?thesis by blast
qed

lemma next_parent_repeats:
  assumes n: "(next_parent s ^^ n) x \<noteq> None" "length (sn_tickets s) < n"
  shows "(next_parent s ^^ m) x \<noteq> None"
proof -
  let ?f = "next_parent s"
  obtain i j where ij: "i < j" "j < n" "(?f ^^ i) x = (?f ^^ j) x"
    and here: "\<forall>k \<le> n. (?f ^^ k) x \<noteq> None" by (rule next_parent_collides [OF n])
  show ?thesis
  proof (induction m rule: less_induct)
    case (less m)
    show ?case
    proof (cases "m < j")
      case True
      with ij here show ?thesis by simp
    next
      case False
      have "(?f ^^ m) x = (?f ^^ (m - j)) ((?f ^^ j) x)"
        using False by (metis add.commute comp_apply funpow_add le_add_diff_inverse not_less)
      also have "\<dots> = (?f ^^ (m - j + i)) x" using ij(3) by (simp add: funpow_add)
      finally show ?thesis using less [of "m - j + i"] ij False by simp
    qed
  qed
qed

lemma walk_parents_enough:
  "walk_parents (Suc (length (sn_tickets s)) + n) s x = walk_parents (Suc (length (sn_tickets s))) s x"
proof (cases "walk_parents (Suc (length (sn_tickets s))) s x = Inl Diverges")
  case True
  then have "(next_parent s ^^ (Suc (length (sn_tickets s)) + n)) x \<noteq> None"
    unfolding walk_parents_Diverges by (rule next_parent_repeats) simp
  then have "walk_parents (Suc (length (sn_tickets s)) + n) s x = Inl Diverges"
    by (rule walk_parents_Diverges [THEN iffD2])
  with True show ?thesis by simp
qed (auto intro: walk_parents_more_fuel)

text \<open>
  The fuel of the walk over accepted goals is enough: \<open>invalidate_parent_goals\<close> reports
  divergence exactly when no fuel would do.
\<close>

lemma goal_walk_fuel:
  "invalidate_parent_goals i s = Inl Diverges \<longleftrightarrow>
     (\<forall>n. walk_parents n s (parent_of s i) = Inl Diverges)"
proof
  assume "invalidate_parent_goals i s = Inl Diverges"
  then have "(next_parent s ^^ n) (parent_of s i) \<noteq> None" for n
    unfolding invalidate_parent_goals_def walk_parents_Diverges
    by (rule next_parent_repeats) simp
  then show "\<forall>n. walk_parents n s (parent_of s i) = Inl Diverges"
    by (simp add: walk_parents_Diverges)
qed (simp add: invalidate_parent_goals_def)

section \<open>The goals above a ticket\<close>

definition parents :: "snapshot \<Rightarrow> (string \<times> string) set" where
  "parents s = {(i, p). \<exists>t. map_get (sn_tickets s) i = Some t \<and> tk_parent t = Some p}"

definition blocked_goal :: "snapshot \<Rightarrow> ticket \<Rightarrow> ticket" where
  "blocked_goal s g = (if tk_state g = W_Accepted then block_goal (sn_seq s) g else g)"

lemma parents_iff: "(i, p) \<in> parents s \<longleftrightarrow> parent_of s i = Some p"
  by (auto simp: parents_def parent_of_def split: option.splits)

lemma parents_uplinks: "parents s = uplinks (parent_link s)"
  by (auto simp: parents_def uplinks_def parent_link_def split: option.splits)

lemma reaches_iff: "(i, w) \<in> (parents s)\<^sup>* \<longleftrightarrow> (\<exists>n. (next_parent s ^^ n) (Some i) = Some w)"
proof
  assume "(i, w) \<in> (parents s)\<^sup>*"
  then show "\<exists>n. (next_parent s ^^ n) (Some i) = Some w"
  proof (induction rule: rtrancl_induct)
    case base
    show ?case by (intro exI [of _ 0]) simp
  next
    case (step y z)
    then obtain n where "(next_parent s ^^ n) (Some i) = Some y" by blast
    with step.hyps(2) have "(next_parent s ^^ Suc n) (Some i) = Some z"
      by (simp add: parents_iff)
    then show ?case by blast
  qed
next
  assume "\<exists>n. (next_parent s ^^ n) (Some i) = Some w"
  then obtain n where "(next_parent s ^^ n) (Some i) = Some w" by blast
  then show "(i, w) \<in> (parents s)\<^sup>*"
  proof (induction n arbitrary: w)
    case (Suc n)
    then obtain v where v: "(next_parent s ^^ n) (Some i) = Some v" "parent_of s v = Some w"
      by (cases "(next_parent s ^^ n) (Some i)") auto
    with Suc.IH show ?case by (auto simp: parents_iff intro: rtrancl_into_rtrancl)
  qed simp
qed

lemma above_iff:
  "(i, w) \<in> (parents s)\<^sup>+ \<longleftrightarrow> (\<exists>p. parent_of s i = Some p \<and> (p, w) \<in> (parents s)\<^sup>*)"
  by (auto simp: parents_iff trancl_unfold_left)

lemma chain_loops:
  assumes "(next_parent s ^^ n) (Some p) = Some p" "0 < n"
  shows "(p, p) \<in> (parents s)\<^sup>+"
proof -
  from assms(2) obtain m where "n = Suc m" by (cases n) auto
  with assms(1) have "(next_parent s ^^ m) (next_parent s (Some p)) = Some p"
    by (simp add: funpow_Suc_right del: funpow.simps)
  moreover from this obtain q where "next_parent s (Some p) = Some q"
    by (cases "next_parent s (Some p)") auto
  ultimately show ?thesis using reaches_iff [of q p s] by (auto simp: above_iff)
qed

lemma loop_repeats:
  assumes "(p, p) \<in> (parents s)\<^sup>+"
  shows "(next_parent s ^^ n) (Some p) \<noteq> None"
proof -
  have "\<exists>q. (next_parent s ^^ n) (Some p) = Some q \<and> (q, q) \<in> (parents s)\<^sup>+"
  proof (induction n)
    case (Suc n)
    then obtain q where q: "(next_parent s ^^ n) (Some p) = Some q" "(q, q) \<in> (parents s)\<^sup>+" by blast
    then obtain r where r: "parent_of s q = Some r" "(r, q) \<in> (parents s)\<^sup>*" by (auto simp: above_iff)
    then have "(r, r) \<in> (parents s)\<^sup>+" by (auto simp: parents_iff intro: rtrancl_into_trancl1)
    with q(1) r(1) show ?case by simp
  qed (use assms in simp)
  then show ?thesis by auto
qed

lemma loop_above:
  assumes "(i, p) \<in> (parents s)\<^sup>*" "(p, p) \<in> (parents s)\<^sup>+"
  shows "(next_parent s ^^ n) (Some i) \<noteq> None"
proof
  assume none: "(next_parent s ^^ n) (Some i) = None"
  from assms(1) obtain m where "(next_parent s ^^ m) (Some i) = Some p" by (auto simp: reaches_iff)
  then have "(next_parent s ^^ (n + m)) (Some i) = (next_parent s ^^ n) (Some p)" by (simp add: funpow_add)
  moreover have "(next_parent s ^^ (n + m)) (Some i) = None"
    using none by (simp add: add.commute [of n] funpow_add)
  ultimately show False using loop_repeats [OF assms(2)] by metis
qed

lemma diverges_iff_loop:
  "walk_parents (Suc (length (sn_tickets s))) s (Some i) = Inl Diverges \<longleftrightarrow>
     (\<exists>p. (i, p) \<in> (parents s)\<^sup>* \<and> (p, p) \<in> (parents s)\<^sup>+)"
proof
  assume "walk_parents (Suc (length (sn_tickets s))) s (Some i) = Inl Diverges"
  then have "(next_parent s ^^ Suc (length (sn_tickets s))) (Some i) \<noteq> None"
    by (simp only: walk_parents_Diverges not_False_eq_True)
  then obtain m n where mn: "m < n" "(next_parent s ^^ m) (Some i) = (next_parent s ^^ n) (Some i)"
    "(next_parent s ^^ m) (Some i) \<noteq> None"
    by (rule next_parent_collides) auto
  then obtain p where p: "(next_parent s ^^ m) (Some i) = Some p" by blast
  have "(next_parent s ^^ (n - m)) ((next_parent s ^^ m) (Some i)) = (next_parent s ^^ n) (Some i)"
    using mn(1) by (metis add_diff_inverse_nat comp_apply funpow_add less_imp_not_less add.commute)
  with mn p have "(next_parent s ^^ (n - m)) (Some p) = Some p" by simp
  with mn(1) have "(p, p) \<in> (parents s)\<^sup>+" by (intro chain_loops) auto
  with p show "\<exists>p. (i, p) \<in> (parents s)\<^sup>* \<and> (p, p) \<in> (parents s)\<^sup>+" using reaches_iff by blast
next
  assume "\<exists>p. (i, p) \<in> (parents s)\<^sup>* \<and> (p, p) \<in> (parents s)\<^sup>+"
  then have "(next_parent s ^^ Suc (length (sn_tickets s))) (Some i) \<noteq> None"
    using loop_above by metis
  then show "walk_parents (Suc (length (sn_tickets s))) s (Some i) = Inl Diverges"
    by (rule walk_parents_Diverges [THEN iffD2])
qed

lemma parents_block_goal:
  "map_get (sn_tickets s) i = Some g \<Longrightarrow> parents (put_ticket i (block_goal q g) s) = parents s"
  using parent_of_block_goal [of s i g q] by (metis next_parent_simps(1) parents_iff subrelI subset_antisym)

lemma blocked_goal_idem [simp]: "blocked_goal s (blocked_goal s g) = blocked_goal s g"
  by (simp add: blocked_goal_def block_goal_def touch_def)

lemma blocked_goal_eq:
  "blocked_goal s = (\<lambda>g. if tk_state g \<noteq> W_Accepted then g
     else g\<lparr>tk_state := W_Blocked,
            tk_blocked := Some \<lparr>
              br_reason = ''child acceptance changed; Goal needs independent review'',
              br_resume_state = W_Submitted\<rparr>,
            tk_record_revision := tk_record_revision g + 1, tk_updated_seq := sn_seq s\<rparr>)"
  by (simp add: fun_eq_iff blocked_goal_def block_goal_def touch_def)

lemma above_step: "parent_of s i = x \<Longrightarrow>
    (i, w) \<in> (parents s)\<^sup>* \<longleftrightarrow> w = i \<or> (\<exists>p. x = Some p \<and> (p, w) \<in> (parents s)\<^sup>*)"
  by (auto simp: parents_iff elim: converse_rtranclE intro: converse_rtrancl_into_rtrancl)

text \<open>The walk from a ticket: it blocks the accepted tickets of its chain.\<close>

definition goals_blocked :: "snapshot \<Rightarrow> string option \<Rightarrow> snapshot \<Rightarrow> bool" where
  "goals_blocked s x t =
     (let above = {w. \<exists>p. x = Some p \<and> (p, w) \<in> (parents s)\<^sup>*}
      in t = s\<lparr>sn_tickets := sn_tickets t\<rparr> \<and>
         (\<forall>w. map_get (sn_tickets t) w =
            (if w \<in> above then map_option (blocked_goal s) (map_get (sn_tickets s) w)
             else map_get (sn_tickets s) w)) \<and>
         (\<forall>w \<in> above. map_get (sn_tickets s) w \<noteq> None))"

lemma goals_blocked_step:
  assumes g: "map_get (sn_tickets s) i = Some g"
    and t: "goals_blocked (if tk_state g = W_Accepted then put_ticket i (block_goal (sn_seq s) g) s else s) (tk_parent g) t"
  shows "goals_blocked s (Some i) t"
proof -
  let ?s = "if tk_state g = W_Accepted then put_ticket i (block_goal (sn_seq s) g) s else s"
  have p: "parents ?s = parents s" using parents_block_goal [OF g] by simp
  have b: "blocked_goal ?s = blocked_goal s" by (simp add: fun_eq_iff blocked_goal_def put_ticket_def)
  have m: "map_get (sn_tickets ?s) w = (if w = i then Some (blocked_goal s g) else map_get (sn_tickets s) w)" for w
    using g by (simp add: blocked_goal_def put_ticket_def)
  have f: "t = ?s\<lparr>sn_tickets := sn_tickets t\<rparr> \<longleftrightarrow> t = s\<lparr>sn_tickets := sn_tickets t\<rparr>"
    by (simp add: put_ticket_def)
  have "parent_of s i = tk_parent g" using g by (simp add: parent_of_def)
  note a = above_step [OF this]
  have t': "t = s\<lparr>sn_tickets := sn_tickets t\<rparr>"
    "\<And>w. map_get (sn_tickets t) w =
       (if \<exists>p. tk_parent g = Some p \<and> (p, w) \<in> (parents s)\<^sup>*
        then map_option (blocked_goal s) (map_get (sn_tickets ?s) w) else map_get (sn_tickets ?s) w)"
    "\<And>p w. tk_parent g = Some p \<Longrightarrow> (p, w) \<in> (parents s)\<^sup>* \<Longrightarrow> map_get (sn_tickets ?s) w \<noteq> None"
    using t unfolding goals_blocked_def Let_def p b f mem_Collect_eq by blast+
  have "map_get (sn_tickets t) w =
      (if (i, w) \<in> (parents s)\<^sup>* then map_option (blocked_goal s) (map_get (sn_tickets s) w)
       else map_get (sn_tickets s) w)" for w
    using t'(2) [of w] g unfolding m a by (cases "w = i") (auto split: if_splits)
  moreover have "map_get (sn_tickets s) w \<noteq> None" if "(i, w) \<in> (parents s)\<^sup>*" for w
    using that t'(3) [of _ w] g unfolding m a by (cases "w = i") auto
  ultimately show ?thesis using t'(1) by (simp add: goals_blocked_def)
qed

lemma walk_parents_blocks: "walk_parents n s x = Inr t \<Longrightarrow> goals_blocked s x t"
proof (induction n s x rule: walk_parents.induct)
  case (3 n s i)
  from "3.prems" obtain g where g: "map_get (sn_tickets s) i = Some g"
    and w: "walk_parents n (if tk_state g = W_Accepted then put_ticket i (block_goal (sn_seq s) g) s else s) (tk_parent g) = Inr t"
    by (auto simp: call_simps)
  from goals_blocked_step [OF g "3.IH" [OF w]] show ?case .
qed (simp_all add: goals_blocked_def)

lemma walk_parents_stops:
  "walk_parents n s x = Inl e \<Longrightarrow> e \<noteq> Diverges \<Longrightarrow>
     e = Panic ''validated containment parent'' \<and>
     (\<exists>p w. x = Some p \<and> (p, w) \<in> (parents s)\<^sup>* \<and> map_get (sn_tickets s) w = None)"
proof (induction n s x rule: walk_parents.induct)
  case (3 n s i)
  show ?case
  proof (cases "map_get (sn_tickets s) i")
    case (Some g)
    let ?s = "if tk_state g = W_Accepted then put_ticket i (block_goal (sn_seq s) g) s else s"
    have p: "parents ?s = parents s" using parents_block_goal [OF Some] by simp
    from Some "3.prems" have w: "walk_parents n ?s (tk_parent g) = Inl e" by simp
    from "3.IH" [OF w "3.prems"(2)] Some p above_step [of s i "tk_parent g"] show ?thesis
      by (auto simp: parent_of_def put_ticket_def split: if_splits)
  qed (use 3 in \<open>auto simp: call_simps\<close>)
qed simp_all

section \<open>The consumers of a result\<close>

definition consumes :: "snapshot \<Rightarrow> (string \<times> string) set" where
  "consumes s = {(i, as_work_id a) | i a. a \<in> set (vals (sn_assignments s)) \<and>
     (\<exists>d \<in> set (as_dependency_inputs a). di_work_id d = i)}"

lemma consumes_iff: "(i, w) \<in> consumes s \<longleftrightarrow> w \<in> set (consumers s i)"
  by (auto simp: consumes_def consumers_def list_ex_iff)

lemma set_visit:
  "set (fst (visit c st)) = insert c (set (fst st))"
  "set (snd (visit c st)) = (if c \<in> set (fst st) then set (snd st) else insert c (set (snd st)))"
  by (auto simp: visit_def)

lemma set_fold_visit:
  "set (fst (fold visit cs st)) = set cs \<union> set (fst st)"
  "set (snd (fold visit cs st)) = (set cs - set (fst st)) \<union> set (snd st)"
proof (induction cs arbitrary: st)
  case (Cons c cs)
  {
    case 1
    show ?case using Cons(1) [of "visit c st"] by (auto simp: set_visit)
  next
    case 2
    show ?case using Cons(2) [of "visit c st"] by (auto simp: set_visit)
  }
qed simp_all

lemma affected_loop_sound:
  "w \<in> set (affected_loop s seen frontier) \<Longrightarrow>
     w \<in> set seen \<or> (\<exists>i \<in> set frontier. (i, w) \<in> (consumes s)\<^sup>+)"
proof (induction s seen frontier rule: affected_loop.induct)
  case (2 s seen i frontier)
  let ?st = "fold visit (consumers s i) (seen, frontier)"
  from 2 have "w \<in> set (fst ?st) \<or> (\<exists>j \<in> set (snd ?st). (j, w) \<in> (consumes s)\<^sup>+)"
    by (simp add: Let_def)
  moreover have e: "(i, j) \<in> consumes s" if "j \<in> set (consumers s i)" for j
    using that by (simp add: consumes_iff)
  ultimately consider "w \<in> set seen" | "w \<in> set (consumers s i)"
    | j where "j \<in> set frontier" "(j, w) \<in> (consumes s)\<^sup>+"
    | j where "j \<in> set (consumers s i)" "(j, w) \<in> (consumes s)\<^sup>+"
    by (auto simp: set_fold_visit)
  then show ?case
  proof cases
    case 4
    then have "(i, w) \<in> (consumes s)\<^sup>+" using e by (meson trancl_into_trancl2)
    then show ?thesis by auto
  qed (use e in auto)
qed simp

lemma affected_loop_closed:
  "\<forall>v \<in> set seen. v \<in> set frontier \<or> set (consumers s v) \<subseteq> set seen \<Longrightarrow>
     set seen \<subseteq> set (affected_loop s seen frontier) \<and>
     (\<forall>v \<in> set frontier \<union> set (affected_loop s seen frontier).
        set (consumers s v) \<subseteq> set (affected_loop s seen frontier))"
proof (induction s seen frontier rule: affected_loop.induct)
  case (2 s seen i frontier)
  let ?st = "fold visit (consumers s i) (seen, frontier)"
  note v = set_fold_visit [where cs = "consumers s i" and st = "(seen, frontier)"]
  have pre: "\<forall>v \<in> set (fst ?st). v \<in> set (snd ?st) \<or> set (consumers s v) \<subseteq> set (fst ?st)"
    using v "2.prems" by auto
  have ih: "set (fst ?st) \<subseteq> set (affected_loop s (fst ?st) (snd ?st)) \<and>
     (\<forall>v \<in> set (snd ?st) \<union> set (affected_loop s (fst ?st) (snd ?st)).
        set (consumers s v) \<subseteq> set (affected_loop s (fst ?st) (snd ?st)))"
    by (rule "2.IH" [OF refl pre])
  then show ?case using v by (auto simp: Let_def)
qed auto

lemma set_affected_works: "set (affected_works s i) = {w. (i, w) \<in> (consumes s)\<^sup>+}"
proof
  show "set (affected_works s i) \<subseteq> {w. (i, w) \<in> (consumes s)\<^sup>+}"
    using affected_loop_sound [of _ s "[]" "[i]"] by (auto simp: affected_works_def)
next
  have c: "set (consumers s v) \<subseteq> set (affected_works s i)"
    if "v = i \<or> v \<in> set (affected_works s i)" for v
    using that affected_loop_closed [of "[]" "[i]" s] by (auto simp: affected_works_def)
  show "{w. (i, w) \<in> (consumes s)\<^sup>+} \<subseteq> set (affected_works s i)"
  proof
    fix w assume "w \<in> {w. (i, w) \<in> (consumes s)\<^sup>+}"
    then have "(i, w) \<in> (consumes s)\<^sup>+" by simp
    then show "w \<in> set (affected_works s i)"
      by (induction rule: trancl_induct) (use c in \<open>auto simp: consumes_iff\<close>)
  qed
qed

lemma sorted_affected_works: "sorted_wrt (<) (affected_works s i)"
proof -
  have "sorted_wrt (<) (fst (fold visit cs st))" if "sorted_wrt (<) (fst st)" for cs st
    using that by (induction cs arbitrary: st) (auto simp: visit_def)
  then have "sorted_wrt (<) (affected_loop s seen fr)" if "sorted_wrt (<) seen" for seen fr
    using that by (induction s seen fr rule: affected_loop.induct) (auto simp: Let_def)
  from this [of "[]" "[i]"] show ?thesis unfolding affected_works_def by simp
qed

section \<open>What happens to the consumers\<close>

text \<open>The state of a ticket, of an attempt and of a request after a revocation.\<close>

definition revoked :: "u64 \<Rightarrow> ticket \<Rightarrow> ticket" where
  "revoked q k =
     (if tk_state k = W_Cancelled then k
      else k\<lparr>tk_state := W_Blocked, tk_accepted_submission := None,
             tk_blocked := Some \<lparr>br_reason = ''accepted dependency input revoked; review required'',
                                br_resume_state = tk_state k\<rparr>,
             tk_record_revision := tk_record_revision k + 1, tk_updated_seq := q\<rparr>)"

definition runs_for :: "snapshot \<Rightarrow> string \<Rightarrow> string \<Rightarrow> assignment \<Rightarrow> bool" where
  "runs_for s w k a =
     (\<not> as_process_stopped a \<and>
      (\<exists>v. map_get (sn_tickets s) w = Some v \<and> tk_active_assignment v = Some k))"

definition asked_to_stop :: "u64 \<Rightarrow> assignment \<Rightarrow> assignment \<Rightarrow> bool" where
  "asked_to_stop q a a' =
     (a' = a\<lparr>as_state := (if as_state a = A_OutcomeUnknown then A_OutcomeUnknown else A_Cancelling),
             as_record_revision := as_record_revision a', as_updated_seq := q\<rparr>)"

lemma asked_to_stop_cancel: "asked_to_stop q a (cancel_assignment q a)"
  by (simp add: asked_to_stop_def cancel_assignment_def bump_def)

lemma asked_to_stop_trans: "asked_to_stop q a b \<Longrightarrow> asked_to_stop q b c \<Longrightarrow> asked_to_stop q a c"
  unfolding asked_to_stop_def by (cases a; cases b; cases c) (simp split: if_splits)

lemma asked_to_stop_stopped [simp]:
  "asked_to_stop q a b \<Longrightarrow> as_process_stopped b = as_process_stopped a"
  unfolding asked_to_stop_def by (cases a; cases b) simp

lemma revoke_work_revoked: "revoke_work = revoked"
  by (simp add: fun_eq_iff revoke_work_def revoked_def touch_def)

lemma revoked_active [simp]: "tk_active_assignment (revoked q k) = tk_active_assignment k"
  by (simp add: revoked_def)

lemma invalidate_one_Inr:
  assumes "invalidate_one s i = Inr t"
  obtains (gone) "map_get (sn_tickets s) i = None" "t = invalidate_requests i s"
  | (idle) v where "map_get (sn_tickets s) i = Some v" "\<And>k a. map_get (sn_assignments s) k = Some a \<Longrightarrow> \<not> runs_for s i k a"
      "t = invalidate_requests i (put_ticket i (revoked (sn_seq s) v) s)"
  | (live) v k a where "map_get (sn_tickets s) i = Some v" "tk_active_assignment v = Some k"
      "map_get (sn_assignments s) k = Some a" "\<not> as_process_stopped a"
      "t = invalidate_requests i (put_assignment k (cancel_assignment (sn_seq s) a)
         (put_ticket i (revoked (sn_seq s) v) s))"
proof (cases "map_get (sn_tickets s) i")
  case (Some v)
  show ?thesis
  proof (cases "tk_active_assignment v")
    case None
    with Some assms show ?thesis
      by (intro idle [OF Some]) (auto simp: invalidate_one_def call_simps Let_def revoke_work_revoked runs_for_def)
  next
    case (Some k)
    with \<open>map_get (sn_tickets s) i = Some v\<close> assms obtain a where "map_get (sn_assignments s) k = Some a"
      and t: "t = invalidate_requests i (if as_process_stopped a then put_ticket i (revoked (sn_seq s) v) s
        else put_assignment k (cancel_assignment (sn_seq s) a) (put_ticket i (revoked (sn_seq s) v) s))"
      by (auto simp: invalidate_one_def call_simps Let_def revoke_work_revoked put_ticket_def split: if_splits)
    with Some \<open>map_get (sn_tickets s) i = Some v\<close> show ?thesis
      by (cases "as_process_stopped a") (auto intro: idle live simp: runs_for_def)
  qed
qed (use assms in \<open>auto simp: invalidate_one_def call_simps intro: gone\<close>)

lemma invalidate_one_effect:
  assumes "invalidate_one s i = Inr t"
  shows "sn_seq t = sn_seq s"
    and "map_get (sn_tickets t) w =
      (if w = i then map_option (revoked (sn_seq s)) (map_get (sn_tickets s) w)
       else map_get (sn_tickets s) w)"
    and "sn_requests t = map_vals (supersede (sn_seq s) i) (sn_requests s)"
    and "map_get (sn_assignments s) k = Some a \<Longrightarrow>
      \<exists>a'. map_get (sn_assignments t) k = Some a' \<and>
        (if runs_for s i k a then asked_to_stop (sn_seq s) a a' else a' = a)"
  using assms
  by (cases rule: invalidate_one_Inr;
      auto simp: invalidate_requests_def put_ticket_def put_assignment_def runs_for_def asked_to_stop_cancel)+

lemma invalidate_all_effect:
  assumes "try_fold invalidate_one s ws = Inr t" "distinct ws"
  shows "map_get (sn_tickets t) w =
      (if w \<in> set ws then map_option (revoked (sn_seq s)) (map_get (sn_tickets s) w)
       else map_get (sn_tickets s) w)"
    and "map_get (sn_requests t) r = map_option (\<lambda>q. if rq_work_id q \<in> set ws
        then supersede (sn_seq s) (rq_work_id q) q else q) (map_get (sn_requests s) r)"
    and "map_get (sn_assignments s) k = Some a \<Longrightarrow>
      \<exists>a'. map_get (sn_assignments t) k = Some a' \<and>
        (if \<exists>v \<in> set ws. runs_for s v k a then asked_to_stop (sn_seq s) a a' else a' = a)"
proof -
  have "map_get (sn_tickets t) w =
      (if w \<in> set ws then map_option (revoked (sn_seq s)) (map_get (sn_tickets s) w)
       else map_get (sn_tickets s) w) \<and>
    map_get (sn_requests t) r = map_option (\<lambda>q. if rq_work_id q \<in> set ws
        then supersede (sn_seq s) (rq_work_id q) q else q) (map_get (sn_requests s) r) \<and>
    (map_get (sn_assignments s) k = Some a \<longrightarrow>
      (\<exists>a'. map_get (sn_assignments t) k = Some a' \<and>
        (if \<exists>v \<in> set ws. runs_for s v k a then asked_to_stop (sn_seq s) a a' else a' = a)))"
    using assms
  proof (induction ws arbitrary: s a)
    case (Cons v ws)
    from Cons.prems(1) obtain u where u: "invalidate_one s v = Inr u" "try_fold invalidate_one u ws = Inr t"
      by (auto simp: call_simps)
    note e = invalidate_one_effect [OF u(1)]
    have run: "runs_for u w k b \<longleftrightarrow> runs_for s w k b" for w b
      using e(2) by (auto simp: runs_for_def split: if_splits)
    have same: "runs_for s w k b \<longleftrightarrow> runs_for s w k a" if "asked_to_stop q a b" for q w b
      using that by (simp add: runs_for_def)
    have ih: "distinct ws" using Cons.prems(2) by simp
    note ih = Cons.IH [OF u(2) ih]
    show ?case
    proof (intro conjI impI)
      show "map_get (sn_tickets t) w =
          (if w \<in> set (v # ws) then map_option (revoked (sn_seq s)) (map_get (sn_tickets s) w)
           else map_get (sn_tickets s) w)"
        using ih e(1,2) Cons.prems(2) by auto
      show "map_get (sn_requests t) r = map_option (\<lambda>q. if rq_work_id q \<in> set (v # ws)
          then supersede (sn_seq s) (rq_work_id q) q else q) (map_get (sn_requests s) r)"
        using ih e(1,3) by (cases "map_get (sn_requests s) r") (auto simp: supersede_def)
      assume "map_get (sn_assignments s) k = Some a"
      from e(4) [OF this] obtain b where b: "map_get (sn_assignments u) k = Some b"
        "if runs_for s v k a then asked_to_stop (sn_seq s) a b else b = a" by blast
      from ih [of b] b(1) e(1) obtain c where c: "map_get (sn_assignments t) k = Some c"
        "if \<exists>w \<in> set ws. runs_for s w k b then asked_to_stop (sn_seq s) b c else c = b"
        unfolding run e(1) by blast
      show "\<exists>c. map_get (sn_assignments t) k = Some c \<and>
          (if \<exists>w \<in> set (v # ws). runs_for s w k a then asked_to_stop (sn_seq s) a c else c = a)"
        using b(2) c same by (auto dest: asked_to_stop_trans split: if_splits)
    qed
  qed (auto simp: option.map_ident)
  then show "map_get (sn_tickets t) w =
      (if w \<in> set ws then map_option (revoked (sn_seq s)) (map_get (sn_tickets s) w)
       else map_get (sn_tickets s) w)"
    "map_get (sn_requests t) r = map_option (\<lambda>q. if rq_work_id q \<in> set ws
        then supersede (sn_seq s) (rq_work_id q) q else q) (map_get (sn_requests s) r)"
    "map_get (sn_assignments s) k = Some a \<Longrightarrow>
      \<exists>a'. map_get (sn_assignments t) k = Some a' \<and>
        (if \<exists>v \<in> set ws. runs_for s v k a then asked_to_stop (sn_seq s) a a' else a' = a)" by blast+
qed

section \<open>Properties\<close>

text \<open>
  C27: what the walk over the goals above a ticket does, in every snapshot.  It runs for ever
  exactly when a ticket above \<open>i\<close> is above itself, and panics exactly when one is missing;
  otherwise it returns the snapshot in which every accepted ticket above \<open>i\<close>, and no other,
  is blocked for review, and nothing but tickets has changed.
\<close>

theorem goal_walk_exact:
  "(invalidate_parent_goals i s = Inl Diverges \<longleftrightarrow>
      (\<exists>p. (i, p) \<in> (parents s)\<^sup>+ \<and> (p, p) \<in> (parents s)\<^sup>+)) \<and>
   (invalidate_parent_goals i s = Inl (Panic ''validated containment parent'') \<longleftrightarrow>
      (\<exists>p. (i, p) \<in> (parents s)\<^sup>+ \<and> map_get (sn_tickets s) p = None)) \<and>
   ((\<forall>p. (i, p) \<in> (parents s)\<^sup>+ \<longrightarrow> (p, p) \<notin> (parents s)\<^sup>+ \<and> map_get (sn_tickets s) p \<noteq> None) \<longrightarrow>
      (\<exists>t. invalidate_parent_goals i s = Inr t \<and> t = s\<lparr>sn_tickets := sn_tickets t\<rparr> \<and>
         (\<forall>w. map_get (sn_tickets t) w =
            (if (i, w) \<in> (parents s)\<^sup>+
             then map_option (\<lambda>g. if tk_state g \<noteq> W_Accepted then g
               else g\<lparr>tk_state := W_Blocked,
                      tk_blocked := Some \<lparr>
                        br_reason = ''child acceptance changed; Goal needs independent review'',
                        br_resume_state = W_Submitted\<rparr>,
                      tk_record_revision := tk_record_revision g + 1, tk_updated_seq := sn_seq s\<rparr>)
               (map_get (sn_tickets s) w)
             else map_get (sn_tickets s) w))))"
  (is "(?d \<longleftrightarrow> ?loop) \<and> (?m \<longleftrightarrow> ?missing) \<and> (_ \<longrightarrow> ?blocks)")
proof -
  let ?r = "invalidate_parent_goals i s"
  have above: "(i, w) \<in> (parents s)\<^sup>+ \<longleftrightarrow> (\<exists>p. parent_of s i = Some p \<and> (p, w) \<in> (parents s)\<^sup>*)" for w
    by (rule above_iff)
  have d: "?d \<longleftrightarrow> ?loop"
    unfolding above using diverges_iff_loop [of s]
    by (cases "parent_of s i") (auto simp: invalidate_parent_goals_def)
  have stop: "e = Panic ''validated containment parent'' \<and> ?missing" if "?r = Inl e" "e \<noteq> Diverges" for e
    using walk_parents_stops [OF that [unfolded invalidate_parent_goals_def]] unfolding above by auto
  have blocks: "goals_blocked s (parent_of s i) t" if "?r = Inr t" for t
    using that unfolding invalidate_parent_goals_def by (rule walk_parents_blocks)
  have no_loop: "\<not> ?loop" if "(i, p) \<in> (parents s)\<^sup>+" "map_get (sn_tickets s) p = None" for p
  proof
    from that obtain n where "(next_parent s ^^ n) (Some i) = Some p"
      using reaches_iff trancl_into_rtrancl by metis
    with that(2) have "(next_parent s ^^ Suc n) (Some i) = None" by (simp add: parent_of_def)
    moreover assume ?loop
    ultimately show False using loop_above by (metis trancl_into_rtrancl)
  qed
  have m: "?m \<longleftrightarrow> ?missing"
  proof
    assume ?missing
    then show ?m
    proof (cases ?r)
      case (Inl e)
      with \<open>?missing\<close> no_loop d stop show ?thesis by blast
    next
      case (Inr t)
      from blocks [OF this] \<open>?missing\<close> show ?thesis unfolding above goals_blocked_def by auto
    qed
  qed (use stop in blast)
  have ?blocks if "\<forall>p. (i, p) \<in> (parents s)\<^sup>+ \<longrightarrow> (p, p) \<notin> (parents s)\<^sup>+ \<and> map_get (sn_tickets s) p \<noteq> None"
  proof -
    from that d m stop obtain t where t: "?r = Inr t" by (cases ?r) blast+
    from blocks [OF this] t show ?thesis
      unfolding goals_blocked_def Let_def blocked_goal_eq above mem_Collect_eq by blast
  qed
  with d m show ?thesis by blast
qed

text \<open>
  C11: what revoking a result does to tickets, requests and attempts.  Exactly the Works that
  consumed the result of \<open>i\<close>, directly or through other Works, lose their accepted submission
  and are blocked for review (cancelled Works excepted); exactly their open and approved
  requests are superseded; and exactly the attempts that still run for them are asked to stop
  (an unknown outcome stays unknown).  Every other ticket, request and attempt is unchanged.
\<close>

theorem invalidate_dependents_exact:
  assumes "invalidate_dependents i s = Inr t"
  shows "map_get (sn_tickets t) w =
      (if (i, w) \<in> (consumes s)\<^sup>+
       then map_option (\<lambda>k. if tk_state k = W_Cancelled then k
         else k\<lparr>tk_state := W_Blocked, tk_accepted_submission := None,
                tk_blocked := Some \<lparr>br_reason = ''accepted dependency input revoked; review required'',
                                   br_resume_state = tk_state k\<rparr>,
                tk_record_revision := tk_record_revision k + 1, tk_updated_seq := sn_seq s\<rparr>)
         (map_get (sn_tickets s) w)
       else map_get (sn_tickets s) w) \<and>
    map_get (sn_requests t) r =
      map_option (\<lambda>q. if (i, rq_work_id q) \<in> (consumes s)\<^sup>+ \<and> rq_status q \<in> {R_Open, R_Approved}
        then q\<lparr>rq_status := R_Superseded, rq_updated_seq := sn_seq s\<rparr> else q) (map_get (sn_requests s) r) \<and>
    (\<forall>a. map_get (sn_assignments s) k = Some a \<longrightarrow>
      (\<exists>a'. map_get (sn_assignments t) k = Some a' \<and>
        (if \<not> as_process_stopped a \<and> (\<exists>v u. (i, v) \<in> (consumes s)\<^sup>+ \<and>
              map_get (sn_tickets s) v = Some u \<and> tk_active_assignment u = Some k)
         then a' = a\<lparr>as_state := (if as_state a = A_OutcomeUnknown then A_OutcomeUnknown else A_Cancelling),
                      as_record_revision := as_record_revision a', as_updated_seq := sn_seq s\<rparr>
         else a' = a)))"
proof -
  from assms have f: "try_fold invalidate_one s (affected_works s i) = Inr t"
    by (simp add: invalidate_dependents_def)
  have "distinct (affected_works s i)" using sorted_affected_works by (simp add: strict_sorted_iff)
  note e = invalidate_all_effect [OF f this, unfolded set_affected_works mem_Collect_eq]
  have "(\<lambda>q. if (i, rq_work_id q) \<in> (consumes s)\<^sup>+ then supersede (sn_seq s) (rq_work_id q) q else q) =
      (\<lambda>q. if (i, rq_work_id q) \<in> (consumes s)\<^sup>+ \<and> rq_status q \<in> {R_Open, R_Approved}
        then q\<lparr>rq_status := R_Superseded, rq_updated_seq := sn_seq s\<rparr> else q)"
    by (auto simp: fun_eq_iff supersede_def)
  with e(1) [of w] e(2) [of r] e(3) [of k] show ?thesis
    unfolding runs_for_def asked_to_stop_def revoked_def [abs_def] by auto
qed

text \<open>An accepted goal above a Work whose contract changes, and a Work whose input is revoked.\<close>

definition demo_goal :: snapshot where
  "demo_goal = (empty_snapshot demo_binding)
     \<lparr>sn_tickets := [(''c'', demo_ticket ''c'' K_Work (Some ''g'') [] W_Ready),
                    (''g'', demo_ticket ''g'' K_Goal None [] W_Accepted)]\<rparr>"

theorem goal_walk_exact_witness:
  "\<exists>t g. invalidate_parent_goals ''c'' demo_goal = Inr t \<and> map_get (sn_tickets t) ''g'' = Some g \<and>
     tk_state g = W_Blocked"
proof -
  have get: "map_get (sn_tickets demo_goal) i =
      (if i = ''c'' then Some (demo_ticket ''c'' K_Work (Some ''g'') [] W_Ready)
       else if i = ''g'' then Some (demo_ticket ''g'' K_Goal None [] W_Accepted) else None)" for i
    by (simp add: demo_goal_def map_get_Cons)
  have p: "parents demo_goal = {(''c'', ''g'')}"
    by (auto simp: parents_def get demo_ticket_def new_ticket_def split: if_splits)
  have "(i, p) \<in> (parents demo_goal)\<^sup>+ \<longleftrightarrow> i = ''c'' \<and> p = ''g''" for i p
    unfolding p by (auto dest: tranclD tranclD2)
  with goal_walk_exact [of "''c''" demo_goal] show ?thesis
    by (auto simp: get demo_ticket_def new_ticket_def)
qed

theorem invalidate_dependents_exact_witness:
  "\<exists>t k. invalidate_dependents ''a'' demo = Inr t \<and> map_get (sn_tickets t) ''b'' = Some k \<and>
     tk_state k = W_Blocked \<and> tk_accepted_submission k = None \<and>
     (\<exists>a. map_get (sn_assignments t) ''y'' = Some a \<and> as_state a = A_Cancelling)"
proof -
  have "is_ok (invalidate_dependents ''a'' demo)" by code_simp
  then obtain t where t: "invalidate_dependents ''a'' demo = Inr t" by (auto simp: is_ok_iff)
  have c: "(''a'', ''b'') \<in> (consumes demo)\<^sup>+"
    by (intro r_into_trancl) (simp add: consumes_iff, code_simp)
  have b: "map_get (sn_tickets demo) ''b'' = Some demo_b" by (simp add: demo_def map_get_Cons)
  have y: "map_get (sn_assignments demo) ''y'' = Some (demo_attempt ''y'' ''b'' [demo_input] A_Running False)"
    by (simp add: demo_def map_get_Cons)
  have d: "tk_state demo_b = W_Active" "tk_active_assignment demo_b = Some ''y''"
    "\<not> as_process_stopped (demo_attempt ''y'' ''b'' [demo_input] A_Running False)"
    "as_state (demo_attempt ''y'' ''b'' [demo_input] A_Running False) = A_Running"
    by (simp_all add: demo_b_def demo_attempt_def new_assignment_def demo_ticket_def new_ticket_def)
  note e = invalidate_dependents_exact [OF t, where w = "''b''" and k = "''y''"]
  obtain k where k: "map_get (sn_tickets t) ''b'' = Some k" "tk_state k = W_Blocked" "tk_accepted_submission k = None"
    using conjunct1 [OF e] c b d(1) by simp
  have live: "\<not> as_process_stopped (demo_attempt ''y'' ''b'' [demo_input] A_Running False) \<and>
      (\<exists>v u. (''a'', v) \<in> (consumes demo)\<^sup>+ \<and> map_get (sn_tickets demo) v = Some u \<and>
        tk_active_assignment u = Some ''y'')"
    using b c d by blast
  obtain a where a: "map_get (sn_assignments t) ''y'' = Some a"
    "a = (demo_attempt ''y'' ''b'' [demo_input] A_Running False)
       \<lparr>as_state := (if A_Running = A_OutcomeUnknown then A_OutcomeUnknown else A_Cancelling),
        as_record_revision := as_record_revision a, as_updated_seq := sn_seq demo\<rparr>"
    using conjunct2 [OF conjunct2 [OF e], rule_format, OF y] unfolding if_P [OF live] d(4) by blast
  from a(2) have "as_state a = A_Cancelling" by (rule ssubst) simp
  with t k a(1) show ?thesis by blast
qed

end
