(* ===== verification/Ownership.thy ===== *)
theory Ownership
  imports Evolution
begin

text \<open>
  Who owns a workspace.  An attempt holds its workspace from \<open>Start\<close> until its process
  is confirmed stopped and its effects are settled (\<open>holds_resources\<close>).  No two holders
  clash: their claims are disjoint, their write roots do not overlap and their runtime
  sessions differ.  Ownership, once released, is never taken back by the same attempt.
\<close>

section \<open>Attempts that an operation leaves to their owner\<close>

text \<open>A terminal state is entered only by a stopped process without uncertain effects.\<close>

definition settled :: "assignment \<Rightarrow> bool" where
  "settled a =
     (as_state a \<in> {A_Planned, A_Failed, A_Cancelled} \<longrightarrow>
        as_process_stopped a \<and> \<not> uncertain (as_effects a))"

definition run_le :: "assignment \<Rightarrow> assignment \<Rightarrow> bool" where
  "run_le a a' =
     (attempt_le a a' \<and> as_runtime a' = as_runtime a \<and> (settled a \<longrightarrow> settled a'))"

definition never_new :: "'k \<Rightarrow> 'v \<Rightarrow> bool" where
  "never_new k v = False"

interpretation ro: evolving run_le never_new
  by unfold_locales (auto simp: run_le_def never_new_def intro: ak.le_refl ak.le_trans)

definition runs_kept :: "snapshot \<Rightarrow> snapshot \<Rightarrow> bool" where
  "runs_kept s t =
     (keeps run_le never_new (sn_assignments s) (sn_assignments t)
      \<and> (ordered (sn_assignments s) \<longrightarrow> ordered (sn_assignments t)))"

lemma runs_kept_refl: "sn_assignments t = sn_assignments s \<Longrightarrow> runs_kept s t"
  by (simp add: runs_kept_def ro.keeps_refl)

lemma runs_kept_trans: "runs_kept s t \<Longrightarrow> runs_kept t u \<Longrightarrow> runs_kept s u"
  by (auto simp: runs_kept_def intro: ro.keeps_trans)

lemma runs_kept_put:
  "runs_kept s t \<Longrightarrow> map_get (sn_assignments t) i = Some a \<Longrightarrow> run_le a a' \<Longrightarrow>
     runs_kept s (put_assignment i a' t)"
  by (auto simp: runs_kept_def intro: ro.keeps_trans ro.keeps_put)

lemma runs_kept_put_known:
  "runs_kept s t \<Longrightarrow> map_get (sn_assignments t) i \<noteq> None \<Longrightarrow>
     (\<forall>a. map_get (sn_assignments t) i = Some a \<longrightarrow> run_le a a') \<Longrightarrow>
     runs_kept s (put_assignment i a' t)"
  by (auto intro: runs_kept_put)

lemma runs_kept_frame [simp]:
  "runs_kept s (put_ticket i w t) = runs_kept s t"
  "runs_kept s (put_request r rq t) = runs_kept s t"
  "runs_kept s (put_submission r u t) = runs_kept s t"
  "runs_kept s (invalidate_requests i t) = runs_kept s t"
  "runs_kept s (t\<lparr>sn_project := p\<rparr>) = runs_kept s t"
  "runs_kept s (t\<lparr>sn_schema := n\<rparr>) = runs_kept s t"
  "runs_kept s (t\<lparr>sn_graph_revision := q\<rparr>) = runs_kept s t"
  "runs_kept s (t\<lparr>sn_seq := q\<rparr>) = runs_kept s t"
  "runs_kept s (t\<lparr>sn_resolutions := rs\<rparr>) = runs_kept s t"
  "runs_kept s (t\<lparr>sn_legacy_attachment := l\<rparr>) = runs_kept s t"
  "runs_kept s (t\<lparr>sn_authority_epoch := q\<rparr>) = runs_kept s t"
  "runs_kept s (t\<lparr>sn_intents := i'\<rparr>) = runs_kept s t"
  by (simp_all add: runs_kept_def put_submission_def)

lemma put_submission_frames [simp]:
  "sn_assignments (put_submission i u s) = sn_assignments s"
  "sn_tickets (put_submission i u s) = sn_tickets s"
  "sn_requests (put_submission i u s) = sn_requests s"
  by (simp_all add: put_submission_def)

lemma run_le_updates [simp]:
  "run_le a (bump q a') = run_le a a'"
  "run_le a a"
  by (simp_all add: run_le_def bump_def attempt_le_def settled_def ak.le_refl ek.keeps_refl)

lemma run_le_fields [simp]:
  "run_le a (a\<lparr>as_plan := p\<rparr>)"
  "run_le a (a\<lparr>as_awaiting_request := r\<rparr>)"
  "run_le a (a\<lparr>as_authority_epoch := q, as_state := A_Running\<rparr>)"
  "run_le a (a\<lparr>as_awaiting_request := r, as_state := A_Blocked\<rparr>)"
  "run_le a (a\<lparr>as_state := A_Running\<rparr>)"
  "run_le a (a\<lparr>as_state := A_OutcomeUnknown\<rparr>)"
  "run_le a (a\<lparr>as_state := A_Submitted\<rparr>)"
  "run_le a (a\<lparr>as_state := A_Cancelling\<rparr>)"
  by (simp_all add: run_le_def attempt_le_def settled_def ek.keeps_refl)

lemma run_le_cancel [simp]: "run_le a (cancel_assignment q a)"
  by (simp add: cancel_assignment_def)

lemma runs_kept_self [simp]: "runs_kept s s"
  by (simp add: runs_kept_refl)

section \<open>Operations that neither start nor admit\<close>

lemma walk_parents_runs: "walk_parents n s nxt = Inr t \<Longrightarrow> runs_kept u s \<Longrightarrow> runs_kept u t"
proof (induction n s nxt arbitrary: t rule: walk_parents.induct)
  case (3 n s i)
  from "3.prems"(1) obtain g where g: "map_get (sn_tickets s) i = Some g"
    and rest: "walk_parents n
       (if tk_state g = W_Accepted then put_ticket i (block_goal (sn_seq s) g) s else s)
       (tk_parent g) = Inr t"
    by (auto simp: result_simps)
  show ?case by (rule "3.IH" [OF rest]) (use "3.prems"(2) in simp)
qed auto

lemma invalidate_parent_goals_runs:
  "invalidate_parent_goals i s = Inr t \<Longrightarrow> runs_kept u s \<Longrightarrow> runs_kept u t"
  by (auto simp: invalidate_parent_goals_def intro: walk_parents_runs)

lemma invalidate_one_runs:
  assumes "invalidate_one s i = Inr t" "runs_kept u s"
  shows "runs_kept u t"
  using assms
  by (auto simp: invalidate_one_def result_simps Let_def intro!: runs_kept_put_known
      split: option.splits if_splits)

lemma invalidate_dependents_runs:
  assumes "invalidate_dependents i s = Inr t" "runs_kept u s"
  shows "runs_kept u t"
  using assms(1) unfolding invalidate_dependents_def
  by (rule try_fold_invariant) (use assms(2) in \<open>auto intro: invalidate_one_runs\<close>)

lemma downstream_runs:
  "invalidate_dependents i x = Inr y \<Longrightarrow> invalidate_parent_goals i y = Inr t \<Longrightarrow> runs_kept s x \<Longrightarrow>
     runs_kept s t"
  by (blast intro: invalidate_parent_goals_runs invalidate_dependents_runs)

lemma op_create_runs:
  "op_create E au temp kind parent c deps s cx = Inr (t, cx') \<Longrightarrow> runs_kept s t"
  by (auto simp: op_create_def result_simps Let_def split: option.splits)

lemma op_import_runs: "op_import E au temp c source s cx = Inr (t, cx') \<Longrightarrow> runs_kept s t"
  by (auto simp: op_import_def result_simps Let_def split: option.splits if_splits)

lemma op_ask_runs: "op_ask E au i temp prompt act s cx = Inr (t, cx') \<Longrightarrow> runs_kept s t"
  by (auto simp: op_ask_def result_simps)

lemma op_submit_runs: "op_submit E au aid temp arts ev s cx = Inr (t, cx') \<Longrightarrow> runs_kept s t"
  by (auto simp: op_submit_def result_simps Let_def intro!: runs_kept_put_known split: if_splits)

lemma associate_runs: "associate i p s = Inr t \<Longrightarrow> runs_kept s t"
  by (auto simp: associate_def result_simps split: option.splits if_splits)

lemma set_context_runs: "set_context E i c s = Inr t \<Longrightarrow> runs_kept s t"
  by (auto simp: set_context_def result_simps)

lemma planning_set_runs: "planning_set E au i n p d s = Inr t \<Longrightarrow> runs_kept s t"
  by (auto dest!: planning_set_Inr)

lemma ticket_ops_runs:
  "op_ready au i s = Inr t \<Longrightarrow> runs_kept s t"
  "op_set_dependencies au ids i deps s = Inr t \<Longrightarrow> runs_kept s t"
  "op_accept au i sid ev s = Inr t \<Longrightarrow> runs_kept s t"
  "op_accept_goal au i ev s = Inr t \<Longrightarrow> runs_kept s t"
  "op_reject au i sid reason s = Inr t \<Longrightarrow> runs_kept s t"
  "op_archive au i b s = Inr t \<Longrightarrow> runs_kept s t"
  "op_decide_approval au rid n fp approve s = Inr t \<Longrightarrow> runs_kept s t"
  "op_answer au rid n answer s = Inr t \<Longrightarrow> runs_kept s t"
  by (auto simp: op_ready_def op_set_dependencies_def op_accept_def op_accept_goal_def
      op_reject_def op_archive_def op_decide_approval_def op_answer_def result_simps Let_def)

lemma op_resolve_message_runs: "op_resolve_message E au r s = Inr t \<Longrightarrow> runs_kept s t"
  by (auto simp: op_resolve_message_def result_simps split: option.splits if_splits)

lemma op_attach_legacy_runs: "op_attach_legacy E au x s = Inr t \<Longrightarrow> runs_kept s t"
  by (auto simp: op_attach_legacy_def result_simps split: option.splits if_splits)

lemma op_pause_runs: "op_pause au i reason s = Inr t \<Longrightarrow> runs_kept s t"
  by (auto simp: op_pause_def result_simps intro!: runs_kept_put_known split: option.splits if_splits)

lemma op_update_contract_runs: "op_update_contract E au i c s = Inr t \<Longrightarrow> runs_kept s t"
  by (auto simp: op_update_contract_def result_simps Let_def elim!: downstream_runs
      intro!: runs_kept_put_known split: option.splits if_splits)

lemma op_cancel_runs: "op_cancel au i s = Inr t \<Longrightarrow> runs_kept s t"
  by (auto simp: op_cancel_def result_simps Let_def elim!: downstream_runs
      intro!: runs_kept_put_known split: option.splits)

lemma op_reopen_runs: "op_reopen au i s = Inr t \<Longrightarrow> runs_kept s t"
  by (auto simp: op_reopen_def result_simps Let_def elim!: downstream_runs split: option.splits)

lemma op_running_runs: "op_running au aid s = Inr t \<Longrightarrow> runs_kept s t"
  by (auto simp: op_running_def result_simps intro!: runs_kept_put_known)

lemma op_replace_plan_runs: "op_replace_plan au aid n steps s = Inr t \<Longrightarrow> runs_kept s t"
  by (auto simp: op_replace_plan_def result_simps intro!: runs_kept_put_known)

lemma op_yield_for_input_runs: "op_yield_for_input au aid rid h s = Inr t \<Longrightarrow> runs_kept s t"
  by (auto simp: op_yield_for_input_def result_simps Let_def intro!: runs_kept_put_known)

lemma op_reconcile_completed_runs: "op_reconcile_completed au aid r s = Inr t \<Longrightarrow> runs_kept s t"
  by (auto simp: op_reconcile_completed_def result_simps Let_def intro!: runs_kept_put_known)

lemma op_outcome_unknown_runs: "op_outcome_unknown au aid reason s = Inr t \<Longrightarrow> runs_kept s t"
  by (auto simp: op_outcome_unknown_def result_simps Let_def intro!: runs_kept_put_known)

text \<open>A running attempt is in no terminal state, so it stays settled under new effects.\<close>

lemma run_le_effect:
  assumes "attempt_le a (a\<lparr>as_effects := es\<rparr>)" "active_permit s a = Inr u"
  shows "run_le a (a\<lparr>as_effects := es\<rparr>)"
  using assms by (auto simp: run_le_def settled_def active_permit_Inr current_attempt_Inr)

lemma op_record_effect_runs:
  assumes "op_record_effect au aid attempt e s = Inr t"
  shows "runs_kept s t"
proof -
  from assms obtain a old where a: "map_get (sn_assignments s) aid = Some a"
    "active_permit s a = Inr ()" "map_get (as_effects a) attempt = Some old"
    and e: "effect_le old e"
    and t: "t = put_assignment aid
      (bump (sn_seq s) (a\<lparr>as_effects := map_put attempt e (as_effects a)\<rparr>)) s"
    by (auto simp: op_record_effect_def call_simps effect_le_def dest: valid_effect_transition_le)
  have "attempt_le a (a\<lparr>as_effects := map_put attempt e (as_effects a)\<rparr>)"
    by (rule attempt_le_effect) (use a e in \<open>auto dest: active_permit_alive\<close>)
  from run_le_effect [OF this a(2)] a(1) show ?thesis
    unfolding t by (intro runs_kept_put) simp_all
qed

lemma op_consume_approval_runs:
  assumes "op_consume_approval au rid fp attempt s = Inr t" "attempts_keyed s"
  shows "runs_kept s t"
proof (cases "t = s")
  case False
  with op_consume_approval_Inr [OF assms(1)] obtain r aid a a' where
    a: "map_get (sn_assignments s) aid = Some a" "map_get (sn_assignments s) (as_id a) = Some a'"
      "active_permit s a = Inr ()" "map_get (as_effects a) attempt = None"
    and t: "t = put_assignment (as_id a)
          (a'\<lparr>as_effects := map_put attempt (planned_effect fp) (as_effects a')\<rparr>)
          (put_request rid
            (r\<lparr>rq_status := R_Consumed, rq_consumed_attempt := Some attempt,
               rq_updated_seq := sn_seq s\<rparr>) s)"
    by blast
  have same: "a' = a" using a(1,2) assms(2) by (auto simp: attempts_keyed_def)
  have "attempt_le a (a\<lparr>as_effects := map_put attempt (planned_effect fp) (as_effects a)\<rparr>)"
    by (rule attempt_le_effect) (use a in \<open>auto dest: active_permit_alive\<close>)
  from run_le_effect [OF this a(3)] show ?thesis
    unfolding t same by (intro runs_kept_put [where a = a]) (use a same in simp_all)
qed simp

lemma run_le_stop:
  "(settled a \<Longrightarrow> st \<in> {A_Planned, A_Failed, A_Cancelled} \<Longrightarrow> \<not> uncertain (as_effects a)) \<Longrightarrow>
     run_le a (a\<lparr>as_process_stopped := True, as_state := st\<rparr>)"
  by (auto simp: run_le_def settled_def)

lemma op_confirm_stopped_runs: "op_confirm_stopped au aid b s = Inr t \<Longrightarrow> runs_kept s t"
  by (auto simp: op_confirm_stopped_def result_simps Let_def intro!: runs_kept_put_known run_le_stop)

lemma stopped_state_settled:
  "stopped_state unknown c w d st \<in> {A_Planned, A_Failed, A_Cancelled} \<Longrightarrow> \<not> unknown"
  by (simp add: stopped_state_def split: if_splits)

lemma op_runtime_stopped_runs: "op_runtime_stopped au aid r b s = Inr t \<Longrightarrow> runs_kept s t"
  by (auto simp: op_runtime_stopped_def result_simps Let_def intro!: runs_kept_put_known run_le_stop
      dest!: stopped_state_settled)

section \<open>Exclusive ownership\<close>

definition clash :: "assignment \<Rightarrow> assignment \<Rightarrow> bool" where
  "clash a b =
     ((case (as_workspace a, as_workspace b) of (Some w, Some v) \<Rightarrow> conflicts w v | _ \<Rightarrow> False)
      \<or> (case (as_runtime a, as_runtime b) of
           (Some r, Some q) \<Rightarrow> rr_session_id r = rr_session_id q | _ \<Rightarrow> False))"

definition exclusive :: "snapshot \<Rightarrow> bool" where
  "exclusive s =
     (\<forall>i j a b. map_get (sn_assignments s) i = Some a \<longrightarrow> map_get (sn_assignments s) j = Some b \<longrightarrow>
        i \<noteq> j \<longrightarrow> holds_resources a \<longrightarrow> holds_resources b \<longrightarrow> \<not> clash a b)"

definition runs_inv :: "snapshot \<Rightarrow> bool" where
  "runs_inv s =
     (attempts_keyed s \<and> ordered (sn_assignments s)
      \<and> (\<forall>k a. map_get (sn_assignments s) k = Some a \<longrightarrow>
            settled a \<and> set (as_allowed_tools a) \<subseteq> set native_tools)
      \<and> exclusive s)"

lemma conflicts_sym: "conflicts w v = conflicts v w"
  by (auto simp: conflicts_def list_ex_iff)

lemma clash_sym: "clash a b = clash b a"
  by (auto simp: clash_def conflicts_sym split: option.splits)

lemma settled_holds:
  "settled a \<Longrightarrow> holds_resources a \<longleftrightarrow> \<not> as_process_stopped a \<or> uncertain (as_effects a)"
  by (cases "as_state a") (auto simp: settled_def holds_resources_def)

lemma run_le_holds:
  assumes "run_le a a'" "settled a" "holds_resources a'"
  shows "holds_resources a"
proof (rule ccontr)
  assume "\<not> holds_resources a"
  with assms(2) have "as_process_stopped a" "\<not> uncertain (as_effects a)"
    by (simp_all add: settled_holds)
  with assms(1) have "as_process_stopped a'" "\<not> uncertain (as_effects a')"
    by (simp_all add: run_le_def attempt_le_def)
  with assms(3) show False by (simp add: holds_resources_def)
qed

lemma run_le_clash: "run_le a a' \<Longrightarrow> run_le b b' \<Longrightarrow> clash a' b' = clash a b"
  by (simp add: run_le_def attempt_le_def clash_def)

lemma runs_kept_inv:
  assumes k: "runs_kept s t" and inv: "runs_inv s"
  shows "runs_inv t"
proof -
  have old_of: "\<exists>a. map_get (sn_assignments s) i = Some a \<and> run_le a a'"
    if "map_get (sn_assignments t) i = Some a'" for i a'
    using k that unfolding runs_kept_def keeps_def never_new_def
    by (metis not_None_eq option.inject)
  have "attempts_keyed t"
    using inv old_of by (fastforce simp: attempts_keyed_def runs_inv_def run_le_def attempt_le_def)
  moreover have "ordered (sn_assignments t)" using k inv by (simp add: runs_kept_def runs_inv_def)
  moreover have "settled a' \<and> set (as_allowed_tools a') \<subseteq> set native_tools"
    if "map_get (sn_assignments t) i = Some a'" for i a'
  proof -
    obtain a where a: "map_get (sn_assignments s) i = Some a" "run_le a a'"
      using old_of [OF \<open>map_get (sn_assignments t) i = Some a'\<close>] by blast
    with inv have "settled a \<and> set (as_allowed_tools a) \<subseteq> set native_tools"
      unfolding runs_inv_def by blast
    with a(2) show ?thesis by (simp add: run_le_def attempt_le_def)
  qed
  moreover have "exclusive t"
    unfolding exclusive_def
  proof (intro allI impI)
    fix i j a' b'
    assume a': "map_get (sn_assignments t) i = Some a'" and b': "map_get (sn_assignments t) j = Some b'"
      and ij: "i \<noteq> j" and h: "holds_resources a'" "holds_resources b'"
    from old_of [OF a'] old_of [OF b'] obtain a b where
      ab: "map_get (sn_assignments s) i = Some a" "run_le a a'"
        "map_get (sn_assignments s) j = Some b" "run_le b b'" by blast
    with inv have "settled a" "settled b" by (auto simp: runs_inv_def)
    with h ab have "holds_resources a" "holds_resources b" by (auto dest: run_le_holds)
    with inv ab ij have "\<not> clash a b" by (auto simp: runs_inv_def exclusive_def)
    with run_le_clash [OF ab(2,4)] show "\<not> clash a' b'" by simp
  qed
  ultimately show ?thesis by (simp add: runs_inv_def)
qed

text \<open>An attempt that is put in place without clashing with another holder.\<close>

lemma exclusive_put:
  assumes "exclusive s"
    and "\<And>j b. map_get (sn_assignments s) j = Some b \<Longrightarrow> j \<noteq> i \<Longrightarrow> holds_resources b \<Longrightarrow>
           holds_resources a \<Longrightarrow> \<not> clash a b"
    and "sn_assignments t = map_put i a (sn_assignments s)"
  shows "exclusive t"
  using assms(1) assms(2) unfolding exclusive_def assms(3)
  by (auto simp: clash_sym [of _ a] split: if_splits)

lemma owner_free:
  assumes "\<not> owner_conflict s w" "map_get (sn_assignments s) j = Some b" "holds_resources b"
    "as_workspace b = Some v"
  shows "\<not> conflicts w v"
  using assms map_get_in_vals [OF assms(2)]
  by (auto simp: owner_conflict_def list_ex_iff dest: bspec)

lemma op_start_runs_inv:
  assumes "op_start E au i temp ws s cx = Inr (t, cx')" "runs_inv s"
  shows "runs_inv t"
proof -
  let ?aid = "en_uuid E (cx_drawn cx)"
  from assms(1) obtain work cref inputs h where w: "map_get (sn_tickets s) i = Some work"
    "validate_contract E (tk_contract work) = Inr ()" "check_start_workspace E s ws = Inr ()"
    and t: "t = install_start s i work ?aid cref h inputs ws"
    by (auto simp: op_start_def result_simps split: if_splits)
  let ?a = "new_assignment s i work ?aid inputs ws"
  have as: "sn_assignments t = map_put ?aid ?a (sn_assignments s)"
    by (simp add: t install_start_def Let_def split: option.splits)
  have ws: "\<not> conflicts w v"
    if "ws = Some w" "map_get (sn_assignments s) j = Some b" "holds_resources b"
      "as_workspace b = Some v" for w j b v
    using w(3) owner_free [of s w j b v] that
    by (auto simp: check_start_workspace_def call_simps split: if_splits)
  have "exclusive t"
    by (rule exclusive_put [OF _ _ as])
      (use assms(2) ws in \<open>auto simp: runs_inv_def clash_def new_assignment_def split: option.splits\<close>)
  moreover have "set (co_allowed_tools (tk_contract work)) \<subseteq> set native_tools"
    using w(2) by (auto simp: validate_contract_def native_tools_def result_simps)
  ultimately show ?thesis
    using assms(2)
    by (auto simp: runs_inv_def attempts_keyed_def as settled_def new_assignment_def)
qed

lemma op_admitted_Inr:
  "op_admitted au aid receipt s = Inr t \<Longrightarrow>
     t = s \<or>
     (\<exists>a intent. map_get (sn_assignments s) aid = Some a \<and>
        map_get (sn_intents s) (as_dispatch_key a) = Some intent \<and> as_runtime a = None \<and>
        as_state a = A_DispatchPending \<and>
        rr_dispatch_key receipt = as_dispatch_key a \<and> rr_spec_hash receipt = in_spec_hash intent \<and>
        try_each (admission_conflict a receipt) (vals (sn_assignments s)) = Inr () \<and>
        t = (put_assignment aid (admit (sn_seq s) receipt a) s)
            \<lparr>sn_intents := map_put (as_dispatch_key a) (intent\<lparr>in_receipt := Some receipt\<rparr>)
               (sn_intents s)\<rparr>)"
  by (auto simp: op_admitted_def result_simps split: option.splits if_splits)

lemma op_admitted_runs_inv:
  assumes "op_admitted au aid receipt s = Inr t" "runs_inv s"
  shows "runs_inv t"
proof (cases "t = s")
  case False
  with op_admitted_Inr [OF assms(1)] obtain a intent where
    a: "map_get (sn_assignments s) aid = Some a" "as_state a = A_DispatchPending"
      "as_runtime a = None"
    and free: "try_each (admission_conflict a receipt) (vals (sn_assignments s)) = Inr ()"
    and t: "t = (put_assignment aid (admit (sn_seq s) receipt a) s)
            \<lparr>sn_intents := map_put (as_dispatch_key a) (intent\<lparr>in_receipt := Some receipt\<rparr>)
               (sn_intents s)\<rparr>" by blast
  let ?a = "admit (sn_seq s) receipt a"
  have as: "sn_assignments t = map_put aid ?a (sn_assignments s)" by (simp add: t)
  have key: "as_id a = aid" using assms(2) a(1) by (simp add: runs_inv_def attempts_keyed_def)
  have "exclusive t"
  proof (rule exclusive_put [OF _ _ as])
    show "exclusive s" using assms(2) by (simp add: runs_inv_def)
    fix j b
    assume b: "map_get (sn_assignments s) j = Some b" "j \<noteq> aid" "holds_resources b"
      and h: "holds_resources ?a"
    have "holds_resources a" using h a(2) by (simp add: admit_def bump_def holds_resources_def)
    with assms(2) a(1) b have old: "\<not> clash a b" by (auto simp: runs_inv_def exclusive_def)
    have "as_id b \<noteq> as_id a"
      using assms(2) b key by (auto simp: runs_inv_def attempts_keyed_def)
    moreover have "admission_conflict a receipt b = Inr ()"
      using free map_get_in_vals [OF b(1)] by (simp add: try_each_Inr)
    ultimately have "case as_runtime b of None \<Rightarrow> True
        | Some q \<Rightarrow> rr_session_id q \<noteq> rr_session_id receipt"
      using b(3) by (auto simp: admission_conflict_def split: if_splits option.splits)
    with old show "\<not> clash ?a b"
      by (auto simp: clash_def admit_def bump_def split: option.splits)
  qed
  moreover have "settled ?a" "as_id ?a = aid" "as_allowed_tools ?a = as_allowed_tools a"
    using key by (simp_all add: settled_def admit_def bump_def)
  moreover have "set (as_allowed_tools a) \<subseteq> set native_tools"
    using assms(2) a(1) by (simp add: runs_inv_def)
  ultimately show ?thesis
    using assms(2) by (simp add: runs_inv_def attempts_keyed_def as)
qed (use assms in simp)

lemma apply_op_runs_inv:
  assumes op: "apply_op E au op s cx = Inr (t, cx')" and inv: "runs_inv s"
  shows "runs_inv t"
proof -
  note kept = op_create_runs op_import_runs op_ask_runs op_submit_runs associate_runs
    set_context_runs planning_set_runs ticket_ops_runs op_resolve_message_runs
    op_attach_legacy_runs op_pause_runs op_update_contract_runs op_cancel_runs op_reopen_runs
    op_running_runs op_replace_plan_runs op_yield_for_input_runs op_reconcile_completed_runs
    op_outcome_unknown_runs op_record_effect_runs op_confirm_stopped_runs op_runtime_stopped_runs
  have k: "attempts_keyed s" using inv by (simp add: runs_inv_def)
  show ?thesis
  proof (cases op)
    case (Op_Start i temp ws)
    with op inv show ?thesis by (auto intro: op_start_runs_inv)
  next
    case (Op_Admitted aid receipt)
    with op inv show ?thesis by (auto simp: keep_ctx_Inr intro: op_admitted_runs_inv)
  next
    case (Op_ConsumeApproval rid fp attempt)
    with op inv k show ?thesis
      by (auto simp: keep_ctx_Inr intro: runs_kept_inv op_consume_approval_runs)
  qed (use op inv in \<open>auto simp: keep_ctx_Inr and_then_Inr intro: runs_kept_inv dest: kept\<close>)
qed

lemma apply_operations_runs_inv:
  "apply_operations E root au ops s = Inr (t, ids) \<Longrightarrow> runs_inv s \<Longrightarrow> runs_inv t"
  by (rule apply_operations_invariant [where P = runs_inv]) (auto intro: apply_op_runs_inv)

end
