(* ===== verification/Commands.thy ===== *)
theory Commands
  imports Planning_Ports Evolution
begin

text \<open>
  The command ports as transactions.  An operation never touches the header of a snapshot
  (sequence, epoch, binding, receipts, Sprints, ledger); a committed command adds exactly
  its own receipt; and an operation id names one command for ever.  The last two are the
  locale \<open>receipted_port\<close>, interpreted on \<open>execute\<close> and on \<open>execute_sprint\<close>.
\<close>

section \<open>The header\<close>

record header =
  hd_receipts :: "(string, operation_receipt) btree_map"
  hd_binding :: scope_binding
  hd_seq :: u64
  hd_epoch :: u64
  hd_sprints :: "(sprint_id, sprint) btree_map"
  hd_budget :: "token_budget option"
  hd_facts_seq :: "u64 option"
  hd_migration :: "migration_receipt option"
  hd_human :: "string \<Rightarrow> message_resolution option"

text \<open>The messages of Humans; a Supervisor may record messages of its own.\<close>

definition human_message :: "snapshot \<Rightarrow> string \<Rightarrow> message_resolution option" where
  "human_message s i =
     Option.bind (map_get (sn_resolutions s) i) (\<lambda>r. if mr_ingress r = None then None else Some r)"

lemma human_message_cong: "sn_resolutions t = sn_resolutions s \<Longrightarrow> human_message t = human_message s"
  by (simp add: human_message_def fun_eq_iff)

lemma human_message_Some:
  "human_message s i = Some r \<longleftrightarrow> map_get (sn_resolutions s) i = Some r \<and> mr_ingress r \<noteq> None"
  by (auto simp: human_message_def split: bind_splits if_splits)

definition header_of :: "snapshot \<Rightarrow> header" where
  "header_of s = \<lparr>hd_receipts = sn_receipts s, hd_binding = sn_binding s, hd_seq = sn_seq s,
     hd_epoch = sn_authority_epoch s, hd_sprints = sn_sprints s,
     hd_budget = sn_execution_budget s, hd_facts_seq = sn_execution_facts_seq s,
     hd_migration = sn_migration s, hd_human = human_message s\<rparr>"

lemma header_of_eq:
  "header_of t = header_of s \<longleftrightarrow>
     sn_receipts t = sn_receipts s \<and> sn_binding t = sn_binding s \<and> sn_seq t = sn_seq s \<and>
     sn_authority_epoch t = sn_authority_epoch s \<and> sn_sprints t = sn_sprints s \<and>
     sn_execution_budget t = sn_execution_budget s \<and>
     sn_execution_facts_seq t = sn_execution_facts_seq s \<and> sn_migration t = sn_migration s \<and>
     human_message t = human_message s"
  by (auto simp: header_of_def)

lemma header_of_updates [simp]:
  "header_of (put_ticket i w s) = header_of s"
  "header_of (put_assignment i a s) = header_of s"
  "header_of (put_request i r s) = header_of s"
  "header_of (put_submission i u s) = header_of s"
  "header_of (invalidate_requests i s) = header_of s"
  "header_of (s\<lparr>sn_project := p\<rparr>) = header_of s"
  "header_of (s\<lparr>sn_schema := n\<rparr>) = header_of s"
  "header_of (s\<lparr>sn_graph_revision := q\<rparr>) = header_of s"
  "header_of (s\<lparr>sn_legacy_attachment := l\<rparr>) = header_of s"
  "header_of (s\<lparr>sn_intents := i'\<rparr>) = header_of s"
  by (simp_all add: header_of_def put_ticket_def put_assignment_def put_request_def
      put_submission_def invalidate_requests_def human_message_def fun_eq_iff)

lemma walk_parents_header: "walk_parents n s nxt = Inr t \<Longrightarrow> header_of t = header_of s"
proof (induction n s nxt arbitrary: t rule: walk_parents.induct)
  case (3 n s i)
  from "3.prems" obtain g where
    rest: "walk_parents n
       (if tk_state g = W_Accepted then put_ticket i (block_goal (sn_seq s) g) s else s)
       (tk_parent g) = Inr t"
    by (auto simp: result_simps)
  from "3.IH" [OF rest] show ?case by simp
qed auto

lemma invalidate_parent_goals_header:
  "invalidate_parent_goals i s = Inr t \<Longrightarrow> header_of t = header_of s"
  by (auto simp: invalidate_parent_goals_def dest: walk_parents_header)

lemma invalidate_one_header: "invalidate_one s i = Inr t \<Longrightarrow> header_of t = header_of s"
  by (auto simp: invalidate_one_def result_simps Let_def split: option.splits if_splits)

lemma invalidate_dependents_header:
  assumes "invalidate_dependents i s = Inr t"
  shows "header_of t = header_of s"
  using assms unfolding invalidate_dependents_def
  by (rule try_fold_invariant) (auto dest: invalidate_one_header)

lemmas downstream_header = invalidate_parent_goals_header invalidate_dependents_header

lemma plain_ops_header:
  "op_ready au i s = Inr t \<Longrightarrow> header_of t = header_of s"
  "op_set_dependencies au ids i deps s = Inr t \<Longrightarrow> header_of t = header_of s"
  "op_accept au i sid ev s = Inr t \<Longrightarrow> header_of t = header_of s"
  "op_accept_goal au i ev s = Inr t \<Longrightarrow> header_of t = header_of s"
  "op_reject au i sid reason s = Inr t \<Longrightarrow> header_of t = header_of s"
  "op_archive au i b s = Inr t \<Longrightarrow> header_of t = header_of s"
  "op_decide_approval au rid n fp approve s = Inr t \<Longrightarrow> header_of t = header_of s"
  "op_answer au rid n answer s = Inr t \<Longrightarrow> header_of t = header_of s"
  "op_running au aid s = Inr t \<Longrightarrow> header_of t = header_of s"
  "op_replace_plan au aid m steps s = Inr t \<Longrightarrow> header_of t = header_of s"
  "op_yield_for_input au aid rid h s = Inr t \<Longrightarrow> header_of t = header_of s"
  "op_reconcile_completed au aid rr s = Inr t \<Longrightarrow> header_of t = header_of s"
  "op_outcome_unknown au aid reason s = Inr t \<Longrightarrow> header_of t = header_of s"
  "op_record_effect au aid attempt e s = Inr t \<Longrightarrow> header_of t = header_of s"
  "op_confirm_stopped au aid b s = Inr t \<Longrightarrow> header_of t = header_of s"
  "op_runtime_stopped au aid rr b s = Inr t \<Longrightarrow> header_of t = header_of s"
  by (auto simp: op_ready_def op_set_dependencies_def op_accept_def op_accept_goal_def
      op_reject_def op_archive_def op_decide_approval_def op_answer_def op_running_def
      op_replace_plan_def op_yield_for_input_def op_reconcile_completed_def
      op_outcome_unknown_def op_record_effect_def op_confirm_stopped_def op_runtime_stopped_def
      call_simps Let_def)

lemma planning_set_header: "planning_set E au i n p d s = Inr t \<Longrightarrow> header_of t = header_of s"
  by (auto dest!: planning_set_Inr)

lemma associate_header: "associate i p s = Inr t \<Longrightarrow> header_of t = header_of s"
  by (auto simp: associate_def result_simps split: option.splits if_splits)

lemma set_context_header: "set_context E i c s = Inr t \<Longrightarrow> header_of t = header_of s"
  by (auto simp: set_context_def result_simps)

lemma op_resolve_message_header: "op_resolve_message E au r s = Inr t \<Longrightarrow> header_of t = header_of s"
  by (auto simp: op_resolve_message_def result_simps header_of_eq human_message_def fun_eq_iff
      split: option.splits if_splits)

lemma op_attach_legacy_header: "op_attach_legacy E au x s = Inr t \<Longrightarrow> header_of t = header_of s"
  by (auto simp: op_attach_legacy_def result_simps split: option.splits if_splits)

lemma op_pause_header: "op_pause au i reason s = Inr t \<Longrightarrow> header_of t = header_of s"
  by (auto simp: op_pause_def result_simps split: option.splits if_splits)

lemma op_update_contract_header:
  "op_update_contract E au i c s = Inr t \<Longrightarrow> header_of t = header_of s"
  by (auto simp: op_update_contract_def result_simps Let_def dest!: downstream_header
      split: option.splits if_splits)

lemma op_cancel_header: "op_cancel au i s = Inr t \<Longrightarrow> header_of t = header_of s"
  by (auto simp: op_cancel_def result_simps Let_def dest!: downstream_header split: option.splits)

lemma op_reopen_header: "op_reopen au i s = Inr t \<Longrightarrow> header_of t = header_of s"
  by (auto simp: op_reopen_def result_simps Let_def dest!: downstream_header split: option.splits)

lemma op_admitted_header: "op_admitted au aid receipt s = Inr t \<Longrightarrow> header_of t = header_of s"
  by (auto simp: op_admitted_def result_simps split: option.splits if_splits)

lemma op_consume_approval_header:
  "op_consume_approval au rid fp attempt s = Inr t \<Longrightarrow> header_of t = header_of s"
  by (auto dest!: op_consume_approval_Inr)

lemma op_create_header:
  "op_create E au temp kind parent c deps s cx = Inr (t, cx') \<Longrightarrow> header_of t = header_of s"
  by (auto simp: op_create_def result_simps Let_def split: option.splits)

lemma op_import_header:
  "op_import E au temp c source s cx = Inr (t, cx') \<Longrightarrow> header_of t = header_of s"
  by (auto simp: op_import_def result_simps Let_def split: option.splits if_splits)

lemma op_ask_header:
  "op_ask E au i temp prompt act s cx = Inr (t, cx') \<Longrightarrow> header_of t = header_of s"
  by (auto simp: op_ask_def result_simps)

lemma op_submit_header:
  "op_submit E au aid temp arts ev s cx = Inr (t, cx') \<Longrightarrow> header_of t = header_of s"
  by (auto simp: op_submit_def result_simps Let_def split: if_splits)

lemma op_start_header:
  "op_start E au i temp ws s cx = Inr (t, cx') \<Longrightarrow> header_of t = header_of s"
  by (auto simp: op_start_def install_start_def result_simps Let_def split: if_splits option.splits)

lemma apply_op_header:
  assumes "apply_op E au op s cx = Inr (t, cx')"
  shows "header_of t = header_of s"
proof -
  note all = plain_ops_header planning_set_header associate_header set_context_header
    op_resolve_message_header op_attach_legacy_header op_pause_header op_update_contract_header
    op_cancel_header op_reopen_header op_admitted_header op_consume_approval_header
    op_create_header op_import_header op_ask_header op_submit_header op_start_header
  show ?thesis
    by (cases op) (use assms in \<open>auto simp: keep_ctx_Inr and_then_Inr dest: all\<close>)
qed

lemma apply_operations_header:
  "apply_operations E root au ops s = Inr (t, ids) \<Longrightarrow> header_of t = header_of s"
  by (rule apply_operations_invariant [where P = "\<lambda>u. header_of u = header_of s"])
    (auto dest: apply_op_header)

section \<open>Ports with receipts\<close>

text \<open>
  \<open>key\<close> is the operation id of a request, \<open>receipt\<close> the stored part of its answer,
  \<open>matches\<close> says that a stored receipt belongs to this subject and these request bytes,
  \<open>admits\<close> that the caller may still ask for the answer on this snapshot.
\<close>

locale receipted_port =
  fixes decide :: "'c \<Rightarrow> store \<Rightarrow> 'r decision result"
    and key :: "'c \<Rightarrow> string"
    and receipt :: "'r \<Rightarrow> operation_receipt"
    and matches :: "'c \<Rightarrow> operation_receipt \<Rightarrow> bool"
    and admits :: "'c \<Rightarrow> snapshot \<Rightarrow> bool"
  assumes commit: "decide c st = Inr (Commit t r) \<Longrightarrow>
      \<exists>h s. st_published st = Some (h, s) \<and> map_get (sn_receipts s) (key c) = None \<and>
        sn_receipts t = map_put (key c) (receipt r) (sn_receipts s) \<and> matches c (receipt r)"
    and reply: "decide c st = Inr (Reply r) \<Longrightarrow>
      \<exists>h s. st_published st = Some (h, s) \<and>
        map_get (sn_receipts s) (key c) = Some (receipt r) \<and> matches c (receipt r)"
    and replay: "st_published st = Some (h, s) \<Longrightarrow> admits c s \<Longrightarrow>
      map_get (sn_receipts s) (key c) = Some x \<Longrightarrow> matches c x \<Longrightarrow>
      \<exists>r. decide c st = Inr (Reply r) \<and> receipt r = x"
begin

lemma answered:
  assumes "run (publish disk) (decide c) st = (st', Inr r)"
  shows "\<exists>h s. st_published st' = Some (h, s) \<and>
    map_get (sn_receipts s) (key c) = Some (receipt r) \<and> matches c (receipt r)"
  using run_Inr [OF assms] by (auto dest: commit reply)

lemma retried:
  assumes "run (publish disk) (decide c) st = (st', Inr r)"
    and "st_published st2 = Some (h, s)" "admits c s"
    and "map_get (sn_receipts s) (key c) = Some (receipt r)"
  shows "\<exists>r'. run (publish disk2) (decide c) st2 = (st2, Inr r') \<and> receipt r' = receipt r"
proof -
  have "matches c (receipt r)" using answered [OF assms(1)] by blast
  from replay [OF assms(2,3,4) this] show ?thesis by (auto simp: run_def)
qed

lemma id_taken:
  assumes "st_published st = Some (h, s)" "map_get (sn_receipts s) (key c) = Some x"
    and "\<not> matches c x"
  shows "\<exists>e. run (publish disk) (decide c) st = (st, Inl e)"
proof (cases "decide c st")
  case (Inr d)
  with assms show ?thesis by (cases d) (auto dest: commit reply)
qed (simp add: run_def)

lemma receipts_grow:
  assumes "run (publish disk) (decide c) st = (st', r)" "st_published st = Some (h, s)"
    and "map_get (sn_receipts s) i = Some x"
  shows "\<exists>h' s'. st_published st' = Some (h', s') \<and> map_get (sn_receipts s') i = Some x"
proof (cases r)
  case (Inl e)
  with assms show ?thesis using run_Inl_published [of disk "decide c" st st' e] by simp
next
  case (Inr y)
  from run_Inr [of disk "decide c" st st' y] assms(1) Inr
  have "decide c st = Inr (Reply y) \<and> st' = st \<or>
     (\<exists>s h. decide c st = Inr (Commit s y) \<and> st_health st = Writable \<and>
        disk (with_facts_seq s) = Durable h \<and>
        st' = st\<lparr>st_published := Some (h, with_facts_seq s)\<rparr>)" by simp
  then show ?thesis
  proof (elim disjE exE conjE)
    fix u h'
    assume "decide c st = Inr (Commit u y)"
      and st': "st' = st\<lparr>st_published := Some (h', with_facts_seq u)\<rparr>"
    with commit [of c st u y] assms(2,3) have "map_get (sn_receipts u) i = Some x" by auto
    with st' show ?thesis by simp
  qed (use assms in simp_all)
qed

end

section \<open>\<open>execute\<close>\<close>

definition command_matches :: "env \<Rightarrow> authority \<Rightarrow> command \<Rightarrow> operation_receipt \<Rightarrow> bool" where
  "command_matches E au cmd x =
     (or_principal x = identity au \<and> digest E (Pl_Command cmd) = Inr (or_request_hash x))"

definition command_admitted :: "env \<Rightarrow> authority \<Rightarrow> command \<Rightarrow> snapshot \<Rightarrow> bool" where
  "command_admitted E au cmd s =
     (check_command E au cmd s = Inr () \<and> \<not> migration_owns s (cd_operation_id cmd))"

lemma decide_execute_Commit:
  "decide_execute E au cmd st = Inr (Commit t r) \<Longrightarrow>
     \<exists>h s bytes. st_published st = Some (h, s) \<and> st_health st = Writable \<and>
       check_command E au cmd s = Inr () \<and> canonical_bytes E (Pl_Command cmd) = Inr bytes \<and>
       \<not> migration_owns s (cd_operation_id cmd) \<and>
       map_get (sn_receipts s) (cd_operation_id cmd) = None \<and>
       cd_expected_seq cmd = sn_seq s \<and> cd_expected_epoch cmd = sn_authority_epoch s \<and>
       cd_operations cmd \<noteq> [] \<and> length (cd_operations cmd) \<le> 64 \<and>
       perform E (st_root st) au cmd bytes s = Inr (t, r)"
  by (cases "st_published st")
    (auto simp: decide_execute_def published_def require_writable_def Let_def call_simps
      split: option.splits if_splits)

lemma decide_execute_Reply:
  "decide_execute E au cmd st = Inr (Reply r) \<Longrightarrow>
     \<exists>h s. st_published st = Some (h, s) \<and> map_get (sn_receipts s) (cd_operation_id cmd) = Some r \<and>
       command_matches E au cmd r"
  by (cases "st_published st")
    (auto simp: decide_execute_def published_def Let_def call_simps replay_receipt_def
      command_matches_def digest_def split: option.splits if_splits)

lemma perform_Inr:
  assumes "perform E root au cmd bytes s = Inr (t, r)"
  shows "\<exists>u ids. apply_operations E root au (cd_operations cmd) (s\<lparr>sn_seq := sn_seq s + 1\<rparr>) = Inr (u, ids) \<and>
    validate_snapshot E u = Inr () \<and>
    validate_new_assignment_contexts E s u = Inr () \<and> validate_answer_contexts E s u = Inr () \<and>
    r = receipt_of au (cd_operation_id cmd) (content_hash E bytes) bytes (sn_seq u) ids \<and>
    t = put_receipt r u"
  using assms by (auto simp: perform_def Let_def call_simps)

lemma put_receipt_frames [simp]:
  "sn_receipts (put_receipt r s) = map_put (or_operation_id r) r (sn_receipts s)"
  "sn_tickets (put_receipt r s) = sn_tickets s"
  "sn_assignments (put_receipt r s) = sn_assignments s"
  "sn_requests (put_receipt r s) = sn_requests s"
  "sn_submissions (put_receipt r s) = sn_submissions s"
  "sn_intents (put_receipt r s) = sn_intents s"
  "sn_binding (put_receipt r s) = sn_binding s"
  "sn_seq (put_receipt r s) = sn_seq s"
  "sn_authority_epoch (put_receipt r s) = sn_authority_epoch s"
  "sn_sprints (put_receipt r s) = sn_sprints s"
  "sn_execution_budget (put_receipt r s) = sn_execution_budget s"
  "sn_migration (put_receipt r s) = sn_migration s"
  "sn_project (put_receipt r s) = sn_project s"
  by (simp_all add: put_receipt_def)

lemma perform_receipt:
  assumes "perform E root au cmd bytes s = Inr (t, r)"
  shows "or_operation_id r = cd_operation_id cmd" "or_principal r = identity au"
    "or_request_hash r = content_hash E bytes" "or_committed_seq r = sn_seq s + 1"
    "sn_seq t = sn_seq s + 1"
    "sn_receipts t = map_put (cd_operation_id cmd) r (sn_receipts s)"
    "sn_authority_epoch t = sn_authority_epoch s" "sn_binding t = sn_binding s"
    "sn_sprints t = sn_sprints s" "sn_execution_budget t = sn_execution_budget s"
    "sn_migration t = sn_migration s" "human_message t = human_message s"
  using perform_Inr [OF assms]
  by (auto dest!: apply_operations_header simp: header_of_eq receipt_of_def human_message_def fun_eq_iff
      put_receipt_def)

interpretation ex: receipted_port "decide_execute E au" cd_operation_id "\<lambda>r. r"
    "command_matches E au" "command_admitted E au" for E au
proof
  fix cmd and st :: store and t r
  assume "decide_execute E au cmd st = Inr (Commit t r)"
  from decide_execute_Commit [OF this] obtain h s bytes where
    s: "st_published st = Some (h, s)" "map_get (sn_receipts s) (cd_operation_id cmd) = None"
    and b: "canonical_bytes E (Pl_Command cmd) = Inr bytes"
    and p: "perform E (st_root st) au cmd bytes s = Inr (t, r)" by blast
  have "command_matches E au cmd r"
    using b perform_receipt(2,3) [OF p] by (simp add: command_matches_def digest_def)
  then show "\<exists>h s. st_published st = Some (h, s) \<and>
      map_get (sn_receipts s) (cd_operation_id cmd) = None \<and>
      sn_receipts t = map_put (cd_operation_id cmd) r (sn_receipts s) \<and> command_matches E au cmd r"
    using s perform_receipt(6) [OF p] by auto
next
  fix cmd and st :: store and r
  assume "decide_execute E au cmd st = Inr (Reply r)"
  then show "\<exists>h s. st_published st = Some (h, s) \<and>
      map_get (sn_receipts s) (cd_operation_id cmd) = Some r \<and> command_matches E au cmd r"
    by (rule decide_execute_Reply)
next
  fix st :: store and h s cmd x
  assume "st_published st = Some (h, s)" "command_admitted E au cmd s"
    "map_get (sn_receipts s) (cd_operation_id cmd) = Some x" "command_matches E au cmd x"
  then show "\<exists>r. decide_execute E au cmd st = Inr (Reply r) \<and> r = x"
    by (auto simp: decide_execute_def published_def command_admitted_def command_matches_def
        digest_def replay_receipt_def call_simps)
qed

section \<open>\<open>execute_sprint\<close>\<close>

definition sprint_matches :: "env \<Rightarrow> authority \<Rightarrow> sprint_command \<Rightarrow> operation_receipt \<Rightarrow> bool" where
  "sprint_matches E au cmd x =
     (or_principal x = identity au \<and> digest E (Pl_Sprint cmd) = Inr (or_request_hash x))"

definition sprint_admitted :: "env \<Rightarrow> authority \<Rightarrow> sprint_command \<Rightarrow> snapshot \<Rightarrow> bool" where
  "sprint_admitted E au cmd s =
     (check_sprint_command au cmd s = Inr () \<and>
      (case canonical_bytes E (Pl_Sprint cmd) of Inl _ \<Rightarrow> False | Inr b \<Rightarrow> length b \<le> 256 * 1024) \<and>
      (case sm_action cmd of
         Sa_Close _ _ _ \<Rightarrow> is_ok (find_sprint s (sm_project_id cmd) (sm_sprint_id cmd))
       | _ \<Rightarrow> True))"

lemma replay_receipt_Inr:
  "replay_receipt au h r = Inr x \<longleftrightarrow> or_principal r = identity au \<and> or_request_hash r = h \<and> x = r"
  by (auto simp: replay_receipt_def)

lemma replay_sprint_Inr:
  "replay_sprint au cmd h s r = Inr x \<Longrightarrow>
     or_principal r = identity au \<and> or_request_hash r = h \<and> sr_operation x = r"
  by (cases "sm_action cmd") (auto simp: replay_sprint_def replay_receipt_Inr call_simps)

lemma decide_sprint_Commit:
  "decide_sprint E au cmd st = Inr (Commit t r) \<Longrightarrow>
     \<exists>h s bytes. st_published st = Some (h, s) \<and> st_health st = Writable \<and>
       check_sprint_command au cmd s = Inr () \<and> canonical_bytes E (Pl_Sprint cmd) = Inr bytes \<and>
       map_get (sn_receipts s) (sm_operation_id cmd) = None \<and>
       sm_expected_seq cmd = sn_seq s \<and> sm_expected_epoch cmd = sn_authority_epoch s \<and>
       perform_sprint E au cmd bytes h s = Inr (t, r)"
  by (cases "st_published st")
    (auto simp: decide_sprint_def published_def require_writable_def Let_def call_simps
      split: option.splits if_splits)

lemma apply_sprint_frame:
  assumes "apply_sprint commit au cmd act s = Inr (t, c)"
  shows "\<exists>sps. t = s\<lparr>sn_sprints := sps\<rparr>"
proof -
  have put: "\<exists>sps. put_sprint i sp s = s\<lparr>sn_sprints := sps\<rparr>" for i sp s
    by (auto simp: put_sprint_def)
  have upd: "\<exists>sps. t = s\<lparr>sn_sprints := sps\<rparr>" if "update_sprint i f s = Inr t" for i f s t
    using that by (auto simp: update_sprint_def put_sprint_def call_simps)
  have member: "\<exists>sps. cs_snapshot st' = (cs_snapshot st)\<lparr>sn_sprints := sps\<rparr>"
    if "close_member cmd au ds st e = Inr st'" for ds st e st'
  proof -
    have self: "\<exists>sps. u = u\<lparr>sn_sprints := sps\<rparr>" for u :: snapshot
      by (intro exI [of _ "sn_sprints u"]) simp
    have "\<exists>sps. y = x\<lparr>sn_sprints := sps\<rparr>" if "carry_in cmd au w i to x = Inr y" for w i to x y
      using that self by (auto simp: carry_in_def put_sprint_def call_simps split: option.splits)
    with that self show ?thesis
      by (auto simp: close_member_def Let_def call_simps if_Inr)
  qed
  have fold: "\<exists>sps. cs_snapshot st' = (cs_snapshot st)\<lparr>sn_sprints := sps\<rparr>"
    if "try_fold (close_member cmd au ds) st es = Inr st'" for ds st es st'
    using that
  proof (rule try_fold_invariant [where P = "\<lambda>x. \<exists>sps. cs_snapshot x = (cs_snapshot st)\<lparr>sn_sprints := sps\<rparr>"])
    show "\<exists>sps. cs_snapshot st = cs_snapshot st\<lparr>sn_sprints := sps\<rparr>"
      by (intro exI [of _ "sn_sprints (cs_snapshot st)"]) simp
  qed (use member in fastforce)
  have touches: "\<exists>sps. u = s\<lparr>sn_sprints := sps\<rparr>" if "try_fold touch_target s is = Inr u" for s "is" u
    using that
  proof (rule try_fold_invariant [where P = "\<lambda>x. \<exists>sps. x = s\<lparr>sn_sprints := sps\<rparr>"])
    show "\<exists>sps. s = s\<lparr>sn_sprints := sps\<rparr>" by (intro exI [of _ "sn_sprints s"]) simp
  qed (use upd in \<open>fastforce simp: touch_target_def\<close>)
  show ?thesis
  proof (cases act)
    case (Sa_Close n ds revs)
    with assms obtain source versions st s1 s2 cl where
      "try_fold (close_member cmd au ds) \<lparr>cs_snapshot = s, cs_members = [], cs_outgoing = []\<rparr> versions = Inr st"
      "try_fold touch_target (cs_snapshot st) (keys (carry_targets ds)) = Inr s1"
      "update_sprint (sm_sprint_id cmd)
         (\<lambda>sp. sp\<lparr>sp_status := Sp_Closed, sp_history := sp_history sp @ cs_outgoing st,
              sp_closure := Some cl\<rparr>) s1 = Inr t"
      by (auto simp: sprint_close_def Let_def call_simps if_Inr)
    with fold touches upd show ?thesis by fastforce
  qed (use assms put upd in \<open>auto simp: sprint_create_def sprint_edit_def sprint_start_def
      sprint_member_def Let_def call_simps if_Inr\<close>)
qed

lemma perform_sprint_Inr:
  assumes "perform_sprint E au cmd bytes h s = Inr (t, r)"
  shows "\<exists>q sps. checked_add (sn_seq s) 1 = Some q \<and> validate_snapshot E t = Inr () \<and>
    sr_operation r = receipt_of au (sm_operation_id cmd) (content_hash E bytes) bytes q
      [(''sprint'', sprint_id_str (sm_sprint_id cmd))] \<and>
    t = put_receipt (sr_operation r)
      (s\<lparr>sn_seq := q, sn_schema := max (sn_schema s) 6, sn_sprints := sps\<rparr>)"
  using assms
  by (auto simp: perform_sprint_def next_seq_def Let_def call_simps
      dest!: apply_sprint_frame)

interpretation sp: receipted_port "decide_sprint E au" sm_operation_id sr_operation
    "sprint_matches E au" "sprint_admitted E au" for E au
proof
  fix cmd and st :: store and t r
  assume "decide_sprint E au cmd st = Inr (Commit t r)"
  from decide_sprint_Commit [OF this] obtain h s bytes where
    s: "st_published st = Some (h, s)" "map_get (sn_receipts s) (sm_operation_id cmd) = None"
    and b: "canonical_bytes E (Pl_Sprint cmd) = Inr bytes"
    and p: "perform_sprint E au cmd bytes h s = Inr (t, r)" by blast
  show "\<exists>h s. st_published st = Some (h, s) \<and>
      map_get (sn_receipts s) (sm_operation_id cmd) = None \<and>
      sn_receipts t = map_put (sm_operation_id cmd) (sr_operation r) (sn_receipts s) \<and>
      sprint_matches E au cmd (sr_operation r)"
    using s b perform_sprint_Inr [OF p]
    by (auto simp: sprint_matches_def digest_def receipt_of_def call_simps)
next
  fix cmd and st :: store and r
  assume "decide_sprint E au cmd st = Inr (Reply r)"
  then show "\<exists>h s. st_published st = Some (h, s) \<and>
      map_get (sn_receipts s) (sm_operation_id cmd) = Some (sr_operation r) \<and>
      sprint_matches E au cmd (sr_operation r)"
    by (cases "st_published st")
      (auto simp: decide_sprint_def published_def Let_def call_simps sprint_matches_def
        digest_def split: option.splits if_splits dest!: replay_sprint_Inr)
next
  fix st :: store and h s cmd x
  assume st: "st_published st = Some (h, s)" and ad: "sprint_admitted E au cmd s"
    and x: "map_get (sn_receipts s) (sm_operation_id cmd) = Some x" "sprint_matches E au cmd x"
  from x(2) obtain b where b: "canonical_bytes E (Pl_Sprint cmd) = Inr b"
    "or_principal x = identity au" "or_request_hash x = content_hash E b"
    by (auto simp: sprint_matches_def digest_def call_simps)
  from ad b(1) have ok: "check_sprint_command au cmd s = Inr ()" "\<not> length b > 256 * 1024"
    by (simp_all add: sprint_admitted_def)
  have "\<exists>r. replay_sprint au cmd (content_hash E b) s x = Inr r \<and> sr_operation r = x"
    using ad b by (cases "sm_action cmd")
      (auto simp: replay_sprint_def replay_receipt_def sprint_admitted_def is_ok_iff)
  with st x(1) b(1) ok show "\<exists>r. decide_sprint E au cmd st = Inr (Reply r) \<and> sr_operation r = x"
    by (auto simp: decide_sprint_def published_def Let_def)
qed

end
