(* ===== verification/Ledger.thy ===== *)
theory Ledger
  imports Planning_Ports Examples
begin

text \<open>
  The token ledger against its abstract specification: natural-number sums of what each
  reservation is charged.  Validation establishes that the machine counters are these
  sums and lie within the limits; reserve and settle move them by exact amounts.
\<close>

section \<open>Charges as natural numbers\<close>

definition cap_of :: "token_request \<Rightarrow> nat" where
  "cap_of r = unat (tr_input_cap r) + unat (tr_output_cap r)"

definition charged :: "token_reservation \<Rightarrow> nat" where
  "charged v = (case charge v of Inr n \<Rightarrow> unat n | Inl _ \<Rightarrow> 0)"

definition spent :: "(token_reservation \<Rightarrow> bool) \<Rightarrow> token_budget \<Rightarrow> nat" where
  "spent P b = sum_list (map charged (filter P (vals (tb_reservations b))))"

text \<open>The contract of a ledger, over the sums.\<close>

definition for_work :: "string \<Rightarrow> token_reservation \<Rightarrow> bool" where
  "for_work w v = (tr_work_id (tv_request v) = w)"

definition on_day :: "u64 option \<Rightarrow> token_reservation \<Rightarrow> bool" where
  "on_day d v = (Some (tv_utc_day v) = d)"

definition within_limits :: "token_budget \<Rightarrow> token_limits \<Rightarrow> bool" where
  "within_limits b l =
     (unat (tb_total_charged b) \<le> unat (tl_total_tokens l) \<and>
      unat (tb_daily_charged b) \<le> unat (tl_utc_day_tokens l) \<and>
      (\<forall>w n. map_get (tb_work_charged b) w = Some n \<longrightarrow>
         (\<exists>m. map_get (tl_work_tokens l) w = Some m \<and> unat n \<le> unat m)))"

definition ledger_sound :: "token_budget \<Rightarrow> bool" where
  "ledger_sound b =
     (unat (tb_total_charged b) = spent (\<lambda>_. True) b \<and>
      unat (tb_daily_charged b) = spent (on_day (tb_current_utc_day b)) b \<and>
      (\<forall>w. unat (charged_so_far (tb_work_charged b) w) = spent (for_work w) b) \<and>
      (\<forall>v \<in> set (vals (tb_reservations b)). charged v \<le> cap_of (tv_request v)) \<and>
      (case tb_limits b of None \<Rightarrow> True | Some l \<Rightarrow> within_limits b l))"

lemma unat_cap [simp]: "unat (ucast c :: u64) = unat c" for c :: u32
proof -
  have "unat c < 2 ^ 32" using unsigned_less [of c] by simp
  then show ?thesis by (simp add: unsigned_ucast_eq take_bit_nat_eq_self)
qed

lemma unat_request_cap: "unat (request_cap r) = cap_of r"
proof -
  have "unat (tr_input_cap r) < 2 ^ 32" "unat (tr_output_cap r) < 2 ^ 32"
    using unsigned_less [of "tr_input_cap r"] unsigned_less [of "tr_output_cap r"] by simp_all
  then show ?thesis
    by (simp add: request_cap_def cap_of_def unat_word_ariths)
qed

lemma charge_cap:
  assumes "charge v = Inr n"
  shows "unat n \<le> cap_of (tv_request v)"
proof (cases "tv_usage v")
  case (Some u)
  show ?thesis
  proof (cases u)
    case (Known i m)
    let ?r = "tv_request v"
    from assms Some Known have le: "i \<le> ucast (tr_input_cap ?r)" "m \<le> ucast (tr_output_cap ?r)"
      and n: "unat n = unat i + unat m"
      by (auto simp: charge_def Let_def call_simps checked_add_Some split: if_splits)
    from le have "unat i \<le> unat (tr_input_cap ?r)" "unat m \<le> unat (tr_output_cap ?r)"
      by (simp_all add: word_le_nat_alt)
    with n show ?thesis by (simp add: cap_of_def)
  next
    case Unknown
    with assms Some show ?thesis by (auto simp: charge_def unat_request_cap)
  qed
next
  case None
  with assms show ?thesis by (auto simp: charge_def unat_request_cap)
qed

section \<open>Validation computes the sums\<close>

lemma add_charge_Inr:
  assumes "add_charge today v n t = Inr t'"
  shows "unat (to_total t') = unat (to_total t) + unat n"
    "unat (to_daily t') = unat (to_daily t) + (if on_day today v then unat n else 0)"
    "unat (charged_so_far (to_works t') w) =
       unat (charged_so_far (to_works t) w) + (if for_work w v then unat n else 0)"
  using assms
  by (auto simp: add_charge_def call_simps checked_add_Some on_day_def for_work_def
      charged_so_far_def split: if_splits)

lemma check_reservation_Inr:
  assumes "check_reservation E s b t (i, v) = Inr t'"
  shows "\<exists>n. charge v = Inr n \<and> add_charge (tb_current_utc_day b) v n t = Inr t' \<and>
    i = tr_operation_id (tv_request v) \<and> valid_token_request (tv_request v) = Inr () \<and>
    digest E (Pl_TokenRequest (sn_binding s) (tv_request v)) = Inr (tv_receipt v) \<and>
    is_work s (tr_work_id (tv_request v))"
  using assms by (auto simp: check_reservation_def Let_def call_simps split: if_splits)

lemma check_reservations_sums:
  assumes "try_fold (check_reservation E s b) t es = Inr t'"
  shows "unat (to_total t') = unat (to_total t) + sum_list (map charged (map snd es)) \<and>
    unat (to_daily t') = unat (to_daily t)
      + sum_list (map charged (filter (on_day (tb_current_utc_day b)) (map snd es))) \<and>
    unat (charged_so_far (to_works t') w) = unat (charged_so_far (to_works t) w)
      + sum_list (map charged (filter (for_work w) (map snd es))) \<and>
    (\<forall>v \<in> set (map snd es). charged v \<le> cap_of (tv_request v))"
  using assms
proof (induction es arbitrary: t)
  case (Cons e es)
  obtain i v where e: "e = (i, v)" by (cases e)
  from Cons.prems obtain u where u: "check_reservation E s b t (i, v) = Inr u"
    "try_fold (check_reservation E s b) u es = Inr t'"
    by (auto simp: call_simps e)
  from check_reservation_Inr [OF u(1)] obtain n where
    n: "charge v = Inr n" "add_charge (tb_current_utc_day b) v n t = Inr u" by blast
  have "charged v = unat n" using n(1) by (simp add: charged_def)
  with Cons.IH [OF u(2)] add_charge_Inr [OF n(2)] charge_cap [OF n(1)] e show ?case by auto
qed simp

lemma validate_ledger_sound:
  assumes "validate_ledger E s b = Inr u"
  shows "ledger_sound b"
proof -
  from assms obtain t where
    t: "try_fold (check_reservation E s b) no_totals (tb_reservations b) = Inr t"
    and c: "check_totals b t = Inr ()"
    by (auto simp: validate_ledger_def call_simps split: if_splits)
  from c have eq: "to_total t = tb_total_charged b" "to_daily t = tb_daily_charged b"
    "to_works t = tb_work_charged b"
    and lim: "\<And>l. tb_limits b = Some l \<Longrightarrow> \<not> over_limits l t"
    by (auto simp: check_totals_def split: if_splits option.splits)
  have w: "within_limits b l" if "tb_limits b = Some l" for l
    unfolding within_limits_def
  proof (intro conjI allI impI)
    from lim [OF that] show "unat (tb_total_charged b) \<le> unat (tl_total_tokens l)"
      "unat (tb_daily_charged b) \<le> unat (tl_utc_day_tokens l)"
      by (auto simp: over_limits_def eq not_less word_le_nat_alt)
    fix w n assume "map_get (tb_work_charged b) w = Some n"
    then have "(w, n) \<in> set (tb_work_charged b)" by (auto simp: map_get_def dest: map_of_SomeD)
    with lim [OF that] show "\<exists>m. map_get (tl_work_tokens l) w = Some m \<and> unat n \<le> unat m"
      by (fastforce simp: over_limits_def eq list_ex_iff not_less word_le_nat_alt
          split: option.splits)
  qed
  have z: "charged_so_far (to_works no_totals) w = 0" "to_total no_totals = 0" "to_daily no_totals = 0"
    for w by (simp_all add: no_totals_def charged_so_far_def)
  show ?thesis
    using check_reservations_sums [OF t] w z
    by (auto simp: ledger_sound_def spent_def eq vals_def split: option.splits)
qed

lemma validate_snapshot_ledger:
  assumes "validate_snapshot E s = Inr u" "sn_execution_budget s = Some b"
  shows "ledger_sound b"
proof -
  from assms(1) have "validate_budget E s = Inr ()" by (simp add: validate_snapshot_def call_simps)
  with assms(2) show ?thesis
    by (auto simp: validate_budget_def intro: validate_ledger_sound split: if_splits)
qed

section \<open>Reserve and settle\<close>

lemma next_seq_Inr:
  "next_seq s = Inr t \<longleftrightarrow> (\<exists>q. checked_add (sn_seq s) 1 = Some q \<and> t = s\<lparr>sn_seq := q\<rparr>)"
  by (auto simp: next_seq_def call_simps)

lemma reserve_New:
  assumes "reserve E r now_ms s = Inr (New_Reservation v s')"
  shows "\<exists>b b' q. sn_execution_budget s = Some b \<and> map_get (tb_reservations b) (tr_operation_id r) = None \<and>
    budget_attempt E s r = Inr () \<and> \<not> list_ex (\<lambda>v. tv_over_cap v \<noteq> None) (vals (tb_reservations b)) \<and>
    length (tb_reservations b) < max_records \<and>
    quota_block b r (if Some (now_ms div day_ms) = tb_current_utc_day b then tb_daily_charged b else 0) = None \<and>
    new_reservation E s r (now_ms div day_ms) = Inr v \<and>
    charge_reservation b v now_ms
      (if Some (now_ms div day_ms) = tb_current_utc_day b then tb_daily_charged b else 0) = Inr b' \<and>
    checked_add (sn_seq s) 1 = Some q \<and>
    s' = s\<lparr>sn_execution_budget := Some b', sn_seq := q\<rparr>"
  using assms
  by (auto simp: reserve_def Let_def call_simps next_seq_Inr if_Inr not_le
      split: option.splits if_splits)

lemma charge_reservation_Inr:
  assumes "charge_reservation b v now_ms daily = Inr b'"
  shows "unat (tb_total_charged b') = unat (tb_total_charged b) + cap_of (tv_request v) \<and>
    unat (tb_daily_charged b') = unat daily + cap_of (tv_request v) \<and>
    unat (charged_so_far (tb_work_charged b') (tr_work_id (tv_request v))) =
      unat (charged_so_far (tb_work_charged b) (tr_work_id (tv_request v))) + cap_of (tv_request v) \<and>
    tb_reservations b' = map_put (tr_operation_id (tv_request v)) v (tb_reservations b) \<and>
    tb_current_utc_day b' = Some (tv_utc_day v) \<and> tb_limits b' = tb_limits b"
  using assms
  by (auto simp: charge_reservation_def Let_def call_simps checked_add_Some unat_request_cap
      charged_so_far_def)

lemma cap_positive: "valid_token_request r = Inr () \<Longrightarrow> 0 < cap_of r"
  by (auto simp: valid_token_request_def cap_of_def unat_gt_0 split: if_splits)

lemma room_left:
  "\<not> saturating_sub l used < request_cap r \<Longrightarrow> 0 < cap_of r \<Longrightarrow> unat used + cap_of r \<le> unat l"
  by (auto simp: word_less_nat_alt unat_saturating_sub unat_request_cap)

lemma quota_block_None:
  assumes "quota_block b r daily = None" "0 < cap_of r" "tb_limits b = Some l"
  shows "unat (tb_total_charged b) + cap_of r \<le> unat (tl_total_tokens l)"
    "unat daily + cap_of r \<le> unat (tl_utc_day_tokens l)"
    "\<exists>m. map_get (tl_work_tokens l) (tr_work_id r) = Some m \<and>
       unat (charged_so_far (tb_work_charged b) (tr_work_id r)) + cap_of r \<le> unat m"
  using assms
  by (auto simp: quota_block_def split: if_splits option.splits intro: room_left)

section \<open>Properties\<close>

text \<open>
  C22: a new reservation is charged its full caps, on a fresh operation id, and never
  beyond a limit: the total, the day and the Work counters grow by exactly the caps and
  stay within the configured limits.
\<close>

theorem reserve_within_limits:
  assumes "reserve E r now_ms s = Inr (New_Reservation v s')" "valid_token_request r = Inr ()"
    and "sn_execution_budget s = Some b"
  shows "\<exists>b'. sn_execution_budget s' = Some b' \<and>
    map_get (tb_reservations b) (tr_operation_id r) = None \<and>
    tb_reservations b' = map_put (tr_operation_id r) v (tb_reservations b) \<and> tv_request v = r \<and>
    unat (tb_total_charged b') = unat (tb_total_charged b) + cap_of r \<and>
    unat (charged_so_far (tb_work_charged b') (tr_work_id r)) =
      unat (charged_so_far (tb_work_charged b) (tr_work_id r)) + cap_of r \<and>
    unat (tb_daily_charged b') =
      (if tb_current_utc_day b = Some (now_ms div day_ms) then unat (tb_daily_charged b) else 0) + cap_of r \<and>
    (\<forall>l. tb_limits b = Some l \<longrightarrow>
       unat (tb_total_charged b') \<le> unat (tl_total_tokens l) \<and>
       unat (tb_daily_charged b') \<le> unat (tl_utc_day_tokens l) \<and>
       (\<exists>m. map_get (tl_work_tokens l) (tr_work_id r) = Some m \<and>
          unat (charged_so_far (tb_work_charged b') (tr_work_id r)) \<le> unat m))"
proof -
  from reserve_New [OF assms(1)] assms(3) obtain b' q where
    fresh: "map_get (tb_reservations b) (tr_operation_id r) = None"
    and quota: "quota_block b r
      (if Some (now_ms div day_ms) = tb_current_utc_day b then tb_daily_charged b else 0) = None"
    and v: "new_reservation E s r (now_ms div day_ms) = Inr v"
    and ch: "charge_reservation b v now_ms
      (if Some (now_ms div day_ms) = tb_current_utc_day b then tb_daily_charged b else 0) = Inr b'"
    and s': "sn_execution_budget s' = Some b'"
    by auto
  have r: "tv_request v = r" using v by (auto simp: new_reservation_def call_simps)
  note c = charge_reservation_Inr [OF ch, unfolded r]
  note q = quota_block_None [OF quota cap_positive [OF assms(2)]]
  show ?thesis
    using fresh s' r c q by auto
qed

text \<open>
  A settlement refunds exactly the difference between what the reservation was charged
  and what was measured.  It applies to the original receipt only, never to a reservation
  whose usage is already known, and never raises a charge.
\<close>

theorem settle_refunds_exactly:
  assumes "settle op_id h rc usage s = Inr (Settle v s')" "sn_execution_budget s = Some b"
  shows "\<exists>old b'. map_get (tb_reservations b) op_id = Some old \<and>
    tv_receipt old = rc \<and> tr_request_hash (tv_request old) = h \<and>
    \<not> is_known (tv_usage old) \<and> tv_over_cap old = None \<and> v = old\<lparr>tv_usage := Some usage\<rparr> \<and>
    sn_execution_budget s' = Some b' \<and>
    tb_reservations b' = map_put op_id v (tb_reservations b) \<and>
    charged v \<le> charged old \<and>
    unat (tb_total_charged b') + charged old = unat (tb_total_charged b) + charged v \<and>
    unat (charged_so_far (tb_work_charged b') (tr_work_id (tv_request old))) + charged old =
      unat (charged_so_far (tb_work_charged b) (tr_work_id (tv_request old))) + charged v"
proof -
  from assms obtain old n m d b1 q where
    old: "map_get (tb_reservations b) op_id = Some old" "tv_receipt old = rc"
      "tr_request_hash (tv_request old) = h" "\<not> is_known (tv_usage old)" "tv_over_cap old = None"
    and v: "v = old\<lparr>tv_usage := Some usage\<rparr>"
    and ch: "charge old = Inr n" "charge v = Inr m" "checked_sub n m = Some d"
    and rf: "refund_reservation b v d = Inr b1"
    and s': "s' = s\<lparr>sn_execution_budget := Some (with_reservation b1 op_id v), sn_seq := q\<rparr>"
    by (auto simp: settle_def Let_def call_simps next_seq_Inr if_Inr split: option.splits if_splits)
  have n: "charged old = unat n" "charged v = unat m" "unat n = unat m + unat d"
    using ch by (simp_all add: charged_def checked_sub_Some)
  have "unat (tb_total_charged b) = unat d + unat (tb_total_charged b1)"
    "unat (charged_so_far (tb_work_charged b) (tr_work_id (tv_request v))) =
       unat d + unat (charged_so_far (tb_work_charged b1) (tr_work_id (tv_request v)))"
    "tb_reservations b1 = tb_reservations b"
    using rf by (auto simp: refund_reservation_def refund_work_def call_simps checked_sub_Some
        charged_so_far_def split: if_splits)
  with old v n s' show ?thesis by (auto simp: with_reservation_def)
qed

text \<open>
  Known usage is final.  Settling a reservation whose usage is known returns that
  reservation for the same report and is a conflict for any other; nothing is published.
\<close>

theorem settled_usage_is_final:
  assumes "sn_execution_budget s = Some b" "map_get (tb_reservations b) op_id = Some old"
    and "tv_usage old = Some (Known i n)" "settle op_id h rc usage s = Inr p"
  shows "p = Settled old \<and> usage = Known i n"
  using assms by (auto simp: settle_def call_simps is_known_def if_Inr Let_def)

text \<open>
  One report of usage above the reserved caps halts admission: no reservation with a
  new operation id is made afterwards.
\<close>

theorem over_cap_halts_admission:
  assumes "sn_execution_budget s = Some b" "v \<in> set (vals (tb_reservations b))"
    and "tv_over_cap v \<noteq> None" "reserve E r now_ms s = Inr p"
  shows "p = Reserve_Blocked Block_Accounting \<or>
    (\<exists>old. map_get (tb_reservations b) (tr_operation_id r) = Some old \<and> p = Existing_Reservation old)"
proof -
  have ex: "list_ex (\<lambda>v. tv_over_cap v \<noteq> None) (vals (tb_reservations b))"
    using assms(2,3) by (auto simp: list_ex_iff)
  show ?thesis
    using assms(1,4) ex
    by (auto simp: reserve_def call_simps if_Inr split: option.splits if_splits)
qed

section \<open>A concrete ledger\<close>

definition demo_hash :: string where
  "demo_hash = take 64 (''00'' @ replicate 64 CHR ''a'')"

definition demo_request :: "string \<Rightarrow> token_request" where
  "demo_request i = \<lparr>tr_operation_id = i, tr_project_id = ProjectId ''p'', tr_work_id = ''a'',
     tr_purpose = For_SupervisorDecision, tr_request_hash = demo_hash, tr_observed_seq = 9,
     tr_input_cap = 100, tr_output_cap = 50, tr_attempt = None\<rparr>"

definition demo_reservation :: "string \<Rightarrow> token_usage option \<Rightarrow> over_cap_usage option \<Rightarrow> token_reservation" where
  "demo_reservation i u over = \<lparr>tv_request = demo_request i, tv_receipt = demo_hash, tv_utc_day = 0,
     tv_usage = u, tv_over_cap = over\<rparr>"

definition demo_limits :: token_limits where
  "demo_limits = \<lparr>tl_work_tokens = [(''a'', 1000)], tl_utc_day_tokens = 1000, tl_total_tokens = 5000\<rparr>"

definition demo_budget :: "token_usage option \<Rightarrow> over_cap_usage option \<Rightarrow> u64 \<Rightarrow> token_budget" where
  "demo_budget u over n = \<lparr>tb_revision = 1, tb_limits = Some demo_limits, tb_current_utc_day = Some 0,
     tb_last_reservation_ms = Some 5, tb_total_charged = n, tb_daily_charged = n,
     tb_work_charged = [(''a'', n)], tb_reservations = [(''r1'', demo_reservation ''r1'' u over)],
     tb_configurations = [(1, \<lparr>tc_revision = 1, tc_user_id = ''u'', tc_committed_seq = 1,
                               tc_limits = Some demo_limits\<rparr>)]\<rparr>"

definition demo_ledger :: "token_usage option \<Rightarrow> over_cap_usage option \<Rightarrow> u64 \<Rightarrow> snapshot" where
  "demo_ledger u over n = (empty_snapshot demo_binding)
     \<lparr>sn_schema := 8, sn_seq := 9,
      sn_project := empty_project\<lparr>ps_links := [(''a'', ProjectId ''p'')]\<rparr>,
      sn_tickets := [(''a'', demo_ticket ''a'' K_Work None [] W_Draft)],
      sn_execution_budget := Some (demo_budget u over n)\<rparr>"

lemma demo_ledger_budget [simp]:
  "sn_execution_budget (demo_ledger u over n) = Some (demo_budget u over n)"
  by (simp add: demo_ledger_def)

lemma demo_budget_reservation [simp]:
  "map_get (tb_reservations (demo_budget u over n)) ''r1'' = Some (demo_reservation ''r1'' u over)"
  by (simp add: demo_budget_def map_get_Cons)

theorem reserve_within_limits_witness:
  "\<exists>v s' b'. reserve demo_env (demo_request ''r2'') 7 (demo_ledger None None 150) = Inr (New_Reservation v s') \<and>
     sn_execution_budget s' = Some b' \<and> unat (tb_total_charged b') = 300"
proof -
  let ?is_new = "\<lambda>p. case p of Inr (New_Reservation v s') \<Rightarrow> True | _ \<Rightarrow> False"
  have "?is_new (reserve demo_env (demo_request ''r2'') 7 (demo_ledger None None 150))" by code_simp
  then obtain v s' where r: "reserve demo_env (demo_request ''r2'') 7 (demo_ledger None None 150)
      = Inr (New_Reservation v s')"
    by (auto split: sum.splits reserve_plan.splits)
  have ok: "valid_token_request (demo_request ''r2'') = Inr ()" by code_simp
  have "cap_of (demo_request ''r2'') = 150" "unat (tb_total_charged (demo_budget None None 150)) = 150"
    by (simp_all add: cap_of_def demo_request_def demo_budget_def)
  with reserve_within_limits [OF r ok demo_ledger_budget] r show ?thesis by auto
qed

theorem settle_refunds_exactly_witness:
  "\<exists>v s' b'. settle ''r1'' demo_hash demo_hash (Known 10 20) (demo_ledger None None 150)
       = Inr (Settle v s') \<and>
     sn_execution_budget s' = Some b' \<and> unat (tb_total_charged b') = 30"
proof -
  let ?is_settle = "\<lambda>p. case p of Inr (Settle v s') \<Rightarrow> True | _ \<Rightarrow> False"
  have "?is_settle (settle ''r1'' demo_hash demo_hash (Known 10 20) (demo_ledger None None 150))"
    by code_simp
  then obtain v s' where r: "settle ''r1'' demo_hash demo_hash (Known 10 20) (demo_ledger None None 150)
      = Inr (Settle v s')"
    by (auto split: sum.splits settle_plan.splits)
  have "charged (demo_reservation ''r1'' None None) = 150"
    "charged ((demo_reservation ''r1'' None None)\<lparr>tv_usage := Some (Known 10 20)\<rparr>) = 30"
    "unat (tb_total_charged (demo_budget None None 150)) = 150"
    by code_simp+
  with settle_refunds_exactly [OF r demo_ledger_budget] r show ?thesis by auto
qed

theorem settled_usage_is_final_witness:
  "settle ''r1'' demo_hash demo_hash (Known 10 20) (demo_ledger (Some (Known 10 20)) None 30)
     = Inr (Settled (demo_reservation ''r1'' (Some (Known 10 20)) None))"
proof -
  have "is_ok (settle ''r1'' demo_hash demo_hash (Known 10 20) (demo_ledger (Some (Known 10 20)) None 30))"
    by code_simp
  then obtain p where p: "settle ''r1'' demo_hash demo_hash (Known 10 20)
      (demo_ledger (Some (Known 10 20)) None 30) = Inr p" by (auto simp: is_ok_iff)
  have u: "tv_usage (demo_reservation ''r1'' (Some (Known 10 20)) None) = Some (Known 10 20)"
    by (simp add: demo_reservation_def)
  from settled_usage_is_final [OF demo_ledger_budget demo_budget_reservation u p] p show ?thesis by simp
qed

definition demo_over :: over_cap_usage where
  "demo_over = \<lparr>oc_input_tokens = Some 101, oc_output_tokens = None, oc_total_tokens = None\<rparr>"

theorem over_cap_halts_admission_witness:
  "reserve demo_env (demo_request ''r2'') 7 (demo_ledger None (Some demo_over) 150)
     = Inr (Reserve_Blocked Block_Accounting)"
proof -
  have "is_ok (reserve demo_env (demo_request ''r2'') 7 (demo_ledger None (Some demo_over) 150))"
    by code_simp
  then obtain p where p: "reserve demo_env (demo_request ''r2'') 7
      (demo_ledger None (Some demo_over) 150) = Inr p" by (auto simp: is_ok_iff)
  let ?v = "demo_reservation ''r1'' None (Some demo_over)"
  have v: "?v \<in> set (vals (tb_reservations (demo_budget None (Some demo_over) 150)))"
    by (simp add: demo_budget_def vals_def)
  have o: "tv_over_cap ?v \<noteq> None" by (simp add: demo_reservation_def)
  have "map_get (tb_reservations (demo_budget None (Some demo_over) 150)) ''r2'' = None"
    by (simp add: demo_budget_def map_get_Cons)
  with over_cap_halts_admission [OF demo_ledger_budget v o, of demo_env "demo_request ''r2''" 7 p] p
  show ?thesis by (simp add: demo_request_def)
qed

end
