(* ===== verification/Sprint_Facts.thy ===== *)
theory Sprint_Facts
  imports Planning_Ports Examples
begin

text \<open>
  What Sprint planning promises: the exclusive membership and the single active Sprint
  that the validation of a snapshot establishes, the immutability of a closed Sprint under
  every action, and the accounting of a close.
\<close>

section \<open>Validated Sprints exclude each other\<close>

definition open_sprint :: "sprint \<Rightarrow> bool" where
  "open_sprint x = (sp_status x \<noteq> Sp_Closed)"

definition apart :: "sprint \<Rightarrow> sprint \<Rightarrow> bool" where
  "apart x y =
     ((open_sprint x \<and> open_sprint y \<longrightarrow> set (sp_members x) \<inter> set (sp_members y) = {}) \<and>
      (sp_status x = Sp_Active \<and> sp_status y = Sp_Active \<longrightarrow> sp_project_id x \<noteq> sp_project_id y))"

lemma apart_sym: "apart x y \<Longrightarrow> apart y x"
  by (auto simp: apart_def)

lemma claim_members_open:
  assumes "try_fold (claim_member s sp) C ms = Inr C'" "open_sprint sp"
  shows "set ms \<inter> set C = {} \<and> distinct ms \<and> set C' = set C \<union> set ms"
  using assms(1)
proof (induction ms arbitrary: C)
  case (Cons m ms)
  from Cons.prems obtain D where D: "claim_member s sp C m = Inr D"
    "try_fold (claim_member s sp) D ms = Inr C'" by (auto simp: call_simps)
  from D(1) assms(2) have "m \<notin> set C" "D = set_add m C"
    by (auto simp: claim_member_def open_sprint_def call_simps)
  with Cons.IH [OF D(2)] show ?case by auto
qed simp

lemma claim_members_closed:
  assumes "try_fold (claim_member s sp) C ms = Inr C'" "\<not> open_sprint sp"
  shows "C' = C"
  using assms(1)
proof (induction ms arbitrary: C)
  case (Cons m ms)
  from Cons.prems obtain D where D: "claim_member s sp C m = Inr D"
    "try_fold (claim_member s sp) D ms = Inr C'" by (auto simp: call_simps)
  from D(1) assms(2) have "D = C"
    by (auto simp: claim_member_def open_sprint_def call_simps)
  with Cons.IH [OF D(2)] show ?case by simp
qed simp

lemma check_sprint_Inr:
  assumes "check_sprint s (P, C) (i, x) = Inr (P', C')"
  shows "i = sp_id x"
    "open_sprint x \<Longrightarrow> set (sp_members x) \<inter> set C = {}"
    "set C' = (if open_sprint x then set C \<union> set (sp_members x) else set C)"
    "sp_status x = Sp_Active \<Longrightarrow> sp_project_id x \<notin> set P"
    "set P' = (if sp_status x = Sp_Active then insert (sp_project_id x) (set P) else set P)"
    "check_closure x = Inr ()"
proof -
  from assms have c: "try_fold (claim_member s x) C (sp_members x) = Inr C'"
    by (auto simp: check_sprint_def Let_def call_simps split: if_splits)
  show "open_sprint x \<Longrightarrow> set (sp_members x) \<inter> set C = {}"
    using claim_members_open [OF c] by blast
  show "set C' = (if open_sprint x then set C \<union> set (sp_members x) else set C)"
    using claim_members_open [OF c] claim_members_closed [OF c] by auto
qed (use assms in \<open>auto simp: check_sprint_def Let_def call_simps split: if_splits\<close>)

lemma check_sprints_apart:
  assumes "try_fold (check_sprint s) (P, C) es = Inr u"
  shows "sorted_wrt (\<lambda>e f. apart (snd e) (snd f)) es \<and>
    (\<forall>e \<in> set es. (open_sprint (snd e) \<longrightarrow> set (sp_members (snd e)) \<inter> set C = {}) \<and>
       (sp_status (snd e) = Sp_Active \<longrightarrow> sp_project_id (snd e) \<notin> set P) \<and>
       fst e = sp_id (snd e) \<and> check_closure (snd e) = Inr ())"
  using assms
proof (induction es arbitrary: P C)
  case (Cons e es)
  obtain i x where e: "e = (i, x)" by (cases e)
  from Cons.prems obtain P' C' where step: "check_sprint s (P, C) (i, x) = Inr (P', C')"
    and rest: "try_fold (check_sprint s) (P', C') es = Inr u"
    by (auto simp: call_simps e)
  note c = check_sprint_Inr [OF step] and IH = Cons.IH [OF rest]
  have "apart x (snd f)" if "f \<in> set es" for f
    using IH that c(3,5) by (auto simp: apart_def disjoint_iff split: if_splits)
  moreover have mem: "set (sp_members (snd f)) \<inter> set C = {}" if "f \<in> set es" "open_sprint (snd f)" for f
    using IH that c(3) by fastforce
  moreover have proj: "sp_project_id (snd f) \<notin> set P" if "f \<in> set es" "sp_status (snd f) = Sp_Active" for f
    using IH that c(5) by (auto split: if_splits)
  ultimately show ?case
    using IH c(1,2,4,6) mem proj by (auto simp: e)
qed simp

lemma sorted_wrt_pair:
  assumes "sorted_wrt R xs" "a \<in> set xs" "b \<in> set xs" "a \<noteq> b"
  shows "R a b \<or> R b a"
  using assms by (induction xs) auto

lemma validated_pair:
  assumes "validate_sprints s = Inr ()"
    and "map_get (sn_sprints s) i = Some x" "map_get (sn_sprints s) j = Some y" "i \<noteq> j"
  shows "apart x y" "sp_id x = i" "check_closure x = Inr ()"
proof -
  from assms(1) obtain u where u: "try_fold (check_sprint s) ([], []) (sn_sprints s) = Inr u"
    by (auto simp: validate_sprints_def call_simps split: if_splits)
  note f = check_sprints_apart [OF u]
  have mem: "(i, x) \<in> set (sn_sprints s)" "(j, y) \<in> set (sn_sprints s)"
    using assms(2,3) by (auto simp: map_get_def dest: map_of_SomeD)
  from sorted_wrt_pair [OF conjunct1 [OF f] mem] assms(4) apart_sym show "apart x y" by auto
  from f mem(1) show "sp_id x = i" "check_closure x = Inr ()" by auto
qed

section \<open>A closed Sprint is frozen\<close>

definition closed_kept :: "snapshot \<Rightarrow> snapshot \<Rightarrow> bool" where
  "closed_kept s t =
     (\<forall>i x. map_get (sn_sprints s) i = Some x \<longrightarrow> \<not> open_sprint x \<longrightarrow>
        map_get (sn_sprints t) i = Some x)"

lemma closed_kept_refl [simp]: "closed_kept s s"
  by (simp add: closed_kept_def)

lemma closed_kept_trans: "closed_kept s t \<Longrightarrow> closed_kept t u \<Longrightarrow> closed_kept s u"
  by (auto simp: closed_kept_def)

lemma closed_kept_put:
  "(\<And>x. map_get (sn_sprints s) i = Some x \<Longrightarrow> open_sprint x) \<Longrightarrow> closed_kept s (put_sprint i y s)"
  by (auto simp: closed_kept_def put_sprint_def)

lemma closed_kept_update:
  assumes "update_sprint i f s = Inr t" "\<And>x. map_get (sn_sprints s) i = Some x \<Longrightarrow> open_sprint x"
  shows "closed_kept s t"
  using assms by (auto simp: update_sprint_def call_simps intro!: closed_kept_put)

lemma find_open:
  "find_sprint s p i = Inr x \<Longrightarrow> open_revision x n = Inr () \<Longrightarrow>
     map_get (sn_sprints s) i = Some x \<and> open_sprint x"
  by (auto simp: find_sprint_def open_revision_def open_sprint_def call_simps split: if_splits)

text \<open>
  What the carry-over of a close may do to the other Sprints: statuses stay, members are
  only added, closed Sprints and the closing Sprint itself are untouched.
\<close>

definition carries :: "sprint_id \<Rightarrow> snapshot \<Rightarrow> snapshot \<Rightarrow> bool" where
  "carries src s t =
     ((\<forall>i x. map_get (sn_sprints s) i = Some x \<longrightarrow>
         (\<exists>y. map_get (sn_sprints t) i = Some y \<and> sp_status y = sp_status x \<and>
              set (sp_members x) \<subseteq> set (sp_members y))) \<and>
      closed_kept s t \<and> map_get (sn_sprints t) src = map_get (sn_sprints s) src \<and>
      sn_tickets t = sn_tickets s \<and> sn_project t = sn_project s \<and> sn_seq t = sn_seq s)"

lemma carries_refl [simp]: "carries src s s"
  by (auto simp: carries_def)

lemma carries_trans: "carries src s t \<Longrightarrow> carries src t u \<Longrightarrow> carries src s u"
proof -
  assume st: "carries src s t" and tu: "carries src t u"
  have "\<exists>z. map_get (sn_sprints u) i = Some z \<and> sp_status z = sp_status x \<and>
      set (sp_members x) \<subseteq> set (sp_members z)" if x: "map_get (sn_sprints s) i = Some x" for i x
  proof -
    from st x obtain y where y: "map_get (sn_sprints t) i = Some y" "sp_status y = sp_status x"
      "set (sp_members x) \<subseteq> set (sp_members y)" unfolding carries_def by blast
    from tu y(1) obtain z where "map_get (sn_sprints u) i = Some z" "sp_status z = sp_status y"
      "set (sp_members y) \<subseteq> set (sp_members z)" unfolding carries_def by blast
    with y show ?thesis by auto
  qed
  then show ?thesis
    using st tu closed_kept_trans [of s t u] by (simp add: carries_def)
qed

lemma carries_put:
  assumes "map_get (sn_sprints s) i = Some x" "open_sprint x" "i \<noteq> src"
    and "sp_status y = sp_status x" "set (sp_members x) \<subseteq> set (sp_members y)"
  shows "carries src s (put_sprint i y s)"
  using assms by (auto simp: carries_def put_sprint_def closed_kept_def)

definition carry_open :: "sprint_id \<Rightarrow> (string, sprint_destination) btree_map \<Rightarrow> snapshot \<Rightarrow> bool" where
  "carry_open src ds s =
     (\<forall>i. ToSprint i \<in> set (vals ds) \<longrightarrow>
        i \<noteq> src \<and> (\<exists>x. map_get (sn_sprints s) i = Some x \<and> open_sprint x))"

lemma carry_open_carries: "carry_open src ds s \<Longrightarrow> carries src s t \<Longrightarrow> carry_open src ds t"
  unfolding carry_open_def carries_def open_sprint_def by metis

text \<open>The disposition a closing member gets.\<close>

definition disposition_for ::
  "(string, sprint_destination) btree_map \<Rightarrow> string \<Rightarrow> work_version \<Rightarrow> close_disposition"
where
  "disposition_for ds i v =
     (if wv_accepted v then D_Accepted
      else if wv_state v = W_Cancelled then D_Cancelled
      else case map_get ds i of
             Some (ToSprint t) \<Rightarrow> D_Sprint t
           | _ \<Rightarrow> D_Backlog)"

lemma carry_in_Inr:
  "carry_in cmd au w i None s = Inr s' \<longleftrightarrow> s' = s"
  "carry_in cmd au w i (Some t) s = Inr s' \<longleftrightarrow>
     (\<exists>x. map_get (sn_sprints s) t = Some x \<and>
        s' = put_sprint t (x\<lparr>sp_members := set_add i (sp_members x),
           sp_history := sp_history x @ [event_of cmd au (sn_seq s) w (CarriedIn (sm_sprint_id cmd))]\<rparr>) s)"
  by (auto simp: carry_in_def call_simps)

lemma close_member_done:
  assumes "close_member cmd au ds st (i, v) = Inr st'" "wv_accepted v \<or> wv_state v = W_Cancelled"
  shows "st' = st\<lparr>cs_members := map_put i \<lparr>cm_version = v, cm_disposition = disposition_for ds i v\<rparr> (cs_members st)\<rparr>"
  using assms by (auto simp: close_member_def Let_def disposition_for_def split: if_splits)

lemma close_member_unfinished:
  assumes "close_member cmd au ds st (i, v) = Inr st'" "\<not> wv_accepted v" "wv_state v \<noteq> W_Cancelled"
  shows "\<exists>d w. map_get ds i = Some d \<and>
    carry_in cmd au w i (destination d) (cs_snapshot st) = Inr (cs_snapshot st') \<and>
    cs_members st' = map_put i \<lparr>cm_version = v, cm_disposition = disposition_for ds i v\<rparr> (cs_members st)"
proof -
  from assms obtain d w s' where d: "map_get ds i = Some d"
    and c: "carry_in cmd au w i (destination d) (cs_snapshot st) = Inr s'"
    and st': "cs_snapshot st' = s'" "cs_members st' =
      map_put i \<lparr>cm_version = v, cm_disposition = (case destination d of None \<Rightarrow> D_Backlog | Some t \<Rightarrow> D_Sprint t)\<rparr>
        (cs_members st)"
    by (auto simp: close_member_def Let_def call_simps)
  moreover have "(case destination d of None \<Rightarrow> D_Backlog | Some t \<Rightarrow> D_Sprint t) = disposition_for ds i v"
    using assms(2,3) d by (cases d) (simp_all add: destination_def disposition_for_def)
  ultimately show ?thesis by auto
qed

lemma close_member_Inr:
  assumes "close_member cmd au ds st (i, v) = Inr st'" "carry_open src ds (cs_snapshot st)"
  shows "carries src (cs_snapshot st) (cs_snapshot st')"
    "cs_members st' = map_put i \<lparr>cm_version = v, cm_disposition = disposition_for ds i v\<rparr> (cs_members st)"
    "disposition_for ds i v = D_Sprint t \<Longrightarrow>
       \<exists>y. map_get (sn_sprints (cs_snapshot st')) t = Some y \<and> i \<in> set (sp_members y)"
proof -
  have "carries src (cs_snapshot st) (cs_snapshot st') \<and>
    cs_members st' = map_put i \<lparr>cm_version = v, cm_disposition = disposition_for ds i v\<rparr> (cs_members st) \<and>
    (disposition_for ds i v = D_Sprint t \<longrightarrow>
       (\<exists>y. map_get (sn_sprints (cs_snapshot st')) t = Some y \<and> i \<in> set (sp_members y)))"
  proof (cases "wv_accepted v \<or> wv_state v = W_Cancelled")
    case True
    with close_member_done [OF assms(1) True] show ?thesis by (auto simp: disposition_for_def)
  next
    case False
    with close_member_unfinished [OF assms(1)] obtain d w where d: "map_get ds i = Some d"
      and c: "carry_in cmd au w i (destination d) (cs_snapshot st) = Inr (cs_snapshot st')"
      and m: "cs_members st' = map_put i \<lparr>cm_version = v, cm_disposition = disposition_for ds i v\<rparr> (cs_members st)"
      by blast
    show ?thesis
    proof (cases d)
      case ToBacklog
      with c m d False show ?thesis
        by (simp add: destination_def carry_in_Inr disposition_for_def)
    next
      case (ToSprint j)
      with d have "ToSprint j \<in> set (vals ds)" using map_get_in_vals by fastforce
      with assms(2) obtain x where x: "map_get (sn_sprints (cs_snapshot st)) j = Some x"
        "open_sprint x" "j \<noteq> src"
        by (auto simp: carry_open_def)
      let ?y = "x\<lparr>sp_members := set_add i (sp_members x),
         sp_history := sp_history x @ [event_of cmd au (sn_seq (cs_snapshot st)) w (CarriedIn (sm_sprint_id cmd))]\<rparr>"
      have st': "cs_snapshot st' = put_sprint j ?y (cs_snapshot st)"
        using c ToSprint x(1) by (simp add: destination_def carry_in_Inr)
      have "carries src (cs_snapshot st) (cs_snapshot st')"
        unfolding st' by (rule carries_put [OF x]) auto
      moreover have "disposition_for ds i v = D_Sprint j"
        using False d ToSprint by (simp add: disposition_for_def)
      ultimately show ?thesis using m st' by (simp add: put_sprint_def)
    qed
  qed
  then show "carries src (cs_snapshot st) (cs_snapshot st')"
    "cs_members st' = map_put i \<lparr>cm_version = v, cm_disposition = disposition_for ds i v\<rparr> (cs_members st)"
    "disposition_for ds i v = D_Sprint t \<Longrightarrow>
       \<exists>y. map_get (sn_sprints (cs_snapshot st')) t = Some y \<and> i \<in> set (sp_members y)"
    by blast+
qed

lemma close_members_Inr:
  assumes "try_fold (close_member cmd au ds) st vs = Inr st'" "carry_open src ds (cs_snapshot st)"
    and "distinct (map fst vs)"
  shows "carries src (cs_snapshot st) (cs_snapshot st') \<and>
    (ordered (cs_members st) \<longrightarrow> ordered (cs_members st')) \<and>
    (\<forall>i. map_get (cs_members st') i =
       (case map_of vs i of
          Some v \<Rightarrow> Some \<lparr>cm_version = v, cm_disposition = disposition_for ds i v\<rparr>
        | None \<Rightarrow> map_get (cs_members st) i)) \<and>
    (\<forall>i v t. (i, v) \<in> set vs \<longrightarrow> disposition_for ds i v = D_Sprint t \<longrightarrow>
       (\<exists>y. map_get (sn_sprints (cs_snapshot st')) t = Some y \<and> i \<in> set (sp_members y)))"
  using assms
proof (induction vs arbitrary: st)
  case (Cons e vs)
  obtain i v where e: "e = (i, v)" by (cases e)
  from "Cons.prems"(1) obtain u where u: "close_member cmd au ds st (i, v) = Inr u"
    and rest: "try_fold (close_member cmd au ds) u vs = Inr st'"
    by (auto simp: call_simps e)
  note c = close_member_Inr [OF u "Cons.prems"(2)]
  have op: "carry_open src ds (cs_snapshot u)"
    using carry_open_carries [OF "Cons.prems"(2) c(1)] .
  have di: "distinct (map fst vs)" "i \<notin> fst ` set vs" using "Cons.prems"(3) e by auto
  note IH = Cons.IH [OF rest op di(1)]
  have none: "map_of vs i = None" using di(2) by (simp add: map_of_eq_None_iff)
  have kept: "\<exists>y. map_get (sn_sprints (cs_snapshot st')) t = Some y \<and> j \<in> set (sp_members y)"
    if "\<exists>y. map_get (sn_sprints (cs_snapshot u)) t = Some y \<and> j \<in> set (sp_members y)" for t j
    using that IH unfolding carries_def by (meson subsetD)
  have "carries src (cs_snapshot st) (cs_snapshot st')"
    using carries_trans [OF c(1)] IH by blast
  moreover have "ordered (cs_members st) \<longrightarrow> ordered (cs_members st')"
    using IH c(2) by simp
  moreover have "map_get (cs_members st') j =
      (case map_of (e # vs) j of
         Some v \<Rightarrow> Some \<lparr>cm_version = v, cm_disposition = disposition_for ds j v\<rparr>
       | None \<Rightarrow> map_get (cs_members st) j)" for j
    using IH none c(2) by (auto simp: e split: option.splits)
  moreover have "\<exists>y. map_get (sn_sprints (cs_snapshot st')) t = Some y \<and> j \<in> set (sp_members y)"
    if "(j, w) \<in> set (e # vs)" "disposition_for ds j w = D_Sprint t" for j w t
    using that IH kept c(3) by (auto simp: e)
  ultimately show ?case by blast
qed simp

section \<open>The close\<close>

lemma versions_of_Inr:
  assumes "versions_of s p ids = Inr vs"
  shows "ordered vs"
    "map_get vs i = Some v \<longleftrightarrow> i \<in> set ids \<and> (\<exists>w. work_in s p i = Inr w \<and> v = version_of s w)"
proof -
  from assms obtain es where vs: "vs = collect_map es"
    and es: "list_all2 (\<lambda>i e. \<exists>w. work_in s p i = Inr w \<and> (i, version_of s w) = e) ids es"
    by (auto simp: versions_of_def call_simps try_map_Inr)
  show "ordered vs" by (simp add: vs)
  have mem: "(i, v) \<in> set es \<longleftrightarrow> i \<in> set ids \<and> (\<exists>w. work_in s p i = Inr w \<and> v = version_of s w)" for i v
    using es by (induction rule: list_all2_induct) auto
  have "map_of (rev es) i = Some v \<longleftrightarrow> (i, v) \<in> set es"
  proof
    assume "(i, v) \<in> set es"
    then have "i \<in> fst ` set (rev es)" by force
    then obtain v' where v': "map_of (rev es) i = Some v'"
      by (metis map_of_eq_None_iff not_None_eq)
    then have "(i, v') \<in> set es" using map_of_SomeD by fastforce
    with \<open>(i, v) \<in> set es\<close> mem v' show "map_of (rev es) i = Some v" by auto
  qed (use map_of_SomeD in fastforce)
  with mem show "map_get vs i = Some v \<longleftrightarrow>
      i \<in> set ids \<and> (\<exists>w. work_in s p i = Inr w \<and> v = version_of s w)"
    by (simp add: vs map_get_collect)
qed

lemma keys_count_target:
  "set (keys (count_target d m)) = (case d of ToBacklog \<Rightarrow> {} | ToSprint i \<Rightarrow> {i}) \<union> set (keys m)"
  by (auto simp: count_target_def keys_def set_keys_put simp del: set_map split: sprint_destination.splits)

lemma keys_carry_targets: "set (keys (carry_targets ds)) = {i. ToSprint i \<in> set (vals ds)}"
proof -
  have "set (keys (fold count_target xs m)) = {i. ToSprint i \<in> set xs} \<union> set (keys m)" for xs m
    by (induction xs arbitrary: m) (auto simp: keys_count_target split: sprint_destination.splits)
  then show ?thesis by (simp add: carry_targets_def keys_def)
qed

lemma check_target_open:
  "check_target s cmd revs e = Inr () \<Longrightarrow>
     fst e \<noteq> sm_sprint_id cmd \<and> (\<exists>x. map_get (sn_sprints s) (fst e) = Some x \<and> open_sprint x)"
  by (auto simp: check_target_def call_simps dest: find_open)

lemma touch_carries:
  assumes "touch_target s i = Inr t" "map_get (sn_sprints s) i = Some x" "open_sprint x" "i \<noteq> src"
  shows "carries src s t"
  using assms by (auto simp: touch_target_def update_sprint_def touch_sprint_def call_simps
      intro!: carries_put)

lemma touches_carry:
  assumes "try_fold touch_target s is = Inr t"
    and "\<forall>i \<in> set is. i \<noteq> src \<and> (\<exists>x. map_get (sn_sprints s) i = Some x \<and> open_sprint x)"
  shows "carries src s t"
  using assms
proof (induction "is" arbitrary: s)
  case (Cons i "is")
  from "Cons.prems"(1) obtain u where u: "touch_target s i = Inr u" "try_fold touch_target u is = Inr t"
    by (auto simp: call_simps)
  from "Cons.prems"(2) touch_carries [OF u(1)] have c: "carries src s u" by auto
  then have "\<forall>j \<in> set is. j \<noteq> src \<and> (\<exists>x. map_get (sn_sprints u) j = Some x \<and> open_sprint x)"
    using "Cons.prems"(2) unfolding carries_def open_sprint_def by (metis list.set_intros(2))
  with Cons.IH [OF u(2)] carries_trans [OF c] show ?case by blast
qed simp

text \<open>The stages of a close, with what each establishes.\<close>

lemma sprint_close_stages:
  assumes "sprint_close commit au cmd n ds revs s = Inr (t, c)"
  obtains x vs st s1 where
    "find_sprint s (sm_project_id cmd) (sm_sprint_id cmd) = Inr x" "open_sprint x"
    "versions_of s (sm_project_id cmd) (sp_members x) = Inr vs"
    "set (keys ds) = set (map fst (filter (\<lambda>e. unfinished (snd e)) vs))"
    "carry_open (sm_sprint_id cmd) ds s"
    "try_fold (close_member cmd au ds) \<lparr>cs_snapshot = s, cs_members = [], cs_outgoing = []\<rparr> vs = Inr st"
    "carries (sm_sprint_id cmd) s s1" "carries (sm_sprint_id cmd) (cs_snapshot st) s1"
    "c = closure_of commit (sn_seq s) (cs_members st)"
    "update_sprint (sm_sprint_id cmd)
       (\<lambda>sp. sp\<lparr>sp_status := Sp_Closed, sp_history := sp_history sp @ cs_outgoing st,
             sp_closure := Some c\<rparr>) s1 = Inr t"
proof -
  let ?src = "sm_sprint_id cmd"
  from assms obtain x vs st s1 where
    x: "find_sprint s (sm_project_id cmd) ?src = Inr x" "open_revision x n = Inr ()"
    and vs: "versions_of s (sm_project_id cmd) (sp_members x) = Inr vs"
      "set (keys ds) = set (map fst (filter (\<lambda>e. unfinished (snd e)) vs))"
    and targets: "\<forall>e \<in> set (carry_targets ds). check_target s cmd revs e = Inr ()"
    and st: "try_fold (close_member cmd au ds) \<lparr>cs_snapshot = s, cs_members = [], cs_outgoing = []\<rparr> vs = Inr st"
    and s1: "try_fold touch_target (cs_snapshot st) (keys (carry_targets ds)) = Inr s1"
    and c: "c = closure_of commit (sn_seq s) (cs_members st)"
    and t: "update_sprint ?src
       (\<lambda>sp. sp\<lparr>sp_status := Sp_Closed, sp_history := sp_history sp @ cs_outgoing st,
             sp_closure := Some c\<rparr>) s1 = Inr t"
    by (auto simp: sprint_close_def Let_def call_simps try_each_Inr)
  have "\<forall>i \<in> set (keys (carry_targets ds)). i \<noteq> ?src \<and> (\<exists>x. map_get (sn_sprints s) i = Some x \<and> open_sprint x)"
    using targets by (auto simp: keys_def dest: check_target_open)
  then have op: "carry_open ?src ds s"
    by (auto simp: carry_open_def keys_carry_targets)
  have di: "distinct (map fst vs)" using versions_of_Inr(1) [OF vs(1)] by (rule ordered_distinct)
  have c1: "carries ?src s (cs_snapshot st)"
    using close_members_Inr [OF st _ di] op by auto
  have c2: "carries ?src (cs_snapshot st) s1"
  proof (rule touches_carry [OF s1])
    from carry_open_carries [OF op c1]
    show "\<forall>i \<in> set (keys (carry_targets ds)).
        i \<noteq> ?src \<and> (\<exists>x. map_get (sn_sprints (cs_snapshot st)) i = Some x \<and> open_sprint x)"
      by (auto simp: carry_open_def keys_carry_targets)
  qed
  show thesis
    using that [OF x(1) _ vs op st carries_trans [OF c1 c2] c2 c t] find_open [OF x] by blast
qed

lemma create_keeps_closed: "sprint_create cmd d s = Inr t \<Longrightarrow> closed_kept s t"
  by (auto simp: sprint_create_def call_simps has_key_iff intro!: closed_kept_put)

lemma found_update:
  assumes "find_sprint s p i = Inr x" "open_revision x n = Inr ()" "update_sprint i f s = Inr t"
  shows "closed_kept s t"
  using find_open [OF assms(1,2)] by (auto intro: closed_kept_update [OF assms(3)])

lemma edit_keeps_closed: "sprint_edit cmd n d s = Inr t \<Longrightarrow> closed_kept s t"
  by (auto simp: sprint_edit_def call_simps intro: found_update)

lemma start_keeps_closed: "sprint_start cmd n s = Inr t \<Longrightarrow> closed_kept s t"
  by (auto simp: sprint_start_def call_simps intro: found_update)

lemma member_keeps_closed: "sprint_member adding au cmd n i s = Inr t \<Longrightarrow> closed_kept s t"
  by (cases adding) (auto simp: sprint_member_def Let_def call_simps intro: found_update)

lemma close_keeps_closed:
  assumes "sprint_close commit au cmd n ds revs s = Inr (t, c)"
  shows "closed_kept s t"
  using assms
proof (rule sprint_close_stages, goal_cases)
  case (1 x vs st s1)
  have "closed_kept s1 t"
  proof (rule closed_kept_update [OF 1(10)])
    fix y assume y: "map_get (sn_sprints s1) (sm_sprint_id cmd) = Some y"
    from 1(7) have "map_get (sn_sprints s1) (sm_sprint_id cmd) = map_get (sn_sprints s) (sm_sprint_id cmd)"
      by (simp add: carries_def)
    with y 1(1,2) show "open_sprint y" by (auto simp: find_sprint_def call_simps)
  qed
  moreover have "closed_kept s s1" using 1(7) by (simp add: carries_def)
  ultimately show ?case by (rule closed_kept_trans [rotated])
qed

text \<open>
  A closed Sprint never changes.  Every action that succeeds leaves each closed Sprint
  of the snapshot, with its members, its history and its frozen closure, as it was.
\<close>

theorem closed_sprint_frozen:
  assumes "apply_sprint commit au cmd act s = Inr (t, c)"
    and "map_get (sn_sprints s) i = Some x" "sp_status x = Sp_Closed"
  shows "map_get (sn_sprints t) i = Some x"
proof -
  have "closed_kept s t"
    using assms(1)
    by (cases act) (auto simp: call_simps intro: create_keeps_closed edit_keeps_closed
        start_keeps_closed member_keeps_closed close_keeps_closed)
  with assms(2,3) show ?thesis by (auto simp: closed_kept_def open_sprint_def)
qed

lemma counts_partition:
  assumes "\<forall>v \<in> set vs. wv_accepted v \<longrightarrow> wv_state v \<noteq> W_Cancelled"
  shows "sc_total (counts vs) = length vs"
    "sc_total (counts vs) = sc_accepted (counts vs) + sc_cancelled (counts vs) + sc_unfinished (counts vs)"
proof -
  have "sc_total (fold count_version vs c) = sc_total c + length vs \<and>
      sc_total (fold count_version vs c) + sc_accepted c + sc_cancelled c + sc_unfinished c =
      sc_accepted (fold count_version vs c) + sc_cancelled (fold count_version vs c)
        + sc_unfinished (fold count_version vs c) + sc_total c" for c
    using assms
  proof (induction vs arbitrary: c)
    case (Cons v vs)
    from Cons.IH [of "count_version v c"] Cons.prems show ?case
      by (cases "wv_accepted v"; cases "wv_state v = W_Cancelled")
        (simp_all add: count_version_def unfinished_def)
  qed simp
  from this [of zero_counts] show "sc_total (counts vs) = length vs"
    "sc_total (counts vs) = sc_accepted (counts vs) + sc_cancelled (counts vs) + sc_unfinished (counts vs)"
    by (simp_all add: counts_def zero_counts_def)
qed

lemma version_of_accepted: "wv_accepted (version_of s w) \<Longrightarrow> wv_state (version_of s w) \<noteq> W_Cancelled"
  by (simp add: version_of_def version_accepted_def)

text \<open>
  C24: closing a Sprint accounts for every member exactly once.  The closure records each
  member with its version at the close and a disposition: accepted, cancelled, or the one
  the command named; nobody else is recorded; a carried Work is a member of its target
  afterwards; and the total is accepted plus cancelled plus unfinished.
\<close>

theorem sprint_close_accounts:
  assumes "sprint_close commit au cmd n ds revs s = Inr (t, c)"
  shows "\<exists>x. map_get (sn_sprints s) (sm_sprint_id cmd) = Some x \<and>
    (\<forall>i m. map_get (cl_members c) i = Some m \<longleftrightarrow>
       i \<in> set (sp_members x) \<and>
       (\<exists>w. work_in s (sm_project_id cmd) i = Inr w \<and> cm_version m = version_of s w) \<and>
       cm_disposition m = disposition_for ds i (cm_version m)) \<and>
    (\<forall>i m target. map_get (cl_members c) i = Some m \<and> cm_disposition m = D_Sprint target \<longrightarrow>
       (\<exists>y. map_get (sn_sprints t) target = Some y \<and> i \<in> set (sp_members y))) \<and>
    sc_total (cl_counts c) =
      sc_accepted (cl_counts c) + sc_cancelled (cl_counts c) + sc_unfinished (cl_counts c)"
  using assms
proof (rule sprint_close_stages, goal_cases)
  case (1 x vs st s1)
  let ?src = "sm_sprint_id cmd"
  have x: "map_get (sn_sprints s) ?src = Some x"
    using 1(1) by (auto simp: find_sprint_def call_simps)
  note vs = versions_of_Inr [OF 1(3)]
  have f: "carries ?src s (cs_snapshot st)" "ordered (cs_members st)"
    "map_get (cs_members st) i =
       map_option (\<lambda>v. \<lparr>cm_version = v, cm_disposition = disposition_for ds i v\<rparr>) (map_get vs i)"
    "(i, v) \<in> set vs \<Longrightarrow> disposition_for ds i v = D_Sprint target \<Longrightarrow>
       \<exists>y. map_get (sn_sprints (cs_snapshot st)) target = Some y \<and> i \<in> set (sp_members y)"
    for i v target
    using close_members_Inr [OF 1(6) _ ordered_distinct [OF vs(1)]] 1(5)
    by (auto simp: map_get_def split: option.splits)
  have members: "cl_members c = cs_members st" "cl_counts c = counts (map cm_version (vals (cs_members st)))"
    using 1(9) by (simp_all add: closure_of_def)
  have entry: "map_get (cl_members c) i = Some m \<longleftrightarrow>
       i \<in> set (sp_members x) \<and>
       (\<exists>w. work_in s (sm_project_id cmd) i = Inr w \<and> cm_version m = version_of s w) \<and>
       cm_disposition m = disposition_for ds i (cm_version m)" for i m
    unfolding members f(3) by (cases m) (auto simp: vs(2))
  have carried: "\<exists>y. map_get (sn_sprints t) target = Some y \<and> i \<in> set (sp_members y)"
    if "map_get (cl_members c) i = Some m" "cm_disposition m = D_Sprint target" for i m target
  proof -
    from that entry have d: "disposition_for ds i (cm_version m) = D_Sprint target" by auto
    then have "ToSprint target \<in> set (vals ds)"
      by (auto simp: disposition_for_def split: if_splits option.splits sprint_destination.splits
          dest: map_get_in_vals)
    with 1(5) have ne: "target \<noteq> ?src" by (auto simp: carry_open_def)
    from that(1) have "(i, cm_version m) \<in> set vs"
      unfolding members f(3) by (auto simp: map_get_def dest: map_of_SomeD)
    from f(4) [OF this d] obtain z where "map_get (sn_sprints s1) target = Some z" "i \<in> set (sp_members z)"
      using 1(8) unfolding carries_def by (meson subsetD)
    with 1(10) ne show ?thesis by (auto simp: update_sprint_def put_sprint_def call_simps)
  qed
  have "\<forall>v \<in> set (map cm_version (vals (cs_members st))). wv_accepted v \<longrightarrow> wv_state v \<noteq> W_Cancelled"
    using entry version_of_accepted by (auto simp: in_vals_ordered [OF f(2)] members(1))
  then have "sc_total (cl_counts c) =
      sc_accepted (cl_counts c) + sc_cancelled (cl_counts c) + sc_unfinished (cl_counts c)"
    unfolding members(2) by (rule counts_partition(2))
  with x entry carried show ?case by blast
qed

section \<open>A plan with three Sprints\<close>

definition demo_sprint_command :: "string \<Rightarrow> u64 \<Rightarrow> string \<Rightarrow> sprint_action \<Rightarrow> sprint_command" where
  "demo_sprint_command op_id q i act = \<lparr>
     sm_operation_id = op_id, sm_binding = demo_binding, sm_expected_seq = q,
     sm_expected_epoch = 0, sm_project_id = ProjectId ''p'', sm_sprint_id = SprintId (ProjectId i),
     sm_source = ''chat'', sm_action = act\<rparr>"

definition demo_definition :: sprint_definition where
  "demo_definition = \<lparr>sd_name = ''n'', sd_goal = ''g'', sd_starts_at = None, sd_ends_at = None\<rparr>"

definition demo_sprint :: "string \<Rightarrow> sprint_status \<Rightarrow> string list \<Rightarrow> sprint" where
  "demo_sprint i st ms = \<lparr>sp_id = SprintId (ProjectId i), sp_project_id = ProjectId ''p'',
     sp_definition = demo_definition, sp_status = st, sp_revision = 1, sp_created_seq = 1,
     sp_updated_seq = 2, sp_members = ms, sp_history = [], sp_closure = None\<rparr>"

text \<open>Sprint 0 is closed, Sprint 1 is active with the unfinished Work \<open>b\<close>, Sprint 2 is planned.\<close>

definition demo_board :: snapshot where
  "demo_board = demo
     \<lparr>sn_project := empty_project\<lparr>ps_links := [(''a'', ProjectId ''p''), (''b'', ProjectId ''p''),
                                              (''g'', ProjectId ''p'')]\<rparr>,
      sn_sprints := [(SprintId (ProjectId ''0''), demo_sprint ''0'' Sp_Closed []),
                     (SprintId (ProjectId ''1''), demo_sprint ''1'' Sp_Active [''b'']),
                     (SprintId (ProjectId ''2''), demo_sprint ''2'' Sp_Planned [])]\<rparr>"

definition demo_close :: sprint_command where
  "demo_close = demo_sprint_command ''op'' 9 ''1''
     (Sa_Close 1 [(''b'', ToSprint (SprintId (ProjectId ''2'')))] [(SprintId (ProjectId ''2''), 1)])"

lemma demo_board_sprints:
  "map_get (sn_sprints demo_board) (SprintId (ProjectId ''0'')) = Some (demo_sprint ''0'' Sp_Closed [])"
  "map_get (sn_sprints demo_board) (SprintId (ProjectId ''1'')) = Some (demo_sprint ''1'' Sp_Active [''b''])"
  by (simp_all add: demo_board_def map_get_Cons)

theorem closed_sprint_frozen_witness:
  "\<exists>t c. apply_sprint ''h'' (demo_au (Supervisor ''sup'')) demo_close (sm_action demo_close) demo_board
       = Inr (t, c) \<and>
     map_get (sn_sprints t) (SprintId (ProjectId ''0'')) = Some (demo_sprint ''0'' Sp_Closed [])"
proof -
  let ?op = "apply_sprint ''h'' (demo_au (Supervisor ''sup'')) demo_close (sm_action demo_close) demo_board"
  have "is_ok ?op" by code_simp
  then obtain t c where r: "?op = Inr (t, c)" by (auto simp: is_ok_iff)
  have "sp_status (demo_sprint ''0'' Sp_Closed []) = Sp_Closed" by (simp add: demo_sprint_def)
  from closed_sprint_frozen [OF r demo_board_sprints(1) this] r show ?thesis by blast
qed

theorem sprint_close_accounts_witness:
  "\<exists>t c m y. sprint_close ''h'' (demo_au (Supervisor ''sup'')) demo_close 1
        [(''b'', ToSprint (SprintId (ProjectId ''2'')))] [(SprintId (ProjectId ''2''), 1)] demo_board
       = Inr (t, c) \<and>
     map_get (cl_members c) ''b'' = Some m \<and> cm_disposition m = D_Sprint (SprintId (ProjectId ''2'')) \<and>
     map_get (sn_sprints t) (SprintId (ProjectId ''2'')) = Some y \<and> ''b'' \<in> set (sp_members y)"
proof -
  let ?op = "sprint_close ''h'' (demo_au (Supervisor ''sup'')) demo_close 1
        [(''b'', ToSprint (SprintId (ProjectId ''2'')))] [(SprintId (ProjectId ''2''), 1)] demo_board"
  let ?carried = "\<lambda>c. case map_get (cl_members c) ''b'' of None \<Rightarrow> False
    | Some m \<Rightarrow> cm_disposition m = D_Sprint (SprintId (ProjectId ''2''))"
  have "(case ?op of Inl e \<Rightarrow> False | Inr (t, c) \<Rightarrow> ?carried c)" by code_simp
  then obtain t c m where r: "?op = Inr (t, c)" "map_get (cl_members c) ''b'' = Some m"
    "cm_disposition m = D_Sprint (SprintId (ProjectId ''2''))"
    by (auto split: sum.splits option.splits)
  from sprint_close_accounts [OF r(1)] r show ?thesis by blast
qed

end
