(* ===== verification/Texts.thy ===== *)
theory Texts
  imports Prelude
begin

text \<open>
  Strings as \<open>str\<close> sees them: a \<open>String\<close> is its UTF-8 bytes, and a character of it
  is the byte string of one code point.  Trimming, splitting at characters and searching are
  those of the standard library.
\<close>

section \<open>Trimming\<close>

text \<open>\<open>str::trim\<close> on the bytes of a UTF-8 string, from the front and from the back.\<close>

fun trim_front :: "string \<Rightarrow> string" where
  "trim_front [] = []"
| "trim_front [a] = (if ascii_space (byte a) then [] else [a])"
| "trim_front [a, b] =
     (if ascii_space (byte a) then trim_front [b] else if space2 (byte a) (byte b) then [] else [a, b])"
| "trim_front (a # b # c # s) =
     (if ascii_space (byte a) then trim_front (b # c # s)
      else if space2 (byte a) (byte b) then trim_front (c # s)
      else if space3 (byte a) (byte b) (byte c) then trim_front s
      else a # b # c # s)"

fun trim_rear :: "string \<Rightarrow> string" where
  "trim_rear [] = []"
| "trim_rear [a] = (if ascii_space (byte a) then [] else [a])"
| "trim_rear [b, a] =
     (if ascii_space (byte b) then trim_rear [a] else if space2 (byte a) (byte b) then [] else [b, a])"
| "trim_rear (c # b # a # s) =
     (if ascii_space (byte c) then trim_rear (b # a # s)
      else if space2 (byte b) (byte c) then trim_rear (a # s)
      else if space3 (byte a) (byte b) (byte c) then trim_rear s
      else c # b # a # s)"

definition trim_end :: "string \<Rightarrow> string" where
  "trim_end s = rev (trim_rear (rev s))"

definition trim :: "string \<Rightarrow> string" where
  "trim s = rev (trim_rear (rev (trim_front s)))"

section \<open>Characters\<close>

text \<open>The bytes of the code points below \<open>0x10000\<close>.\<close>

definition code_point :: "nat \<Rightarrow> string" where
  "code_point n =
     (if n < 128 then [char_of n]
      else if n < 2048 then [char_of (192 + n div 64), char_of (128 + n mod 64)]
      else [char_of (224 + n div 4096), char_of (128 + n div 64 mod 64), char_of (128 + n mod 64)])"

definition utf8 :: "nat list \<Rightarrow> string" where
  "utf8 ns = concat (map code_point ns)"

text \<open>\<open>str::chars\<close>: a character ends where the next byte is not a continuation byte.\<close>

definition continuation :: "char \<Rightarrow> bool" where
  "continuation c = (128 \<le> byte c \<and> byte c < 192)"

function chars :: "string \<Rightarrow> string list" where
  "chars [] = []"
| "chars (c # s) = (c # takeWhile continuation s) # chars (dropWhile continuation s)"
  by pat_completeness auto

termination chars
  by (relation "measure length") (simp_all add: le_imp_less_Suc length_dropWhile_le)

lemma concat_chars [simp]: "concat (chars s) = s"
  by (induction s rule: chars.induct) simp_all

text \<open>\<open>str::split\<close> at every character that satisfies the predicate.\<close>

fun split_at :: "('a \<Rightarrow> bool) \<Rightarrow> 'a list \<Rightarrow> 'a list list" where
  "split_at p [] = [[]]"
| "split_at p (c # cs) =
     (if p c then [] # split_at p cs
      else case split_at p cs of w # ws \<Rightarrow> (c # w) # ws | [] \<Rightarrow> [[c]])"

definition split_text :: "(string \<Rightarrow> bool) \<Rightarrow> string \<Rightarrow> string list" where
  "split_text p s = map concat (split_at p (chars s))"

lemma split_at_pieces:
  "w \<in> set (split_at p cs) \<Longrightarrow> set w \<subseteq> set cs \<and> (\<forall>c \<in> set w. \<not> p c)"
  by (induction cs arbitrary: w) (fastforce split: list.splits if_splits)+

text \<open>
  \<open>str::match_indices\<close>: the occurrences of a text from left to right without overlap, each
  as what stands before and after it.  The empty text occurs at every boundary.
\<close>

function occurrences :: "'a list \<Rightarrow> 'a list \<Rightarrow> 'a list \<Rightarrow> ('a list \<times> 'a list) list" where
  "occurrences p l rest =
     (if p \<noteq> [] \<and> take (length p) rest = p
      then (l, drop (length p) rest) # occurrences p (l @ p) (drop (length p) rest)
      else (if p = [] then [(l, rest)] else []) @
           (case rest of [] \<Rightarrow> [] | c # cs \<Rightarrow> occurrences p (l @ [c]) cs))"
  by pat_completeness auto

termination occurrences
proof (relation "measure (\<lambda>(p, l, rest). length rest)", goal_cases)
  case (2 p l rest)
  then show ?case by (cases rest) auto
qed simp_all

declare occurrences.simps [simp del]

lemma occurrences_sound:
  "(b, a) \<in> set (occurrences p l rest) \<Longrightarrow> b @ p @ a = l @ rest"
proof (induction p l rest rule: occurrences.induct)
  case (1 p l rest)
  show ?case
  proof (cases "p \<noteq> [] \<and> take (length p) rest = p")
    case True
    then have rest: "p @ drop (length p) rest = rest" by (metis append_take_drop_id)
    from True "1.prems" have "(b, a) = (l, drop (length p) rest) \<or>
        (b, a) \<in> set (occurrences p (l @ p) (drop (length p) rest))"
      by (subst (asm) occurrences.simps) simp
    with "1.IH"(1) [OF True] rest show ?thesis by (metis append_assoc prod.inject)
  next
    case False
    with "1.prems" have "p = [] \<and> (b, a) = (l, rest) \<or>
        (\<exists>c cs. rest = c # cs \<and> (b, a) \<in> set (occurrences p (l @ [c]) cs))"
      by (subst (asm) occurrences.simps) (auto split: list.splits if_splits)
    with "1.IH"(2) [OF False] show ?thesis by auto
  qed
qed

definition text_occurrences :: "string \<Rightarrow> string \<Rightarrow> (string list \<times> string list) list" where
  "text_occurrences p s = occurrences (chars p) [] (chars s)"

text \<open>\<open>char::is_whitespace\<close> of one character.\<close>

definition white :: "string \<Rightarrow> bool" where
  "white c = blank c"

text \<open>
  The tables of Unicode: \<open>str::to_lowercase\<close>, \<open>char::is_alphabetic\<close> and
  \<open>char::is_alphanumeric\<close> are parameters.
\<close>

record text_port =
  tx_lower :: "string \<Rightarrow> string"
  tx_alphabetic :: "string \<Rightarrow> bool"
  tx_alphanumeric :: "string \<Rightarrow> bool"

definition text_words :: "text_port \<Rightarrow> string \<Rightarrow> string list" where
  "text_words T s = split_text (\<lambda>c. \<not> tx_alphabetic T c) s"

end
