(* ===== verification/Human_Text.thy ===== *)
theory Human_Text
  imports Texts Authority
begin

text \<open>
  The rules of \<open>resolution/validation.rs\<close> on the words of a Human: when a sentence approves or
  denies a request, answers a question or accepts a result.  A rule that is not met asks for
  clarification.  The Chinese phrases are written as code points; in the order of the lists they
  are: the words for if, suppose, for example, provided, unless, only if, once, after
  (\<open>conditional_markers\<close>); not, not yet, if, before, refuse, cancel, do not, but
  (\<open>refused_markers\<close>); approve, agree, refuse, do not approve, disagree, forbid, accept the
  delivery (\<open>name_prefixes\<close> and the prefixes below it).
\<close>

definition clarify :: "string \<Rightarrow> error" where
  "clarify reason = InvalidTransition (''needs_clarification: '' @ reason)"

section \<open>Sentences and clauses\<close>

definition sentence_end :: "string \<Rightarrow> bool" where
  "sentence_end c = (c \<in> {utf8 [0xFF1B], '';'', utf8 [0x3002], [CHR 0x0A]})"

definition comma :: "string \<Rightarrow> bool" where
  "comma c = (c \<in> {utf8 [0xFF0C], '',''})"

definition clause_end :: "string \<Rightarrow> bool" where
  "clause_end c = (comma c \<or> sentence_end c)"

text \<open>The piece \<open>quote\<close> is a complete part of a text, up to white space.\<close>

definition has_part :: "(string \<Rightarrow> bool) \<Rightarrow> string \<Rightarrow> string \<Rightarrow> bool" where
  "has_part p quote s = list_ex (\<lambda>part. trim part = trim quote) (split_text p s)"

definition conditional_markers :: "string list" where
  "conditional_markers =
     [utf8 [0x5982, 0x679C], utf8 [0x5047, 0x5982], utf8 [0x5047, 0x8BBE], utf8 [0x4F8B, 0x5982],
      utf8 [0x6BD4, 0x5982], utf8 [0x524D, 0x63D0], utf8 [0x6761, 0x4EF6], utf8 [0x9664, 0x975E],
      utf8 [0x53EA, 0x6709], utf8 [0x53EA, 0x8981], utf8 [0x4E00, 0x65E6], utf8 [0x7B49, 0x5230],
      utf8 [0x4EC5, 0x5F53], utf8 [0x4E4B, 0x540E], utf8 [0x4EE5, 0x540E]]"

definition conditional_words :: "string list" where
  "conditional_words =
     [''if'', ''when'', ''unless'', ''once'', ''until'', ''assuming'', ''provided'', ''before'',
      ''after'', ''conditional'', ''contingent'']"

definition conditional_text :: "text_port \<Rightarrow> string \<Rightarrow> bool" where
  "conditional_text T s =
     (list_ex (contains s) conditional_markers \<or>
      list_ex (\<lambda>w. w \<in> set conditional_words) (text_words T s))"

text \<open>The only sentence of the Human with the quote as one of its clauses.\<close>

definition human_sentence :: "human_ingress \<Rightarrow> string \<Rightarrow> string option" where
  "human_sentence human quote =
     (case filter (has_part comma quote) (split_text sentence_end (hi_text human)) of
        [sentence] \<Rightarrow> Some sentence
      | _ \<Rightarrow> None)"

definition refused_markers :: "string list" where
  "refused_markers =
     [utf8 [0x4E0D], utf8 [0x672A], utf8 [0x6682], utf8 [0x5982, 0x679C], utf8 [0x5047, 0x5982],
      utf8 [0x5047, 0x8BBE], utf8 [0x4F8B, 0x5982], utf8 [0x6BD4, 0x5982], utf8 [0x4E4B, 0x524D],
      ''?'', utf8 [0xFF1F], ''don't'', ''don'' @ utf8 [0x2019] @ ''t'', ''can't'',
      ''can'' @ utf8 [0x2019] @ ''t'', ''hold off'', utf8 [0x62D2, 0x7EDD], utf8 [0x53D6, 0x6D88],
      utf8 [0x64A4, 0x9500], utf8 [0x522B], utf8 [0x52FF], utf8 [0x4F46], [CHR 0x22],
      utf8 [0x201C], utf8 [0x300C], ''`'', ''>'']"

definition refused_words :: "string list" where
  "refused_words =
     [''no'', ''not'', ''never'', ''reject'', ''decline'', ''but'', ''however'', ''except'',
      ''maybe'', ''wait'', ''example'']"

definition refused_human_text :: "text_port \<Rightarrow> string \<Rightarrow> bool" where
  "refused_human_text T s =
     (list_ex (contains s) refused_markers \<or>
      list_ex (\<lambda>w. w \<in> set refused_words) (text_words T s))"

definition unconditional_human_context :: "text_port \<Rightarrow> human_ingress \<Rightarrow> string \<Rightarrow> bool" where
  "unconditional_human_context T human quote =
     (case human_sentence human quote of
        None \<Rightarrow> False
      | Some sentence \<Rightarrow>
          \<not> conditional_text T (tx_lower T sentence) \<and> \<not> refused_human_text T (tx_lower T sentence))"

section \<open>Amounts\<close>

text \<open>What follows each mention of an amount, the English word standing by itself.\<close>

definition amounts :: "text_port \<Rightarrow> string \<Rightarrow> string list list" where
  "amounts T s =
     map snd (text_occurrences (utf8 [0x91D1, 0x989D]) s) @
     map snd (filter (\<lambda>(l, r). (l = [] \<or> \<not> tx_alphabetic T (last l)) \<and> (r = [] \<or> \<not> tx_alphabetic T (hd r)))
       (text_occurrences ''amount'' s))"

definition stated_amount :: "string list \<Rightarrow> string" where
  "stated_amount cs =
     trim (concat (rev (dropWhile (\<lambda>c. c \<in> {''!'', utf8 [0xFF01]})
       (rev (dropWhile (\<lambda>c. white c \<or> c \<in> {'':'', utf8 [0xFF1A], ''=''}) cs)))))"

definition explicit_amount_matches :: "text_port \<Rightarrow> string \<Rightarrow> string option \<Rightarrow> bool" where
  "explicit_amount_matches T s amount =
     (case amounts T s of
        [] \<Rightarrow> True
      | stated # others \<Rightarrow>
          (case amount of
             None \<Rightarrow> False
           | Some a \<Rightarrow> others = [] \<and> stated_amount stated = tx_lower T (trim a)))"

section \<open>Names\<close>

definition name_prefixes :: "string list" where
  "name_prefixes =
     [utf8 [0x6279, 0x51C6], utf8 [0x540C, 0x610F], utf8 [0x62D2, 0x7EDD],
      utf8 [0x4E0D, 0x6279, 0x51C6], utf8 [0x4E0D, 0x8981, 0x6279, 0x51C6],
      utf8 [0x4E0D, 0x540C, 0x610F], utf8 [0x7981, 0x6B62], utf8 [0x786E, 0x8BA4, 0x9A8C, 0x6536],
      utf8 [0x9A8C, 0x6536, 0x901A, 0x8FC7], utf8 [0x63A5, 0x53D7, 0x4EA4, 0x4ED8],
      utf8 [0x63A5, 0x53D7, 0x6210, 0x679C]]"

definition reference_char :: "text_port \<Rightarrow> string \<Rightarrow> bool" where
  "reference_char T c = (tx_alphanumeric T c \<or> c \<in> {''_'', ''-''})"

definition exact_name :: "text_port \<Rightarrow> string \<Rightarrow> string \<Rightarrow> bool" where
  "exact_name T s name =
     list_ex (\<lambda>(l, r). (l = [] \<or> \<not> reference_char T (last l) \<or> trim (concat l) \<in> set name_prefixes)
         \<and> (r = [] \<or> \<not> reference_char T (hd r)))
       (text_occurrences name s)"

definition longer_title_quoted :: "snapshot \<Rightarrow> string \<Rightarrow> ticket \<Rightarrow> bool" where
  "longer_title_quoted s quote work =
     list_ex (\<lambda>other. tk_id other \<noteq> tk_id work
         \<and> contains (co_title (tk_contract other)) (co_title (tk_contract work))
         \<and> contains quote (co_title (tk_contract other)))
       (vals (sn_tickets s))"

definition names_work :: "text_port \<Rightarrow> snapshot \<Rightarrow> string \<Rightarrow> ticket \<Rightarrow> bool" where
  "names_work T s quote work =
     (let title = co_title (tk_contract work)
      in exact_name T quote (tk_id work) \<or>
         length (filter (\<lambda>other. co_title (tk_contract other) = title) (vals (sn_tickets s))) = 1
         \<and> exact_name T quote title \<and> \<not> longer_title_quoted s quote work)"

text \<open>The number of open requests of a kind on the same version of the same Work.\<close>

definition open_alike :: "snapshot \<Rightarrow> pending_request \<Rightarrow> (request_kind \<Rightarrow> bool) \<Rightarrow> nat" where
  "open_alike s q kind =
     length (filter (\<lambda>other. rq_work_id other = rq_work_id q \<and> rq_generation other = rq_generation q
         \<and> rq_contract_revision other = rq_contract_revision q \<and> rq_status other = R_Open
         \<and> kind (rq_kind other))
       (vals (sn_requests s)))"

definition is_approval :: "request_kind \<Rightarrow> bool" where
  "is_approval k = (case k of Approval _ _ \<Rightarrow> True | Question \<Rightarrow> False)"

section \<open>Approvals\<close>

definition approve_prefixes :: "string list" where
  "approve_prefixes =
     [utf8 [0x6279, 0x51C6], utf8 [0x540C, 0x610F], ''approve '', ''i approve '']"

definition deny_prefixes :: "string list" where
  "deny_prefixes =
     [utf8 [0x62D2, 0x7EDD], utf8 [0x4E0D, 0x6279, 0x51C6], utf8 [0x4E0D, 0x8981, 0x6279, 0x51C6],
      utf8 [0x4E0D, 0x540C, 0x610F], utf8 [0x7981, 0x6B62], ''deny '', ''reject '']"

definition not_approving :: "string list" where
  "not_approving =
     [''?'', utf8 [0xFF1F], utf8 [0x5982, 0x679C], utf8 [0x5047, 0x5982], utf8 [0x5047, 0x8BBE],
      utf8 [0x6BD4, 0x5982], utf8 [0x4F8B, 0x5982], utf8 [0x4E4B, 0x524D], utf8 [0x4E0D, 0x8981],
      utf8 [0x4E0D, 0x80FD], utf8 [0x4E0D, 0x6279, 0x51C6], utf8 [0x4E0D, 0x540C, 0x610F],
      utf8 [0x4E0D, 0x53D1, 0x9001], ''not '', ''don't '']"

definition changed_amount :: "string list" where
  "changed_amount =
     [utf8 [0x6539, 0x91D1, 0x989D], utf8 [0x91D1, 0x989D, 0x6539], utf8 [0x6539, 0x4E3A],
      utf8 [0x6539, 0x6210], utf8 [0x8C03, 0x6574, 0x91D1, 0x989D], ''change amount'']"

text \<open>The text approves, without a condition and for the stated amount.\<close>

definition check_approving :: "text_port \<Rightarrow> human_ingress \<Rightarrow> string \<Rightarrow> pending_request \<Rightarrow> unit result" where
  "check_approving T human quote q =
     (let lower = tx_lower T (trim quote)
      in if \<not> list_ex (starts_with lower) approve_prefixes
            \<or> \<not> unconditional_human_context T human quote \<or> conditional_text T lower
            \<or> list_ex (contains lower) not_approving
         then fail (clarify ''ambiguous, conditional or negative text cannot approve'')
         else if list_ex (contains (tx_lower T (hi_text human))) changed_amount
         then fail (clarify ''a changed action/amount requires a fresh approval request'')
         else case rq_kind q of
           Question \<Rightarrow> Inr ()
         | Approval action _ \<Rightarrow>
             (case human_sentence human quote of
                None \<Rightarrow> fail (clarify ''explicit Human amount must exactly match the approved action'')
              | Some sentence \<Rightarrow>
                  if \<not> explicit_amount_matches T (tx_lower T sentence) (ac_amount action)
                  then fail (clarify ''explicit Human amount must exactly match the approved action'')
                  else Inr ()))"

definition approval_text ::
  "text_port \<Rightarrow> snapshot \<Rightarrow> human_ingress \<Rightarrow> string \<Rightarrow> pending_request \<Rightarrow> bool \<Rightarrow> unit result"
where
  "approval_text T s human quote q approve =
     and_then (expect (map_get (sn_tickets s) (rq_work_id q)) ''index'') (\<lambda>work.
       if \<not> (exact_name T quote (rq_id q)
             \<or> open_alike s q is_approval = 1 \<and> names_work T s quote work)
       then fail (clarify ''approval must identify one exact current Work/request'')
       else if \<not> has_part clause_end quote (hi_text human)
       then fail (clarify ''approval evidence must be a complete current Human clause'')
       else if approve then check_approving T human quote q
       else if \<not> list_ex (starts_with (tx_lower T (trim quote))) deny_prefixes
       then fail (clarify ''denial must explicitly identify the denied action'')
       else Inr ())"

section \<open>Answers\<close>

text \<open>The names under which a question may be answered.\<close>

definition title_unambiguous :: "snapshot \<Rightarrow> string \<Rightarrow> ticket \<Rightarrow> bool" where
  "title_unambiguous s quote work =
     (let title = co_title (tk_contract work)
      in title = trim title \<and> \<not> has_key (sn_tickets s) title \<and> \<not> has_key (sn_requests s) title
         \<and> length (filter (\<lambda>other. trim (co_title (tk_contract other)) = title) (vals (sn_tickets s))) = 1
         \<and> \<not> longer_title_quoted s quote work)"

definition answer_names :: "snapshot \<Rightarrow> string \<Rightarrow> pending_request \<Rightarrow> ticket \<Rightarrow> string list" where
  "answer_names s quote q work =
     (let unique = open_alike s q (\<lambda>k. k = Question) = 1
      in rq_id q # (if unique then [tk_id work] else []) @
         (if unique \<and> title_unambiguous s quote work then [co_title (tk_contract work)] else []))"

definition answer_forms :: "string \<Rightarrow> string \<Rightarrow> string list" where
  "answer_forms name answer =
     [name @ utf8 [32, 0x7684, 0x7B54, 0x6848, 0x662F] @ answer,
      name @ utf8 [0x4F7F, 0x7528] @ answer,
      name @ utf8 [32, 0x4F7F, 0x7528] @ answer,
      ''Answer '' @ name @ '': '' @ answer,
      ''answer '' @ name @ '': '' @ answer]"

definition answer_text ::
  "snapshot \<Rightarrow> human_ingress \<Rightarrow> string \<Rightarrow> pending_request \<Rightarrow> string \<Rightarrow> unit result"
where
  "answer_text s human quote q answer =
     and_then (expect (map_get (sn_tickets s) (rq_work_id q)) ''index'') (\<lambda>work.
       if blank answer \<or> answer \<noteq> trim answer
          \<or> \<not> list_ex (\<lambda>name. trim quote \<in> set (answer_forms name answer)) (answer_names s quote q work)
          \<or> (case human_sentence human quote of None \<Rightarrow> True | Some sentence \<Rightarrow> trim sentence \<noteq> trim quote)
       then fail (clarify ''question answers need an exact, unambiguous named Human sentence and verbatim answer'')
       else Inr ())"

section \<open>Acceptance\<close>

definition accept_prefixes :: "string list" where
  "accept_prefixes =
     [utf8 [0x9A8C, 0x6536, 0x901A, 0x8FC7], utf8 [0x786E, 0x8BA4, 0x9A8C, 0x6536],
      utf8 [0x63A5, 0x53D7, 0x4EA4, 0x4ED8], utf8 [0x63A5, 0x53D7, 0x6210, 0x679C], ''accept '',
      ''i accept '']"

definition reference_id :: "ticket_reference \<Rightarrow> string" where
  "reference_id r = (case r of Existing i _ _ _ \<Rightarrow> i | Temporary i \<Rightarrow> i)"

definition affirmative :: "string \<Rightarrow> bool" where
  "affirmative s = list_ex (starts_with s) accept_prefixes"

text \<open>\<open>strip_prefix\<close>, then the spaces and colons between a name and the verb.\<close>

definition named_affirmative :: "text_port \<Rightarrow> string \<Rightarrow> string \<Rightarrow> bool" where
  "named_affirmative T lower name =
     (starts_with lower (tx_lower T name) \<and>
      affirmative (concat (dropWhile (\<lambda>c. c \<in> {'' '', '':'', utf8 [0xFF1A]})
        (chars (drop (length (tx_lower T name)) lower)))))"

definition acceptance_text ::
  "text_port \<Rightarrow> snapshot \<Rightarrow> human_ingress \<Rightarrow> string \<Rightarrow> ticket_reference \<Rightarrow> string \<Rightarrow> unit result"
where
  "acceptance_text T s human quote target sid =
     and_then (ok_or (map_get (sn_tickets s) (reference_id target)) RevisionConflict) (\<lambda>work.
       let lower = tx_lower T (trim quote)
       in if \<not> co_user_acceptance_required (tk_contract work) then Inr ()
          else if \<not> (names_work T s quote work \<or> exact_name T quote sid)
             \<or> \<not> has_part clause_end quote (hi_text human)
             \<or> \<not> (affirmative lower
                  \<or> list_ex (named_affirmative T lower) [tk_id work, co_title (tk_contract work), sid])
             \<or> refused_human_text T lower \<or> conditional_text T lower
             \<or> \<not> unconditional_human_context T human quote
          then fail (clarify ''user-required acceptance needs an explicit complete current Human clause identifying the Work/submission'')
          else Inr ())"

end
