(* ===== verification/Resolution.thy ===== *)
theory Resolution
  imports Human_Text Ticket_Service
begin

text \<open>
  \<open>resolution.rs\<close> and \<open>resolution/validation.rs\<close>: a message of a Human is registered, pinned to
  the snapshot it is read against, given a proposal of groups of operations, and settled
  group by group.  A group is checked against the words of the Human; then all its operations
  commit together, or its refusal is recorded.
\<close>

section \<open>Errors and subjects\<close>

text \<open>The text of an error (\<open>Display\<close>), and what it makes of a group.\<close>

fun error_text :: "error \<Rightarrow> string" where
  "error_text (ScopeDenied m) = ''scope_denied: '' @ m"
| "error_text RevisionConflict = ''revision_conflict''"
| "error_text IdempotencyConflict = ''idempotency_conflict''"
| "error_text (InvalidTransition m) = ''invalid_transition: '' @ m"
| "error_text DependencyCycle = ''dependency_cycle''"
| "error_text (ResourceBlocked m) = ''resource_blocked: '' @ m"
| "error_text (AuthorityUnavailable m) = ''authority_unavailable: '' @ m"
| "error_text ResyncRequired = ''resync_required''"
| "error_text ContextBudgetExceeded = ''context_budget_exceeded''"
| "error_text (Io m) = m"
| "error_text (Json m) = m"

fun group_status :: "error \<Rightarrow> resolution_status" where
  "group_status RevisionConflict = Rs_Stale"
| "group_status (InvalidTransition reason) =
     (if starts_with reason ''needs_clarification:'' then Rs_NeedsClarification else Rs_Rejected)"
| "group_status _ = Rs_Rejected"

definition need_human :: "authority \<Rightarrow> snapshot \<Rightarrow> human_ingress \<Rightarrow> unit result" where
  "need_human au s human =
     and_then (validate_authority au s) (\<lambda>_.
     and_then (need_user au) (\<lambda>_.
       case au_principal au of
         User user \<Rightarrow>
           if user = hi_user_id human then Inr () else fail (ScopeDenied ''Human ingress subject differs'')
       | _ \<Rightarrow> fail (ScopeDenied ''Human ingress subject differs'')))"

section \<open>References\<close>

definition check_reference :: "snapshot \<Rightarrow> ticket_reference \<Rightarrow> unit result" where
  "check_reference s target =
     (case target of
        Temporary _ \<Rightarrow> Inr ()
      | Existing i record_revision contract_revision generation \<Rightarrow>
          (case map_get (sn_tickets s) i of
             None \<Rightarrow> fail RevisionConflict
           | Some t \<Rightarrow>
               if tk_record_revision t \<noteq> record_revision \<or> tk_contract_revision t \<noteq> contract_revision
                  \<or> tk_generation t \<noteq> generation
               then fail RevisionConflict else Inr ()))"

definition open_request :: "snapshot \<Rightarrow> request_reference \<Rightarrow> pending_request result" where
  "open_request s target =
     and_then (ok_or (map_get (sn_requests s) (re_request_id target)) RevisionConflict) (\<lambda>q.
       if rq_work_id q \<noteq> re_work_id target \<or> rq_assignment_id q \<noteq> re_assignment_id target
          \<or> rq_generation q \<noteq> re_generation target \<or> rq_contract_revision q \<noteq> re_contract_revision target
          \<or> rq_prompt_revision q \<noteq> re_prompt_revision target \<or> rq_status q \<noteq> R_Open
       then fail RevisionConflict
       else
         and_then (ok_or (map_get (sn_tickets s) (rq_work_id q)) RevisionConflict) (\<lambda>work.
           if tk_generation work \<noteq> rq_generation q \<or> tk_contract_revision work \<noteq> rq_contract_revision q
           then fail RevisionConflict else Inr q))"

fun operation_references :: "semantic_operation \<Rightarrow> ticket_reference list" where
  "operation_references (Sem_Create _ _ parent _ deps) =
     (case parent of None \<Rightarrow> [] | Some p \<Rightarrow> [p]) @ deps"
| "operation_references (Sem_SetDependencies target deps) = target # deps"
| "operation_references (Sem_Ready target) = [target]"
| "operation_references (Sem_Steer target _) = [target]"
| "operation_references (Sem_Start target _ _) = [target]"
| "operation_references (Sem_Pause target _) = [target]"
| "operation_references (Sem_Cancel target) = [target]"
| "operation_references (Sem_Retry target) = [target]"
| "operation_references (Sem_Accept target _ _) = [target]"
| "operation_references (Sem_Reject target _ _) = [target]"
| "operation_references (Sem_Archive target _) = [target]"
| "operation_references (Sem_Answer _ _) = []"
| "operation_references (Sem_DecideApproval _ _ _) = []"

text \<open>\<open>operation\<close>: the command a semantic operation stands for.\<close>

definition reference_ids :: "ticket_reference list \<Rightarrow> string btree_set" where
  "reference_ids rs = set_of (map reference_id rs)"

fun typed_operation :: "semantic_operation \<Rightarrow> operation" where
  "typed_operation (Sem_Create temp kind parent c deps) =
     Op_Create temp kind (map_option reference_id parent) c (reference_ids deps)"
| "typed_operation (Sem_Ready target) = Op_Ready (reference_id target)"
| "typed_operation (Sem_Steer target c) = Op_UpdateContract (reference_id target) c"
| "typed_operation (Sem_SetDependencies target deps) =
     Op_SetDependencies (reference_id target) (reference_ids deps)"
| "typed_operation (Sem_Start target temp ws) = Op_Start (reference_id target) temp ws"
| "typed_operation (Sem_Pause target reason) = Op_Pause (reference_id target) reason"
| "typed_operation (Sem_Cancel target) = Op_Cancel (reference_id target)"
| "typed_operation (Sem_Retry target) = Op_Reopen (reference_id target)"
| "typed_operation (Sem_Answer target answer) =
     Op_Answer (re_request_id target) (re_prompt_revision target) answer"
| "typed_operation (Sem_DecideApproval target fp approve) =
     Op_DecideApproval (re_request_id target) (re_prompt_revision target) fp approve"
| "typed_operation (Sem_Accept target sid evidence) = Op_Accept (reference_id target) sid evidence"
| "typed_operation (Sem_Reject target sid reason) = Op_Reject (reference_id target) sid reason"
| "typed_operation (Sem_Archive target archived) = Op_Archive (reference_id target) archived"

section \<open>Checking a group against the words of the Human\<close>

definition quote_delimiter :: "string \<Rightarrow> bool" where
  "quote_delimiter c = (c \<in> {utf8 [0x3002], utf8 [0xFF1B], '';'', utf8 [0xFF0C], '',''})"

definition quoted_clause :: "string \<Rightarrow> string" where
  "quoted_clause source =
     (let cs = chars (trim source)
      in trim_end (concat (if cs \<noteq> [] \<and> quote_delimiter (last cs) then butlast cs else cs)))"

definition check_target :: "snapshot \<Rightarrow> string btree_set \<Rightarrow> ticket_reference \<Rightarrow> unit result" where
  "check_target s temporary target =
     and_then (check_reference s target) (\<lambda>_.
       case target of
         Temporary i \<Rightarrow>
           if i \<in> set temporary then Inr ()
           else fail (clarify ''temporary references must belong to this atomic group'')
       | Existing _ _ _ _ \<Rightarrow> Inr ())"

definition user_accepted :: "contract \<Rightarrow> unit result" where
  "user_accepted c =
     (if \<not> co_user_acceptance_required c
      then fail (ScopeDenied ''model contracts must require explicit User acceptance'') else Inr ())"

definition check_answer ::
  "snapshot \<Rightarrow> human_ingress \<Rightarrow> string \<Rightarrow> request_reference \<Rightarrow> string \<Rightarrow> unit result"
where
  "check_answer s human clause target answer =
     and_then (open_request s target) (\<lambda>q.
       if rq_kind q \<noteq> Question
       then fail (ScopeDenied ''a question answer cannot approve an action'')
       else answer_text s human clause q answer)"

definition check_decision ::
  "text_port \<Rightarrow> snapshot \<Rightarrow> human_ingress \<Rightarrow> string \<Rightarrow> request_reference \<Rightarrow> string \<Rightarrow> bool \<Rightarrow> unit result"
where
  "check_decision T s human clause target fp approve =
     and_then (open_request s target) (\<lambda>q.
       case rq_kind q of
         Question \<Rightarrow> fail RevisionConflict
       | Approval _ current \<Rightarrow>
           if current \<noteq> fp then fail RevisionConflict
           else approval_text T s human clause q approve)"

text \<open>One operation; the answer is the set of temporary ids of the group so far.\<close>

definition check_semantic ::
  "text_port \<Rightarrow> snapshot \<Rightarrow> human_ingress \<Rightarrow> string \<Rightarrow> string btree_set \<Rightarrow> semantic_operation
   \<Rightarrow> string btree_set result"
where
  "check_semantic T s human source temporary op =
     and_then (try_each (check_target s temporary) (operation_references op)) (\<lambda>_.
       case op of
         Sem_Create temp kind _ c _ \<Rightarrow>
           and_then (user_accepted c) (\<lambda>_.
             if kind = K_Step \<or> temp = [] \<or> temp \<in> set temporary
             then invalid ''duplicate temporary ID or private Step creation''
             else Inr (set_add temp temporary))
       | Sem_Steer _ c \<Rightarrow> and_then (user_accepted c) (\<lambda>_. Inr temporary)
       | Sem_Answer target answer \<Rightarrow>
           and_then (check_answer s human (quoted_clause source) target answer) (\<lambda>_. Inr temporary)
       | Sem_DecideApproval target fp approve \<Rightarrow>
           and_then (check_decision T s human (quoted_clause source) target fp approve) (\<lambda>_. Inr temporary)
       | Sem_Accept target sid _ \<Rightarrow>
           and_then (acceptance_text T s human source target sid) (\<lambda>_. Inr temporary)
       | _ \<Rightarrow> Inr temporary)"

definition validate_group :: "text_port \<Rightarrow> snapshot \<Rightarrow> human_ingress \<Rightarrow> semantic_group \<Rightarrow> unit result" where
  "validate_group T s human g =
     (case sg_clarification g of
        Some reason \<Rightarrow> fail (clarify reason)
      | None \<Rightarrow>
          if sg_operations g = [] \<or> blank (sg_source_quote g) \<or> \<not> contains (hi_text human) (sg_source_quote g)
          then fail (clarify ''operations require exact current Human text'')
          else and_then (try_fold (check_semantic T s human (sg_source_quote g)) [] (sg_operations g)) (\<lambda>_. Inr ()))"

section \<open>Registering a message\<close>

text \<open>\<open>VerifiedUserIngress::from_verified_host\<close>.\<close>

record verified_ingress =
  vi_message_id :: string
  vi_record :: human_ingress

definition bad_thread_id :: "string option \<Rightarrow> bool" where
  "bad_thread_id i = (case i of None \<Rightarrow> False | Some x \<Rightarrow> x = [] \<or> length x > 128)"

definition from_verified_host :: "string \<Rightarrow> human_ingress \<Rightarrow> verified_ingress result" where
  "from_verified_host mid human =
     (if mid = [] \<or> length mid > 128 \<or> hi_user_id human = [] \<or> hi_source_ingress_seq human = 0
         \<or> hi_text human = [] \<or> length (hi_text human) > 32768
         \<or> list_ex bad_thread_id [hi_thread_id human, hi_in_reply_to human, hi_correlation_id human]
      then invalid ''invalid canonical Human ingress bounds''
      else Inr \<lparr>vi_message_id = mid, vi_record = human\<rparr>)"

definition last_source_seq :: "snapshot \<Rightarrow> u64" where
  "last_source_seq s =
     fold max (map hi_source_ingress_seq (List.map_filter mr_ingress (vals (sn_resolutions s)))) 0"

definition no_provenance :: error where
  "no_provenance = ScopeDenied ''canonical Human provenance missing''"

text \<open>Every call below writes one record of a message and validates the whole snapshot.\<close>

definition save_resolution ::
  "env \<Rightarrow> string \<Rightarrow> message_resolution \<Rightarrow> snapshot \<Rightarrow> message_resolution decision result"
where
  "save_resolution E mid r t =
     (let r = r\<lparr>mr_updated_seq := Some (sn_seq t)\<rparr>;
          t = t\<lparr>sn_resolutions := map_put mid r (sn_resolutions t)\<rparr>
      in and_then (validate_snapshot E t) (\<lambda>_. Inr (Commit t r)))"

definition new_message :: "snapshot \<Rightarrow> verified_ingress \<Rightarrow> string \<Rightarrow> message_resolution" where
  "new_message s vi h = \<lparr>
     mr_message_id = vi_message_id vi, mr_ingress_seq = next_ingress_seq s, mr_message_hash = h,
     mr_groups = [], mr_ingress = Some (vi_record vi), mr_basis = None, mr_proposal = None,
     mr_proposal_hash = None, mr_updated_seq = None\<rparr>"

definition decide_register ::
  "env \<Rightarrow> authority \<Rightarrow> verified_ingress \<Rightarrow> store \<Rightarrow> message_resolution decision result"
where
  "decide_register E au vi st =
     and_then (published st) (\<lambda>(commit, s).
     and_then (need_human au s (vi_record vi)) (\<lambda>_.
     and_then (digest E (Pl_Ingress (vi_record vi))) (\<lambda>h.
       case map_get (sn_resolutions s) (vi_message_id vi) of
         Some saved \<Rightarrow>
           and_then (ok_or (mr_ingress saved)
             (ScopeDenied ''legacy resolution cannot assert Human provenance'')) (\<lambda>human.
           and_then (need_human au s human) (\<lambda>_.
             if mr_message_hash saved = h then Inr (Reply saved) else fail IdempotencyConflict))
       | None \<Rightarrow>
           if last_source_seq s \<ge> hi_source_ingress_seq (vi_record vi)
           then invalid ''canonical ingress is out of durable sequence''
           else save_resolution E (vi_message_id vi) (new_message s vi h) (s\<lparr>sn_seq := sn_seq s + 1\<rparr>))))"

definition register_user_ingress ::
  "env \<Rightarrow> disk \<Rightarrow> authority \<Rightarrow> verified_ingress \<Rightarrow> store \<Rightarrow> store \<times> message_resolution result"
where
  "register_user_ingress E disk au vi st = run (publish disk) (decide_register E au vi) st"

section \<open>Pinning and reading\<close>

definition human_of :: "message_resolution \<Rightarrow> human_ingress result" where
  "human_of r = ok_or (mr_ingress r) no_provenance"

definition decide_pin :: "env \<Rightarrow> authority \<Rightarrow> string \<Rightarrow> store \<Rightarrow> message_resolution decision result" where
  "decide_pin E au mid st =
     and_then (published st) (\<lambda>(commit, s).
     and_then (ok_or (map_get (sn_resolutions s) mid) (InvalidTransition ''message missing'')) (\<lambda>saved.
     and_then (human_of saved) (\<lambda>human.
     and_then (need_human au s human) (\<lambda>_.
       if mr_basis saved \<noteq> None then Inr (Reply saved)
       else save_resolution E mid
              (saved\<lparr>mr_basis := Some \<lparr>rb_commit = commit, rb_seq = sn_seq s,
                 rb_graph_revision = sn_graph_revision s, rb_authority_epoch = sn_authority_epoch s\<rparr>\<rparr>)
              (s\<lparr>sn_seq := sn_seq s + 1\<rparr>)))))"

definition pin_message_basis ::
  "env \<Rightarrow> disk \<Rightarrow> authority \<Rightarrow> string \<Rightarrow> store \<Rightarrow> store \<times> message_resolution result"
where
  "pin_message_basis E disk au mid st = run (publish disk) (decide_pin E au mid) st"

definition read_message_resolution :: "authority \<Rightarrow> string \<Rightarrow> store \<Rightarrow> message_resolution result" where
  "read_message_resolution au mid st =
     and_then (ok_or (st_published st) (AuthorityUnavailable ''no verified published snapshot'')) (\<lambda>p.
     and_then (ok_or (map_get (sn_resolutions (snd p)) mid)
       (InvalidTransition ''message resolution missing'')) (\<lambda>r.
     and_then (human_of r) (\<lambda>human.
     and_then (need_human au (snd p) human) (\<lambda>_. Inr r))))"

section \<open>The input of a proposal\<close>

text \<open>The pages of candidates: whole contracts with all their open requests, within a budget.\<close>

definition reference_of :: "ticket \<Rightarrow> ticket_reference" where
  "reference_of t = Existing (tk_id t) (tk_record_revision t) (tk_contract_revision t) (tk_generation t)"

definition candidate_of :: "snapshot \<Rightarrow> ticket \<Rightarrow> resolution_candidate" where
  "candidate_of s t = \<lparr>
     rk_target = reference_of t, rk_kind = tk_kind t, rk_state = tk_state t, rk_contract = tk_contract t,
     rk_requests = filter (\<lambda>q. rq_work_id q = tk_id t \<and> rq_status q = R_Open) (vals (sn_requests s)),
     rk_current_submission = tk_current_submission t\<rparr>"

definition with_candidates :: "nat \<Rightarrow> resolution_candidate list \<Rightarrow> bool \<Rightarrow> resolution_input \<Rightarrow> resolution_input" where
  "with_candidates works_count cs truncated input =
     input\<lparr>ri_candidates := cs, ri_omitted_count := works_count - length cs, ri_truncated := truncated,
           ri_coverage := (if truncated then ''partial'' else ''complete'')\<rparr>"

fun fill_candidates ::
  "env \<Rightarrow> snapshot \<Rightarrow> nat \<Rightarrow> nat \<Rightarrow> resolution_input \<Rightarrow> ticket list \<Rightarrow> resolution_input result"
where
  "fill_candidates E s budget works_count input [] = Inr input"
| "fill_candidates E s budget works_count input (t # ts) =
     (let cs = ri_candidates input @ [candidate_of s t];
          more = with_candidates works_count cs (works_count \<noteq> length cs) input
      in and_then (canonical_bytes E (Pl_ResolutionInput more)) (\<lambda>b.
           if length b \<le> budget then fill_candidates E s budget works_count more ts
           else if ri_candidates input = [] then fail ContextBudgetExceeded
           else Inr (with_candidates works_count (ri_candidates input) True input)))"

definition candidates_of :: "snapshot \<Rightarrow> ticket list" where
  "candidates_of s = filter (\<lambda>t. tk_kind t \<noteq> K_Step \<and> \<not> tk_archived t) (vals (sn_tickets s))"

definition input_of ::
  "env \<Rightarrow> (string \<Rightarrow> snapshot result) \<Rightarrow> message_resolution \<Rightarrow> nat \<Rightarrow> nat \<Rightarrow> resolution_input result"
where
  "input_of E load saved limit budget =
     and_then (expect (mr_ingress saved) ''validated Human record'') (\<lambda>human.
     and_then (expect (mr_basis saved) ''validated fixed basis'') (\<lambda>basis.
     and_then (load (rb_commit basis)) (\<lambda>s.
       let works = candidates_of s;
           input = with_candidates (length works) [] (works \<noteq> [])
             \<lparr>ri_message_id = mr_message_id saved, ri_ingress_seq = mr_ingress_seq saved,
              ri_human = human, ri_basis = basis, ri_candidates = [], ri_truncated = False,
              ri_omitted_count = 0, ri_coverage = []\<rparr>
       in and_then (canonical_bytes E (Pl_ResolutionInput input)) (\<lambda>b.
            if length b > budget then fail ContextBudgetExceeded
            else fill_candidates E s budget (length works) input (take limit works)))))"

definition make_resolution_input ::
  "env \<Rightarrow> disk \<Rightarrow> (string \<Rightarrow> snapshot result) \<Rightarrow> authority \<Rightarrow> string \<Rightarrow> nat \<Rightarrow> nat \<Rightarrow> store
   \<Rightarrow> store \<times> resolution_input result"
where
  "make_resolution_input E disk load au mid limit budget st =
     (if limit < 1 \<or> 100 < limit \<or> budget < 128 \<or> 65536 < budget then (st, fail ContextBudgetExceeded)
      else case pin_message_basis E disk au mid st of
        (st', Inl e) \<Rightarrow> (st', Inl e)
      | (st', Inr saved) \<Rightarrow> (st', input_of E load saved limit budget))"

section \<open>Freezing a proposal\<close>

text \<open>
  The first verdict on every group, against the fixed snapshot of the message.  A panic inside
  the check would not be a verdict.
\<close>

definition proposed_group ::
  "env \<Rightarrow> text_port \<Rightarrow> snapshot \<Rightarrow> human_ingress \<Rightarrow> string \<Rightarrow> semantic_group \<Rightarrow> resolution_group result"
where
  "proposed_group E T fixed human mid g =
     (let new = \<lambda>status reason. Inr \<lparr>rg_operation_id = group_operation_id E mid (sg_group_id g),
            rg_status = status, rg_reason = reason, rg_item_ids = sg_item_ids g, rg_receipt = None\<rparr>
      in case validate_group T fixed human g of
           Inr _ \<Rightarrow> new Rs_Proposed None
         | Inl (Fail e) \<Rightarrow> new (group_status e) (Some (error_text e))
         | Inl other \<Rightarrow> Inl other)"

definition decide_freeze ::
  "env \<Rightarrow> text_port \<Rightarrow> (string \<Rightarrow> snapshot result) \<Rightarrow> authority \<Rightarrow> string \<Rightarrow> message_proposal \<Rightarrow> store
   \<Rightarrow> message_resolution decision result"
where
  "decide_freeze E T load au mid proposal st =
     and_then (published st) (\<lambda>(commit, s).
     and_then (ok_or (map_get (sn_resolutions s) mid)
       (InvalidTransition ''register canonical Human input first'')) (\<lambda>saved.
     and_then (human_of saved) (\<lambda>human.
     and_then (need_human au s human) (\<lambda>_.
     and_then (digest E (Pl_Proposal proposal)) (\<lambda>h.
       case mr_proposal_hash saved of
         Some old \<Rightarrow> if old = h then Inr (Reply saved) else fail IdempotencyConflict
       | None \<Rightarrow>
           and_then (expect (mr_basis saved) ''validated fixed basis'') (\<lambda>basis.
           and_then (load (rb_commit basis)) (\<lambda>fixed.
           and_then (try_map (proposed_group E T fixed human mid) (mp_groups proposal)) (\<lambda>groups.
             save_resolution E mid
               (saved\<lparr>mr_groups := groups, mr_proposal := Some proposal, mr_proposal_hash := Some h\<rparr>)
               (s\<lparr>sn_seq := sn_seq s + 1\<rparr>)))))))))"

definition freeze_proposal ::
  "env \<Rightarrow> text_port \<Rightarrow> disk \<Rightarrow> (string \<Rightarrow> snapshot result) \<Rightarrow> authority \<Rightarrow> string \<Rightarrow> message_proposal
   \<Rightarrow> store \<Rightarrow> store \<times> message_resolution result"
where
  "freeze_proposal E T disk load au mid proposal st =
     run (publish disk) (decide_freeze E T load au mid proposal) st"

text \<open>The two locked parts of the call; \<open>meanwhile\<close> is what other calls do between them.\<close>

definition save_message_proposal ::
  "env \<Rightarrow> text_port \<Rightarrow> disk \<Rightarrow> disk \<Rightarrow> (store \<Rightarrow> store) \<Rightarrow> (string \<Rightarrow> snapshot result) \<Rightarrow> authority
   \<Rightarrow> string \<Rightarrow> message_proposal \<Rightarrow> store \<Rightarrow> store \<times> message_resolution result"
where
  "save_message_proposal E T disk1 disk2 meanwhile load au mid proposal st =
     (case validate_shape E proposal of
        Inl e \<Rightarrow> (st, Inl e)
      | Inr _ \<Rightarrow>
          (case pin_message_basis E disk1 au mid st of
             (st1, Inl e) \<Rightarrow> (st1, Inl e)
           | (st1, Inr _) \<Rightarrow> freeze_proposal E T disk2 load au mid proposal (meanwhile st1)))"

section \<open>Settling a group\<close>

fun index_of :: "('a \<Rightarrow> bool) \<Rightarrow> 'a list \<Rightarrow> nat option" where
  "index_of p [] = None"
| "index_of p (x # xs) = (if p x then Some 0 else map_option Suc (index_of p xs))"

definition nth_opt :: "'a list \<Rightarrow> nat \<Rightarrow> 'a option" where
  "nth_opt xs i = (if i < length xs then Some (xs ! i) else None)"

text \<open>A Human message that came before this one and is not completely settled.\<close>

definition unsettled_before :: "message_resolution \<Rightarrow> message_resolution \<Rightarrow> bool" where
  "unsettled_before saved r =
     (mr_ingress_seq r < mr_ingress_seq saved \<and> mr_ingress r \<noteq> None
      \<and> (mr_proposal r = None \<or> list_ex (\<lambda>g. rg_status g = Rs_Proposed) (mr_groups r)))"

definition group_command :: "snapshot \<Rightarrow> resolution_group \<Rightarrow> semantic_group \<Rightarrow> command" where
  "group_command s g proposed = \<lparr>
     cd_operation_id = rg_operation_id g, cd_binding = sn_binding s, cd_expected_seq = sn_seq s,
     cd_expected_epoch = sn_authority_epoch s,
     cd_operations = map typed_operation (sg_operations proposed), cd_source = None\<rparr>"

text \<open>All operations of the group on the current snapshot, with every check on the result.\<close>

definition attempt_group ::
  "env \<Rightarrow> text_port \<Rightarrow> string \<Rightarrow> authority \<Rightarrow> snapshot \<Rightarrow> message_resolution \<Rightarrow> human_ingress
   \<Rightarrow> semantic_group \<Rightarrow> command \<Rightarrow> (snapshot \<times> (string, string) btree_map) result"
where
  "attempt_group E T root au s saved human proposed cmd =
     (if has_key (sn_receipts s) (cd_operation_id cmd) then fail IdempotencyConflict
      else
        and_then (expect (mr_basis saved) ''validated basis'') (\<lambda>basis.
          if rb_authority_epoch basis \<noteq> sn_authority_epoch s then fail RevisionConflict
          else
            and_then (validate_group T s human proposed) (\<lambda>_.
            and_then (apply_operations E root au (cd_operations cmd) (s\<lparr>sn_seq := sn_seq s + 1\<rparr>)) (\<lambda>(t, ids).
            and_then (validate_snapshot E t) (\<lambda>_.
            and_then (validate_new_assignment_contexts E s t) (\<lambda>_.
            and_then (validate_answer_contexts E s t) (\<lambda>_. Inr (t, ids))))))))"

definition with_group ::
  "nat \<Rightarrow> (resolution_group \<Rightarrow> resolution_group) \<Rightarrow> message_resolution \<Rightarrow> message_resolution"
where
  "with_group i f r = r\<lparr>mr_groups := (mr_groups r)[i := f (mr_groups r ! i)]\<rparr>"

definition committed_group :: "operation_receipt \<Rightarrow> resolution_group \<Rightarrow> resolution_group" where
  "committed_group x g = g\<lparr>rg_status := Rs_Committed, rg_receipt := Some x\<rparr>"

definition refused_group :: "error \<Rightarrow> resolution_group \<Rightarrow> resolution_group" where
  "refused_group e g = g\<lparr>rg_status := group_status e, rg_reason := Some (error_text e)\<rparr>"

text \<open>The next snapshot and record: the group committed with its receipt, or refused.\<close>

definition settled_group ::
  "env \<Rightarrow> text_port \<Rightarrow> string \<Rightarrow> authority \<Rightarrow> snapshot \<Rightarrow> message_resolution \<Rightarrow> human_ingress \<Rightarrow> nat
   \<Rightarrow> resolution_group \<Rightarrow> semantic_group \<Rightarrow> (snapshot \<times> message_resolution) result"
where
  "settled_group E T root au s saved human i g proposed =
     (let cmd = group_command s g proposed
      in case attempt_group E T root au s saved human proposed cmd of
           Inr (t, ids) \<Rightarrow>
             and_then (canonical_bytes E (Pl_Command cmd)) (\<lambda>bytes.
               let x = receipt_of au (cd_operation_id cmd) (content_hash E bytes) bytes (sn_seq t) ids
               in Inr (put_receipt x t, with_group i (committed_group x) saved))
         | Inl (Fail e) \<Rightarrow>
             Inr (s\<lparr>sn_seq := sn_seq s + 1\<rparr>, with_group i (refused_group e) saved)
         | Inl other \<Rightarrow> Inl other)"

definition decide_settle_group ::
  "env \<Rightarrow> text_port \<Rightarrow> authority \<Rightarrow> string \<Rightarrow> string \<Rightarrow> store \<Rightarrow> message_resolution decision result"
where
  "decide_settle_group E T au mid gid st =
     and_then (published st) (\<lambda>(commit, s).
     and_then (ok_or (map_get (sn_resolutions s) mid) (InvalidTransition ''message missing'')) (\<lambda>saved.
     and_then (human_of saved) (\<lambda>human.
     and_then (need_human au s human) (\<lambda>_.
     and_then (ok_or (mr_proposal saved) (InvalidTransition ''persist proposal before effects'')) (\<lambda>proposal.
     and_then (ok_or (index_of (\<lambda>g. sg_group_id g = gid) (mp_groups proposal))
       (InvalidTransition ''group missing'')) (\<lambda>i.
     and_then (expect (nth_opt (mr_groups saved) i) ''index'') (\<lambda>g.
       if rg_status g \<noteq> Rs_Proposed then Inr (Reply saved)
       else if list_ex (unsettled_before saved) (vals (sn_resolutions s))
       then fail (ResourceBlocked ''earlier Human ingress is unresolved'')
       else
         and_then (settled_group E T (st_root st) au s saved human i g (mp_groups proposal ! i)) (\<lambda>(t, saved').
           save_resolution E mid saved' t))))))))"

definition settle_message_group ::
  "env \<Rightarrow> text_port \<Rightarrow> disk \<Rightarrow> authority \<Rightarrow> string \<Rightarrow> string \<Rightarrow> store \<Rightarrow> store \<times> message_resolution result"
where
  "settle_message_group E T disk au mid gid st =
     run (publish disk) (decide_settle_group E T au mid gid) st"

text \<open>All groups in order; other calls may run before each of them and before the last read.\<close>

fun settle_groups ::
  "env \<Rightarrow> text_port \<Rightarrow> disk \<Rightarrow> (store \<Rightarrow> store) \<Rightarrow> authority \<Rightarrow> string \<Rightarrow> semantic_group list \<Rightarrow> store
   \<Rightarrow> store \<times> unit result"
where
  "settle_groups E T disk meanwhile au mid [] st = (meanwhile st, Inr ())"
| "settle_groups E T disk meanwhile au mid (g # gs) st =
     (case settle_message_group E T disk au mid (sg_group_id g) (meanwhile st) of
        (st', Inl e) \<Rightarrow> (st', Inl e)
      | (st', Inr _) \<Rightarrow> settle_groups E T disk meanwhile au mid gs st')"

definition settle_message ::
  "env \<Rightarrow> text_port \<Rightarrow> disk \<Rightarrow> (store \<Rightarrow> store) \<Rightarrow> authority \<Rightarrow> string \<Rightarrow> store
   \<Rightarrow> store \<times> message_resolution result"
where
  "settle_message E T disk meanwhile au mid st =
     (case and_then (read_message_resolution au mid st) (\<lambda>saved.
         ok_or (mr_proposal saved) (InvalidTransition ''persist proposal before effects'')) of
        Inl e \<Rightarrow> (st, Inl e)
      | Inr proposal \<Rightarrow>
          (case settle_groups E T disk meanwhile au mid (mp_groups proposal) st of
             (st', Inl e) \<Rightarrow> (st', Inl e)
           | (st', Inr _) \<Rightarrow> (st', read_message_resolution au mid st')))"

end
