(* ===== verification/Reconcile.thy ===== *)
theory Reconcile
  imports Ticket_Service
begin

text \<open>
  \<open>file_reconciliation.rs\<close>: a User reviews the observed bytes of a file whose replacement may
  or may not have happened, and acknowledges them.  Reading the file is a parameter: the
  hash of its content under a write root of the workspace, nothing when it is absent, or an
  error.
\<close>

type_synonym observer = "execution_workspace \<Rightarrow> string \<Rightarrow> string option result"

record reconciliation_plan =
  fp_snapshot :: string
  fp_assignment_id :: string
  fp_effect_id :: string
  fp_file_path :: "string option"
  fp_intended_sha256 :: "string option"
  fp_observed_sha256 :: "string option"
  fp_process_stopped :: bool
  fp_reason :: string
  fp_request :: "file_reconcile_request option"

definition request_budget :: "string \<Rightarrow> string \<Rightarrow> unit result" where
  "request_budget op_id evidence =
     (if op_id = [] \<or> length op_id > 128 \<or> starts_with op_id ''worker-file/'' \<or> blank evidence
         \<or> length evidence > 4096
      then invalid ''invalid file reconciliation request'' else Inr ())"

definition offline_reason :: string where
  "offline_reason = ''offline inspection; no runtime permission''"

definition verified_offline :: "store \<Rightarrow> bool" where
  "verified_offline st =
     (st_offline_original_writable st \<and> st_health st = ReadOnly offline_reason)"

text \<open>\<open>write_intent\<close> returns a write only; anything else is the \<open>unreachable!()\<close> of the code.\<close>

definition intended_path :: "env \<Rightarrow> assignment \<Rightarrow> string \<Rightarrow> string result" where
  "intended_path E a i =
     and_then (write_intent E a i) (\<lambda>op.
       case op of FileWrite path _ _ \<Rightarrow> Inr path | _ \<Rightarrow> Inl (Panic ''unreachable''))"

definition unresolved_stop :: "assignment \<Rightarrow> bool" where
  "unresolved_stop a = (as_process_stopped a \<and> as_state a = A_OutcomeUnknown)"

section \<open>The preview\<close>

definition reconcile_request_of ::
  "string \<Rightarrow> snapshot \<Rightarrow> assignment \<Rightarrow> string \<Rightarrow> string \<Rightarrow> effect \<Rightarrow> string \<Rightarrow> string \<Rightarrow> string
   \<Rightarrow> file_reconcile_request"
where
  "reconcile_request_of commit s a aid eid e op_id intended evidence =
     \<lparr>fr_operation_id = op_id, fr_binding = sn_binding s, fr_expected_commit = commit,
      fr_expected_seq = sn_seq s, fr_expected_epoch = sn_authority_epoch s, fr_assignment_id = aid,
      fr_expected_assignment_revision = as_record_revision a, fr_effect_id = eid,
      fr_expected_request_hash = ef_action_fingerprint e, fr_intended_sha256 = intended,
      fr_evidence = evidence\<rparr>"

definition reconcile_verdict ::
  "store \<Rightarrow> assignment \<Rightarrow> effect \<Rightarrow> string option \<Rightarrow> string option \<Rightarrow> string option"
where
  "reconcile_verdict st a e observed intended =
     (if st_health st \<noteq> Writable \<and> \<not> verified_offline st
      then Some ''authority unavailable; reopen and verify before reconciliation''
      else if \<not> unresolved_stop a then Some ''a durable actual stopped Run is required''
      else if \<not> uncertain_effect e then Some ''file effect is already resolved''
      else if observed \<noteq> intended
      then Some ''file bytes do not match immutable intended content; keep quarantined''
      else None)"

definition file_reconciliation_plan ::
  "env \<Rightarrow> observer \<Rightarrow> authority \<Rightarrow> string \<Rightarrow> string \<Rightarrow> string \<Rightarrow> string \<Rightarrow> store
   \<Rightarrow> reconciliation_plan result"
where
  "file_reconciliation_plan E observe au aid eid op_id evidence st =
     and_then (published st) (\<lambda>(commit, s).
     and_then (validate_authority au s) (\<lambda>_.
     and_then (need_user au) (\<lambda>_.
     and_then (request_budget op_id evidence) (\<lambda>_.
     and_then (ok_or (map_get (sn_assignments s) aid) (InvalidTransition ''Assignment missing'')) (\<lambda>a.
     and_then (ok_or (map_get (as_effects a) eid) (InvalidTransition ''file effect missing'')) (\<lambda>e.
       let intended = map_option ar_sha256 (ef_artifact e);
           plan = \<lparr>fp_snapshot = commit, fp_assignment_id = aid, fp_effect_id = eid,
             fp_file_path = None, fp_intended_sha256 = intended, fp_observed_sha256 = None,
             fp_process_stopped = as_process_stopped a,
             fp_reason = ''legacy file effect lacks a frozen request; keep quarantined'', fp_request = None\<rparr>
       in if ef_file_intent e = None then Inr plan
          else
            and_then (intended_path E a eid) (\<lambda>path.
            and_then (ok_or (as_workspace a) (ScopeDenied ''file effect has no workspace'')) (\<lambda>ws.
            and_then (observe ws path) (\<lambda>observed.
              let plan = plan\<lparr>fp_observed_sha256 := observed, fp_file_path := Some path\<rparr>
              in case reconcile_verdict st a e observed intended of
                   Some reason \<Rightarrow> Inr (plan\<lparr>fp_reason := reason\<rparr>)
                 | None \<Rightarrow>
                     and_then (expect intended ''validated artifact'') (\<lambda>sha.
                     Inr (plan\<lparr>fp_reason := ''ready for explicit User acknowledgement of observed current content'',
                       fp_request := Some (reconcile_request_of commit s a aid eid e op_id sha evidence)\<rparr>)))))))))))"

section \<open>Acknowledging the observation\<close>

definition block_reconciled :: "ticket \<Rightarrow> ticket" where
  "block_reconciled w =
     (let w = w\<lparr>tk_active_assignment := None\<rparr>
      in if tk_state w = W_Cancelled then w
         else w\<lparr>tk_state := W_Blocked, tk_paused := True,
                tk_blocked := Some \<lparr>br_reason = ''file effects reconciled; explicit retry required'',
                                   br_resume_state = W_Ready\<rparr>\<rparr>)"

definition observed_effect :: "artifact \<Rightarrow> effect \<Rightarrow> effect" where
  "observed_effect ar e =
     e\<lparr>ef_state := E_Succeeded, ef_provider_receipt := Some (''local-file-observed:'' @ ar_sha256 ar)\<rparr>"

definition observed_attempt :: "string \<Rightarrow> effect \<Rightarrow> artifact \<Rightarrow> u64 \<Rightarrow> assignment \<Rightarrow> assignment" where
  "observed_attempt eid e ar q a =
     bump q (a\<lparr>as_effects := map_put eid (observed_effect ar e) (as_effects a)\<rparr>)"

text \<open>
  The attempt with the observed effect; when no effect of it is uncertain any more it is
  released, and a Work that still waits for it is blocked until somebody retries it.
\<close>

definition record_observation ::
  "string \<Rightarrow> assignment \<Rightarrow> string \<Rightarrow> effect \<Rightarrow> artifact \<Rightarrow> snapshot \<Rightarrow> (snapshot \<times> bool) result"
where
  "record_observation aid a eid e ar s =
     (let q = sn_seq s;
          a = observed_attempt eid e ar q a
      in if uncertain (as_effects a) then Inr (put_assignment aid a s, False)
         else
           and_then (expect (map_get (sn_tickets s) (as_work_id a)) ''Work'') (\<lambda>w.
             let a = a\<lparr>as_state := if tk_state w = W_Cancelled then A_Cancelled else A_Failed\<rparr>;
                 s = put_assignment aid a s
             in Inr (if tk_active_assignment w = Some (as_id a)
                     then put_ticket (as_work_id a) (touch q (block_reconciled w)) s else s,
                     True)))"

definition effect_receipt :: "string \<Rightarrow> effect \<Rightarrow> file_write_intent \<Rightarrow> artifact \<Rightarrow> u64 \<Rightarrow> operation_receipt" where
  "effect_receipt eid e intent ar q =
     \<lparr>or_operation_id = eid, or_principal = fi_principal intent,
      or_request_hash = ef_action_fingerprint e, or_canonical_request = fi_canonical_request intent,
      or_committed_seq = q,
      or_ids = map_put ''artifact'' (ar_uri ar) (map_put ''sha256'' (ar_sha256 ar) [])\<rparr>"

definition observation_ids :: "file_reconcile_request \<Rightarrow> artifact \<Rightarrow> bool \<Rightarrow> (string, string) btree_map" where
  "observation_ids req ar released =
     map_put ''assignment_id'' (fr_assignment_id req) (map_put ''effect_id'' (fr_effect_id req)
       (map_put ''sha256'' (ar_sha256 ar)
         (map_put ''resource_released'' (if released then ''true'' else ''false'') [])))"

text \<open>The checks against the current snapshot; the answer is the attempt, the effect and its artifact.\<close>

definition check_reconcile ::
  "env \<Rightarrow> observer \<Rightarrow> file_reconcile_request \<Rightarrow> string \<Rightarrow> snapshot \<Rightarrow> (assignment \<times> effect \<times> artifact) result"
where
  "check_reconcile E observe req commit s =
     (if fr_expected_commit req \<noteq> commit \<or> fr_expected_seq req \<noteq> sn_seq s
         \<or> fr_expected_epoch req \<noteq> sn_authority_epoch s
      then fail RevisionConflict
      else
        and_then (ok_or (map_get (sn_assignments s) (fr_assignment_id req))
          (InvalidTransition ''Assignment missing'')) (\<lambda>a.
        if fr_expected_assignment_revision req \<noteq> as_record_revision a then fail RevisionConflict
        else if \<not> unresolved_stop a then fail (ResourceBlocked ''actual stopped Run required'')
        else
          and_then (intended_path E a (fr_effect_id req)) (\<lambda>path.
          and_then (expect (map_get (as_effects a) (fr_effect_id req)) ''index'') (\<lambda>e.
          and_then (expect (ef_artifact e) ''validated artifact'') (\<lambda>ar.
          if \<not> uncertain_effect e \<or> ef_action_fingerprint e \<noteq> fr_expected_request_hash req
             \<or> ar_sha256 ar \<noteq> fr_intended_sha256 req
          then invalid ''file effect identity changed''
          else
            and_then (expect (as_workspace a) ''file workspace'') (\<lambda>ws.
            and_then (observe ws path) (\<lambda>observed.
            if observed \<noteq> Some (fr_intended_sha256 req) then fail RevisionConflict
            else if has_key (sn_receipts s) (fr_effect_id req)
            then invalid ''unresolved effect already has a receipt''
            else Inr (a, e, ar))))))))"

text \<open>The next snapshot, with the receipt of the Worker's write and that of the request.\<close>

definition perform_reconcile ::
  "env \<Rightarrow> observer \<Rightarrow> authority \<Rightarrow> file_reconcile_request \<Rightarrow> string \<Rightarrow> string \<Rightarrow> snapshot
   \<Rightarrow> (snapshot \<times> operation_receipt) result"
where
  "perform_reconcile E observe au req bytes commit s =
     and_then (check_reconcile E observe req commit s) (\<lambda>(a, e, ar).
     and_then (expect (ef_file_intent e) ''frozen intent'') (\<lambda>intent.
     and_then (record_observation (fr_assignment_id req) a (fr_effect_id req) e ar
         (s\<lparr>sn_seq := sn_seq s + 1\<rparr>)) (\<lambda>(t, released).
       let r = receipt_of au (fr_operation_id req) (content_hash E bytes) bytes (sn_seq t)
                 (observation_ids req ar released);
           t = put_receipt r (put_receipt (effect_receipt (fr_effect_id req) e intent ar (sn_seq t)) t)
       in and_then (validate_snapshot E t) (\<lambda>_. Inr (t, r)))))"

definition decide_reconcile ::
  "env \<Rightarrow> observer \<Rightarrow> authority \<Rightarrow> file_reconcile_request \<Rightarrow> store \<Rightarrow> operation_receipt decision result"
where
  "decide_reconcile E observe au req st =
     and_then (published st) (\<lambda>(commit, s).
     and_then (validate_authority au s) (\<lambda>_.
     and_then (need_user au) (\<lambda>_.
       if fr_binding req \<noteq> sn_binding s then fail (ScopeDenied ''reconciliation scope binding'')
       else
         and_then (request_budget (fr_operation_id req) (fr_evidence req)) (\<lambda>_.
         and_then (canonical_bytes E (Pl_FileReconcile req)) (\<lambda>bytes.
           if length bytes > 32768 then invalid ''file reconciliation request exceeds budget''
           else case map_get (sn_receipts s) (fr_operation_id req) of
             Some r \<Rightarrow> and_then (replay_receipt au (content_hash E bytes) r) (\<lambda>r. Inr (Reply r))
           | None \<Rightarrow>
               if st_health st \<noteq> Writable \<and> \<not> verified_offline st
               then fail (AuthorityUnavailable ''ReadOnly'')
               else and_then (perform_reconcile E observe au req bytes commit s) (\<lambda>(t, r). Inr (Commit t r)))))))"

text \<open>
  A store that is open for inspection only becomes writable for this one publication.
\<close>

definition publish_reviewed :: "disk \<Rightarrow> snapshot \<Rightarrow> store \<Rightarrow> store \<times> string result" where
  "publish_reviewed disk s st =
     (if verified_offline st
      then case publish disk s (st\<lparr>st_health := Writable\<rparr>) of
             (st', r) \<Rightarrow>
               (if st_health st' = Writable then st'\<lparr>st_health := ReadOnly offline_reason\<rparr>
                else st'\<lparr>st_offline_original_writable := False\<rparr>, r)
      else publish disk s st)"

definition reconcile_file_effect ::
  "env \<Rightarrow> disk \<Rightarrow> observer \<Rightarrow> authority \<Rightarrow> file_reconcile_request \<Rightarrow> store \<Rightarrow> store \<times> operation_receipt result"
where
  "reconcile_file_effect E disk observe au req st =
     run (publish_reviewed disk) (decide_reconcile E observe au req) st"

end
