(* ===== verification/Reviewed.thy ===== *)
theory Reviewed
  imports Resolution Reconcile Ownership Commands
begin

text \<open>
  The ports that validate the whole snapshot they publish: the acknowledgement of a file effect
  and the calls on Human messages.  Each keeps every receipt and the ownership of attempts,
  and a message only moves forward: its text and subject never change, its pinned snapshot and
  its proposal are written once, and a settled group stays as it is.
\<close>

definition group_le :: "resolution_group \<Rightarrow> resolution_group \<Rightarrow> bool" where
  "group_le g g' =
     (rg_operation_id g' = rg_operation_id g \<and> rg_item_ids g' = rg_item_ids g \<and>
      (rg_status g \<noteq> Rs_Proposed \<longrightarrow> g' = g))"

lemma group_le_refl [simp]: "group_le g g"
  by (simp add: group_le_def)

lemma group_le_trans: "group_le f g \<Longrightarrow> group_le g h \<Longrightarrow> group_le f h"
  by (auto simp: group_le_def)

definition message_le :: "message_resolution \<Rightarrow> message_resolution \<Rightarrow> bool" where
  "message_le r r' =
     (mr_message_id r' = mr_message_id r \<and> mr_ingress_seq r' = mr_ingress_seq r \<and>
      mr_message_hash r' = mr_message_hash r \<and> mr_ingress r' = mr_ingress r \<and>
      (mr_basis r \<noteq> None \<longrightarrow> mr_basis r' = mr_basis r) \<and>
      (mr_proposal_hash r \<noteq> None \<longrightarrow>
         mr_proposal_hash r' = mr_proposal_hash r \<and> mr_proposal r' = mr_proposal r \<and>
         list_all2 group_le (mr_groups r) (mr_groups r')))"

lemma message_le_refl [simp]: "message_le r r"
  by (simp add: message_le_def list_all2_refl)

lemma message_le_trans:
  assumes "message_le p q" "message_le q r"
  shows "message_le p r"
proof -
  have "list_all2 group_le (mr_groups p) (mr_groups r)" if "mr_proposal_hash p \<noteq> None"
    by (rule list_all2_trans [OF group_le_trans, where bs = "mr_groups q"])
      (use assms that in \<open>auto simp: message_le_def\<close>)
  with assms show ?thesis by (auto simp: message_le_def)
qed

definition messages_kept :: "snapshot \<Rightarrow> snapshot \<Rightarrow> bool" where
  "messages_kept s t =
     (\<forall>i r. human_message s i = Some r \<longrightarrow> (\<exists>r'. human_message t i = Some r' \<and> message_le r r'))"

lemma messages_kept_human: "human_message t = human_message s \<Longrightarrow> messages_kept s t"
  by (auto simp: messages_kept_def)

lemma messages_kept_cong: "sn_resolutions t = sn_resolutions s \<Longrightarrow> messages_kept s t"
  by (intro messages_kept_human human_message_cong)

lemma messages_kept_trans: "messages_kept s t \<Longrightarrow> messages_kept t u \<Longrightarrow> messages_kept s u"
  unfolding messages_kept_def by (meson message_le_trans)

text \<open>A port that validates its whole result and keeps receipts, ownership and messages.\<close>

definition reviewed :: "env \<Rightarrow> snapshot \<Rightarrow> snapshot \<Rightarrow> bool" where
  "reviewed E s t =
     (validate_snapshot E t = Inr () \<and> (runs_inv s \<longrightarrow> runs_inv t) \<and>
      (\<forall>i x. map_get (sn_receipts s) i = Some x \<longrightarrow> map_get (sn_receipts t) i = Some x) \<and>
      messages_kept s t)"

section \<open>Acknowledged file effects\<close>

text \<open>An acknowledged observation releases an attempt or leaves it to its owner.\<close>

lemma runs_inv_put:
  assumes inv: "runs_inv s" and a: "map_get (sn_assignments s) i = Some a"
    and same: "as_id a' = as_id a" "as_workspace a' = as_workspace a" "as_runtime a' = as_runtime a"
      "as_allowed_tools a' = as_allowed_tools a"
    and holds: "holds_resources a' \<Longrightarrow> holds_resources a" and settled: "settled a'"
  shows "runs_inv (put_assignment i a' s)"
proof -
  have clash: "clash a' b = clash a b" for b using same by (simp add: clash_def)
  have "exclusive (put_assignment i a' s)"
    using inv a holds clash clash_sym unfolding exclusive_def runs_inv_def by (auto split: if_splits)
  with inv a same settled show ?thesis
    by (auto simp: runs_inv_def attempts_keyed_def put_assignment_def)
qed

lemma runs_inv_cong: "sn_assignments t = sn_assignments s \<Longrightarrow> runs_inv t = runs_inv s"
  by (simp add: runs_inv_def attempts_keyed_def exclusive_def)

lemma record_observation_Inr:
  assumes "record_observation aid a eid e ar s = Inr (t, released)"
  obtains (kept) "\<not> released" "uncertain (as_effects (observed_attempt eid e ar (sn_seq s) a))"
      "t = put_assignment aid (observed_attempt eid e ar (sn_seq s) a) s"
  | (released) w st where "released" "\<not> uncertain (as_effects (observed_attempt eid e ar (sn_seq s) a))"
      "map_get (sn_tickets s) (as_work_id a) = Some w"
      "st = (if tk_state w = W_Cancelled then A_Cancelled else A_Failed)"
      "t = (let u = put_assignment aid ((observed_attempt eid e ar (sn_seq s) a)\<lparr>as_state := st\<rparr>) s
            in if tk_active_assignment w = Some (as_id a)
               then put_ticket (as_work_id a) (touch (sn_seq s) (block_reconciled w)) u else u)"
proof (cases "uncertain (as_effects (observed_attempt eid e ar (sn_seq s) a))")
  case True
  with assms kept show thesis by (simp add: record_observation_def Let_def)
next
  case False
  have same: "as_work_id (observed_attempt eid e ar (sn_seq s) a) = as_work_id a"
    "as_id (observed_attempt eid e ar (sn_seq s) a) = as_id a"
    by (simp_all add: observed_attempt_def bump_def)
  from assms False obtain w where w: "map_get (sn_tickets s) (as_work_id a) = Some w"
    by (auto simp: record_observation_def Let_def call_simps same)
  with assms False released [OF _ False w refl] show thesis
    by (simp add: record_observation_def Let_def same cong del: if_weak_cong)
qed

lemma observation_receipts:
  assumes "record_observation aid a eid e ar s = Inr (t, released)"
  shows "sn_receipts t = sn_receipts s" "sn_resolutions t = sn_resolutions s"
  using assms by (auto elim!: record_observation_Inr simp: put_assignment_def put_ticket_def Let_def)

lemma observation_runs:
  assumes "record_observation aid a eid e ar s = Inr (t, released)"
    and "map_get (sn_assignments s) aid = Some a" "unresolved_stop a" "uncertain (as_effects a)" "runs_inv s"
  shows "runs_inv t"
proof -
  let ?a = "observed_attempt eid e ar (sn_seq s) a"
  have a: "as_process_stopped a" "as_state a = A_OutcomeUnknown" "holds_resources a"
    using assms(3,4) by (simp_all add: unresolved_stop_def holds_resources_def)
  have same: "as_id ?a = as_id a" "as_workspace ?a = as_workspace a" "as_runtime ?a = as_runtime a"
    "as_allowed_tools ?a = as_allowed_tools a" "as_process_stopped ?a" "as_state ?a = A_OutcomeUnknown"
    using a by (simp_all add: observed_attempt_def bump_def)
  from assms(1) show ?thesis
  proof (cases rule: record_observation_Inr)
    case kept
    have "runs_inv (put_assignment aid ?a s)"
      by (rule runs_inv_put [OF assms(5,2)]) (use a same in \<open>simp_all add: settled_def\<close>)
    with kept show ?thesis by simp
  next
    case (released w st)
    have "runs_inv (put_assignment aid (?a\<lparr>as_state := st\<rparr>) s)"
      by (rule runs_inv_put [OF assms(5,2)]) (use a same released in \<open>simp_all add: settled_def\<close>)
    moreover have "sn_assignments t = sn_assignments (put_assignment aid (?a\<lparr>as_state := st\<rparr>) s)"
      using released by (simp add: Let_def put_ticket_def)
    ultimately show ?thesis using runs_inv_cong by blast
  qed
qed

lemma check_reconcile_Inr:
  assumes "check_reconcile E observe req commit s = Inr (a, e, ar)"
  shows "map_get (sn_assignments s) (fr_assignment_id req) = Some a" "unresolved_stop a"
    "map_get (as_effects a) (fr_effect_id req) = Some e" "uncertain_effect e" "ef_artifact e = Some ar"
    "map_get (sn_receipts s) (fr_effect_id req) = None" "fr_intended_sha256 req = ar_sha256 ar"
    "fr_expected_commit req = commit" "fr_expected_seq req = sn_seq s"
    "fr_expected_epoch req = sn_authority_epoch s" "ef_action_fingerprint e = fr_expected_request_hash req"
    "\<exists>ws path. as_workspace a = Some ws \<and> intended_path E a (fr_effect_id req) = Inr path \<and>
      observe ws path = Inr (Some (ar_sha256 ar))"
  using assms by (auto simp: check_reconcile_def call_simps has_key_iff if_Inr)

lemma perform_reconcile_Inr:
  assumes "perform_reconcile E observe au req bytes commit s = Inr (t, r)"
  obtains a e ar intent u released where "check_reconcile E observe req commit s = Inr (a, e, ar)"
    "ef_file_intent e = Some intent"
    "record_observation (fr_assignment_id req) a (fr_effect_id req) e ar (s\<lparr>sn_seq := sn_seq s + 1\<rparr>) = Inr (u, released)"
    "r = receipt_of au (fr_operation_id req) (content_hash E bytes) bytes (sn_seq u) (observation_ids req ar released)"
    "t = put_receipt r (put_receipt (effect_receipt (fr_effect_id req) e intent ar (sn_seq u)) u)"
    "validate_snapshot E t = Inr ()"
  using assms that by (auto simp: perform_reconcile_def Let_def call_simps)

lemma perform_reconcile_reviewed:
  assumes "perform_reconcile E observe au req bytes commit s = Inr (t, r)"
    and "map_get (sn_receipts s) (fr_operation_id req) = None"
  shows "reviewed E s t"
proof -
  let ?s = "s\<lparr>sn_seq := sn_seq s + 1\<rparr>"
  from assms(1) obtain a e ar intent u released where
    c: "check_reconcile E observe req commit s = Inr (a, e, ar)"
    and u: "record_observation (fr_assignment_id req) a (fr_effect_id req) e ar ?s = Inr (u, released)"
    and r: "or_operation_id r = fr_operation_id req"
    and t: "t = put_receipt r (put_receipt (effect_receipt (fr_effect_id req) e intent ar (sn_seq u)) u)"
    and v: "validate_snapshot E t = Inr ()"
    by (rule perform_reconcile_Inr) (simp add: receipt_of_def)
  note c = check_reconcile_Inr [OF c]
  have "uncertain (as_effects a)" using map_get_in_vals [OF c(3)] c(4) by (auto simp: uncertain_def list_ex_iff)
  moreover have "runs_inv ?s = runs_inv s" by (rule runs_inv_cong) simp
  ultimately have "runs_inv s \<longrightarrow> runs_inv u" using observation_runs [OF u _ c(2)] c(1) by simp
  moreover have "runs_inv t = runs_inv u" by (rule runs_inv_cong) (simp add: t put_receipt_def)
  moreover have "sn_receipts u = sn_receipts s" using observation_receipts [OF u] by simp
  ultimately show ?thesis
    using v c(6) assms(2) observation_receipts [OF u]
    by (auto simp: reviewed_def t r put_receipt_def effect_receipt_def intro!: messages_kept_cong)
qed

section \<open>Human messages\<close>

lemma save_resolution_Inr:
  "save_resolution E mid r t = Inr d \<longleftrightarrow>
     (\<exists>u x. d = Commit u x \<and> x = r\<lparr>mr_updated_seq := Some (sn_seq t)\<rparr> \<and>
        u = t\<lparr>sn_resolutions := map_put mid x (sn_resolutions t)\<rparr> \<and> validate_snapshot E u = Inr ())"
  by (auto simp: save_resolution_def Let_def call_simps)

text \<open>Saving a record that continues the old one, on a snapshot that keeps the rest.\<close>

lemma save_resolution_reviewed:
  assumes "save_resolution E mid r t = Inr (Commit u x)"
    and "runs_inv s \<Longrightarrow> runs_inv t" "\<And>i y. map_get (sn_receipts s) i = Some y \<Longrightarrow> map_get (sn_receipts t) i = Some y"
    and "human_message t = human_message s" "mr_ingress r \<noteq> None"
    and "\<And>r0. human_message s mid = Some r0 \<Longrightarrow> message_le r0 r"
  shows "reviewed E s u"
proof -
  from assms(1) have x: "x = r\<lparr>mr_updated_seq := Some (sn_seq t)\<rparr>"
    and u: "u = t\<lparr>sn_resolutions := map_put mid x (sn_resolutions t)\<rparr>" and v: "validate_snapshot E u = Inr ()"
    by (auto simp: save_resolution_Inr)
  have "runs_inv u = runs_inv t" by (rule runs_inv_cong) (simp add: u)
  moreover have "messages_kept s u"
    unfolding messages_kept_def
  proof (intro allI impI)
    fix i r0 assume r0: "human_message s i = Some r0"
    show "\<exists>r'. human_message u i = Some r' \<and> message_le r0 r'"
    proof (cases "i = mid")
      case True
      with assms(5) have "human_message u i = Some x" by (simp add: human_message_Some u x)
      moreover have "message_le r0 x" using assms(6) r0 True by (simp add: message_le_def x)
      ultimately show ?thesis by blast
    next
      case False
      then have "human_message u i = human_message t i" by (simp add: human_message_def u)
      with r0 assms(4) show ?thesis by auto
    qed
  qed
  ultimately show ?thesis using assms(2,3) v by (auto simp: reviewed_def u)
qed

lemma need_human_Inr:
  "need_human au s human = Inr u \<longleftrightarrow>
     validate_authority au s = Inr () \<and> au_principal au = User (hi_user_id human)"
  by (auto simp: need_human_def need_user_def call_simps if_Inr split: principal.splits)

lemma human_of_Inr [result_simps]: "human_of r = Inr human \<longleftrightarrow> mr_ingress r = Some human"
  by (simp add: human_of_def call_simps)

lemma next_seq_reviewed:
  assumes "save_resolution E mid r (s\<lparr>sn_seq := q\<rparr>) = Inr (Commit t x)" "mr_ingress r \<noteq> None"
    and "\<And>r0. human_message s mid = Some r0 \<Longrightarrow> message_le r0 r"
  shows "reviewed E s t"
proof (rule save_resolution_reviewed [OF assms(1)])
  show "runs_inv (s\<lparr>sn_seq := q\<rparr>)" if "runs_inv s" using that runs_inv_cong [of "s\<lparr>sn_seq := q\<rparr>" s] by simp
  show "human_message (s\<lparr>sn_seq := q\<rparr>) = human_message s" by (rule human_message_cong) simp
qed (use assms in simp_all)

lemma decide_register_reviewed:
  assumes "decide_register E au vi st = Inr (Commit t r)"
  shows "\<exists>h s. st_published st = Some (h, s) \<and> reviewed E s t"
proof -
  from assms obtain h s hash where p: "st_published st = Some (h, s)" "map_get (sn_resolutions s) (vi_message_id vi) = None"
    and s: "save_resolution E (vi_message_id vi) (new_message s vi hash) (s\<lparr>sn_seq := sn_seq s + 1\<rparr>) = Inr (Commit t r)"
    by (auto simp: decide_register_def published_def and_then_Inr ok_or_Inr split: option.splits if_splits)
  have "reviewed E s t"
    by (rule next_seq_reviewed [OF s]) (use p(2) in \<open>auto simp: new_message_def human_message_Some\<close>)
  with p show ?thesis by blast
qed

lemma decide_pin_reviewed:
  assumes "decide_pin E au mid st = Inr (Commit t r)"
  shows "\<exists>h s. st_published st = Some (h, s) \<and> reviewed E s t"
proof -
  from assms obtain h s saved human b where p: "st_published st = Some (h, s)" "map_get (sn_resolutions s) mid = Some saved"
    "mr_ingress saved = Some human" "mr_basis saved = None"
    and s: "save_resolution E mid (saved\<lparr>mr_basis := Some b\<rparr>) (s\<lparr>sn_seq := sn_seq s + 1\<rparr>) = Inr (Commit t r)"
    by (auto simp: decide_pin_def published_def and_then_Inr ok_or_Inr human_of_Inr split: if_splits)
  have "reviewed E s t"
    by (rule next_seq_reviewed [OF s]) (use p in \<open>auto simp: human_message_Some message_le_def list_all2_refl\<close>)
  with p show ?thesis by blast
qed

lemma decide_freeze_Commit:
  assumes "decide_freeze E T load au mid proposal st = Inr (Commit t r)"
  obtains h s saved human basis fixed groups hash where "st_published st = Some (h, s)"
    "map_get (sn_resolutions s) mid = Some saved" "mr_ingress saved = Some human"
    "need_human au s human = Inr ()" "digest E (Pl_Proposal proposal) = Inr hash" "mr_proposal_hash saved = None"
    "mr_basis saved = Some basis" "load (rb_commit basis) = Inr fixed"
    "try_map (proposed_group E T fixed human mid) (mp_groups proposal) = Inr groups"
    "save_resolution E mid
       (saved\<lparr>mr_groups := groups, mr_proposal := Some proposal, mr_proposal_hash := Some hash\<rparr>)
       (s\<lparr>sn_seq := sn_seq s + 1\<rparr>) = Inr (Commit t r)"
proof -
  from assms obtain h s where p: "st_published st = Some (h, s)"
    by (auto simp: decide_freeze_def published_def and_then_Inr ok_or_Inr)
  with assms obtain saved human hash where "map_get (sn_resolutions s) mid = Some saved" "mr_ingress saved = Some human"
    "need_human au s human = Inr ()" "digest E (Pl_Proposal proposal) = Inr hash"
    and rest: "(case mr_proposal_hash saved of
         Some old \<Rightarrow> if old = hash then Inr (Reply saved) else fail IdempotencyConflict
       | None \<Rightarrow>
           and_then (expect (mr_basis saved) ''validated fixed basis'') (\<lambda>basis.
           and_then (load (rb_commit basis)) (\<lambda>fixed.
           and_then (try_map (proposed_group E T fixed human mid) (mp_groups proposal)) (\<lambda>groups.
             save_resolution E mid
               (saved\<lparr>mr_groups := groups, mr_proposal := Some proposal, mr_proposal_hash := Some hash\<rparr>)
               (s\<lparr>sn_seq := sn_seq s + 1\<rparr>))))) = Inr (Commit t r)"
    by (auto simp: decide_freeze_def published_def and_then_Inr ok_or_Inr human_of_Inr)
  with p that show thesis
    by (cases "mr_proposal_hash saved") (auto simp: and_then_Inr expect_Inr split: if_splits)
qed

lemma decide_freeze_reviewed:
  assumes "decide_freeze E T load au mid proposal st = Inr (Commit t r)"
  shows "\<exists>h s. st_published st = Some (h, s) \<and> reviewed E s t"
  using assms
proof (rule decide_freeze_Commit)
  fix h s saved human basis fixed groups hash
  assume p: "st_published st = Some (h, s)" "map_get (sn_resolutions s) mid = Some saved"
    "mr_ingress saved = Some human" "mr_proposal_hash saved = None"
    and s: "save_resolution E mid
       (saved\<lparr>mr_groups := groups, mr_proposal := Some proposal, mr_proposal_hash := Some hash\<rparr>)
       (s\<lparr>sn_seq := sn_seq s + 1\<rparr>) = Inr (Commit t r)"
  have "reviewed E s t"
    by (rule next_seq_reviewed [OF s]) (use p in \<open>auto simp: human_message_Some message_le_def\<close>)
  with p(1) show ?thesis by blast
qed

text \<open>The parts of a settled group.\<close>

lemma index_of_Some: "index_of p xs = Some i \<Longrightarrow> i < length xs \<and> p (xs ! i)"
  by (induction xs arbitrary: i) (auto split: if_splits)

lemma decide_settle_group_Commit:
  assumes "decide_settle_group E T au mid gid st = Inr (Commit t r)"
  obtains h s saved human proposal i u saved' where "st_published st = Some (h, s)"
    "map_get (sn_resolutions s) mid = Some saved" "mr_ingress saved = Some human"
    "need_human au s human = Inr ()" "mr_proposal saved = Some proposal"
    "index_of (\<lambda>g. sg_group_id g = gid) (mp_groups proposal) = Some i"
    "i < length (mr_groups saved)" "rg_status (mr_groups saved ! i) = Rs_Proposed"
    "\<not> list_ex (unsettled_before saved) (vals (sn_resolutions s))"
    "settled_group E T (st_root st) au s saved human i (mr_groups saved ! i) (mp_groups proposal ! i) = Inr (u, saved')"
    "save_resolution E mid saved' u = Inr (Commit t r)"
proof -
  from assms obtain h s where p: "st_published st = Some (h, s)"
    by (auto simp: decide_settle_group_def published_def and_then_Inr ok_or_Inr)
  with assms obtain saved human proposal i g where
    "map_get (sn_resolutions s) mid = Some saved" "mr_ingress saved = Some human"
    "need_human au s human = Inr ()" "mr_proposal saved = Some proposal"
    "index_of (\<lambda>g. sg_group_id g = gid) (mp_groups proposal) = Some i"
    and g: "nth_opt (mr_groups saved) i = Some g"
    and rest: "(if rg_status g \<noteq> Rs_Proposed then Inr (Reply saved)
       else if list_ex (unsettled_before saved) (vals (sn_resolutions s))
       then fail (ResourceBlocked ''earlier Human ingress is unresolved'')
       else
         and_then (settled_group E T (st_root st) au s saved human i g (mp_groups proposal ! i)) (\<lambda>(t, saved').
           save_resolution E mid saved' t)) = Inr (Commit t r)"
    by (auto simp: decide_settle_group_def published_def and_then_Inr ok_or_Inr expect_Inr human_of_Inr)
  moreover from g have "i < length (mr_groups saved)" "g = mr_groups saved ! i"
    by (auto simp: nth_opt_def split: if_splits)
  ultimately show thesis
    using p that by (auto simp: and_then_Inr split: if_splits prod.splits)
qed

lemma with_group_frames [simp]:
  "mr_ingress (with_group i f r) = mr_ingress r" "mr_proposal (with_group i f r) = mr_proposal r"
  "mr_basis (with_group i f r) = mr_basis r" "mr_proposal_hash (with_group i f r) = mr_proposal_hash r"
  "mr_message_id (with_group i f r) = mr_message_id r" "mr_ingress_seq (with_group i f r) = mr_ingress_seq r"
  "mr_message_hash (with_group i f r) = mr_message_hash r"
  "mr_groups (with_group i f r) = (mr_groups r)[i := f (mr_groups r ! i)]"
  by (simp_all add: with_group_def)

lemma message_le_with_group:
  assumes "i < length (mr_groups r)" "rg_status (mr_groups r ! i) = Rs_Proposed"
    and "\<And>g. rg_operation_id (f g) = rg_operation_id g \<and> rg_item_ids (f g) = rg_item_ids g"
  shows "message_le r (with_group i f r)"
  using assms by (simp add: message_le_def group_le_def list_all2_conv_all_nth nth_list_update)

text \<open>Either all operations of the group were applied, or nothing but the sequence changes.\<close>

lemma attempt_group_Inr:
  "attempt_group E T root au s saved human proposed cmd = Inr (t, ids) \<longleftrightarrow>
     map_get (sn_receipts s) (cd_operation_id cmd) = None \<and>
     (\<exists>basis. mr_basis saved = Some basis \<and> rb_authority_epoch basis = sn_authority_epoch s) \<and>
     validate_group T s human proposed = Inr () \<and>
     apply_operations E root au (cd_operations cmd) (s\<lparr>sn_seq := sn_seq s + 1\<rparr>) = Inr (t, ids) \<and>
     validate_snapshot E t = Inr () \<and> validate_new_assignment_contexts E s t = Inr () \<and>
     validate_answer_contexts E s t = Inr ()"
  by (auto simp: attempt_group_def and_then_Inr expect_Inr has_key_def split: if_splits)

lemma settled_group_Inr:
  assumes "settled_group E T root au s saved human i g proposed = Inr (u, saved')"
  obtains (committed) t ids bytes x where
      "attempt_group E T root au s saved human proposed (group_command s g proposed) = Inr (t, ids)"
      "canonical_bytes E (Pl_Command (group_command s g proposed)) = Inr bytes"
      "x = receipt_of au (rg_operation_id g) (content_hash E bytes) bytes (sn_seq t) ids"
      "u = put_receipt x t" "saved' = with_group i (committed_group x) saved"
  | (refused) e where
      "attempt_group E T root au s saved human proposed (group_command s g proposed) = Inl (Fail e)"
      "u = s\<lparr>sn_seq := sn_seq s + 1\<rparr>" "saved' = with_group i (refused_group e) saved"
  using assms
  by (cases "attempt_group E T root au s saved human proposed (group_command s g proposed)")
    (auto simp: settled_group_def Let_def and_then_Inr group_command_def split: stop.splits)

lemma group_status_settled [simp]: "group_status e \<noteq> Rs_Proposed" "group_status e \<noteq> Rs_Committed"
  by (cases e rule: group_status.cases; simp)+

lemma decide_settle_group_reviewed:
  assumes "decide_settle_group E T au mid gid st = Inr (Commit t r)"
  shows "\<exists>h s. st_published st = Some (h, s) \<and> reviewed E s t"
  using assms
proof (rule decide_settle_group_Commit)
  fix h s saved human proposal i u saved'
  assume p: "st_published st = Some (h, s)" "map_get (sn_resolutions s) mid = Some saved"
    "mr_ingress saved = Some human" "i < length (mr_groups saved)" "rg_status (mr_groups saved ! i) = Rs_Proposed"
    and g: "settled_group E T (st_root st) au s saved human i (mr_groups saved ! i) (mp_groups proposal ! i) = Inr (u, saved')"
    and s: "save_resolution E mid saved' u = Inr (Commit t r)"
  let ?s = "s\<lparr>sn_seq := sn_seq s + 1\<rparr>"
  have le: "message_le r0 (with_group i f saved)"
    if "human_message s mid = Some r0" "\<And>g. rg_operation_id (f g) = rg_operation_id g \<and> rg_item_ids (f g) = rg_item_ids g" for f r0
    using message_le_with_group [OF p(4,5) that(2)] that(1) p(2) by (simp add: human_message_Some)
  have runs: "runs_inv ?s = runs_inv s" by (rule runs_inv_cong) simp
  from g have "reviewed E s t"
  proof (cases rule: settled_group_Inr)
    case (committed v ids bytes x)
    note a = committed(1) [unfolded attempt_group_Inr, THEN conjunct1]
      committed(1) [unfolded attempt_group_Inr, THEN conjunct2, THEN conjunct2, THEN conjunct2, THEN conjunct1]
    from apply_operations_header [OF a(2)] have v: "sn_receipts v = sn_receipts s" "human_message v = human_message ?s"
      by (auto simp: header_of_eq)
    show ?thesis
    proof (rule save_resolution_reviewed [OF s])
      show "runs_inv u" if "runs_inv s"
      proof -
        have "runs_inv v" using apply_operations_runs_inv [OF a(2)] runs that by simp
        moreover have "runs_inv u = runs_inv v" by (rule runs_inv_cong) (simp add: committed)
        ultimately show ?thesis by simp
      qed
      show "map_get (sn_receipts u) j = Some y" if "map_get (sn_receipts s) j = Some y" for j y
        using that a(1) v(1) by (auto simp: committed receipt_of_def group_command_def)
      show "human_message u = human_message s"
        using v(2) by (simp add: committed put_receipt_def human_message_def fun_eq_iff)
    qed (use le p(3) in \<open>auto simp: committed committed_group_def\<close>)
  next
    case (refused e)
    with next_seq_reviewed [of E mid saved' "sn_seq s + 1" s t r] s le p(3) show ?thesis
      by (auto simp: refused_group_def)
  qed
  with p(1) show ?thesis by blast
qed

end
