(* ===== verification/Reachable.thy ===== *)
theory Reachable
  imports Reviewed Ledger Propagation Ownership Commands Sprint_Facts
begin

text \<open>
  The store as a transition system: the steps are the calls of the ports (commands, Sprints,
  the ledger, file observations, Human messages), with any authority, any input, any
  environment and any behaviour of the disk, and the restart of the writer.  An invariant of the published snapshot is a predicate that the contract
  \<open>snapshot_invariant\<close> holds of; it is interpreted on exclusive ownership, on the graph
  checks, on the Sprint checks and on the ledger.
\<close>

section \<open>Steps\<close>

inductive port_step :: "store \<Rightarrow> store \<Rightarrow> bool" where
  step_execute: "execute E disk au cmd st = (st', r) \<Longrightarrow> port_step st st'"
| step_sprint: "execute_sprint E disk au sc st = (st', sr) \<Longrightarrow> port_step st st'"
| step_configure: "configure_budget E disk au epoch n limits st = (st', cr) \<Longrightarrow> port_step st st'"
| step_reserve: "reserve_tokens E disk au tr now_ms st = (st', rr) \<Longrightarrow> port_step st st'"
| step_settle: "settle_tokens E disk au i h rc usage st = (st', vr) \<Longrightarrow> port_step st st'"
| step_report: "report_tokens E disk au i h rc over st = (st', vr) \<Longrightarrow> port_step st st'"
| step_restart: "from_store E disk st = (st', ur) \<Longrightarrow> port_step st st'"
| step_reconcile: "reconcile_file_effect E disk observe au req st = (st', fr) \<Longrightarrow> port_step st st'"
| step_register: "register_user_ingress E disk au vi st = (st', mr) \<Longrightarrow> port_step st st'"
| step_pin: "pin_message_basis E disk au mid st = (st', mr) \<Longrightarrow> port_step st st'"
| step_freeze: "freeze_proposal E T disk load au mid proposal st = (st', mr) \<Longrightarrow> port_step st st'"
| step_settle_group: "settle_message_group E T disk au mid gid st = (st', mr) \<Longrightarrow> port_step st st'"

inductive reachable :: "store \<Rightarrow> bool" where
  fresh: "st_published st = Some (h, empty_snapshot b) \<Longrightarrow> reachable st"
| step: "reachable st \<Longrightarrow> port_step st st' \<Longrightarrow> reachable st'"

inductive_cases port_stepE: "port_step st st'"

text \<open>The snapshot a step may publish in place of the current one.\<close>

definition ledger_frame :: "snapshot \<Rightarrow> snapshot \<Rightarrow> bool" where
  "ledger_frame s t =
     (t\<lparr>sn_seq := 0, sn_schema := 0, sn_execution_budget := None\<rparr>
      = s\<lparr>sn_seq := 0, sn_schema := 0, sn_execution_budget := None\<rparr>)"

definition accounts :: "env \<Rightarrow> snapshot \<Rightarrow> snapshot \<Rightarrow> bool" where
  "accounts E s t = (validate_snapshot E t = Inr () \<and> ledger_frame s t)"

inductive next_snapshot :: "snapshot \<Rightarrow> snapshot \<Rightarrow> bool" where
  next_command: "perform E root au cmd bytes s = Inr (t, r) \<Longrightarrow>
     map_get (sn_receipts s) (cd_operation_id cmd) = None \<Longrightarrow> next_snapshot s t"
| next_sprint: "perform_sprint E au sc bytes commit s = Inr (t, sr) \<Longrightarrow>
     map_get (sn_receipts s) (sm_operation_id sc) = None \<Longrightarrow> next_snapshot s t"
| next_account: "accounts E s t \<Longrightarrow> next_snapshot s t"
| next_restart: "validate_snapshot E s = Inr () \<Longrightarrow> next_snapshot s (restart_snapshot epoch s)"
| next_reviewed: "reviewed E s t \<Longrightarrow> next_snapshot s t"

inductive_cases next_snapshotE: "next_snapshot s t"

section \<open>Restarting the writer\<close>

lemma restart_assignment_frames [simp]:
  "sn_receipts (restart_assignment e s) = sn_receipts s"
  "sn_resolutions (restart_assignment e s) = sn_resolutions s"
  "sn_sprints (restart_assignment e s) = sn_sprints s"
  "sn_execution_budget (restart_assignment e s) = sn_execution_budget s"
  "sn_binding (restart_assignment e s) = sn_binding s"
  "sn_requests (restart_assignment e s) = sn_requests s"
  "sn_seq (restart_assignment e s) = sn_seq s"
  "sn_authority_epoch (restart_assignment e s) = sn_authority_epoch s"
  by (auto simp: restart_assignment_def Let_def put_ticket_def put_assignment_def split: option.splits)

lemma restart_fold_frames [simp]:
  "sn_receipts (fold restart_assignment es s) = sn_receipts s"
  "sn_resolutions (fold restart_assignment es s) = sn_resolutions s"
  "sn_sprints (fold restart_assignment es s) = sn_sprints s"
  "sn_execution_budget (fold restart_assignment es s) = sn_execution_budget s"
  "sn_binding (fold restart_assignment es s) = sn_binding s"
  "sn_requests (fold restart_assignment es s) = sn_requests s"
  "sn_seq (fold restart_assignment es s) = sn_seq s"
  "sn_authority_epoch (fold restart_assignment es s) = sn_authority_epoch s"
  by (induction es arbitrary: s) simp_all

lemma restart_receipts:
  "sn_receipts (restart_snapshot epoch s) = sn_receipts s"
  "sn_sprints (restart_snapshot epoch s) = sn_sprints s"
  "sn_execution_budget (restart_snapshot epoch s) = sn_execution_budget s"
  "sn_binding (restart_snapshot epoch s) = sn_binding s"
  "sn_authority_epoch (restart_snapshot epoch s) = epoch"
  "sn_resolutions (restart_snapshot epoch s) = sn_resolutions s"
  by (simp_all add: restart_snapshot_def Let_def)

text \<open>Every attempt is visited once, with the value it had before the restart.\<close>

lemma restart_fold_attempts:
  assumes "distinct (map fst es)" "\<forall>e \<in> set es. map_get (sn_assignments s) (fst e) = Some (snd e)"
  shows "map_get (sn_assignments (fold restart_assignment es s)) k =
    (case map_of es k of
       Some a \<Rightarrow> Some (if interrupted a then bump (sn_seq s) (a\<lparr>as_state := A_OutcomeUnknown\<rparr>) else a)
     | None \<Rightarrow> map_get (sn_assignments s) k)"
  using assms
proof (induction es arbitrary: s)
  case (Cons e es)
  let ?t = "restart_assignment e s"
  have get: "map_get (sn_assignments ?t) j =
      (if j = fst e \<and> interrupted (snd e)
       then Some (bump (sn_seq s) ((snd e)\<lparr>as_state := A_OutcomeUnknown\<rparr>))
       else map_get (sn_assignments s) j)" for j
    by (auto simp: restart_assignment_def Let_def split: option.splits)
  have "\<forall>f \<in> set es. map_get (sn_assignments ?t) (fst f) = Some (snd f)"
  proof
    fix f assume f: "f \<in> set es"
    from "Cons.prems"(1) have "fst e \<notin> fst ` set es" by simp
    with f have "fst f \<noteq> fst e" by (metis imageI)
    with f "Cons.prems"(2) show "map_get (sn_assignments ?t) (fst f) = Some (snd f)" by (simp add: get)
  qed
  moreover have none: "map_of es (fst e) = None"
    using "Cons.prems"(1) by (simp add: map_of_eq_None_iff)
  ultimately show ?case
    using Cons.IH [of ?t] "Cons.prems"
    by (cases "k = fst e"; cases "map_of es k") (simp_all add: get none)
qed simp

lemma restart_attempts:
  assumes "ordered (sn_assignments s)"
  shows "map_get (sn_assignments (restart_snapshot epoch s)) k =
    map_option (\<lambda>a. if interrupted a then bump (sn_seq s + 1) (a\<lparr>as_state := A_OutcomeUnknown\<rparr>) else a)
      (map_get (sn_assignments s) k)"
proof -
  let ?s = "s\<lparr>sn_authority_epoch := epoch, sn_seq := sn_seq s + 1\<rparr>"
  have "\<forall>e \<in> set (sn_assignments s). map_get (sn_assignments ?s) (fst e) = Some (snd e)"
    using in_ordered_map [OF assms] by force
  from restart_fold_attempts [OF ordered_distinct [OF assms] this, of k] show ?thesis
    by (simp add: restart_snapshot_def Let_def map_get_def split: option.splits)
qed

lemma restart_fold_ordered:
  "ordered (sn_assignments s) \<Longrightarrow> ordered (sn_assignments (fold restart_assignment es s))"
proof (induction es arbitrary: s)
  case (Cons e es)
  have "ordered (sn_assignments (restart_assignment e s))"
    using "Cons.prems" by (auto simp: restart_assignment_def Let_def put_assignment_def split: option.splits)
  with Cons.IH show ?case by simp
qed simp

lemma restart_runs_kept:
  assumes "ordered (sn_assignments s)"
  shows "runs_kept s (restart_snapshot epoch s)"
proof -
  have "ordered (sn_assignments (restart_snapshot epoch s))"
    using restart_fold_ordered [of "s\<lparr>sn_authority_epoch := epoch, sn_seq := sn_seq s + 1\<rparr>"] assms
    by (simp add: restart_snapshot_def Let_def)
  then show ?thesis
    by (auto simp: runs_kept_def keeps_def restart_attempts [OF assms])
qed

section \<open>A step publishes a next snapshot or none\<close>

definition refacts :: "snapshot \<Rightarrow> snapshot \<Rightarrow> bool" where
  "refacts t u = (u\<lparr>sn_execution_facts_seq := None\<rparr> = t\<lparr>sn_execution_facts_seq := None\<rparr>)"

definition moves :: "store \<Rightarrow> store \<Rightarrow> bool" where
  "moves st st' =
     (st_published st' = st_published st \<or>
      (\<exists>h s h' t u. st_published st = Some (h, s) \<and> next_snapshot s t \<and> refacts t u \<and>
         st_published st' = Some (h', u)))"

lemma refacts_with_facts_seq [simp]: "refacts t (with_facts_seq t)"
  by (simp add: refacts_def with_facts_seq_def)

lemma refacts_frames:
  assumes "refacts t u"
  shows "sn_tickets u = sn_tickets t" "sn_assignments u = sn_assignments t"
    "sn_sprints u = sn_sprints t" "sn_execution_budget u = sn_execution_budget t"
    "sn_binding u = sn_binding t" "sn_seq u = sn_seq t" "sn_receipts u = sn_receipts t"
    "sn_resolutions u = sn_resolutions t"
  using assms [unfolded refacts_def, THEN arg_cong, of sn_tickets]
    assms [unfolded refacts_def, THEN arg_cong, of sn_assignments]
    assms [unfolded refacts_def, THEN arg_cong, of sn_sprints]
    assms [unfolded refacts_def, THEN arg_cong, of sn_execution_budget]
    assms [unfolded refacts_def, THEN arg_cong, of sn_binding]
    assms [unfolded refacts_def, THEN arg_cong, of sn_seq]
    assms [unfolded refacts_def, THEN arg_cong, of sn_receipts]
    assms [unfolded refacts_def, THEN arg_cong, of sn_resolutions]
  by simp_all

lemma ledger_frames:
  assumes "ledger_frame s t"
  shows "sn_tickets t = sn_tickets s" "sn_assignments t = sn_assignments s"
    "sn_sprints t = sn_sprints s" "sn_binding t = sn_binding s" "sn_receipts t = sn_receipts s"
    "sn_resolutions t = sn_resolutions s"
  using assms [unfolded ledger_frame_def, THEN arg_cong, of sn_tickets]
    assms [unfolded ledger_frame_def, THEN arg_cong, of sn_assignments]
    assms [unfolded ledger_frame_def, THEN arg_cong, of sn_sprints]
    assms [unfolded ledger_frame_def, THEN arg_cong, of sn_binding]
    assms [unfolded ledger_frame_def, THEN arg_cong, of sn_receipts]
    assms [unfolded ledger_frame_def, THEN arg_cong, of sn_resolutions]
  by simp_all

lemma publish_published:
  assumes "publish disk t st = (st', r)"
  shows "st_published st' = st_published st \<or> (\<exists>h. st_published st' = Some (h, with_facts_seq t))"
  using assms by (auto simp: publish_def publish_snapshot_def split: disk_outcome.splits if_splits)

lemma publish_reviewed_published:
  assumes "publish_reviewed disk t st = (st', r)"
  shows "st_published st' = st_published st \<or> (\<exists>h. st_published st' = Some (h, with_facts_seq t))"
proof (cases "verified_offline st")
  case True
  obtain u r' where u: "publish disk t (st\<lparr>st_health := Writable\<rparr>) = (u, r')" by fastforce
  with assms True have "st_published st' = st_published u"
    by (auto simp: publish_reviewed_def split: if_splits)
  with publish_published [OF u] show ?thesis by simp
qed (use assms publish_published in \<open>auto simp: publish_reviewed_def\<close>)

lemma run_reviewed_moves:
  assumes "run (publish_reviewed disk) decide st = (st', r)"
    and "\<And>t x. decide st = Inr (Commit t x) \<Longrightarrow>
           \<exists>h s. st_published st = Some (h, s) \<and> next_snapshot s t"
  shows "moves st st'"
proof (cases "\<exists>t x. decide st = Inr (Commit t x)")
  case True
  then obtain t x where d: "decide st = Inr (Commit t x)" by blast
  from assms(2) [OF d] obtain h s where s: "st_published st = Some (h, s)" "next_snapshot s t" by blast
  from assms(1) d obtain r' where "publish_reviewed disk t st = (st', r')"
    by (auto simp: run_def split: prod.splits sum.splits)
  from publish_reviewed_published [OF this] s refacts_with_facts_seq [of t] show ?thesis
    unfolding moves_def by blast
next
  case False
  with assms(1) have "st' = st" by (auto simp: run_def split: sum.splits decision.splits)
  then show ?thesis by (simp add: moves_def)
qed

lemma run_publish_moves:
  assumes "run (publish disk) decide st = (st', r)"
    and "\<And>t x. decide st = Inr (Commit t x) \<Longrightarrow>
           \<exists>h s. st_published st = Some (h, s) \<and> next_snapshot s t"
  shows "moves st st'"
proof (cases r)
  case (Inl e)
  with run_Inl_published assms(1) show ?thesis unfolding moves_def by blast
next
  case (Inr x)
  with assms(1) have "run (publish disk) decide st = (st', Inr x)" by simp
  from run_Inr [OF this] consider "st' = st"
    | t h where "decide st = Inr (Commit t x)" "st' = st\<lparr>st_published := Some (h, with_facts_seq t)\<rparr>"
    by blast
  then show ?thesis
  proof cases
    case 1
    then show ?thesis by (simp add: moves_def)
  next
    case 2
    from assms(2) [OF 2(1)] 2(2) show ?thesis unfolding moves_def by fastforce
  qed
qed

lemma accounting_snapshot_refacts: "accounting_snapshot E t st = Inr u \<Longrightarrow> refacts t u"
  by (auto simp: accounting_snapshot_def call_simps refacts_def)

lemma publish_accounting_moves:
  assumes "publish_accounting E disk t st = (st', r)" "st_published st = Some (h, s)" "accounts E s t"
  shows "moves st st'"
proof (cases "accounting_snapshot E t st")
  case (Inl e)
  with assms(1) show ?thesis by (simp add: publish_accounting_def moves_def)
next
  case (Inr u)
  with assms(1) have p: "publish_snapshot disk u st = (st', r)" by (simp add: publish_accounting_def)
  show ?thesis
  proof (cases r)
    case (Inl e)
    with p publish_snapshot_Inl show ?thesis unfolding moves_def by blast
  next
    case (Inr k)
    with p have "st_published st' = Some (k, u)" by (auto simp: publish_snapshot_Inr)
    with assms(2) next_account [OF assms(3)] accounting_snapshot_refacts
      \<open>accounting_snapshot E t st = Inr u\<close>
    show ?thesis unfolding moves_def by blast
  qed
qed

lemma run_accounting_moves:
  assumes "run_accounting E disk decide st = (st', r)"
    and "\<And>t x. decide st = Inr (Commit t x) \<Longrightarrow>
           \<exists>h s. st_published st = Some (h, s) \<and> accounts E s t"
  shows "moves st st'"
proof (cases "\<exists>t x. decide st = Inr (Commit t x)")
  case True
  then obtain t x where d: "decide st = Inr (Commit t x)" by blast
  from assms(2) [OF d] obtain h s where s: "st_published st = Some (h, s)" "accounts E s t" by blast
  from assms(1) d obtain r' where "publish_accounting E disk t st = (st', r')"
    by (auto simp: run_accounting_def run_def split: prod.splits sum.splits)
  with s show ?thesis by (blast intro: publish_accounting_moves)
next
  case False
  with assms(1) have "st' = st"
    by (auto simp: run_accounting_def run_def split: sum.splits decision.splits)
  then show ?thesis by (simp add: moves_def)
qed

lemma execute_moves: "execute E disk au cmd st = (st', r) \<Longrightarrow> moves st st'"
  unfolding execute_def
  by (erule run_publish_moves) (auto dest!: decide_execute_Commit intro: next_command)

lemma execute_sprint_moves: "execute_sprint E disk au cmd st = (st', r) \<Longrightarrow> moves st st'"
  unfolding execute_sprint_def
  by (erule run_publish_moves) (auto dest!: decide_sprint_Commit intro: next_sprint)

lemma check_opened_cases:
  assumes "check_opened E st = Inr su"
  shows "su = st \<and> (st_health st = Writable \<longrightarrow>
      (\<exists>p. st_published st = Some p \<and> validate_snapshot E (snd p) = Inr ())) \<or>
    su = st\<lparr>st_health := ReadOnly ''invalid snapshot''\<rparr>"
proof (cases "st_published st")
  case None
  with assms show ?thesis by (auto simp: check_opened_def split: if_splits)
next
  case (Some p)
  then show ?thesis
    using assms
    by (cases "validate_snapshot E (snd p)" rule: sum.exhaust)
      (auto simp: check_opened_def split: if_splits stop.splits)
qed

lemma check_opened_published: "check_opened E st = Inr su \<Longrightarrow> st_published su = st_published st"
  using check_opened_cases by fastforce

lemma check_opened_valid:
  assumes "check_opened E st = Inr su" "st_health su = Writable" "st_published su = Some p"
  shows "validate_snapshot E (snd p) = Inr ()"
  using check_opened_cases [OF assms(1)] assms(2,3) by auto

lemma restart_moves:
  assumes "from_store E disk st = (st', r)"
  shows "moves st st'"
proof (cases "check_opened E st")
  case (Inl e)
  with assms show ?thesis by (simp add: from_store_def moves_def)
next
  case (Inr su)
  have same: "st_published su = st_published st"
    using Inr by (rule check_opened_published)
  have "moves su st'"
  proof (rule run_publish_moves)
    show "run (publish disk) (decide_restart E) su = (st', r)"
      using assms Inr by (simp add: from_store_def)
  next
    fix t x assume "decide_restart E su = Inr (Commit t x)"
    then obtain p epoch where p: "st_published su = Some p" "st_health su = Writable"
      "t = restart_snapshot epoch (snd p)"
      by (auto simp: decide_restart_def call_simps split: if_splits)
    have "validate_snapshot E (snd p) = Inr ()"
      using check_opened_valid [OF Inr p(2)] p(1) same by simp
    with p show "\<exists>h s. st_published su = Some (h, s) \<and> next_snapshot s t"
      by (cases p) (auto intro: next_restart)
  qed
  with same show ?thesis by (simp add: moves_def)
qed

lemma configure_accounts:
  assumes "decide_configure E au epoch n limits st = Inr (Commit t x)"
  shows "\<exists>h s. st_published st = Some (h, s) \<and> accounts E s t"
proof -
  from assms obtain h s where s: "st_published st = Some (h, s)"
    by (auto simp: decide_configure_def published_def call_simps)
  with assms obtain user where user: "au_principal au = User user"
    by (auto simp: decide_configure_def published_def Let_def call_simps split: principal.splits)
  with assms s obtain prev where
    "previous_configuration s user epoch n limits = Inr prev"
    "(case prev of Some c \<Rightarrow> Inr (Reply c)
      | None \<Rightarrow> and_then (require_ledger st) (\<lambda>_. and_then (configure user n limits s) (\<lambda>(c, t).
          and_then (validate_snapshot E t) (\<lambda>_. Inr (Commit t c))))) = Inr (Commit t x)"
    by (auto simp: decide_configure_def published_def Let_def call_simps split: if_splits)
  then have "configure user n limits s = Inr (x, t)" "validate_snapshot E t = Inr ()"
    by (cases prev; auto simp: call_simps)+
  with s show ?thesis
    by (auto simp: configure_def Let_def call_simps next_seq_def accounts_def ledger_frame_def)
qed

lemma reserve_accounts:
  assumes "decide_reserve E au tr now_ms st = Inr (Commit t x)"
  shows "\<exists>h s. st_published st = Some (h, s) \<and> accounts E s t"
proof -
  from assms obtain h s plan where s: "st_published st = Some (h, s)"
    and plan: "reserve E tr now_ms s = Inr plan"
    and d: "(case plan of Existing_Reservation v \<Rightarrow> Inr (Reply (Existing_Submission v))
      | Reserve_Blocked b \<Rightarrow> Inr (Reply (Blocked_Submission b))
      | New_Reservation v t \<Rightarrow>
          and_then (validate_snapshot E t) (\<lambda>_. Inr (Commit t (New_Submission v)))) = Inr (Commit t x)"
    by (auto simp: decide_reserve_def published_def Let_def call_simps)
  from d obtain v where v: "plan = New_Reservation v t" "validate_snapshot E t = Inr ()"
    by (cases plan) (auto simp: call_simps)
  with plan have "ledger_frame s t"
    by (auto simp: reserve_def Let_def call_simps if_Inr next_seq_def ledger_frame_def
        split: option.splits)
  with s v show ?thesis by (auto simp: accounts_def)
qed

lemma settle_accounts:
  assumes "decide_settle E au plan st = Inr (Commit t x)"
    and "\<And>s v t. plan s = Inr (Settle v t) \<Longrightarrow> ledger_frame s t"
    and "\<And>s v t. plan s = Inr (Settle_OverCap t) \<Longrightarrow> ledger_frame s t"
  shows "\<exists>h s. st_published st = Some (h, s) \<and> accounts E s t"
proof -
  from assms(1) obtain h s p where s: "st_published st = Some (h, s)"
    and p: "plan s = Inr p" "settle_decision E p = Inr (Commit t x)"
    by (auto simp: decide_settle_def published_def call_simps)
  from p(2) assms(2,3) [of s] p(1) have "accounts E s t"
    by (cases p) (auto simp: settle_decision_def call_simps accounts_def)
  with s show ?thesis by blast
qed

lemma settle_frame:
  "settle i h rc usage s = Inr (Settle v t) \<Longrightarrow> ledger_frame s t"
  "settle i h rc usage s = Inr (Settle_OverCap t) \<Longrightarrow> ledger_frame s t"
  by (auto simp: settle_def Let_def call_simps if_Inr next_seq_def ledger_frame_def split: option.splits)

lemma report_frame:
  "report_over_cap i h rc over s = Inr (Settle v t) \<Longrightarrow> ledger_frame s t"
  "report_over_cap i h rc over s = Inr (Settle_OverCap t) \<Longrightarrow> ledger_frame s t"
  by (auto simp: report_over_cap_def Let_def call_simps if_Inr next_seq_def ledger_frame_def
      split: option.splits)

lemma reconcile_moves: "reconcile_file_effect E disk observe au req st = (st', r) \<Longrightarrow> moves st st'"
  unfolding reconcile_file_effect_def
  by (erule run_reviewed_moves)
    (auto simp: decide_reconcile_def published_def call_simps Let_def if_Inr split: option.splits
      dest!: perform_reconcile_reviewed intro: next_reviewed)

lemma message_moves:
  "register_user_ingress E disk au vi st = (st', r) \<Longrightarrow> moves st st'"
  "pin_message_basis E disk au mid st = (st', r) \<Longrightarrow> moves st st'"
  "freeze_proposal E T disk load au mid proposal st = (st', r) \<Longrightarrow> moves st st'"
  "settle_message_group E T disk au mid gid st = (st', r) \<Longrightarrow> moves st st'"
  unfolding register_user_ingress_def pin_message_basis_def freeze_proposal_def settle_message_group_def
  by (erule run_publish_moves,
      blast dest: decide_register_reviewed decide_pin_reviewed decide_freeze_reviewed
        decide_settle_group_reviewed intro: next_reviewed)+

lemma port_step_moves:
  assumes "port_step st st'"
  shows "moves st st'"
  using assms
proof (cases rule: port_step.cases)
  case step_configure
  then show ?thesis
    unfolding configure_budget_def by (rule run_accounting_moves) (rule configure_accounts)
next
  case step_reserve
  then show ?thesis
    unfolding reserve_tokens_def by (rule run_accounting_moves) (rule reserve_accounts)
next
  case (step_settle E disk au i h rc usage vr)
  then show ?thesis
    unfolding settle_tokens_def apsnd_def map_prod_def
    by (auto split: prod.splits intro!: run_accounting_moves elim!: settle_accounts intro: settle_frame)
next
  case (step_report E disk au i h rc over vr)
  then show ?thesis
    unfolding report_tokens_def apsnd_def map_prod_def
    by (auto split: prod.splits intro!: run_accounting_moves elim!: settle_accounts intro: report_frame)
qed (auto intro: execute_moves execute_sprint_moves restart_moves reconcile_moves
    message_moves)

section \<open>Invariants of the published snapshot\<close>

locale snapshot_invariant =
  fixes P :: "snapshot \<Rightarrow> bool"
  assumes at_empty: "P (empty_snapshot b)"
    and by_command: "P s \<Longrightarrow> perform E root au cmd bytes s = Inr (t, r) \<Longrightarrow> P t"
    and by_sprint: "P s \<Longrightarrow> perform_sprint E au sc bytes commit s = Inr (t, sr) \<Longrightarrow> P t"
    and by_account: "P s \<Longrightarrow> accounts E s t \<Longrightarrow> P t"
    and by_restart: "P s \<Longrightarrow> validate_snapshot E s = Inr () \<Longrightarrow> P (restart_snapshot epoch s)"
    and by_review: "P s \<Longrightarrow> reviewed E s t \<Longrightarrow> P t"
    and by_facts: "P s \<Longrightarrow> refacts s t \<Longrightarrow> P t"
begin

lemma next_snapshot: "next_snapshot s t \<Longrightarrow> P s \<Longrightarrow> P t"
  by (cases rule: next_snapshot.cases, assumption)
    (auto intro: by_command by_sprint by_account by_restart by_review)

lemma moved: "moves st st' \<Longrightarrow> (\<And>h s. st_published st = Some (h, s) \<Longrightarrow> P s) \<Longrightarrow>
    st_published st' = Some (h', u) \<Longrightarrow> P u"
  unfolding moves_def using next_snapshot by_facts by (metis Pair_inject option.inject)

lemma always: "reachable st \<Longrightarrow> st_published st = Some (h, s) \<Longrightarrow> P s"
proof (induction arbitrary: h s rule: reachable.induct)
  case (fresh st h0 b)
  then show ?case using at_empty by simp
next
  case (step st st')
  from moved [OF port_step_moves [OF step.hyps(2)] step.IH step.prems] show ?case .
qed

end

section \<open>Receipts are for ever\<close>

lemma next_snapshot_receipts:
  assumes "next_snapshot s t" "map_get (sn_receipts s) i = Some x"
  shows "map_get (sn_receipts t) i = Some x"
  using assms(1)
proof (cases rule: next_snapshot.cases)
  case (next_command E root au cmd bytes r)
  with perform_receipt(6) [OF next_command(1)] assms(2) show ?thesis by auto
next
  case (next_sprint E au sc bytes commit sr)
  with perform_sprint_Inr [OF next_sprint(1)] assms(2) show ?thesis by (auto simp: receipt_of_def)
next
  case (next_account E)
  with assms(2) ledger_frames(5) show ?thesis by (auto simp: accounts_def)
next
  case (next_restart E epoch)
  with assms(2) show ?thesis by (simp add: restart_receipts)
next
  case (next_reviewed E)
  with assms(2) show ?thesis by (simp add: reviewed_def)
qed

lemma moves_receipts:
  assumes "moves st st'" "st_published st = Some (h, s)" "map_get (sn_receipts s) i = Some x"
  shows "\<exists>h' s'. st_published st' = Some (h', s') \<and> map_get (sn_receipts s') i = Some x"
  using assms next_snapshot_receipts [of s _ i x]
  by (auto simp: moves_def refacts_frames)

lemma steps_receipts:
  assumes "port_step\<^sup>*\<^sup>* st st'" "st_published st = Some (h, s)" "map_get (sn_receipts s) i = Some x"
  shows "\<exists>h' s'. st_published st' = Some (h', s') \<and> map_get (sn_receipts s') i = Some x"
  using assms(1)
proof (induction rule: rtranclp_induct)
  case (step u v)
  then obtain h' s' where "st_published u = Some (h', s')" "map_get (sn_receipts s') i = Some x"
    by blast
  with moves_receipts [OF port_step_moves [OF step.hyps(2)]] show ?case by blast
qed (use assms(2,3) in blast)

section \<open>Messages only move forward\<close>

lemma next_snapshot_messages:
  assumes "next_snapshot s t"
  shows "messages_kept s t"
  using assms
proof (cases rule: next_snapshot.cases)
  case (next_command E root au cmd bytes r)
  with perform_receipt(12) [OF next_command(1)] show ?thesis by (simp add: messages_kept_human)
next
  case (next_sprint E au sc bytes commit sr)
  with perform_sprint_Inr [OF next_sprint(1)] show ?thesis
    by (auto simp: put_receipt_def intro!: messages_kept_cong)
next
  case (next_account E)
  with ledger_frames(6) show ?thesis by (auto simp: accounts_def intro: messages_kept_cong)
next
  case (next_restart E epoch)
  then show ?thesis by (simp add: restart_receipts messages_kept_cong)
next
  case (next_reviewed E)
  then show ?thesis by (simp add: reviewed_def)
qed

lemma moves_messages:
  assumes "moves st st'" "st_published st = Some (h, s)"
  shows "\<exists>h' s'. st_published st' = Some (h', s') \<and> messages_kept s s'"
  using assms next_snapshot_messages [of s] messages_kept_cong [OF refacts_frames(8)]
    messages_kept_cong [of s s] messages_kept_trans
  unfolding moves_def by (metis Pair_inject option.inject)

lemma steps_messages:
  assumes "port_step\<^sup>*\<^sup>* st st'" "st_published st = Some (h, s)"
  shows "\<exists>h' s'. st_published st' = Some (h', s') \<and> messages_kept s s'"
  using assms(1)
proof (induction rule: rtranclp_induct)
  case base
  with assms(2) messages_kept_cong [of s s] show ?case by blast
next
  case (step u v)
  then show ?case using moves_messages [OF port_step_moves [OF step.hyps(2)]] messages_kept_trans by blast
qed

section \<open>The graph survives a restart\<close>

definition kind_of :: "snapshot \<Rightarrow> string \<Rightarrow> ticket_kind option" where
  "kind_of s i = map_option tk_kind (map_get (sn_tickets s) i)"

definition graph_sound :: "snapshot \<Rightarrow> bool" where
  "graph_sound s =
     (acyclic (uplinks (parent_link s)) \<and> acyclic (depends s) \<and>
      (\<forall>i p. parent_link s i = Some (Some p) \<longrightarrow>
         (\<exists>k k'. kind_of s p = Some k \<and> kind_of s i = Some k' \<and> containment_kinds k k')) \<and>
      (\<forall>(i, d) \<in> depends s. kind_of s i = Some K_Work \<and> kind_of s d = Some K_Work))"

lemma validated_graph_sound:
  assumes "tickets_valid s"
  shows "graph_sound s"
proof -
  have "\<exists>k k'. kind_of s p = Some k \<and> kind_of s i = Some k' \<and> containment_kinds k k'"
    if "parent_link s i = Some (Some p)" for i p
  proof -
    from that obtain w where w: "map_get (sn_tickets s) i = Some w" "tk_parent w = Some p"
      by (auto simp: parent_link_def)
    from validate_ticket_Inr [OF tickets_validD [OF assms w(1)]] w show ?thesis
      by (auto simp: kind_of_def validate_parent_def call_simps split: if_splits)
  qed
  moreover have "kind_of s i = Some K_Work \<and> kind_of s d = Some K_Work" if "(i, d) \<in> depends s" for i d
  proof -
    from that obtain w where w: "map_get (sn_tickets s) i = Some w" "d \<in> set (tk_depends_on w)"
      by (auto simp: depends_def)
    from validate_ticket_Inr [OF tickets_validD [OF assms w(1)]] w
    have k: "tk_kind w = K_Work" "walk_dependencies s i [] (rev (tk_depends_on w)) = Inr ()" by auto
    from k(2) that have "is_work s d" unfolding walk_dependencies_iff [OF w(1)] by blast
    with w(1) k(1) show ?thesis by (auto simp: is_work_def kind_of_def split: option.splits)
  qed
  ultimately show ?thesis
    using tickets_valid_parents [OF assms] tickets_valid_dependencies [OF assms]
    by (auto simp: graph_sound_def)
qed

text \<open>Two snapshots whose tickets agree in kind, parent and dependencies.\<close>

definition same_graph :: "snapshot \<Rightarrow> snapshot \<Rightarrow> bool" where
  "same_graph s t = (kind_of t = kind_of s \<and> parent_link t = parent_link s \<and> depends t = depends s)"

lemma same_graph_trans: "same_graph s t \<Longrightarrow> same_graph t u \<Longrightarrow> same_graph s u"
  by (simp add: same_graph_def)

lemma same_graph_tickets: "sn_tickets t = sn_tickets s \<Longrightarrow> same_graph s t"
  by (simp add: same_graph_def kind_of_def [abs_def] parent_link_def [abs_def] depends_def)

lemma same_graph_put:
  assumes "map_get (sn_tickets s) i = Some w" "tk_kind v = tk_kind w" "tk_parent v = tk_parent w"
    "tk_depends_on v = tk_depends_on w" "sn_tickets t = map_put i v (sn_tickets s)"
  shows "same_graph s t"
proof -
  have "depends t = depends s"
    using assms by (auto simp: depends_def split: if_splits)
  with assms show ?thesis by (auto simp: same_graph_def kind_of_def parent_link_def fun_eq_iff)
qed

lemma graph_sound_cong: "same_graph s t \<Longrightarrow> graph_sound t = graph_sound s"
  by (simp add: same_graph_def graph_sound_def)

lemma restart_assignment_graph: "same_graph s (restart_assignment e s)"
proof (cases "interrupted (snd e)")
  case True
  let ?w = "map_get (sn_tickets s) (as_work_id (snd e))"
  show ?thesis
  proof (cases ?w)
    case None
    with True show ?thesis
      by (auto simp: restart_assignment_def Let_def intro!: same_graph_tickets)
  next
    case (Some w)
    then have "same_graph s (put_ticket (as_work_id (snd e)) (block_restarted q w) x)"
      if "sn_tickets x = sn_tickets s" for q x
      by (rule same_graph_put) (simp_all add: block_restarted_def touch_def that)
    moreover have "same_graph s x" if "sn_tickets x = sn_tickets s" for x
      using that by (rule same_graph_tickets)
    ultimately show ?thesis using True Some by (simp add: restart_assignment_def Let_def)
  qed
qed (simp add: restart_assignment_def same_graph_tickets)

lemma restart_graph: "same_graph s (restart_snapshot epoch s)"
proof -
  have "same_graph x (fold restart_assignment es x)" for es x
    by (induction es arbitrary: x)
      (auto intro: same_graph_tickets same_graph_trans restart_assignment_graph)
  from this [where x = "s\<lparr>sn_authority_epoch := epoch, sn_seq := sn_seq s + 1\<rparr>"]
  show ?thesis
    by (simp add: restart_snapshot_def Let_def same_graph_def kind_of_def [abs_def]
        parent_link_def [abs_def] depends_def)
qed

section \<open>The invariants\<close>

lemma performed_valid:
  assumes "perform E root au cmd bytes s = Inr (t, r)"
  shows "\<exists>u. validate_snapshot E u = Inr () \<and> sn_tickets t = sn_tickets u \<and>
    sn_assignments t = sn_assignments u \<and> (runs_inv s \<longrightarrow> runs_inv u)"
proof -
  from perform_Inr [OF assms] obtain u ids where
    u: "apply_operations E root au (cd_operations cmd) (s\<lparr>sn_seq := sn_seq s + 1\<rparr>) = Inr (u, ids)"
    and v: "validate_snapshot E u = Inr ()" and t: "t = put_receipt r u" by blast
  have "runs_inv s \<longrightarrow> runs_inv u"
    using apply_operations_runs_inv [OF u] runs_inv_cong [of "s\<lparr>sn_seq := sn_seq s + 1\<rparr>" s] by simp
  with v t show ?thesis by (intro exI [of _ u]) simp
qed

lemma sprint_valid:
  assumes "perform_sprint E au sc bytes commit s = Inr (t, sr)"
  shows "validate_snapshot E t = Inr ()" "sn_assignments t = sn_assignments s"
  using perform_sprint_Inr [OF assms] by auto

interpretation owned: snapshot_invariant runs_inv
proof
  show "runs_inv (empty_snapshot b)" for b
    by (simp add: runs_inv_def attempts_keyed_def exclusive_def empty_snapshot_def)
next
  fix s E root au cmd bytes t r
  assume "runs_inv s" "perform E root au cmd bytes s = Inr (t, r)"
  then show "runs_inv t" using performed_valid runs_inv_cong by metis
next
  fix s E au sc bytes commit t sr
  assume "runs_inv s" "perform_sprint E au sc bytes commit s = Inr (t, sr)"
  then show "runs_inv t" using sprint_valid(2) runs_inv_cong by metis
next
  fix s E t assume "runs_inv s" "accounts E s t"
  then show "runs_inv t" using runs_inv_cong ledger_frames(2) by (metis accounts_def)
next
  fix s E epoch assume inv: "runs_inv s"
  then have "ordered (sn_assignments s)" by (simp add: runs_inv_def)
  from runs_kept_inv [OF restart_runs_kept [OF this] inv]
  show "runs_inv (restart_snapshot epoch s)" .
next
  fix s E t assume "runs_inv s" "reviewed E s t"
  then show "runs_inv t" by (simp add: reviewed_def)
next
  fix s t assume "runs_inv s" "refacts s t"
  then show "runs_inv t" using runs_inv_cong refacts_frames(2) by metis
qed

interpretation graph: snapshot_invariant graph_sound
proof
  show "graph_sound (empty_snapshot b)" for b
    by (simp add: graph_sound_def empty_snapshot_def depends_def parent_link_def uplinks_def
        wf_acyclic)
next
  fix s E root au cmd bytes t r
  assume "perform E root au cmd bytes s = Inr (t, r)"
  then show "graph_sound t"
    using performed_valid validate_snapshot_tickets validated_graph_sound
      graph_sound_cong same_graph_tickets by metis
next
  fix s E au sc bytes commit t sr
  assume "perform_sprint E au sc bytes commit s = Inr (t, sr)"
  then show "graph_sound t"
    by (blast intro: validated_graph_sound validate_snapshot_tickets sprint_valid)
next
  fix s E t assume "accounts E s t"
  then show "graph_sound t"
    by (auto simp: accounts_def intro: validated_graph_sound validate_snapshot_tickets)
next
  fix s E epoch assume "graph_sound s"
  then show "graph_sound (restart_snapshot epoch s)"
    using graph_sound_cong [OF restart_graph] by simp
next
  fix s E t assume "reviewed E s t"
  then show "graph_sound t"
    by (auto simp: reviewed_def intro: validated_graph_sound validate_snapshot_tickets)
next
  fix s t assume "graph_sound s" "refacts s t"
  then show "graph_sound t" using graph_sound_cong same_graph_tickets refacts_frames(1) by metis
qed

definition sprints_apart :: "snapshot \<Rightarrow> bool" where
  "sprints_apart s =
     (\<forall>i j x y. map_get (sn_sprints s) i = Some x \<longrightarrow> map_get (sn_sprints s) j = Some y \<longrightarrow> i \<noteq> j \<longrightarrow>
        apart x y)"

lemma sprints_apart_cong: "sn_sprints t = sn_sprints s \<Longrightarrow> sprints_apart t = sprints_apart s"
  by (simp add: sprints_apart_def)

lemma validated_sprints_apart: "validate_snapshot E s = Inr () \<Longrightarrow> sprints_apart s"
  by (auto simp: sprints_apart_def validate_snapshot_def call_simps intro: validated_pair(1))

interpretation sprints: snapshot_invariant sprints_apart
proof
  show "sprints_apart (empty_snapshot b)" for b
    by (simp add: sprints_apart_def empty_snapshot_def)
next
  fix s E root au cmd bytes t r
  assume "sprints_apart s" "perform E root au cmd bytes s = Inr (t, r)"
  then show "sprints_apart t" using perform_receipt(9) sprints_apart_cong by metis
next
  fix s E au sc bytes commit t sr
  assume "perform_sprint E au sc bytes commit s = Inr (t, sr)"
  then show "sprints_apart t" by (blast intro: validated_sprints_apart sprint_valid)
next
  fix s E t assume "accounts E s t"
  then show "sprints_apart t" by (auto simp: accounts_def intro: validated_sprints_apart)
next
  fix s E epoch assume "sprints_apart s"
  then show "sprints_apart (restart_snapshot epoch s)"
    by (simp add: sprints_apart_def restart_receipts)
next
  fix s E t assume "reviewed E s t"
  then show "sprints_apart t" by (auto simp: reviewed_def intro: validated_sprints_apart)
next
  fix s t assume "sprints_apart s" "refacts s t"
  then show "sprints_apart t" using sprints_apart_cong refacts_frames(3) by metis
qed

definition budget_sound :: "snapshot \<Rightarrow> bool" where
  "budget_sound s = (\<forall>b. sn_execution_budget s = Some b \<longrightarrow> ledger_sound b)"

lemma validated_budget_sound: "validate_snapshot E s = Inr () \<Longrightarrow> budget_sound s"
  by (auto simp: budget_sound_def intro: validate_snapshot_ledger)

interpretation ledger: snapshot_invariant budget_sound
proof
  show "budget_sound (empty_snapshot b)" for b
    by (simp add: budget_sound_def empty_snapshot_def)
next
  fix s E root au cmd bytes t r
  assume "budget_sound s" "perform E root au cmd bytes s = Inr (t, r)"
  then show "budget_sound t" using perform_receipt(10) by (metis budget_sound_def)
next
  fix s E au sc bytes commit t sr
  assume "perform_sprint E au sc bytes commit s = Inr (t, sr)"
  then show "budget_sound t" by (blast intro: validated_budget_sound sprint_valid)
next
  fix s E t assume "accounts E s t"
  then show "budget_sound t" by (auto simp: accounts_def intro: validated_budget_sound)
next
  fix s E epoch assume "budget_sound s"
  then show "budget_sound (restart_snapshot epoch s)"
    by (simp add: budget_sound_def restart_receipts)
next
  fix s E t assume "reviewed E s t"
  then show "budget_sound t" by (auto simp: reviewed_def intro: validated_budget_sound)
next
  fix s t assume "budget_sound s" "refacts s t"
  then show "budget_sound t" using refacts_frames(4) by (metis budget_sound_def)
qed

section \<open>Permits\<close>

text \<open>A restarted writer has no live permit and no approval that could still be used.\<close>

lemma restart_no_permit:
  assumes "ordered (sn_assignments s)" "map_get (sn_assignments (restart_snapshot epoch s)) k = Some a"
  shows "as_state a \<noteq> A_Admitted \<and> as_state a \<noteq> A_Running"
proof -
  have "as_state (if interrupted z then bump q (z\<lparr>as_state := A_OutcomeUnknown\<rparr>) else z)
      \<notin> {A_Admitted, A_Running}" for z q
    by (auto simp: interrupted_def bump_def)
  with assms(2) show ?thesis unfolding restart_attempts [OF assms(1)] by auto
qed

lemma expire_approval:
  "rq_kind (expire q r) = Approval act fp \<Longrightarrow>
     rq_status (expire q r) \<noteq> R_Open \<and> rq_status (expire q r) \<noteq> R_Approved"
  by (auto simp: expire_def split: if_splits request_kind.splits)

lemma restart_no_approval:
  assumes "map_get (sn_requests (restart_snapshot epoch s)) k = Some r" "rq_kind r = Approval act fp"
  shows "rq_status r \<noteq> R_Open \<and> rq_status r \<noteq> R_Approved"
proof -
  from assms(1) obtain q r0 where "r = expire q r0" by (auto simp: restart_snapshot_def Let_def)
  with assms(2) expire_approval show ?thesis by metis
qed

lemma authorize_tool_Inr:
  assumes "authorize_tool au tool st = Inr u" "st_published st = Some (h, s)"
  shows "\<exists>aid a. map_get (sn_assignments s) aid = Some a \<and> need_worker au a = Inr () \<and>
    active_permit s a = Inr () \<and> tool \<in> set (as_allowed_tools a)"
  using assms by (auto simp: authorize_tool_def published_def Let_def call_simps split: principal.splits)

end
