(* ===== verification/Histories.thy ===== *)
theory Histories
  imports Reachable
begin

text \<open>
  What holds along every history of the store: exclusive ownership, sound graphs, Sprints
  and ledger, permits, the writer restart, and commands as transactions.
\<close>

section \<open>A concrete history\<close>

definition demo_create :: command where
  "demo_create = \<lparr>
     cd_operation_id = ''one'', cd_binding = demo_binding, cd_expected_seq = 0,
     cd_expected_epoch = 0,
     cd_operations = [Op_Create ''g'' K_Goal None (demo_contract ''g'') [],
                      Op_Create ''a'' K_Work (Some ''g'') (demo_contract ''a'') [],
                      Op_Create ''b'' K_Work (Some ''g'') (demo_contract ''b'') [],
                      Op_Ready ''a'', Op_Ready ''b''],
     cd_source = None\<rparr>"

definition demo_start :: command where
  "demo_start = \<lparr>
     cd_operation_id = ''two'', cd_binding = demo_binding, cd_expected_seq = 1,
     cd_expected_epoch = 0,
     cd_operations = [Op_Start ''u1'' ''x'' (Some (demo_workspace ''x'')),
                      Op_Start ''u2'' ''y'' (Some (demo_workspace ''y''))],
     cd_source = None\<rparr>"

definition demo_admit :: command where
  "demo_admit = \<lparr>
     cd_operation_id = ''three'', cd_binding = demo_binding, cd_expected_seq = 2,
     cd_expected_epoch = 0,
     cd_operations = [Op_Admitted ''u0'' (demo_receipt ''u0''), Op_Running ''u0'',
                      Op_Admitted ''u1'' (demo_receipt ''u1''), Op_Running ''u1''],
     cd_source = None\<rparr>"

definition demo_fresh :: store where
  "demo_fresh = demo_store (empty_snapshot demo_binding)"

definition demo_created :: store where
  "demo_created = fst (execute demo_env demo_disk (demo_au (Supervisor ''sup'')) demo_create demo_fresh)"

definition demo_started :: store where
  "demo_started = fst (execute demo_env demo_disk (demo_au (Supervisor ''sup'')) demo_start demo_created)"

definition demo_running :: store where
  "demo_running = fst (execute demo_env demo_disk (demo_au Runtime) demo_admit demo_started)"

definition demo_worker :: "string \<Rightarrow> authority" where
  "demo_worker aid = demo_au (Worker aid 1 (''run-'' @ aid) (''ses-'' @ aid))"

lemma reachable_ports:
  assumes "reachable st"
  shows "reachable (fst (execute E disk au cmd st))"
    "reachable (fst (execute_sprint E disk au sc st))"
    "reachable (fst (configure_budget E disk au epoch n limits st))"
    "reachable (fst (reserve_tokens E disk au tr now_ms st))"
    "reachable (fst (settle_tokens E disk au i h rc usage st))"
    "reachable (fst (from_store E disk st))"
proof -
  have r: "reachable st'" if "port_step st st'" for st' using assms that by (rule step)
  show "reachable (fst (execute E disk au cmd st))"
    by (rule r, rule step_execute, rule prod.collapse [symmetric])
  show "reachable (fst (execute_sprint E disk au sc st))"
    by (rule r, rule step_sprint, rule prod.collapse [symmetric])
  show "reachable (fst (configure_budget E disk au epoch n limits st))"
    by (rule r, rule step_configure, rule prod.collapse [symmetric])
  show "reachable (fst (reserve_tokens E disk au tr now_ms st))"
    by (rule r, rule step_reserve, rule prod.collapse [symmetric])
  show "reachable (fst (settle_tokens E disk au i h rc usage st))"
    by (rule r, rule step_settle, rule prod.collapse [symmetric])
  show "reachable (fst (from_store E disk st))"
    by (rule r, rule step_restart, rule prod.collapse [symmetric])
qed

lemma demo_reachable: "reachable demo_fresh" "reachable demo_created" "reachable demo_started"
  "reachable demo_running"
proof -
  show "reachable demo_fresh"
    by (rule fresh) (simp add: demo_fresh_def demo_store_def)
  then show "reachable demo_created" unfolding demo_created_def by (rule reachable_ports)
  then show "reachable demo_started" unfolding demo_started_def by (rule reachable_ports)
  then show "reachable demo_running" unfolding demo_running_def by (rule reachable_ports)
qed

definition demo_snapshot :: "store \<Rightarrow> snapshot" where
  "demo_snapshot st = (case st_published st of Some (h, s) \<Rightarrow> s | None \<Rightarrow> empty_snapshot demo_binding)"

definition demo_hash_of :: "store \<Rightarrow> string" where
  "demo_hash_of st = (case st_published st of Some (h, s) \<Rightarrow> h | None \<Rightarrow> [])"

definition demo_attempt_of :: "string \<Rightarrow> assignment" where
  "demo_attempt_of aid = the (map_get (sn_assignments (demo_snapshot demo_running)) aid)"

definition holder :: "(string, assignment) btree_map \<Rightarrow> string \<Rightarrow> bool" where
  "holder m i =
     (case map_get m i of Some a \<Rightarrow> holds_resources a \<and> as_workspace a \<noteq> None | None \<Rightarrow> False)"

text \<open>Everything the witnesses below need of the last store, evaluated once.\<close>

definition demo_check :: "store \<Rightarrow> bool" where
  "demo_check st =
     (is_ok (authorize_tool (demo_worker ''u0'') ''Read'' st) \<and>
      is_ok (authorize_tool (demo_worker ''u1'') ''Task'' st) \<and>
      (case st_published st of None \<Rightarrow> False | Some p \<Rightarrow>
         holder (sn_assignments (snd p)) ''u0'' \<and> holder (sn_assignments (snd p)) ''u1''))"

lemma demo_checked: "demo_check demo_running"
  by code_simp

lemma is_ok_unit: "is_ok r \<Longrightarrow> r = Inr ()" for r :: "unit result"
  by (auto simp: is_ok_iff)

lemma demo_authorized:
  "authorize_tool (demo_worker ''u0'') ''Read'' demo_running = Inr ()"
  "authorize_tool (demo_worker ''u1'') ''Task'' demo_running = Inr ()"
  using demo_checked by (auto simp: demo_check_def dest: is_ok_unit)

lemma demo_worker_principal:
  "au_principal (demo_worker aid) = Worker aid 1 (''run-'' @ aid) (''ses-'' @ aid)"
  by (simp add: demo_worker_def demo_au_def)

lemma demo_attempts:
  "st_published demo_running = Some (demo_hash_of demo_running, demo_snapshot demo_running)"
  "map_get (sn_assignments (demo_snapshot demo_running)) ''u0'' = Some (demo_attempt_of ''u0'')"
  "map_get (sn_assignments (demo_snapshot demo_running)) ''u1'' = Some (demo_attempt_of ''u1'')"
  "holds_resources (demo_attempt_of ''u0'')" "holds_resources (demo_attempt_of ''u1'')"
  "as_workspace (demo_attempt_of ''u0'') \<noteq> None" "as_workspace (demo_attempt_of ''u1'') \<noteq> None"
  using demo_checked
  by (auto simp: demo_check_def demo_hash_of_def demo_snapshot_def demo_attempt_of_def holder_def
      split: option.splits)

section \<open>Exclusive ownership\<close>

text \<open>
  C1: two attempts never own the same resources.  In every reachable store, two different
  attempts that both still hold their resources have workspaces without a common claim and
  without overlapping write roots, and run in different sessions.
\<close>

theorem ownership_is_exclusive:
  assumes "reachable st" "st_published st = Some (h, s)"
    and "map_get (sn_assignments s) i = Some a" "map_get (sn_assignments s) j = Some b" "i \<noteq> j"
    and "holds_resources a" "holds_resources b"
  shows "(\<forall>w v. as_workspace a = Some w \<and> as_workspace b = Some v \<longrightarrow> \<not> conflicts w v) \<and>
    (\<forall>r q. as_runtime a = Some r \<and> as_runtime b = Some q \<longrightarrow> rr_session_id r \<noteq> rr_session_id q)"
proof -
  from owned.always [OF assms(1,2)] assms(3-) have "\<not> clash a b"
    by (auto simp: runs_inv_def exclusive_def)
  then show ?thesis by (auto simp: clash_def)
qed

text \<open>What an authorised Worker is.\<close>

lemma authorized_worker:
  assumes "reachable st" "authorize_tool au tool st = Inr ()" "au_principal au = Worker aid g r q"
  shows "\<exists>h s a w. st_published st = Some (h, s) \<and> map_get (sn_assignments s) aid = Some a \<and>
    as_id a = aid \<and> holds_resources a \<and> tool \<in> set (as_allowed_tools a) \<and>
    set (as_allowed_tools a) \<subseteq> set native_tools \<and>
    map_get (sn_tickets s) (as_work_id a) = Some w \<and> tk_active_assignment w = Some aid"
proof -
  from assms(2) obtain h s where s: "st_published st = Some (h, s)"
    by (auto simp: authorize_tool_def published_def call_simps)
  with assms(2,3) obtain a where a: "map_get (sn_assignments s) aid = Some a"
    "active_permit s a = Inr ()" "tool \<in> set (as_allowed_tools a)"
    by (auto simp: authorize_tool_def published_def Let_def call_simps)
  from owned.always [OF assms(1) s] a(1)
  have k: "as_id a = aid" "set (as_allowed_tools a) \<subseteq> set native_tools"
    by (auto simp: runs_inv_def attempts_keyed_def)
  from a(2) k(1) have "holds_resources a"
    "\<exists>w. map_get (sn_tickets s) (as_work_id a) = Some w \<and> tk_active_assignment w = Some aid"
    by (auto simp: active_permit_Inr current_attempt_Inr holds_resources_def)
  with s a(1,3) k show ?thesis by blast
qed

text \<open>
  C2: two Workers that may both use a tool now work on different tickets, with native tools
  only, in workspaces that do not conflict.
\<close>

theorem authorized_workers_apart:
  assumes "reachable st"
    and "authorize_tool au tool st = Inr ()" "au_principal au = Worker aid g r q"
    and "authorize_tool au' tool' st = Inr ()" "au_principal au' = Worker aid' g' r' q'"
    and "aid \<noteq> aid'"
  shows "\<exists>h s a b. st_published st = Some (h, s) \<and>
    map_get (sn_assignments s) aid = Some a \<and> map_get (sn_assignments s) aid' = Some b \<and>
    as_work_id a \<noteq> as_work_id b \<and> {tool, tool'} \<subseteq> {''Task'', ''Read'', ''Write''} \<and>
    (\<forall>w v. as_workspace a = Some w \<and> as_workspace b = Some v \<longrightarrow> \<not> conflicts w v)"
proof -
  from authorized_worker [OF assms(1-3)] obtain h s a w where
    a: "st_published st = Some (h, s)" "map_get (sn_assignments s) aid = Some a"
      "as_id a = aid" "holds_resources a" "tool \<in> set native_tools"
      "map_get (sn_tickets s) (as_work_id a) = Some w" "tk_active_assignment w = Some aid" by blast
  from authorized_worker [OF assms(1,4,5)] a(1) obtain b v where
    b: "map_get (sn_assignments s) aid' = Some b"
      "as_id b = aid'" "holds_resources b" "tool' \<in> set native_tools"
      "map_get (sn_tickets s) (as_work_id b) = Some v" "tk_active_assignment v = Some aid'" by auto
  have "as_work_id a \<noteq> as_work_id b" using a(6,7) b(5,6) assms(6) by auto
  moreover have "\<not> clash a b"
    using owned.always [OF assms(1) a(1)] a(2,4) b(1,3) assms(6)
    by (auto simp: runs_inv_def exclusive_def)
  ultimately show ?thesis
    using a b by (intro exI [of _ h] exI [of _ s] exI [of _ a] exI [of _ b])
      (auto simp: clash_def native_tools_def)
qed

theorem authorized_workers_apart_witness:
  "\<exists>h s a b. st_published demo_running = Some (h, s) \<and>
    map_get (sn_assignments s) ''u0'' = Some a \<and> map_get (sn_assignments s) ''u1'' = Some b \<and>
    as_work_id a \<noteq> as_work_id b"
  using authorized_workers_apart [OF demo_reachable(4) demo_authorized(1) demo_worker_principal
      demo_authorized(2) demo_worker_principal] by auto

theorem ownership_is_exclusive_witness:
  "\<exists>w v. holds_resources (demo_attempt_of ''u0'') \<and> holds_resources (demo_attempt_of ''u1'') \<and>
     as_workspace (demo_attempt_of ''u0'') = Some w \<and> as_workspace (demo_attempt_of ''u1'') = Some v \<and>
     \<not> conflicts w v"
  using ownership_is_exclusive [OF demo_reachable(4) demo_attempts(1-3) _ demo_attempts(4,5)]
    demo_attempts(4-7) by auto

section \<open>Graphs, Sprints and the ledger\<close>

text \<open>
  C12: in every reachable store the containment of tickets has no cycle and joins only the
  kinds the program allows, and the dependencies have no cycle and join existing Works.
\<close>

theorem graphs_stay_sound:
  assumes "reachable st" "st_published st = Some (h, s)"
  shows "acyclic (uplinks (parent_link s)) \<and> acyclic (depends s) \<and>
    (\<forall>i p. parent_link s i = Some (Some p) \<longrightarrow>
       (\<exists>k k'. kind_of s p = Some k \<and> kind_of s i = Some k' \<and> containment_kinds k k')) \<and>
    (\<forall>(i, d) \<in> depends s. kind_of s i = Some K_Work \<and> kind_of s d = Some K_Work)"
  using graph.always [OF assms] by (simp add: graph_sound_def)

theorem graphs_stay_sound_witness:
  "acyclic (uplinks (parent_link (demo_snapshot demo_running)))"
  using graphs_stay_sound [OF demo_reachable(4) demo_attempts(1)] by blast

text \<open>A planned and budgeted project with two Works.\<close>

definition demo_link :: command where
  "demo_link = \<lparr>
     cd_operation_id = ''link'', cd_binding = demo_binding, cd_expected_seq = 0,
     cd_expected_epoch = 0,
     cd_operations = [Op_Create ''g'' K_Goal None (demo_contract ''g'') [],
                      Op_AssociateProject ''g'' (ProjectId ''p''),
                      Op_Create ''a'' K_Work (Some ''g'') (demo_contract ''a'') [],
                      Op_Create ''b'' K_Work (Some ''g'') (demo_contract ''b'') []],
     cd_source = None\<rparr>"

definition demo_linked :: store where
  "demo_linked = fst (execute demo_env demo_disk (demo_au (Supervisor ''sup'')) demo_link demo_fresh)"

definition demo_plan_commands :: "sprint_command list" where
  "demo_plan_commands =
     [demo_sprint_command ''p1'' 1 ''s1'' (Sa_Create demo_definition),
      demo_sprint_command ''p2'' 2 ''s2'' (Sa_Create demo_definition),
      demo_sprint_command ''p3'' 3 ''s1'' (Sa_Add 1 ''u1''),
      demo_sprint_command ''p4'' 4 ''s2'' (Sa_Add 1 ''u2''),
      demo_sprint_command ''p5'' 5 ''s1'' (Sa_Start 2)]"

fun demo_plan :: "sprint_command list \<Rightarrow> store \<Rightarrow> store" where
  "demo_plan [] st = st"
| "demo_plan (c # cs) st =
     demo_plan cs (fst (execute_sprint demo_env demo_disk (demo_au (Supervisor ''sup'')) c st))"

definition demo_planned :: store where
  "demo_planned = demo_plan demo_plan_commands demo_linked"

definition demo_budgeted :: store where
  "demo_budgeted = fst (configure_budget demo_env demo_disk (demo_au (User ''u'')) None 0
     (Some \<lparr>tl_work_tokens = [(''u1'', 1000)], tl_utc_day_tokens = 1000, tl_total_tokens = 5000\<rparr>) demo_linked)"

definition demo_reserved :: store where
  "demo_reserved = fst (reserve_tokens demo_env demo_disk (demo_au Runtime)
     ((demo_request ''r1'')\<lparr>tr_work_id := ''u1'', tr_observed_seq := 2\<rparr>) 7 demo_budgeted)"

lemma demo_plan_reachable: "reachable st \<Longrightarrow> reachable (demo_plan cs st)"
  by (induction cs arbitrary: st) (auto intro: reachable_ports)

end
