(* ===== verification/Continuity.thy ===== *)
theory Continuity
  imports Histories
begin

text \<open>
  The plan and the ledger along every history, and the restart of the writer.
\<close>

section \<open>Sprints and the ledger\<close>

text \<open>
  C14: in every reachable store no Work is a member of two Sprints that are not closed, and
  a project has at most one active Sprint.
\<close>

theorem sprints_stay_apart:
  assumes "reachable st" "st_published st = Some (h, s)"
    and "map_get (sn_sprints s) i = Some x" "map_get (sn_sprints s) j = Some y" "i \<noteq> j"
  shows "(sp_status x \<noteq> Sp_Closed \<and> sp_status y \<noteq> Sp_Closed \<longrightarrow>
      set (sp_members x) \<inter> set (sp_members y) = {}) \<and>
    (sp_status x = Sp_Active \<and> sp_status y = Sp_Active \<longrightarrow> sp_project_id x \<noteq> sp_project_id y)"
  using sprints.always [OF assms(1,2)] assms(3-)
  by (auto simp: sprints_apart_def apart_def open_sprint_def)

definition demo_sprint_check :: "store \<Rightarrow> bool" where
  "demo_sprint_check st =
     (case st_published st of None \<Rightarrow> False | Some p \<Rightarrow>
        (case (map_get (sn_sprints (snd p)) (SprintId (ProjectId ''s1'')),
               map_get (sn_sprints (snd p)) (SprintId (ProjectId ''s2''))) of
           (Some x, Some y) \<Rightarrow> sp_status x = Sp_Active \<and> sp_status y = Sp_Planned \<and>
             sp_members x = [''u1''] \<and> sp_members y = [''u2'']
         | _ \<Rightarrow> False))"

lemma demo_sprints: "demo_sprint_check demo_planned"
  by code_simp

lemma demo_more_reachable: "reachable demo_planned" "reachable demo_reserved"
proof -
  have l: "reachable demo_linked" unfolding demo_linked_def by (rule reachable_ports) (rule demo_reachable)
  then show "reachable demo_planned" unfolding demo_planned_def by (rule demo_plan_reachable)
  from l have "reachable demo_budgeted" unfolding demo_budgeted_def by (rule reachable_ports)
  then show "reachable demo_reserved" unfolding demo_reserved_def by (rule reachable_ports)
qed

theorem sprints_stay_apart_witness:
  "\<exists>h s x y. st_published demo_planned = Some (h, s) \<and>
     map_get (sn_sprints s) (SprintId (ProjectId ''s1'')) = Some x \<and>
     map_get (sn_sprints s) (SprintId (ProjectId ''s2'')) = Some y \<and>
     set (sp_members x) \<inter> set (sp_members y) = {}"
proof -
  from demo_sprints obtain h s x y where s: "st_published demo_planned = Some (h, s)"
    "map_get (sn_sprints s) (SprintId (ProjectId ''s1'')) = Some x"
    "map_get (sn_sprints s) (SprintId (ProjectId ''s2'')) = Some y"
    and st: "sp_status x = Sp_Active" "sp_status y = Sp_Planned"
    by (auto simp: demo_sprint_check_def split: option.splits)
  have "SprintId (ProjectId ''s1'') \<noteq> SprintId (ProjectId ''s2'')" by simp
  from sprints_stay_apart [OF demo_more_reachable(1) s this] s st show ?thesis by auto
qed

text \<open>
  C13: in every reachable store the token ledger adds up.  The charged total, the charge of the
  current day and the charge of each Work are the sums over all reservations, over those of
  that day and over those of that Work; a reservation is charged no more than its caps; and
  the three are within the configured limits.
\<close>

theorem ledger_stays_sound:
  assumes "reachable st" "st_published st = Some (h, s)" "sn_execution_budget s = Some b"
  shows "unat (tb_total_charged b) = spent (\<lambda>_. True) b \<and>
    unat (tb_daily_charged b) = spent (\<lambda>v. Some (tv_utc_day v) = tb_current_utc_day b) b \<and>
    (\<forall>w. unat (charged_so_far (tb_work_charged b) w) = spent (for_work w) b) \<and>
    (\<forall>v \<in> set (vals (tb_reservations b)). charged v \<le> cap_of (tv_request v)) \<and>
    (\<forall>l. tb_limits b = Some l \<longrightarrow> within_limits b l)"
  using ledger.always [OF assms(1,2)] assms(3)
  by (auto simp: budget_sound_def ledger_sound_def on_day_def [abs_def] split: option.splits)

definition demo_budget_check :: "store \<Rightarrow> bool" where
  "demo_budget_check st =
     (case st_published st of None \<Rightarrow> False | Some p \<Rightarrow>
        (case sn_execution_budget (snd p) of None \<Rightarrow> False | Some b \<Rightarrow>
           tb_total_charged b = 150))"

theorem ledger_stays_sound_witness:
  "\<exists>h s b. st_published demo_reserved = Some (h, s) \<and> sn_execution_budget s = Some b \<and>
     spent (\<lambda>_. True) b = 150"
proof -
  have "demo_budget_check demo_reserved" by code_simp
  then obtain h s b where s: "st_published demo_reserved = Some (h, s)"
    "sn_execution_budget s = Some b" and n: "tb_total_charged b = 150"
    by (auto simp: demo_budget_check_def split: option.splits)
  from ledger_stays_sound [OF demo_more_reachable(2) s] s n show ?thesis by auto
qed

section \<open>Restarting the writer\<close>

lemma restarted:
  assumes "from_store E disk st = (st', Inr ())" "st_health st' = Writable"
  shows "\<exists>h s h'. st_published st = Some (h, s) \<and> validate_snapshot E s = Inr () \<and>
    checked_add (sn_authority_epoch s) 1 = Some (sn_authority_epoch s + 1) \<and>
    st_published st' = Some (h', with_facts_seq (restart_snapshot (sn_authority_epoch s + 1) s))"
proof -
  from assms(1) obtain su where su: "check_opened E st = Inr su"
    and r: "run (publish disk) (decide_restart E) su = (st', Inr ())"
    by (auto simp: from_store_def split: sum.splits)
  from run_Inr [OF r] consider "decide_restart E su = Inr (Reply ())" "st' = su"
    | t h' where "decide_restart E su = Inr (Commit t ())" "st_health su = Writable"
        "st' = su\<lparr>st_published := Some (h', with_facts_seq t)\<rparr>" by blast
  then show ?thesis
  proof cases
    case 1
    with assms(2) show ?thesis by (auto simp: decide_restart_def call_simps)
  next
    case 2
    from 2(1,2) obtain p where p: "st_published su = Some p"
      "checked_add (sn_authority_epoch (snd p)) 1 = Some (sn_authority_epoch (snd p) + 1)"
      "t = restart_snapshot (sn_authority_epoch (snd p) + 1) (snd p)"
      by (auto simp: decide_restart_def call_simps checked_add_def split: if_splits)
    with check_opened_published [OF su]
    have "st_published st = Some (fst p, snd p)" by simp
    moreover have "validate_snapshot E (snd p) = Inr ()" by (rule check_opened_valid [OF su 2(2) p(1)])
    ultimately show ?thesis using p(2,3) 2(3) by (intro exI [of _ "fst p"] exI [of _ "snd p"] exI [of _ h']) simp
  qed
qed

lemma holds_resources_interrupted:
  "holds_resources (if interrupted a then bump q (a\<lparr>as_state := A_OutcomeUnknown\<rparr>) else a) =
     (holds_resources a \<or> interrupted a \<and> (\<not> as_process_stopped a \<or> uncertain (as_effects a)))"
  by (auto simp: holds_resources_def bump_def interrupted_def)

text \<open>
  C3: opening the store again fences every permit.  After a successful restart of a reachable
  store the authority epoch has grown by one; no Worker may use a tool; no approval is open or
  granted; and every attempt that owned its workspace still owns it, so that nothing else can
  be started over it before the runtime has reported what became of it.
\<close>

theorem restart_fences_permits:
  assumes "reachable st" "from_store E disk st = (st', Inr ())" "st_health st' = Writable"
  shows "\<exists>h s h' t. st_published st = Some (h, s) \<and> st_published st' = Some (h', t) \<and>
    unat (sn_authority_epoch t) = unat (sn_authority_epoch s) + 1 \<and>
    (\<forall>au tool. authorize_tool au tool st' \<noteq> Inr ()) \<and>
    (\<forall>k q act fp. map_get (sn_requests t) k = Some q \<and> rq_kind q = Approval act fp \<longrightarrow>
       rq_status q \<noteq> R_Open \<and> rq_status q \<noteq> R_Approved) \<and>
    (\<forall>i a. map_get (sn_assignments s) i = Some a \<and> holds_resources a \<longrightarrow>
       (\<exists>a'. map_get (sn_assignments t) i = Some a' \<and> holds_resources a' \<and>
          as_workspace a' = as_workspace a \<and> as_runtime a' = as_runtime a))"
proof -
  from restarted [OF assms(2,3)] obtain h s h' where s: "st_published st = Some (h, s)"
    and q: "checked_add (sn_authority_epoch s) 1 = Some (sn_authority_epoch s + 1)"
    and t: "st_published st' = Some (h', with_facts_seq (restart_snapshot (sn_authority_epoch s + 1) s))"
    by blast
  let ?t = "with_facts_seq (restart_snapshot (sn_authority_epoch s + 1) s)"
  have ord: "ordered (sn_assignments s)"
    using owned.always [OF assms(1) s] by (simp add: runs_inv_def)
  have epoch: "unat (sn_authority_epoch ?t) = unat (sn_authority_epoch s) + 1"
    using q by (simp add: restart_receipts checked_add_Some)
  have "authorize_tool au tool st' \<noteq> Inr ()" for au tool
  proof
    assume "authorize_tool au tool st' = Inr ()"
    from authorize_tool_Inr [OF this t] obtain aid a where
      "map_get (sn_assignments (restart_snapshot (sn_authority_epoch s + 1) s)) aid = Some a"
      "active_permit ?t a = Inr ()" by auto
    with restart_no_permit [OF ord] show False by (auto simp: active_permit_Inr current_attempt_Inr)
  qed
  moreover have "\<exists>a'. map_get (sn_assignments ?t) i = Some a' \<and> holds_resources a' \<and>
      as_workspace a' = as_workspace a \<and> as_runtime a' = as_runtime a"
    if "map_get (sn_assignments s) i = Some a" "holds_resources a" for i a
    using that holds_resources_interrupted by (simp add: restart_attempts [OF ord]) (simp add: bump_def)
  moreover have "rq_status r \<noteq> R_Open \<and> rq_status r \<noteq> R_Approved"
    if "map_get (sn_requests ?t) k = Some r" "rq_kind r = Approval act fp" for k r act fp
    using that restart_no_approval by auto
  ultimately show ?thesis
    using s t epoch by (intro exI [of _ h] exI [of _ s] exI [of _ h'] exI [of _ ?t]) blast
qed

theorem restart_fences_permits_witness:
  "authorize_tool (demo_worker ''u0'') ''Read'' demo_running = Inr () \<and>
   (\<exists>st'. from_store demo_env demo_disk demo_running = (st', Inr ()) \<and>
      authorize_tool (demo_worker ''u0'') ''Read'' st' \<noteq> Inr ())"
proof -
  have "(\<lambda>(st', r). st_health st' = Writable \<and> is_ok r) (from_store demo_env demo_disk demo_running)"
    by code_simp
  then obtain st' where r: "from_store demo_env demo_disk demo_running = (st', Inr ())"
    and h: "st_health st' = Writable" by (auto simp: is_ok_iff split: prod.splits)
  from restart_fences_permits [OF demo_reachable(4) r h] r demo_authorized(1) show ?thesis by blast
qed

end
