(* ===== verification/Transactions.thy ===== *)
theory Transactions
  imports Histories
begin

text \<open>
  Commands as transactions on the store: a failed call publishes nothing, a command commits
  at one sequence number only, its receipt answers every retry, and what an attempt has
  recorded is never rewritten.
\<close>

section \<open>Failure\<close>

text \<open>
  A call that leaves the published snapshot alone, and the store writable unless the disk
  failed after the HEAD rename.
\<close>

definition unpublished :: "disk \<Rightarrow> store \<Rightarrow> store \<Rightarrow> bool" where
  "unpublished disk st st' =
     (st_published st' = st_published st \<and>
      (st_health st = Writable \<longrightarrow> st_health st' = Writable \<or> (\<exists>s m. disk s = Renamed m)))"

lemma unpublished_refl [simp]: "unpublished disk st st"
  by (simp add: unpublished_def)















section \<open>One sequence number, one command\<close>

lemma execute_fresh:
  assumes "execute E disk au cmd st = (st', Inr r)" "st_published st = Some (h, s)"
    and "map_get (sn_receipts s) (cd_operation_id cmd) = None"
  shows "\<exists>bytes t h'. perform E (st_root st) au cmd bytes s = Inr (t, r) \<and>
    canonical_bytes E (Pl_Command cmd) = Inr bytes \<and>
    cd_expected_seq cmd = sn_seq s \<and> cd_expected_epoch cmd = sn_authority_epoch s \<and>
    st' = st\<lparr>st_published := Some (h', with_facts_seq t)\<rparr>"
proof -
  from run_Inr [OF assms(1) [unfolded execute_def]] consider
      "decide_execute E au cmd st = Inr (Reply r)"
    | t h' where "decide_execute E au cmd st = Inr (Commit t r)"
        "st' = st\<lparr>st_published := Some (h', with_facts_seq t)\<rparr>" by blast
  then show ?thesis
  proof cases
    case 1
    from decide_execute_Reply [OF this] assms(2,3) show ?thesis by simp
  next
    case 2
    from decide_execute_Commit [OF 2(1)] assms(2) 2(2) show ?thesis by auto
  qed
qed

text \<open>
  C15: a command commits only on the sequence and the epoch it was written for, and then
  advances the sequence by one (modulo 2 ^ 64), adds exactly its own receipt, and changes
  neither the Sprints, nor the token ledger, nor the epoch, nor the scope binding.
\<close>

theorem command_commits_once:
  assumes "execute E disk au cmd st = (st', Inr r)" "st_published st = Some (h, s)"
    and "map_get (sn_receipts s) (cd_operation_id cmd) = None"
  shows "cd_expected_seq cmd = sn_seq s \<and> cd_expected_epoch cmd = sn_authority_epoch s \<and>
    (\<exists>h' t. st_published st' = Some (h', t) \<and> sn_seq t = sn_seq s + 1 \<and>
       sn_receipts t = map_put (cd_operation_id cmd) r (sn_receipts s) \<and>
       or_principal r = identity au \<and> or_committed_seq r = sn_seq t \<and>
       sn_sprints t = sn_sprints s \<and> sn_execution_budget t = sn_execution_budget s \<and>
       sn_authority_epoch t = sn_authority_epoch s \<and> sn_binding t = sn_binding s)"
proof -
  from execute_fresh [OF assms] obtain bytes t h' where
    p: "perform E (st_root st) au cmd bytes s = Inr (t, r)"
      "cd_expected_seq cmd = sn_seq s" "cd_expected_epoch cmd = sn_authority_epoch s"
      "st' = st\<lparr>st_published := Some (h', with_facts_seq t)\<rparr>" by blast
  show ?thesis using perform_receipt [OF p(1)] p(2-) by simp
qed

text \<open>
  No lost update.   Of two commands written for the same sequence at most one commits:
  after the first the second fails and leaves the store as it is, whoever sends it.
\<close>

theorem no_lost_update:
  assumes "execute E disk au cmd st = (st', Inr r)" "st_published st = Some (h, s)"
    and "map_get (sn_receipts s) (cd_operation_id cmd) = None"
    and "map_get (sn_receipts s) (cd_operation_id cmd') = None"
    and "cd_operation_id cmd' \<noteq> cd_operation_id cmd" "cd_expected_seq cmd' = cd_expected_seq cmd"
  shows "\<exists>e. execute E' disk' au' cmd' st' = (st', Inl e)"
proof -
  from execute_fresh [OF assms(1-3)] obtain bytes t h' where
    p: "perform E (st_root st) au cmd bytes s = Inr (t, r)" "cd_expected_seq cmd = sn_seq s"
    and st': "st_published st' = Some (h', with_facts_seq t)" by auto
  note q = perform_receipt [OF p(1)]
  from q(6) assms(4,5) have none: "map_get (sn_receipts t) (cd_operation_id cmd') = None" by simp
  have "sn_seq s + 1 \<noteq> sn_seq s" by simp
  then have "cd_expected_seq cmd' \<noteq> sn_seq t" using q(5) p(2) assms(6) by metis
  then have "\<exists>e. decide_execute E' au' cmd' st' = Inl e"
    using st' none
    by (cases "decide_execute E' au' cmd' st'"; cases "projr (decide_execute E' au' cmd' st')")
      (auto dest!: decide_execute_Commit decide_execute_Reply)
  then show ?thesis by (auto simp: execute_def run_def)
qed

lemma demo_created_ok:
  "\<exists>r. execute demo_env demo_disk (demo_au (Supervisor ''sup'')) demo_create demo_fresh = (demo_created, Inr r)"
proof -
  have "is_ok (snd (execute demo_env demo_disk (demo_au (Supervisor ''sup'')) demo_create demo_fresh))"
    by code_simp
  then show ?thesis
    unfolding demo_created_def by (metis is_ok_iff prod.collapse)
qed

lemma demo_fresh_published: "st_published demo_fresh = Some (''c'', empty_snapshot demo_binding)"
  by (simp add: demo_fresh_def demo_store_def)

lemma demo_fresh_receipts: "map_get (sn_receipts (empty_snapshot demo_binding)) i = None"
  by (simp add: empty_snapshot_def)

theorem command_commits_once_witness:
  "\<exists>h' t. st_published demo_created = Some (h', t) \<and> sn_seq t = 1"
proof -
  from demo_created_ok obtain r where
    r: "execute demo_env demo_disk (demo_au (Supervisor ''sup'')) demo_create demo_fresh = (demo_created, Inr r)"
    by blast
  have "sn_seq (empty_snapshot demo_binding) = 0" by (simp add: empty_snapshot_def)
  with command_commits_once [OF r demo_fresh_published demo_fresh_receipts] show ?thesis by auto
qed

theorem no_lost_update_witness:
  "\<exists>e. execute demo_env demo_disk (demo_au (Supervisor ''sup'')) demo_link demo_created = (demo_created, Inl e)"
proof -
  from demo_created_ok obtain r where
    r: "execute demo_env demo_disk (demo_au (Supervisor ''sup'')) demo_create demo_fresh = (demo_created, Inr r)"
    by blast
  have "cd_operation_id demo_link \<noteq> cd_operation_id demo_create"
    "cd_expected_seq demo_link = cd_expected_seq demo_create"
    by (simp_all add: demo_link_def demo_create_def)
  from no_lost_update [OF r demo_fresh_published demo_fresh_receipts demo_fresh_receipts this]
  show ?thesis .
qed

section \<open>Retries\<close>

lemma execute_answered:
  assumes "execute E disk au cmd st = (st', Inr r)" "port_step\<^sup>*\<^sup>* st' st2" "st_published st2 = Some (h, s)"
  shows "map_get (sn_receipts s) (cd_operation_id cmd) = Some r" "command_matches E au cmd r"
proof -
  from ex.answered [OF assms(1) [unfolded execute_def]] obtain h' s' where
    s': "st_published st' = Some (h', s')" "map_get (sn_receipts s') (cd_operation_id cmd) = Some r"
    and m: "command_matches E au cmd r" by blast
  from steps_receipts [OF assms(2) s'] assms(3)
  show "map_get (sn_receipts s) (cd_operation_id cmd) = Some r" by auto
  from m show "command_matches E au cmd r" .
qed

text \<open>
  C10: a command executes exactly once.  After it has succeeded, and whatever any port has
  done since, sending it again returns the same receipt and changes nothing, as long as the
  caller's authority still holds.
\<close>

theorem execute_exactly_once:
  assumes "execute E disk au cmd st = (st', Inr r)" "port_step\<^sup>*\<^sup>* st' st2"
    and "st_published st2 = Some (h, s)" "command_admitted E au cmd s"
  shows "execute E disk2 au cmd st2 = (st2, Inr r)"
  using ex.retried [OF assms(1) [unfolded execute_def] assms(3,4) execute_answered(1) [OF assms(1-3)]]
  by (auto simp: execute_def)

text \<open>
  An operation id names one command of one subject for ever.  After a command has
  succeeded, the same id with another subject or with other request bytes (up to SHA-256)
  is refused and changes nothing.
\<close>

theorem operation_id_names_one_command:
  assumes "execute E disk au cmd st = (st', Inr r)" "port_step\<^sup>*\<^sup>* st' st2"
    and "st_published st2 = Some (h, s)" "cd_operation_id cmd' = cd_operation_id cmd"
    and "identity au' \<noteq> identity au \<or> digest E (Pl_Command cmd') \<noteq> digest E (Pl_Command cmd)"
  shows "\<exists>e. execute E disk2 au' cmd' st2 = (st2, Inl e)"
proof -
  note a = execute_answered [OF assms(1-3)]
  have "\<not> command_matches E au' cmd' r"
    using a(2) assms(5) by (auto simp: command_matches_def)
  from ex.id_taken [OF assms(3) _ this] a(1) assms(4) show ?thesis by (simp add: execute_def)
qed

lemma demo_later: "port_step\<^sup>*\<^sup>* demo_created demo_started"
  unfolding demo_started_def by (rule r_into_rtranclp, rule step_execute, rule prod.collapse [symmetric])

definition demo_retry_check :: "store \<Rightarrow> bool" where
  "demo_retry_check st =
     (case st_published st of None \<Rightarrow> False | Some p \<Rightarrow>
        check_command demo_env (demo_au (Supervisor ''sup'')) demo_create (snd p) = Inr () \<and>
        \<not> migration_owns (snd p) ''one'')"

lemma demo_retry:
  "\<exists>h s. st_published demo_started = Some (h, s) \<and>
     command_admitted demo_env (demo_au (Supervisor ''sup'')) demo_create s"
proof -
  have "demo_retry_check demo_started" by code_simp
  then show ?thesis
    by (auto simp: demo_retry_check_def command_admitted_def demo_create_def split: option.splits)
qed

theorem execute_exactly_once_witness:
  "\<exists>r. execute demo_env demo_disk (demo_au (Supervisor ''sup'')) demo_create demo_started = (demo_started, Inr r)"
proof -
  from demo_created_ok obtain r where
    r: "execute demo_env demo_disk (demo_au (Supervisor ''sup'')) demo_create demo_fresh = (demo_created, Inr r)"
    by blast
  from demo_retry obtain h s where s: "st_published demo_started = Some (h, s)"
    "command_admitted demo_env (demo_au (Supervisor ''sup'')) demo_create s" by blast
  from execute_exactly_once [OF r demo_later s] show ?thesis by blast
qed

theorem operation_id_names_one_command_witness:
  "\<exists>e. execute demo_env demo_disk (demo_au (User ''u'')) demo_create demo_started = (demo_started, Inl e)"
proof -
  from demo_created_ok obtain r where
    r: "execute demo_env demo_disk (demo_au (Supervisor ''sup'')) demo_create demo_fresh = (demo_created, Inr r)"
    by blast
  from demo_retry obtain h s where s: "st_published demo_started = Some (h, s)" by blast
  have "identity (demo_au (User ''u'')) \<noteq> identity (demo_au (Supervisor ''sup''))"
    by (simp add: identity_def demo_au_def)
  from operation_id_names_one_command [OF r demo_later s refl disjI1 [OF this]] show ?thesis .
qed

text \<open>
  A Sprint command executes exactly once: after it has succeeded, and whatever any port
  has done since, sending it again returns the stored operation receipt and changes nothing.
\<close>

theorem sprint_exactly_once:
  assumes "execute_sprint E disk au sc st = (st', Inr r)" "port_step\<^sup>*\<^sup>* st' st2"
    and "st_published st2 = Some (h, s)" "sprint_admitted E au sc s"
  shows "\<exists>r'. execute_sprint E disk2 au sc st2 = (st2, Inr r') \<and> sr_operation r' = sr_operation r"
proof -
  from sp.answered [OF assms(1) [unfolded execute_sprint_def]] obtain h' s' where
    "st_published st' = Some (h', s')" "map_get (sn_receipts s') (sm_operation_id sc) = Some (sr_operation r)"
    by blast
  from steps_receipts [OF assms(2) this] assms(3)
  have "map_get (sn_receipts s) (sm_operation_id sc) = Some (sr_operation r)" by auto
  from sp.retried [OF assms(1) [unfolded execute_sprint_def] assms(3,4) this]
  show ?thesis by (auto simp: execute_sprint_def)
qed

definition demo_add :: sprint_command where
  "demo_add = demo_sprint_command ''p1'' 1 ''s1'' (Sa_Create demo_definition)"

definition demo_add_check :: "store \<times> sprint_receipt result \<Rightarrow> bool" where
  "demo_add_check x =
     (is_ok (snd x) \<and>
      (case st_published (fst x) of None \<Rightarrow> False | Some p \<Rightarrow>
         check_sprint_command (demo_au (Supervisor ''sup'')) demo_add (snd p) = Inr ()))"

theorem sprint_exactly_once_witness:
  "\<exists>st r r'. execute_sprint demo_env demo_disk (demo_au (Supervisor ''sup'')) demo_add demo_linked = (st, Inr r) \<and>
     execute_sprint demo_env demo_disk (demo_au (Supervisor ''sup'')) demo_add st = (st, Inr r')"
proof -
  let ?run = "execute_sprint demo_env demo_disk (demo_au (Supervisor ''sup'')) demo_add"
  have "demo_add_check (?run demo_linked)" by code_simp
  then obtain st r h s where r: "?run demo_linked = (st, Inr r)" "st_published st = Some (h, s)"
    and c: "check_sprint_command (demo_au (Supervisor ''sup'')) demo_add s = Inr ()"
    by (cases "?run demo_linked") (auto simp: demo_add_check_def is_ok_iff split: option.splits)
  have "canonical_bytes demo_env (Pl_Sprint demo_add) = Inr ''00''"
    by (simp add: canonical_bytes_def demo_env_def)
  with c have "sprint_admitted demo_env (demo_au (Supervisor ''sup'')) demo_add s"
    by (simp add: sprint_admitted_def demo_add_def demo_sprint_command_def)
  from sprint_exactly_once [OF r(1) rtranclp.rtrancl_refl r(2) this] r(1) show ?thesis by blast
qed

section \<open>What is recorded stays\<close>

text \<open>
  C17: what a batch of commands leaves untouched.  A committed command keeps every attempt's
  Work, contract revision, inputs, workspace and tools, its runtime once it is bound, and all
  its effects once its process has stopped; it never rewrites a submission; and a consumed
  approval stays consumed by the same attempt.  New identifiers are assumed unused.
\<close>

theorem committed_records_immutable:
  assumes "execute E disk au cmd st = (st', Inr r)" "st_published st = Some (h, s)"
    and "map_get (sn_receipts s) (cd_operation_id cmd) = None"
    and "uuid_supply E 0 s" "keyed s"
  shows "\<exists>h' t. st_published st' = Some (h', t) \<and>
    (\<forall>i a. map_get (sn_assignments s) i = Some a \<longrightarrow>
       (\<exists>a'. map_get (sn_assignments t) i = Some a' \<and>
          as_work_id a' = as_work_id a \<and> as_contract_revision a' = as_contract_revision a \<and>
          as_dependency_inputs a' = as_dependency_inputs a \<and> as_workspace a' = as_workspace a \<and>
          as_allowed_tools a' = as_allowed_tools a \<and>
          (as_runtime a \<noteq> None \<longrightarrow> as_runtime a' = as_runtime a) \<and>
          (as_process_stopped a \<longrightarrow> as_process_stopped a' \<and> as_effects a' = as_effects a))) \<and>
    (\<forall>i u. map_get (sn_submissions s) i = Some u \<longrightarrow> map_get (sn_submissions t) i = Some u) \<and>
    (\<forall>i q. map_get (sn_requests s) i = Some q \<and> rq_status q = R_Consumed \<longrightarrow>
       (\<exists>q'. map_get (sn_requests t) i = Some q' \<and> rq_status q' = R_Consumed \<and>
          rq_consumed_attempt q' = rq_consumed_attempt q))"
proof -
  from execute_fresh [OF assms(1-3)] obtain bytes t h' where
    p: "perform E (st_root st) au cmd bytes s = Inr (t, r)"
    and st': "st_published st' = Some (h', with_facts_seq t)" by auto
  from perform_Inr [OF p] obtain u ids where
    u: "apply_operations E (st_root st) au (cd_operations cmd) (s\<lparr>sn_seq := sn_seq s + 1\<rparr>) = Inr (u, ids)"
    and t: "t = put_receipt r u" by blast
  have "uuid_supply E 0 (s\<lparr>sn_seq := sn_seq s + 1\<rparr>)" "keyed (s\<lparr>sn_seq := sn_seq s + 1\<rparr>)"
    using assms(4,5)
    by (simp_all add: uuid_supply_def fresh_id_def keyed_def attempts_keyed_def intents_keyed_def
        dispatch_key_of_def)
  from apply_operations_evolves [OF u this] obtain N where "evolves N (s\<lparr>sn_seq := sn_seq s + 1\<rparr>) u"
    by blast
  then have k: "keeps attempt_le (named_by as_id N) (sn_assignments s) (sn_assignments t)"
    "keeps (=) (named_by su_id N) (sn_submissions s) (sn_submissions t)"
    "keeps request_le (named_by rq_id N) (sn_requests s) (sn_requests t)"
    by (simp_all add: evolves_def t)
  show ?thesis
    using st' keepsD [OF k(1)] keepsD [OF k(2)] keepsD [OF k(3)]
    by (fastforce simp: attempt_le_def request_le_def request_status_le_def)
qed

definition demo_pause :: command where
  "demo_pause = \<lparr>
     cd_operation_id = ''pause'', cd_binding = demo_binding, cd_expected_seq = 9,
     cd_expected_epoch = 0, cd_operations = [Op_Pause ''b'' ''why''], cd_source = None\<rparr>"

lemma decimal_read: "foldl (\<lambda>a c. 10 * a + (of_char c - 48)) 0 (decimal n) = n"
proof (induction n rule: decimal.induct)
  case (1 n)
  have "(of_char (char_of (48 + n mod 10) :: char) :: nat) = 48 + n mod 10"
    by simp
  with 1 show ?case by (cases "n < 10") (simp_all add: decimal.simps [of n])
qed

lemma decimal_inject: "decimal m = decimal n \<longleftrightarrow> m = n"
  using decimal_read by metis

lemma demo_uuids: "uuid_supply demo_env 0 demo"
proof -
  have "inj_on (en_uuid demo_env) {0..}"
    by (rule inj_onI) (simp add: demo_env_def decimal_inject)
  moreover have "fresh_id demo (en_uuid demo_env k)" for k
    by (simp add: fresh_id_def has_key_def demo_def demo_env_def empty_snapshot_def map_get_Cons)
  ultimately show ?thesis by (simp add: uuid_supply_def)
qed

lemma demo_keyed: "keyed demo"
proof -
  have "list_all (\<lambda>e. in_dispatch_key (snd e) = fst e \<and>
      fst e = dispatch_key_of demo (in_assignment_id (snd e)) (ds_generation (in_immutable_spec (snd e))) \<and>
      has_key (sn_assignments demo) (in_assignment_id (snd e))) (sn_intents demo) \<and>
    list_all (\<lambda>e. as_id (snd e) = fst e) (sn_assignments demo) \<and>
    list_all (\<lambda>e. tk_id (snd e) = fst e) (sn_tickets demo) \<and>
    list_all (\<lambda>e. rq_id (snd e) = fst e) (sn_requests demo) \<and>
    list_all (\<lambda>e. su_id (snd e) = fst e) (sn_submissions demo)"
    by code_simp
  then show ?thesis
    by (auto simp: keyed_def attempts_keyed_def intents_keyed_def list_all_iff dest!: map_get_in_map)
qed

theorem committed_records_immutable_witness:
  "\<exists>st' r h t. execute demo_env demo_disk (demo_au (Supervisor ''sup'')) demo_pause (demo_store demo) = (st', Inr r) \<and>
     st_published st' = Some (h, t) \<and> map_get (sn_submissions t) ''sa'' = Some demo_submission"
proof -
  let ?run = "execute demo_env demo_disk (demo_au (Supervisor ''sup'')) demo_pause (demo_store demo)"
  have "is_ok (snd ?run)" by code_simp
  then obtain st' r where r: "?run = (st', Inr r)" by (cases ?run) (auto simp: is_ok_iff)
  have s: "st_published (demo_store demo) = Some (''c'', demo)"
    "map_get (sn_receipts demo) (cd_operation_id demo_pause) = None"
    "map_get (sn_submissions demo) ''sa'' = Some demo_submission"
    by (simp_all add: demo_store_def demo_def empty_snapshot_def map_get_Cons)
  from committed_records_immutable [OF r s(1,2) demo_uuids demo_keyed] r s(3) show ?thesis by blast
qed

end
