(* ===== verification/Reviews.thy ===== *)
theory Reviews
  imports Reachable
begin

text \<open>What a User's acknowledgement of observed file bytes does, and what it needs.\<close>

lemma decide_reconcile_Commit:
  assumes "decide_reconcile E observe au req st = Inr (Commit t r)" "st_published st = Some (h, s)"
  obtains user bytes where "au_principal au = User user" "canonical_bytes E (Pl_FileReconcile req) = Inr bytes"
    "map_get (sn_receipts s) (fr_operation_id req) = None"
    "perform_reconcile E observe au req bytes h s = Inr (t, r)"
  using assms that
  by (auto simp: decide_reconcile_def published_def need_user_def call_simps if_Inr
      split: option.splits principal.splits)

lemma uncertain_iff:
  "uncertain es \<longleftrightarrow> (\<exists>x \<in> set (vals es). ef_state x \<in> {E_Started, E_OutcomeUnknown})"
  by (auto simp: uncertain_def list_ex_iff uncertain_effect_def)

text \<open>The Work of a released attempt, as the acknowledgement leaves it.\<close>

definition reviewed_work :: "u64 \<Rightarrow> ticket \<Rightarrow> ticket" where
  "reviewed_work q w =
     (if tk_state w = W_Cancelled
      then w\<lparr>tk_active_assignment := None, tk_record_revision := tk_record_revision w + 1, tk_updated_seq := q\<rparr>
      else w\<lparr>tk_active_assignment := None, tk_state := W_Blocked, tk_paused := True,
             tk_blocked := Some \<lparr>br_reason = ''file effects reconciled; explicit retry required'',
                                br_resume_state = W_Ready\<rparr>,
             tk_record_revision := tk_record_revision w + 1, tk_updated_seq := q\<rparr>)"

lemma record_observation_exact:
  assumes "record_observation aid a eid e ar (s\<lparr>sn_seq := q\<rparr>) = Inr (t, released)"
    and "effects = map_put eid (e\<lparr>ef_state := E_Succeeded,
           ef_provider_receipt := Some (''local-file-observed:'' @ ar_sha256 ar)\<rparr>) (as_effects a)"
  obtains assignments tickets where "t = s\<lparr>sn_seq := q, sn_assignments := assignments, sn_tickets := tickets\<rparr>"
    "if uncertain effects
     then assignments = map_put aid (a\<lparr>as_effects := effects,
            as_record_revision := as_record_revision a + 1, as_updated_seq := q\<rparr>) (sn_assignments s) \<and>
          tickets = sn_tickets s
     else \<exists>w. map_get (sn_tickets s) (as_work_id a) = Some w \<and>
          assignments = map_put aid (a\<lparr>as_effects := effects,
            as_state := (if tk_state w = W_Cancelled then A_Cancelled else A_Failed),
            as_record_revision := as_record_revision a + 1, as_updated_seq := q\<rparr>) (sn_assignments s) \<and>
          tickets = (if tk_active_assignment w = Some (as_id a)
            then map_put (as_work_id a) (reviewed_work q w) (sn_tickets s) else sn_tickets s)"
proof -
  let ?a = "a\<lparr>as_effects := effects, as_record_revision := as_record_revision a + 1, as_updated_seq := q\<rparr>"
  have o: "observed_attempt eid e ar q a = ?a"
    by (simp add: observed_attempt_def observed_effect_def bump_def assms(2))
  have w: "touch q (block_reconciled w) = reviewed_work q w" for w
    by (simp add: reviewed_work_def block_reconciled_def touch_def Let_def)
  have q: "sn_seq (s\<lparr>sn_seq := q\<rparr>) = q" by simp
  have st: "?a\<lparr>as_state := x\<rparr> = a\<lparr>as_effects := effects, as_state := x,
      as_record_revision := as_record_revision a + 1, as_updated_seq := q\<rparr>" for x by (cases a) simp
  from assms(1) show thesis
  proof (cases rule: record_observation_Inr)
    case kept
    show thesis
      by (rule that [where assignments = "map_put aid ?a (sn_assignments s)" and tickets = "sn_tickets s"])
        (use kept in \<open>simp_all add: o put_assignment_def\<close>)
  next
    case (released w st)
    show thesis
    proof (rule that)
      show "t = s\<lparr>sn_seq := q, sn_assignments := map_put aid (?a\<lparr>as_state := st\<rparr>) (sn_assignments s),
          sn_tickets := (if tk_active_assignment w = Some (as_id a)
            then map_put (as_work_id a) (reviewed_work q w) (sn_tickets s) else sn_tickets s)\<rparr>"
        using released(5) unfolding Let_def q o w by (simp add: put_assignment_def put_ticket_def)
    qed (use released(2-4) in \<open>simp add: o st\<close>)
  qed
qed

text \<open>
  C20: a reconciled file effect was observed, and is accounted for.  When the request of a
  User commits, it named the current commit, sequence and epoch; the process of the attempt
  is stopped with an unknown outcome, the effect is one of its uncertain ones, and the file
  it was to write has exactly the content of the frozen request.  The next snapshot records
  the effect as succeeded, with the observed hash.  When an effect of the attempt is still
  uncertain, nothing else changes but the two receipts, of the Worker's write and of the
  request; when none is, the attempt is also ended, as cancelled if its Work is and as failed
  otherwise, and its Work, if it still waits for the attempt, gives it up and is blocked and
  paused (a cancelled Work stays cancelled).
\<close>

theorem reconcile_records_observation:
  assumes "reconcile_file_effect E disk observe au req st = (st', Inr r)"
    and "st_published st = Some (h, s)" "map_get (sn_receipts s) (fr_operation_id req) = None"
  shows "\<exists>user a e ar intent ws path effects h' t. au_principal au = User user \<and>
    fr_expected_commit req = h \<and> fr_expected_seq req = sn_seq s \<and> fr_expected_epoch req = sn_authority_epoch s \<and>
    map_get (sn_assignments s) (fr_assignment_id req) = Some a \<and> as_process_stopped a \<and>
    as_state a = A_OutcomeUnknown \<and> map_get (as_effects a) (fr_effect_id req) = Some e \<and>
    ef_state e \<in> {E_Started, E_OutcomeUnknown} \<and> ef_artifact e = Some ar \<and> ef_file_intent e = Some intent \<and>
    as_workspace a = Some ws \<and> intended_path E a (fr_effect_id req) = Inr path \<and>
    observe ws path = Inr (Some (ar_sha256 ar)) \<and>
    st_published st' = Some (h', t) \<and> sn_seq t = sn_seq s + 1 \<and>
    effects = map_put (fr_effect_id req) (e\<lparr>ef_state := E_Succeeded,
      ef_provider_receipt := Some (''local-file-observed:'' @ ar_sha256 ar)\<rparr>) (as_effects a) \<and>
    (if \<exists>x \<in> set (vals effects). ef_state x \<in> {E_Started, E_OutcomeUnknown}
     then sn_assignments t = map_put (fr_assignment_id req) (a\<lparr>as_effects := effects,
            as_record_revision := as_record_revision a + 1, as_updated_seq := sn_seq t\<rparr>) (sn_assignments s) \<and>
          sn_tickets t = sn_tickets s
     else \<exists>w. map_get (sn_tickets s) (as_work_id a) = Some w \<and>
          sn_assignments t = map_put (fr_assignment_id req) (a\<lparr>as_effects := effects,
            as_state := (if tk_state w = W_Cancelled then A_Cancelled else A_Failed),
            as_record_revision := as_record_revision a + 1, as_updated_seq := sn_seq t\<rparr>) (sn_assignments s) \<and>
          sn_tickets t = (if tk_active_assignment w = Some (as_id a)
            then map_put (as_work_id a) (reviewed_work (sn_seq t) w) (sn_tickets s) else sn_tickets s)) \<and>
    sn_receipts t = map_put (fr_operation_id req) r (map_put (fr_effect_id req)
      \<lparr>or_operation_id = fr_effect_id req, or_principal = fi_principal intent,
       or_request_hash = ef_action_fingerprint e, or_canonical_request = fi_canonical_request intent,
       or_committed_seq = sn_seq t,
       or_ids = map_put ''artifact'' (ar_uri ar) (map_put ''sha256'' (ar_sha256 ar) [])\<rparr> (sn_receipts s)) \<and>
    t\<lparr>sn_seq := sn_seq s, sn_assignments := sn_assignments s, sn_tickets := sn_tickets s,
      sn_receipts := sn_receipts s, sn_execution_facts_seq := sn_execution_facts_seq s\<rparr> = s"
proof -
  from assms(1) obtain t where d: "decide_reconcile E observe au req st = Inr (Commit t r)"
    and p: "\<exists>h'. publish_reviewed disk t st = (st', Inr h')"
  proof (cases "decide_reconcile E observe au req st")
    case (Inr d)
    with assms that show thesis
      by (cases d) (auto simp: reconcile_file_effect_def run_def decide_reconcile_def published_def call_simps
          if_Inr split: sum.splits prod.splits)
  qed (simp add: reconcile_file_effect_def run_def)
  from decide_reconcile_Commit [OF d assms(2)] obtain user bytes where user: "au_principal au = User user"
    and q: "perform_reconcile E observe au req bytes h s = Inr (t, r)" by blast
  obtain a e ar intent u released where c: "check_reconcile E observe req h s = Inr (a, e, ar)"
    and i: "ef_file_intent e = Some intent"
    and u: "record_observation (fr_assignment_id req) a (fr_effect_id req) e ar (s\<lparr>sn_seq := sn_seq s + 1\<rparr>) = Inr (u, released)"
    and r: "r = receipt_of au (fr_operation_id req) (content_hash E bytes) bytes (sn_seq u) (observation_ids req ar released)"
    and t: "t = put_receipt r (put_receipt (effect_receipt (fr_effect_id req) e intent ar (sn_seq u)) u)"
    by (rule perform_reconcile_Inr [OF q])
  note c = check_reconcile_Inr [OF c]
  from p obtain k where t': "st_published st' = Some (k, with_facts_seq t)"
    by (auto simp: publish_reviewed_def publish_def publish_snapshot_def
        split: if_splits disk_outcome.splits prod.splits)
  from c(12) obtain ws path where ws: "as_workspace a = Some ws" "intended_path E a (fr_effect_id req) = Inr path"
    "observe ws path = Inr (Some (ar_sha256 ar))" by blast
  have a: "as_process_stopped a" "as_state a = A_OutcomeUnknown" using c(2) by (simp_all add: unresolved_stop_def)
  let ?effects = "map_put (fr_effect_id req) (e\<lparr>ef_state := E_Succeeded,
      ef_provider_receipt := Some (''local-file-observed:'' @ ar_sha256 ar)\<rparr>) (as_effects a)"
  from u obtain assignments tickets where u': "u = s\<lparr>sn_seq := sn_seq s + 1, sn_assignments := assignments, sn_tickets := tickets\<rparr>"
    and x: "if uncertain ?effects
     then assignments = map_put (fr_assignment_id req) (a\<lparr>as_effects := ?effects,
            as_record_revision := as_record_revision a + 1, as_updated_seq := sn_seq s + 1\<rparr>) (sn_assignments s) \<and>
          tickets = sn_tickets s
     else \<exists>w. map_get (sn_tickets s) (as_work_id a) = Some w \<and>
          assignments = map_put (fr_assignment_id req) (a\<lparr>as_effects := ?effects,
            as_state := (if tk_state w = W_Cancelled then A_Cancelled else A_Failed),
            as_record_revision := as_record_revision a + 1, as_updated_seq := sn_seq s + 1\<rparr>) (sn_assignments s) \<and>
          tickets = (if tk_active_assignment w = Some (as_id a)
            then map_put (as_work_id a) (reviewed_work (sn_seq s + 1) w) (sn_tickets s) else sn_tickets s)"
    by (rule record_observation_exact [OF _ refl])
  let ?t = "with_facts_seq t"
  have t'': "sn_seq ?t = sn_seq s + 1" "sn_assignments ?t = assignments" "sn_tickets ?t = tickets"
    "?t\<lparr>sn_seq := sn_seq s, sn_assignments := sn_assignments s, sn_tickets := sn_tickets s,
      sn_receipts := sn_receipts s, sn_execution_facts_seq := sn_execution_facts_seq s\<rparr> = s"
    "sn_receipts ?t = map_put (fr_operation_id req) r (map_put (fr_effect_id req)
      \<lparr>or_operation_id = fr_effect_id req, or_principal = fi_principal intent,
       or_request_hash = ef_action_fingerprint e, or_canonical_request = fi_canonical_request intent,
       or_committed_seq = sn_seq s + 1,
       or_ids = map_put ''artifact'' (ar_uri ar) (map_put ''sha256'' (ar_sha256 ar) [])\<rparr> (sn_receipts s))"
    by (simp_all add: with_facts_seq_def t u' put_receipt_def r receipt_of_def effect_receipt_def)
  show ?thesis
    by (rule exI [of _ user], rule exI [of _ a], rule exI [of _ e], rule exI [of _ ar], rule exI [of _ intent],
        rule exI [of _ ws], rule exI [of _ path], rule exI, rule exI [of _ k], rule exI [of _ ?t],
        unfold t''(1,2,3,5) uncertain_iff [symmetric],
        intro conjI, rule user, rule c, rule c, rule c, rule c, rule a, rule a, rule c,
        use c(4) in \<open>simp add: uncertain_effect_def\<close>, rule c, rule i, rule ws, rule ws, rule ws, rule t',
        rule refl, rule refl, rule x, rule refl, rule t'')
qed

text \<open>
  A Worker that was stopped in the middle of a write, the file with the new content, and the
  User who acknowledges it.
\<close>

definition write_env :: env where
  "write_env = demo_env\<lparr>en_parse_file := (\<lambda>_. Some (FileWrite ''/w/y/f'' ''new'' None))\<rparr>"

definition cut_write :: effect where
  "cut_write = \<lparr>ef_action_fingerprint = content_hash write_env ''00'', ef_state = E_OutcomeUnknown,
     ef_provider_receipt = None, ef_artifact = Some \<lparr>ar_uri = ''artifact://f'', ar_sha256 = content_hash write_env ''new''\<rparr>,
     ef_file_intent = Some \<lparr>fi_principal = worker_principal (demo_attempt ''y'' ''b'' [demo_input] A_Running False)
       (demo_receipt ''y''), fi_canonical_request = ''00''\<rparr>\<rparr>"

definition cut_attempt :: assignment where
  "cut_attempt = (demo_attempt ''y'' ''b'' [demo_input] A_OutcomeUnknown True)
     \<lparr>as_effects := [(''worker-file/1'', cut_write)]\<rparr>"

definition demo_cut :: snapshot where
  "demo_cut = demo
     \<lparr>sn_schema := 4,
      sn_assignments := map_put ''y'' cut_attempt (sn_assignments demo),
      sn_tickets := map_put ''b'' (demo_b\<lparr>tk_state := W_Blocked, tk_blocked := Some
        \<lparr>br_reason = ''writer restarted'', br_resume_state = W_Ready\<rparr>\<rparr>) (sn_tickets demo)\<rparr>"

definition demo_review :: file_reconcile_request where
  "demo_review = \<lparr>fr_operation_id = ''review'', fr_binding = demo_binding, fr_expected_commit = ''c'', fr_expected_seq = 9,
     fr_expected_epoch = sn_authority_epoch demo, fr_assignment_id = ''y'', fr_expected_assignment_revision = as_record_revision
       (demo_attempt ''y'' ''b'' [demo_input] A_OutcomeUnknown True),
     fr_effect_id = ''worker-file/1'', fr_expected_request_hash = content_hash write_env ''00'',
     fr_intended_sha256 = content_hash write_env ''new'', fr_evidence = ''seen''\<rparr>"

definition demo_observer :: observer where
  "demo_observer ws path = Inr (Some (content_hash write_env ''new''))"

definition demo_reviewed :: "store \<times> operation_receipt result" where
  "demo_reviewed = reconcile_file_effect write_env demo_disk demo_observer (demo_au (User ''ann'')) demo_review (demo_store demo_cut)"

lemma demo_reviewed_ok: "is_ok (snd demo_reviewed)"
  by code_simp

lemma demo_review_fresh: "map_get (sn_receipts demo_cut) (fr_operation_id demo_review) = None"
  by code_simp

lemma demo_cut_parts:
  "map_get (sn_assignments demo_cut) ''y'' = Some cut_attempt" "sn_seq demo_cut = 9"
  "map_get (as_effects cut_attempt) ''worker-file/1'' = Some cut_write"
  by code_simp+

lemma demo_cut_effects:
  "x \<in> set (vals (map_put ''worker-file/1'' (cut_write\<lparr>ef_state := E_Succeeded, ef_provider_receipt := p\<rparr>)
     (as_effects cut_attempt))) \<Longrightarrow> ef_state x = E_Succeeded"
  by (simp add: cut_attempt_def vals_def)

lemma demo_cut_work: "map_get (sn_tickets demo_cut) (as_work_id cut_attempt) = Some w \<Longrightarrow> tk_state w = W_Blocked"
  by (auto simp: demo_cut_def cut_attempt_def demo_attempt_def new_assignment_def)

theorem reconcile_records_observation_witness:
  "\<exists>h t a. st_published (fst demo_reviewed) = Some (h, t) \<and> sn_seq t = 10 \<and>
     map_get (sn_assignments t) ''y'' = Some a \<and> as_state a = A_Failed \<and>
     (\<exists>e. map_get (as_effects a) ''worker-file/1'' = Some e \<and> ef_state e = E_Succeeded) \<and>
     has_key (sn_receipts t) ''worker-file/1''"
proof -
  from demo_reviewed_ok obtain r where "snd demo_reviewed = Inr r" by (auto simp: is_ok_iff)
  then have run: "reconcile_file_effect write_env demo_disk demo_observer (demo_au (User ''ann'')) demo_review
      (demo_store demo_cut) = (fst demo_reviewed, Inr r)" by (simp add: demo_reviewed_def prod_eq_iff)
  have s: "st_published (demo_store demo_cut) = Some (''c'', demo_cut)" by (simp add: demo_store_def)
  have req: "fr_assignment_id demo_review = ''y''" "fr_effect_id demo_review = ''worker-file/1''"
    by (simp_all add: demo_review_def)
  show ?thesis
    using reconcile_records_observation [OF run s demo_review_fresh, unfolded req]
  proof (elim exE conjE, goal_cases)
    case (1 user a e ar intent ws path effects h t)
    from 1(5,8) demo_cut_parts(1,3) have a: "a = cut_attempt" and e: "e = cut_write" by simp_all
    from 1(17) have none: "\<not> (\<exists>x \<in> set (vals effects). ef_state x \<in> {E_Started, E_OutcomeUnknown})"
      unfolding a e by (auto dest!: demo_cut_effects)
    from 1(18) [unfolded if_not_P [OF none]] obtain w where "map_get (sn_tickets demo_cut) (as_work_id a) = Some w"
      and t: "sn_assignments t = map_put ''y'' (a\<lparr>as_effects := effects,
        as_state := (if tk_state w = W_Cancelled then A_Cancelled else A_Failed),
        as_record_revision := as_record_revision a + 1, as_updated_seq := sn_seq t\<rparr>) (sn_assignments demo_cut)"
      by blast
    with demo_cut_work [of w] have "tk_state w = W_Blocked" by (simp add: a)
    with 1(15,16,17,19) demo_cut_parts(2) show ?case by (simp add: t has_key_iff)
  qed
qed

end
