(* ===== verification/Message_Demo.thy ===== *)
theory Message_Demo
  imports Resolution Examples
begin

text \<open>
  A Human approves an open request by a message with one group, and the group is settled.  The
  tables of Unicode are those of ASCII, and every other character is a letter.
\<close>

definition letter :: "string \<Rightarrow> bool" where
  "letter c =
     (case c of [] \<Rightarrow> False
      | a # _ \<Rightarrow> 97 \<le> byte a \<and> byte a \<le> 122 \<or> 65 \<le> byte a \<and> byte a \<le> 90 \<or> 128 \<le> byte a)"

definition lower_char :: "char \<Rightarrow> char" where
  "lower_char a = (if 65 \<le> byte a \<and> byte a \<le> 90 then char_of (byte a + 32) else a)"

definition demo_text :: text_port where
  "demo_text = \<lparr>tx_lower = map lower_char, tx_alphabetic = letter,
     tx_alphanumeric = (\<lambda>c. letter c \<or> c \<noteq> [] \<and> ascii_digit (hd c))\<rparr>"

definition demo_human :: "string \<Rightarrow> human_ingress" where
  "demo_human words = \<lparr>hi_user_id = ''ann'', hi_source_ingress_seq = 1, hi_text = words,
     hi_thread_id = None, hi_in_reply_to = None, hi_correlation_id = None\<rparr>"

definition asked_action :: action where
  "asked_action = \<lparr>ac_kind = ''send'', ac_target = ''m'', ac_data_hash = ''h'', ac_amount = Some ''5'',
     ac_permissions = [], ac_risk = ''low''\<rparr>"

definition asked :: pending_request where
  "asked = \<lparr>rq_id = ''q1'', rq_work_id = ''b'', rq_assignment_id = Some ''y'', rq_generation = 1,
     rq_contract_revision = 1, rq_prompt_revision = 1, rq_kind = Approval asked_action ''fp'',
     rq_prompt = ''p'', rq_status = R_Open, rq_answer = None, rq_consumed_attempt = None,
     rq_worker_packet_hash = None, rq_updated_seq = 4\<rparr>"

definition asked_reference :: request_reference where
  "asked_reference = \<lparr>re_request_id = ''q1'', re_work_id = ''b'', re_assignment_id = Some ''y'',
     re_generation = 1, re_contract_revision = 1, re_prompt_revision = 1\<rparr>"

definition demo_group :: semantic_group where
  "demo_group = \<lparr>sg_group_id = ''g1'', sg_item_ids = [''i''], sg_source_quote = ''Approve q1,'',
     sg_operations = [Sem_DecideApproval asked_reference ''fp'' True], sg_clarification = None\<rparr>"

definition demo_proposal :: message_proposal where
  "demo_proposal = \<lparr>mp_groups = [demo_group]\<rparr>"

definition demo_hash :: string where
  "demo_hash = content_hash demo_env ''00''"

definition demo_message :: message_resolution where
  "demo_message = \<lparr>mr_message_id = ''m'', mr_ingress_seq = 1, mr_message_hash = demo_hash,
     mr_groups = [\<lparr>rg_operation_id = group_operation_id demo_env ''m'' ''g1'', rg_status = Rs_Proposed,
       rg_reason = None, rg_item_ids = [''i''], rg_receipt = None\<rparr>],
     mr_ingress = Some (demo_human ''Approve q1, amount: 5; thank you''),
     mr_basis = Some \<lparr>rb_commit = replicate 64 CHR ''c'', rb_seq = 7, rb_graph_revision = 0,
       rb_authority_epoch = sn_authority_epoch demo\<rparr>,
     mr_proposal = Some demo_proposal, mr_proposal_hash = Some demo_hash, mr_updated_seq = Some 9\<rparr>"

definition demo_asked :: snapshot where
  "demo_asked = demo\<lparr>sn_requests := [(''q1'', asked)], sn_resolutions := [(''m'', demo_message)]\<rparr>"

definition settled_demo :: "store \<times> message_resolution result" where
  "settled_demo =
     settle_message_group demo_env demo_text demo_disk (demo_au (User ''ann'')) ''m'' ''g1'' (demo_store demo_asked)"

text \<open>The call returned and the request is approved.\<close>

definition approved_now :: "store \<times> message_resolution result \<Rightarrow> bool" where
  "approved_now p =
     (is_ok (snd p) \<and>
      (case st_published (fst p) of None \<Rightarrow> False
       | Some (h, t) \<Rightarrow> sn_authority_epoch t = sn_authority_epoch demo \<and> sn_binding t = demo_binding \<and>
           (case map_get (sn_requests t) ''q1'' of None \<Rightarrow> False | Some q \<Rightarrow> rq_status q = R_Approved)))"

lemma settled_demo_approved: "approved_now settled_demo"
  by code_simp

lemma demo_message_fields:
  "map_get (sn_resolutions demo_asked) ''m'' = Some demo_message" "mr_proposal demo_message = Some demo_proposal"
  "index_of (\<lambda>g. sg_group_id g = ''g1'') (mp_groups demo_proposal) = Some 0"
  "rg_status (mr_groups demo_message ! 0) = Rs_Proposed"
  "st_published (demo_store demo_asked) = Some (''c'', demo_asked)"
  by (simp_all add: demo_asked_def demo_message_def demo_proposal_def demo_group_def demo_store_def map_get_Cons)

lemma settled_demo_result:
  obtains r h t where "settled_demo = (fst settled_demo, Inr r)" "st_published (fst settled_demo) = Some (h, t)"
    "sn_binding t = demo_binding" "\<exists>q. map_get (sn_requests t) ''q1'' = Some q \<and> rq_status q = R_Approved"
  using settled_demo_approved
  by (auto simp: approved_now_def is_ok_iff prod_eq_iff split: option.splits prod.splits)

end
