(* ===== verification/Messages.thy ===== *)
theory Messages
  imports Reachable Message_Demo
begin

text \<open>What the calls on Human messages guarantee.\<close>

section \<open>A settled group\<close>

lemma settle_group_published:
  assumes "settle_message_group E T disk au mid gid st = (st', Inr r)"
    and "st_published st = Some (h, s)" "map_get (sn_resolutions s) mid = Some saved"
    and "mr_proposal saved = Some p" "index_of (\<lambda>g. sg_group_id g = gid) (mp_groups p) = Some i"
    and "rg_status (mr_groups saved ! i) = Rs_Proposed"
  obtains human u saved' v h' where "mr_ingress saved = Some human" "need_human au s human = Inr ()"
    "i < length (mr_groups saved)" "\<not> list_ex (unsettled_before saved) (vals (sn_resolutions s))"
    "settled_group E T (st_root st) au s saved human i (mr_groups saved ! i) (mp_groups p ! i) = Inr (u, saved')"
    "r = saved'\<lparr>mr_updated_seq := Some (sn_seq u)\<rparr>"
    "v = u\<lparr>sn_resolutions := map_put mid r (sn_resolutions u)\<rparr>" "validate_snapshot E v = Inr ()"
    "st_published st' = Some (h', with_facts_seq v)"
proof -
  have no_reply: "decide_settle_group E T au mid gid st \<noteq> Inr (Reply r)"
  proof
    assume "decide_settle_group E T au mid gid st = Inr (Reply r)"
    with assms(2-6) show False
      by (auto simp: decide_settle_group_def published_def and_then_Inr ok_or_Inr expect_Inr human_of_Inr
          nth_opt_def save_resolution_Inr split: if_splits prod.splits)
  qed
  with run_Inr [OF assms(1) [unfolded settle_message_group_def]] obtain v h'
    where d: "decide_settle_group E T au mid gid st = Inr (Commit v r)"
    and st': "st' = st\<lparr>st_published := Some (h', with_facts_seq v)\<rparr>" by blast
  from d show thesis
  proof (rule decide_settle_group_Commit)
    fix h0 s0 saved0 human proposal j u saved'
    assume "st_published st = Some (h0, s0)" "map_get (sn_resolutions s0) mid = Some saved0"
      "mr_proposal saved0 = Some proposal" "index_of (\<lambda>g. sg_group_id g = gid) (mp_groups proposal) = Some j"
      and rest: "mr_ingress saved0 = Some human" "need_human au s0 human = Inr ()" "j < length (mr_groups saved0)"
      "\<not> list_ex (unsettled_before saved0) (vals (sn_resolutions s0))"
      "settled_group E T (st_root st) au s0 saved0 human j (mr_groups saved0 ! j) (mp_groups proposal ! j) = Inr (u, saved')"
      "save_resolution E mid saved' u = Inr (Commit v r)"
    with assms(2-5) have eq: "s0 = s" "saved0 = saved" "proposal = p" "j = i" by auto
    note rest [unfolded eq]
    with that st' show thesis by (auto simp: save_resolution_Inr)
  qed
qed

lemma message_group_parts:
  assumes "settle_message_group E T disk au mid gid st = (st', Inr r)"
    and "st_published st = Some (h, s)" "map_get (sn_resolutions s) mid = Some saved"
    and "mr_proposal saved = Some p" "index_of (\<lambda>g. sg_group_id g = gid) (mp_groups p) = Some i"
    and "rg_status (mr_groups saved ! i) = Rs_Proposed"
  shows "\<exists>h' t. st_published st' = Some (h', t) \<and> map_get (sn_resolutions t) mid = Some r \<and>
    mr_ingress r = mr_ingress saved \<and> mr_ingress r \<noteq> None \<and> mr_proposal r = Some p \<and>
    length (mr_groups r) = length (mr_groups saved) \<and> rg_status (mr_groups r ! i) \<noteq> Rs_Proposed"
  using assms
proof (rule settle_group_published)
  fix human u saved' v h'
  assume human: "mr_ingress saved = Some human" and i: "i < length (mr_groups saved)"
    and g: "settled_group E T (st_root st) au s saved human i (mr_groups saved ! i) (mp_groups p ! i) = Inr (u, saved')"
    and r: "r = saved'\<lparr>mr_updated_seq := Some (sn_seq u)\<rparr>"
    and v: "v = u\<lparr>sn_resolutions := map_put mid r (sn_resolutions u)\<rparr>"
    and st': "st_published st' = Some (h', with_facts_seq v)"
  from g have "mr_ingress saved' = Some human" "mr_proposal saved' = Some p"
    "length (mr_groups saved') = length (mr_groups saved)" "rg_status (mr_groups saved' ! i) \<noteq> Rs_Proposed"
    by (cases rule: settled_group_Inr;
        use human assms(4) i in \<open>simp add: committed_group_def refused_group_def\<close>)+
  with st' human show ?thesis by (auto simp: r v with_facts_seq_def)
qed

text \<open>
  C6: a group of a Human message settles as a whole and in order.  Settling a proposed group is
  done by the Human who wrote the message, and only when every earlier Human message has a
  proposal without open groups.  Either the group passed the check against the words of the
  Human, all its operations were applied to the current snapshot as one batch and the receipt
  is published with them; or the group is recorded as stale, unclear or rejected and nothing
  else changes but the sequence.  The other groups stay as they were.
\<close>

theorem message_group_settles:
  assumes "settle_message_group E T disk au mid gid st = (st', Inr r)"
    and "st_published st = Some (h, s)" "map_get (sn_resolutions s) mid = Some saved"
    and "mr_proposal saved = Some p" "index_of (\<lambda>g. sg_group_id g = gid) (mp_groups p) = Some i"
    and "rg_status (mr_groups saved ! i) = Rs_Proposed"
  shows "\<exists>human h' t. mr_ingress saved = Some human \<and> au_principal au = User (hi_user_id human) \<and>
    (\<forall>r' \<in> set (vals (sn_resolutions s)). mr_ingress r' \<noteq> None \<and> mr_ingress_seq r' < mr_ingress_seq saved \<longrightarrow>
       mr_proposal r' \<noteq> None \<and> (\<forall>g \<in> set (mr_groups r'). rg_status g \<noteq> Rs_Proposed)) \<and>
    st_published st' = Some (h', t) \<and> (\<forall>j. j \<noteq> i \<longrightarrow> mr_groups r ! j = mr_groups saved ! j) \<and>
    (rg_status (mr_groups r ! i) = Rs_Committed \<and>
       (\<exists>u ids x. validate_group T s human (mp_groups p ! i) = Inr () \<and>
          apply_operations E (st_root st) au (map typed_operation (sg_operations (mp_groups p ! i)))
            (s\<lparr>sn_seq := sn_seq s + 1\<rparr>) = Inr (u, ids) \<and>
          rg_receipt (mr_groups r ! i) = Some x \<and> or_operation_id x = rg_operation_id (mr_groups saved ! i) \<and>
          or_ids x = ids \<and> map_get (sn_receipts s) (or_operation_id x) = None \<and>
          t = with_facts_seq (u\<lparr>sn_receipts := map_put (or_operation_id x) x (sn_receipts s),
                sn_resolutions := map_put mid r (sn_resolutions u)\<rparr>))
     \<or> rg_status (mr_groups r ! i) \<in> {Rs_Stale, Rs_NeedsClarification, Rs_Rejected} \<and>
       t = with_facts_seq (s\<lparr>sn_seq := sn_seq s + 1, sn_resolutions := map_put mid r (sn_resolutions s)\<rparr>))"
  using assms
proof (rule settle_group_published)
  fix human u saved' v h'
  assume human: "mr_ingress saved = Some human" "need_human au s human = Inr ()"
    and i: "i < length (mr_groups saved)" and fifo: "\<not> list_ex (unsettled_before saved) (vals (sn_resolutions s))"
    and g: "settled_group E T (st_root st) au s saved human i (mr_groups saved ! i) (mp_groups p ! i) = Inr (u, saved')"
    and r: "r = saved'\<lparr>mr_updated_seq := Some (sn_seq u)\<rparr>"
    and v: "v = u\<lparr>sn_resolutions := map_put mid r (sn_resolutions u)\<rparr>"
    and st': "st_published st' = Some (h', with_facts_seq v)"
  have order: "\<forall>r' \<in> set (vals (sn_resolutions s)). mr_ingress r' \<noteq> None \<and> mr_ingress_seq r' < mr_ingress_seq saved \<longrightarrow>
       mr_proposal r' \<noteq> None \<and> (\<forall>g \<in> set (mr_groups r'). rg_status g \<noteq> Rs_Proposed)"
    using fifo by (auto simp: list_ex_iff unsettled_before_def)
  have user: "au_principal au = User (hi_user_id human)" using human(2) by (simp add: need_human_Inr)
  from g show ?thesis
  proof (cases rule: settled_group_Inr)
    case (committed t ids bytes x)
    note a = committed(1) [unfolded attempt_group_Inr group_command_def command.simps]
    from a have "sn_receipts t = sn_receipts s" by (auto simp: header_of_eq dest!: apply_operations_header)
    then have "with_facts_seq v = with_facts_seq (t\<lparr>sn_receipts := map_put (or_operation_id x) x (sn_receipts s),
        sn_resolutions := map_put mid r (sn_resolutions t)\<rparr>)"
      by (simp add: v committed put_receipt_def)
    moreover have "rg_status (mr_groups r ! i) = Rs_Committed" "rg_receipt (mr_groups r ! i) = Some x"
      "\<forall>j. j \<noteq> i \<longrightarrow> mr_groups r ! j = mr_groups saved ! j"
      "or_operation_id x = rg_operation_id (mr_groups saved ! i)" "or_ids x = ids"
      using i by (simp_all add: r committed committed_group_def receipt_of_def)
    ultimately show ?thesis using human(1) user order st' a by auto
  next
    case (refused e)
    have "rg_status (mr_groups r ! i) \<in> {Rs_Stale, Rs_NeedsClarification, Rs_Rejected}"
      using i group_status_settled [of e]
      by (cases "group_status e") (simp_all add: r refused refused_group_def)
    moreover have "\<forall>j. j \<noteq> i \<longrightarrow> mr_groups r ! j = mr_groups saved ! j"
      by (simp add: r refused)
    moreover have "with_facts_seq v = with_facts_seq (s\<lparr>sn_seq := sn_seq s + 1,
        sn_resolutions := map_put mid r (sn_resolutions s)\<rparr>)"
      by (simp add: v refused)
    ultimately show ?thesis using human(1) user order st' by auto
  qed
qed

section \<open>A settled group is final\<close>

lemma try_fold_each:
  "try_fold f s xs = Inr t \<Longrightarrow> x \<in> set xs \<Longrightarrow> \<exists>u v. f u x = Inr v"
  by (induction xs arbitrary: s) (auto simp: and_then_Inr)

lemma validated_proposal:
  assumes "validate_snapshot E s = Inr ()" "map_get (sn_resolutions s) i = Some r"
    and "mr_ingress r = Some human" "mr_proposal r = Some p"
  shows "check_proposal E s i r human p = Inr ()"
proof -
  have "(i, r) \<in> set (sn_resolutions s)" using assms(2) by (simp add: map_get_def map_of_SomeD)
  moreover from assms(1) obtain w where "try_fold (check_resolution E s) [] (sn_resolutions s) = Inr w"
    by (auto simp: validate_snapshot_def validate_history_def and_then_Inr)
  ultimately obtain u v where "check_resolution E s u (i, r) = Inr v" using try_fold_each by metis
  with assms(3,4) show ?thesis
    by (auto simp: check_resolution_def Let_def and_then_Inr split: if_splits)
qed

text \<open>
  C7: a settled group is final.  Once a call has settled a proposed group, and whatever any
  port does afterwards, settling it again answers with the same outcome of the group and
  changes nothing, for the same Human in the same binding.
\<close>

theorem settled_group_is_final:
  assumes "settle_message_group E T disk au mid gid st = (st', Inr r)"
    and "st_published st = Some (h, s)" "map_get (sn_resolutions s) mid = Some saved"
    and "mr_proposal saved = Some p" "index_of (\<lambda>g. sg_group_id g = gid) (mp_groups p) = Some i"
    and "rg_status (mr_groups saved ! i) = Rs_Proposed"
    and "port_step\<^sup>*\<^sup>* st' st2" "st_published st2 = Some (h2, s2)" "validate_authority au s2 = Inr ()"
  shows "\<exists>r2. settle_message_group E T disk2 au mid gid st2 = (st2, Inr r2) \<and>
    map_get (sn_resolutions s2) mid = Some r2 \<and> mr_groups r2 ! i = mr_groups r ! i"
  using assms(1-6)
proof (rule settle_group_published)
  fix human u saved' v h'
  assume human: "mr_ingress saved = Some human" "need_human au s human = Inr ()"
    and i: "i < length (mr_groups saved)"
    and g: "settled_group E T (st_root st) au s saved human i (mr_groups saved ! i) (mp_groups p ! i) = Inr (u, saved')"
    and r: "r = saved'\<lparr>mr_updated_seq := Some (sn_seq u)\<rparr>"
    and v: "v = u\<lparr>sn_resolutions := map_put mid r (sn_resolutions u)\<rparr>" "validate_snapshot E v = Inr ()"
    and st': "st_published st' = Some (h', with_facts_seq v)"
  from g have saved': "mr_ingress saved' = Some human" "mr_proposal saved' = Some p"
    "length (mr_groups saved') = length (mr_groups saved)" "rg_status (mr_groups saved' ! i) \<noteq> Rs_Proposed"
    by (cases rule: settled_group_Inr;
        use human(1) assms(4) i in \<open>simp add: committed_group_def refused_group_def\<close>)+
  have "map_get (sn_resolutions v) mid = Some r" by (simp add: v)
  from validated_proposal [OF v(2) this, of human p] saved' have hash: "mr_proposal_hash r \<noteq> None"
    by (auto simp: r check_proposal_def and_then_Inr split: if_splits)
  from steps_messages [OF assms(7) st'] assms(8) have "messages_kept (with_facts_seq v) s2" by auto
  moreover have "human_message (with_facts_seq v) mid = Some r"
    using saved' by (simp add: human_message_Some with_facts_seq_def v r)
  ultimately obtain r2 where r2: "map_get (sn_resolutions s2) mid = Some r2" "message_le r r2"
    by (auto simp: messages_kept_def human_message_Some)
  with hash have same: "mr_ingress r2 = Some human" "mr_proposal r2 = Some p"
    and groups: "list_all2 group_le (mr_groups r) (mr_groups r2)"
    using saved' by (auto simp: message_le_def r)
  from groups have i2: "i < length (mr_groups r2)" "mr_groups r2 ! i = mr_groups r ! i"
    using i saved' by (auto simp: list_all2_conv_all_nth group_le_def r)
  have "need_human au s2 human = Inr ()" using human(2) assms(9) by (simp add: need_human_Inr)
  then have "decide_settle_group E T au mid gid st2 = Inr (Reply r2)"
    using assms(5,8) r2(1) same i2 saved'
    by (simp add: decide_settle_group_def published_def human_of_def nth_opt_def r)
  then show ?thesis using r2(1) i2 by (simp add: settle_message_group_def run_def)
qed

section \<open>A settled group on a concrete message\<close>

theorem message_group_settles_witness:
  "\<exists>h t g. st_published (fst settled_demo) = Some (h, t) \<and> sn_seq t = 10 \<and>
     (\<exists>r. map_get (sn_resolutions t) ''m'' = Some r \<and> mr_groups r ! 0 = g) \<and> rg_status g = Rs_Committed \<and>
     has_key (sn_receipts t) (group_operation_id demo_env ''m'' ''g1'')"
proof (rule settled_demo_result)
  fix r h t
  assume run: "settled_demo = (fst settled_demo, Inr r)" and t: "st_published (fst settled_demo) = Some (h, t)"
    and ok: "\<exists>q. map_get (sn_requests t) ''q1'' = Some q \<and> rq_status q = R_Approved"
  have run': "settle_message_group demo_env demo_text demo_disk (demo_au (User ''ann'')) ''m'' ''g1''
      (demo_store demo_asked) = (fst settled_demo, Inr r)" using run by (simp add: settled_demo_def)
  have asked: "map_get (sn_requests demo_asked) ''q1'' = Some asked" "rq_status asked \<noteq> R_Approved"
    by (simp_all add: demo_asked_def asked_def map_get_Cons)
  have id: "rg_operation_id (mr_groups demo_message ! 0) = group_operation_id demo_env ''m'' ''g1''"
    by (simp add: demo_message_def)
  have seq: "sn_seq demo_asked = 9" by (simp add: demo_asked_def demo_def)
  from message_group_settles [OF run' demo_message_fields(5,1,2,3,4)] t ok asked obtain u x ids ops where
    c: "rg_status (mr_groups r ! 0) = Rs_Committed" "or_operation_id x = rg_operation_id (mr_groups demo_message ! 0)"
      "apply_operations demo_env (st_root (demo_store demo_asked)) (demo_au (User ''ann'')) ops
         (demo_asked\<lparr>sn_seq := sn_seq demo_asked + 1\<rparr>) = Inr (u, ids)"
      "t = with_facts_seq (u\<lparr>sn_receipts := map_put (or_operation_id x) x (sn_receipts demo_asked),
         sn_resolutions := map_put ''m'' r (sn_resolutions u)\<rparr>)"
    by (auto simp: with_facts_seq_def split: if_splits)
  from apply_operations_header [OF c(3)] seq have "sn_seq u = 10" by (simp add: header_of_eq)
  with c id t show ?thesis by (auto simp: with_facts_seq_def has_key_iff)
qed

lemma restart_binding:
  assumes "from_store E disk st = (st2, u)" "st_published st = Some (h, s)"
  shows "\<exists>h2 s2. st_published st2 = Some (h2, s2) \<and> sn_binding s2 = sn_binding s"
proof (cases "check_opened E st")
  case (Inr st1)
  with assms have p: "st_published st1 = Some (h, s)" by (auto dest: check_opened_published)
  from Inr assms(1) have run: "run (publish disk) (decide_restart E) st1 = (st2, u)" by (simp add: from_store_def)
  show ?thesis
  proof (cases u)
    case (Inl e)
    with run_Inl_published [of disk "decide_restart E" st1 st2 e] run p show ?thesis by simp
  next
    case (Inr x)
    with run_Inr [of disk "decide_restart E" st1 st2 x] run p show ?thesis
      by (auto simp: decide_restart_def and_then_Inr expect_Inr ok_or_Inr restart_receipts split: if_splits)
  qed
qed (use assms in \<open>auto simp: from_store_def\<close>)

text \<open>The group is settled, the writer restarted, and the group settled again.\<close>

theorem settled_group_is_final_witness:
  "\<exists>st u r. from_store demo_env demo_disk (fst settled_demo) = (st, u) \<and>
     settle_message_group demo_env demo_text demo_disk (demo_au (User ''ann'')) ''m'' ''g1'' st = (st, Inr r)"
proof (rule settled_demo_result)
  fix r h t
  assume run: "settled_demo = (fst settled_demo, Inr r)" and t: "st_published (fst settled_demo) = Some (h, t)"
    "sn_binding t = demo_binding"
  have run': "settle_message_group demo_env demo_text demo_disk (demo_au (User ''ann'')) ''m'' ''g1''
      (demo_store demo_asked) = (fst settled_demo, Inr r)" using run by (simp add: settled_demo_def)
  obtain st u where st: "from_store demo_env demo_disk (fst settled_demo) = (st, u)" by fastforce
  from restart_binding [OF st t(1)] obtain h2 s2 where s2: "st_published st = Some (h2, s2)" "sn_binding s2 = demo_binding"
    using t(2) by auto
  have "validate_authority (demo_au (User ''ann'')) s2 = Inr ()"
    using s2(2) by (simp add: validate_authority_def demo_au_def)
  moreover have "port_step\<^sup>*\<^sup>* (fst settled_demo) st" by (rule r_into_rtranclp) (rule step_restart [OF st])
  ultimately show ?thesis
    using settled_group_is_final [OF run' demo_message_fields(5,1,2,3,4) _ s2(1), of demo_disk] st by blast
qed

end
