(* ===== verification/Settlement.thy ===== *)
theory Settlement
  imports Messages
begin

text \<open>Settling a whole message, with other calls between its groups.\<close>

text \<open>The record of a message in the published snapshot of a store.\<close>

definition message_at :: "string \<Rightarrow> store \<Rightarrow> message_resolution \<Rightarrow> bool" where
  "message_at mid st r = (\<exists>h s. st_published st = Some (h, s) \<and> human_message s mid = Some r)"

lemma message_at_steps:
  assumes "port_step\<^sup>*\<^sup>* u v" "message_at mid u r"
  shows "\<exists>r'. message_at mid v r' \<and> message_le r r'"
  using assms steps_messages [OF assms(1)] unfolding message_at_def messages_kept_def by blast

text \<open>A message with its frozen proposal: one outcome for each group.\<close>

definition frozen :: "message_proposal \<Rightarrow> message_resolution \<Rightarrow> bool" where
  "frozen p r =
     (mr_proposal r = Some p \<and> mr_proposal_hash r \<noteq> None \<and> length (mr_groups r) = length (mp_groups p))"

lemma frozen_le: "frozen p r \<Longrightarrow> message_le r r' \<Longrightarrow> frozen p r'"
  by (auto simp: frozen_def message_le_def dest: list_all2_lengthD)

definition settled_at :: "nat \<Rightarrow> message_resolution \<Rightarrow> bool" where
  "settled_at i r = (rg_status (mr_groups r ! i) \<noteq> Rs_Proposed)"

lemma settled_at_le:
  assumes "settled_at i r" "frozen p r" "message_le r r'" "i < length (mp_groups p)"
  shows "settled_at i r'"
proof -
  from assms have "list_all2 group_le (mr_groups r) (mr_groups r')" by (auto simp: frozen_def message_le_def)
  with assms have "group_le (mr_groups r ! i) (mr_groups r' ! i)"
    by (auto simp: frozen_def list_all2_conv_all_nth)
  with assms(1) show ?thesis by (auto simp: settled_at_def group_le_def)
qed

lemma settle_group_done:
  assumes "settle_message_group E T disk au mid gid st = (st', Inr x)" "message_at mid st r" "frozen p r"
    and "index_of (\<lambda>g. sg_group_id g = gid) (mp_groups p) = Some i"
  shows "\<exists>r'. message_at mid st' r' \<and> message_le r r' \<and> settled_at i r'"
proof -
  have i: "i < length (mp_groups p)" using index_of_Some [OF assms(4)] by simp
  from assms(2) obtain h s where s: "st_published st = Some (h, s)" "map_get (sn_resolutions s) mid = Some r"
    by (auto simp: message_at_def human_message_Some)
  from step_settle_group [OF assms(1)] have step: "port_step\<^sup>*\<^sup>* st st'" by blast
  have p: "mr_proposal r = Some p" using assms(3) by (simp add: frozen_def)
  show ?thesis
  proof (cases "settled_at i r")
    case True
    from message_at_steps [OF step assms(2)] obtain r' where "message_at mid st' r'" "message_le r r'" by blast
    with settled_at_le [OF True assms(3)] i show ?thesis by blast
  next
    case False
    then have "rg_status (mr_groups r ! i) = Rs_Proposed" by (simp add: settled_at_def)
    with message_group_parts [OF assms(1) s p assms(4)]
    obtain h' t where "st_published st' = Some (h', t)" "map_get (sn_resolutions t) mid = Some x"
      "mr_ingress x \<noteq> None" "settled_at i x" by (auto simp: settled_at_def)
    then have x: "message_at mid st' x" "settled_at i x" by (auto simp: message_at_def human_message_Some)
    moreover from message_at_steps [OF step assms(2)] x(1) have "message_le r x"
      by (auto simp: message_at_def)
    ultimately show ?thesis by blast
  qed
qed

lemma settle_groups_steps:
  assumes "\<And>u. port_step\<^sup>*\<^sup>* u (meanwhile u)"
  shows "settle_groups E T disk meanwhile au mid gs st = (st', x) \<Longrightarrow> port_step\<^sup>*\<^sup>* st st'"
proof (induction gs arbitrary: st)
  case Nil
  with assms show ?case by auto
next
  case (Cons g gs)
  obtain st1 y where g: "settle_message_group E T disk au mid (sg_group_id g) (meanwhile st) = (st1, y)" by fastforce
  from rtranclp.rtrancl_into_rtrancl [OF assms step_settle_group [OF g]] have "port_step\<^sup>*\<^sup>* st st1" .
  with Cons g show ?case by (cases y) (auto dest: rtranclp_trans)
qed

lemma settle_groups_done:
  assumes "\<And>u. port_step\<^sup>*\<^sup>* u (meanwhile u)" "frozen p r"
    and "settle_groups E T disk meanwhile au mid gs st = (st', Inr ())" "message_at mid st r"
    and "\<forall>g \<in> set gs. g \<in> set (mp_groups p)"
  shows "\<exists>r'. message_at mid st' r' \<and> message_le r r' \<and>
    (\<forall>g \<in> set gs. \<forall>i. index_of (\<lambda>x. sg_group_id x = sg_group_id g) (mp_groups p) = Some i \<longrightarrow> settled_at i r')"
  using assms(2-5)
proof (induction gs arbitrary: st r)
  case Nil
  with message_at_steps [OF assms(1)] show ?case by fastforce
next
  case (Cons g gs)
  from Cons.prems(2) obtain st1 y where
    g: "settle_message_group E T disk au mid (sg_group_id g) (meanwhile st) = (st1, Inr y)"
    and gs: "settle_groups E T disk meanwhile au mid gs st1 = (st', Inr ())"
    by (auto split: prod.splits sum.splits)
  from message_at_steps [OF assms(1) Cons.prems(3)] obtain r0 where r0: "message_at mid (meanwhile st) r0" "message_le r r0"
    by blast
  obtain i where i: "index_of (\<lambda>x. sg_group_id x = sg_group_id g) (mp_groups p) = Some i"
  proof -
    have "\<exists>i. index_of q xs = Some i" if "x \<in> set xs" "q x" for q and x :: semantic_group and xs
      using that by (induction xs) auto
    with Cons.prems(4) that show thesis by fastforce
  qed
  note f0 = frozen_le [OF Cons.prems(1) r0(2)]
  from settle_group_done [OF g r0(1) f0 i] obtain r1 where
    r1: "message_at mid st1 r1" "message_le r0 r1" "settled_at i r1" by blast
  note f1 = frozen_le [OF f0 r1(2)]
  from Cons.IH [OF f1 gs r1(1)] Cons.prems(4) obtain r2 where r2: "message_at mid st' r2" "message_le r1 r2"
    "\<forall>g \<in> set gs. \<forall>i. index_of (\<lambda>x. sg_group_id x = sg_group_id g) (mp_groups p) = Some i \<longrightarrow> settled_at i r2"
    by auto
  have "settled_at i r2" using settled_at_le [OF r1(3) f1 r2(2)] index_of_Some [OF i] by simp
  moreover have "message_le r r2" using r0(2) r1(2) r2(2) by (blast intro: message_le_trans)
  ultimately show ?case using r2(1,3) i by (intro exI [of _ r2]) simp
qed

text \<open>Group ids are distinct, so every group is found under its own position.\<close>

lemma check_group_ids:
  "try_fold check_group st gs = Inr st' \<Longrightarrow> distinct (map sg_group_id gs) \<and> set (map sg_group_id gs) \<inter> set (fst st) = {}"
proof (induction gs arbitrary: st)
  case (Cons g gs)
  then obtain st1 where g: "check_group st g = Inr st1" and gs: "try_fold check_group st1 gs = Inr st'"
    by (auto simp: and_then_Inr)
  from g have "sg_group_id g \<notin> set (fst st)" "fst st1 = set_add (sg_group_id g) (fst st)"
    by (auto simp: check_group_def Let_def split: if_splits option.splits)
  with Cons.IH [OF gs] show ?case by auto
qed simp

lemma index_of_own:
  assumes "distinct (map sg_group_id gs)" "i < length gs"
  shows "index_of (\<lambda>x. sg_group_id x = sg_group_id (gs ! i)) gs = Some i"
  using assms
proof (induction gs arbitrary: i)
  case (Cons g gs)
  then show ?case
    by (cases i) (auto simp: image_iff dest!: nth_mem)
qed simp

text \<open>
  C8: settling a message settles all of it.  On a valid snapshot, when \<open>settle_message\<close> answers,
  every group of the proposal it started with has an outcome, whatever other calls have run
  between the groups; and a message that had a proposal still has the same one.
\<close>

theorem settle_message_completes:
  assumes "settle_message E T disk meanwhile au mid st = (st', Inr r)"
    and "st_published st = Some (h, s)" "validate_snapshot E s = Inr ()"
    and "\<And>u. port_step\<^sup>*\<^sup>* u (meanwhile u)"
  shows "\<exists>saved p. map_get (sn_resolutions s) mid = Some saved \<and> mr_proposal saved = Some p \<and>
    mr_proposal r = Some p \<and> length (mr_groups r) = length (mp_groups p) \<and>
    (\<forall>g \<in> set (mr_groups r). rg_status g \<noteq> Rs_Proposed)"
proof -
  from assms(1) obtain saved p where read: "read_message_resolution au mid st = Inr saved" "mr_proposal saved = Some p"
    and gs: "settle_groups E T disk meanwhile au mid (mp_groups p) st = (st', Inr ())"
    and last: "read_message_resolution au mid st' = Inr r"
    by (auto simp: settle_message_def and_then_Inr ok_or_Inr split: sum.splits prod.splits)
  from read(1) assms(2) obtain human where saved: "map_get (sn_resolutions s) mid = Some saved" "mr_ingress saved = Some human"
    by (auto simp: read_message_resolution_def and_then_Inr ok_or_Inr human_of_Inr)
  from validated_proposal [OF assms(3) saved read(2)] have frozen: "frozen p saved"
    and ids: "distinct (map sg_group_id (mp_groups p))"
    using read(2) check_group_ids
    by (fastforce simp: check_proposal_def validate_shape_def and_then_Inr frozen_def split: if_splits)+
  have "message_at mid st saved" using saved assms(2) by (auto simp: message_at_def human_message_Some)
  from settle_groups_done [OF assms(4) frozen gs this] obtain r' where r': "message_at mid st' r'" "message_le saved r'"
    and outcomes: "\<forall>g \<in> set (mp_groups p). \<forall>i. index_of (\<lambda>x. sg_group_id x = sg_group_id g) (mp_groups p) = Some i \<longrightarrow> settled_at i r'"
    by auto
  from last r'(1) have "r = r'"
    by (auto simp: read_message_resolution_def message_at_def human_message_Some and_then_Inr ok_or_Inr)
  with frozen_le [OF frozen r'(2)] have r: "mr_proposal r = Some p" "length (mr_groups r) = length (mp_groups p)"
    by (simp_all add: frozen_def)
  have "settled_at i r" if "i < length (mp_groups p)" for i
    using outcomes index_of_own [OF ids that] that \<open>r = r'\<close> by (metis nth_mem)
  with r have "\<forall>g \<in> set (mr_groups r). rg_status g \<noteq> Rs_Proposed"
    by (auto simp: settled_at_def in_set_conv_nth)
  with saved(1) read(2) r show ?thesis by blast
qed

lemma demo_asked_valid: "validate_snapshot demo_env demo_asked = Inr ()"
  by code_simp

theorem settle_message_completes_witness:
  "\<exists>r. snd (settle_message demo_env demo_text demo_disk (\<lambda>u. u) (demo_au (User ''ann'')) ''m'' (demo_store demo_asked)) = Inr r \<and>
     length (mr_groups r) = 1 \<and> rg_status (mr_groups r ! 0) \<noteq> Rs_Proposed"
proof (rule settled_demo_result)
  let ?au = "demo_au (User ''ann'')"
  fix r h t
  assume run: "settled_demo = (fst settled_demo, Inr r)" and t: "st_published (fst settled_demo) = Some (h, t)"
    "sn_binding t = demo_binding"
  have run': "settle_message_group demo_env demo_text demo_disk ?au ''m'' ''g1'' (demo_store demo_asked)
      = (fst settled_demo, Inr r)" using run by (simp add: settled_demo_def)
  from message_group_parts [OF this demo_message_fields(5,1,2,3,4)] t
  have m: "map_get (sn_resolutions t) ''m'' = Some r" "mr_ingress r = mr_ingress demo_message" by auto
  have human: "mr_ingress demo_message = Some (demo_human ''Approve q1, amount: 5; thank you'')"
    by (simp add: demo_message_def)
  have user: "need_human ?au u (demo_human words) = Inr ()" if "sn_binding u = demo_binding" for u words
    using that by (simp add: need_human_Inr validate_authority_def demo_au_def demo_human_def)
  have "sn_binding demo_asked = demo_binding" by (simp add: demo_asked_def demo_def empty_snapshot_def)
  then have first: "read_message_resolution ?au ''m'' (demo_store demo_asked) = Inr demo_message"
    using demo_message_fields(1,5) human user by (simp add: read_message_resolution_def human_of_def)
  have last: "read_message_resolution ?au ''m'' (fst settled_demo) = Inr r"
    using t m human user by (simp add: read_message_resolution_def human_of_def)
  have groups: "mp_groups demo_proposal = [demo_group]" "sg_group_id demo_group = ''g1''"
    by (simp_all add: demo_proposal_def demo_group_def)
  have ok: "settle_message demo_env demo_text demo_disk (\<lambda>u. u) ?au ''m'' (demo_store demo_asked)
      = (fst settled_demo, Inr r)"
    using first last run' demo_message_fields(2) groups by (simp add: settle_message_def)
  have "port_step\<^sup>*\<^sup>* u u" for u by simp
  from settle_message_completes [OF ok demo_message_fields(5) demo_asked_valid this] demo_message_fields(1,2) groups
  have "length (mr_groups r) = 1" "\<forall>g \<in> set (mr_groups r). rg_status g \<noteq> Rs_Proposed" by auto
  with ok show ?thesis by simp
qed

end
