(* ===== verification/Approvals.thy ===== *)
theory Approvals
  imports Messages
begin

text \<open>
  Which operations of a message approve a request: \<open>DecideApproval\<close> its own request, and no
  other.
\<close>

definition approved :: "snapshot \<Rightarrow> string \<Rightarrow> bool" where
  "approved s k = (\<exists>q. map_get (sn_requests s) k = Some q \<and> rq_status q = R_Approved)"

lemma approved_updates [simp]:
  "approved (put_ticket i w s) = approved s"
  "approved (put_assignment i a s) = approved s"
  "approved (s\<lparr>sn_project := p\<rparr>) = approved s"
  "approved (s\<lparr>sn_schema := n\<rparr>) = approved s"
  "approved (s\<lparr>sn_seq := q\<rparr>) = approved s"
  "approved (s\<lparr>sn_graph_revision := q\<rparr>) = approved s"
  "approved (s\<lparr>sn_intents := i'\<rparr>) = approved s"
  "approved (s\<lparr>sn_resolutions := rs\<rparr>) = approved s"
  "approved (s\<lparr>sn_receipts := xs\<rparr>) = approved s"
  "approved (with_facts_seq s) = approved s"
  by (simp_all add: approved_def put_ticket_def put_assignment_def fun_eq_iff)

lemma approved_invalidate: "approved (invalidate_requests i s) k \<Longrightarrow> approved s k"
  by (auto simp: approved_def invalidate_requests_def supersede_def split: if_splits)

lemma approved_put: "approved (put_request i q s) k \<longleftrightarrow>
    (if k = i then rq_status q = R_Approved else approved s k)"
  by (auto simp: approved_def put_request_def)

lemma walk_parents_approved: "walk_parents n s nxt = Inr t \<Longrightarrow> approved t = approved s"
proof (induction n s nxt arbitrary: t rule: walk_parents.induct)
  case (3 n s i)
  from "3.prems" obtain g where
    rest: "walk_parents n
       (if tk_state g = W_Accepted then put_ticket i (block_goal (sn_seq s) g) s else s)
       (tk_parent g) = Inr t"
    by (auto simp: result_simps)
  from "3.IH" [OF rest] show ?case by simp
qed auto

lemma invalidate_parent_goals_approved: "invalidate_parent_goals i s = Inr t \<Longrightarrow> approved t = approved s"
  by (auto simp: invalidate_parent_goals_def dest: walk_parents_approved)

lemma invalidate_one_approved: "invalidate_one s i = Inr t \<Longrightarrow> approved t k \<Longrightarrow> approved s k"
  by (auto simp: invalidate_one_def result_simps Let_def dest: approved_invalidate split: option.splits if_splits)

lemma invalidate_dependents_approved:
  assumes "invalidate_dependents i s = Inr t" "approved t k"
  shows "approved s k"
proof -
  from assms(1) have "approved t k \<longrightarrow> approved s k"
    unfolding invalidate_dependents_def
    by (rule try_fold_invariant) (auto dest: invalidate_one_approved)
  with assms(2) show ?thesis by simp
qed

lemmas downstream_approved = invalidate_parent_goals_approved invalidate_dependents_approved approved_invalidate

lemma plain_approved:
  "op_ready au i s = Inr t \<Longrightarrow> approved t k \<Longrightarrow> approved s k"
  "op_set_dependencies au ids i deps s = Inr t \<Longrightarrow> approved t k \<Longrightarrow> approved s k"
  "op_accept au i sid ev s = Inr t \<Longrightarrow> approved t k \<Longrightarrow> approved s k"
  "op_reject au i sid reason s = Inr t \<Longrightarrow> approved t k \<Longrightarrow> approved s k"
  "op_archive au i b s = Inr t \<Longrightarrow> approved t k \<Longrightarrow> approved s k"
  by (auto simp: op_ready_def op_set_dependencies_def op_accept_def op_reject_def op_archive_def
      call_simps Let_def dest!: downstream_approved)

lemma control_approved:
  "op_pause au i reason s = Inr t \<Longrightarrow> approved t k \<Longrightarrow> approved s k"
  "op_update_contract E au i c s = Inr t \<Longrightarrow> approved t k \<Longrightarrow> approved s k"
  "op_cancel au i s = Inr t \<Longrightarrow> approved t k \<Longrightarrow> approved s k"
  "op_reopen au i s = Inr t \<Longrightarrow> approved t k \<Longrightarrow> approved s k"
  by (auto simp: op_pause_def op_update_contract_def op_cancel_def op_reopen_def result_simps Let_def
      dest!: downstream_approved split: option.splits if_splits)

lemma create_approved:
  "op_create E au temp kind parent c deps s cx = Inr (t, cx') \<Longrightarrow> approved t k \<Longrightarrow> approved s k"
  "op_start E au i temp ws s cx = Inr (t, cx') \<Longrightarrow> approved t k \<Longrightarrow> approved s k"
  by (auto simp: op_create_def op_start_def install_start_def result_simps Let_def
      dest!: approved_invalidate split: option.splits if_splits)

lemma request_approved:
  "op_answer au i n answer s = Inr t \<Longrightarrow> approved t k \<Longrightarrow> approved s k"
  "op_decide_approval au i n fp approve s = Inr t \<Longrightarrow> approved t k \<Longrightarrow> approved s k \<or> approve \<and> k = i"
  by (auto simp: op_answer_def op_decide_approval_def call_simps Let_def approved_put dest!: approved_invalidate
      split: if_splits)

lemma semantic_approved:
  assumes "apply_op E au (typed_operation op) s cx = Inr (t, cx')" "approved t k" "\<not> approved s k"
  shows "\<exists>target fp. op = Sem_DecideApproval target fp True \<and> k = re_request_id target"
  using assms
  by (cases op) (auto simp: keep_ctx_Inr dest: plain_approved control_approved create_approved request_approved)

section \<open>What an approval by message says\<close>

lemma check_approving_Inr:
  assumes "check_approving T human quote q = Inr u"
  shows "list_ex (starts_with (tx_lower T (trim quote))) approve_prefixes"
    "rq_kind q = Approval action fp \<Longrightarrow> \<exists>sentence. human_sentence human quote = Some sentence \<and>
       \<not> conditional_text T (tx_lower T sentence) \<and> \<not> refused_human_text T (tx_lower T sentence) \<and>
       explicit_amount_matches T (tx_lower T sentence) (ac_amount action)"
  using assms
  by (auto simp: check_approving_def Let_def unconditional_human_context_def split: if_splits option.splits)

lemma approval_text_Inr:
  assumes "approval_text T s human quote q True = Inr u"
  shows "has_part clause_end quote (hi_text human)" "check_approving T human quote q = Inr ()"
    "\<exists>work. map_get (sn_tickets s) (rq_work_id q) = Some work \<and>
       (exact_name T quote (rq_id q) \<or> open_alike s q is_approval = 1 \<and> names_work T s quote work)"
  using assms by (auto simp: approval_text_def and_then_Inr expect_Inr split: if_splits)

lemma open_request_Inr:
  assumes "open_request s target = Inr q"
  shows "map_get (sn_requests s) (re_request_id target) = Some q" "rq_status q = R_Open"
    "rq_prompt_revision q = re_prompt_revision target"
    "\<exists>work. map_get (sn_tickets s) (rq_work_id q) = Some work \<and> tk_generation work = rq_generation q \<and>
       tk_contract_revision work = rq_contract_revision q"
  using assms by (auto simp: open_request_def and_then_Inr ok_or_Inr split: if_splits)

lemma check_decision_Inr:
  assumes "check_decision T s human clause target fp True = Inr u"
  obtains q action where "open_request s target = Inr q" "rq_kind q = Approval action fp"
    "approval_text T s human clause q True = Inr ()"
proof -
  from assms obtain q where q: "open_request s target = Inr q"
    by (auto simp: check_decision_def and_then_Inr)
  with assms that show thesis
    by (cases "rq_kind q") (auto simp: check_decision_def split: if_splits)
qed

lemma group_approval_checked:
  assumes "validate_group T s human g = Inr ()" "Sem_DecideApproval target fp True \<in> set (sg_operations g)"
  shows "contains (hi_text human) (sg_source_quote g)"
    "check_decision T s human (quoted_clause (sg_source_quote g)) target fp True = Inr ()"
proof -
  from assms(1) have c: "contains (hi_text human) (sg_source_quote g)"
    and "\<exists>w. try_fold (check_semantic T s human (sg_source_quote g)) [] (sg_operations g) = Inr w"
    by (auto simp: validate_group_def and_then_Inr split: option.splits if_splits)
  with try_fold_each assms(2) obtain u v
    where "check_semantic T s human (sg_source_quote g) u (Sem_DecideApproval target fp True) = Inr v" by metis
  with c show "contains (hi_text human) (sg_source_quote g)"
    "check_decision T s human (quoted_clause (sg_source_quote g)) target fp True = Inr ()"
    by (auto simp: check_semantic_def and_then_Inr)
qed

text \<open>
  C5: an approval that comes in a message was spoken by its Human.  When settling a group makes
  a request approved, the caller is the User who wrote the message, the group decides exactly
  that open request for the fingerprint of its action and the current version of its Work, and
  the text of the message has a complete clause, in a single sentence, that begins with an
  approving word and names the request, or names the Work when it has no other open approval.
  The sentence has no conditional, negated or doubtful word, and the amount it states, if any,
  is the amount of the action.
\<close>

theorem message_approval_is_spoken:
  assumes "settle_message_group E T disk au mid gid st = (st', Inr r)"
    and "st_published st = Some (h, s)" "st_published st' = Some (h', t)" "approved t k" "\<not> approved s k"
  shows "\<exists>saved human p g target fp q action work quote sentence.
    map_get (sn_resolutions s) mid = Some saved \<and> mr_ingress saved = Some human \<and>
    au_principal au = User (hi_user_id human) \<and> mr_proposal saved = Some p \<and> g \<in> set (mp_groups p) \<and>
    sg_group_id g = gid \<and> Sem_DecideApproval target fp True \<in> set (sg_operations g) \<and> re_request_id target = k \<and>
    map_get (sn_requests s) k = Some q \<and> rq_status q = R_Open \<and> rq_kind q = Approval action fp \<and>
    map_get (sn_tickets s) (rq_work_id q) = Some work \<and> tk_generation work = rq_generation q \<and>
    tk_contract_revision work = rq_contract_revision q \<and>
    contains (hi_text human) (sg_source_quote g) \<and> quote = quoted_clause (sg_source_quote g) \<and>
    has_part clause_end quote (hi_text human) \<and> human_sentence human quote = Some sentence \<and>
    list_ex (starts_with (tx_lower T (trim quote))) approve_prefixes \<and>
    (exact_name T quote (rq_id q) \<or> open_alike s q is_approval = 1 \<and> names_work T s quote work) \<and>
    \<not> conditional_text T (tx_lower T sentence) \<and> \<not> refused_human_text T (tx_lower T sentence) \<and>
    explicit_amount_matches T (tx_lower T sentence) (ac_amount action)"
proof -
  from assms(2-5) have "st' \<noteq> st" by auto
  with run_Inr [OF assms(1) [unfolded settle_message_group_def]] obtain v h2
    where d: "decide_settle_group E T au mid gid st = Inr (Commit v r)"
    and st': "st_published st' = Some (h2, with_facts_seq v)" by auto
  from decide_settle_group_Commit [OF d] assms(2) obtain saved human p i u saved' where
    m: "map_get (sn_resolutions s) mid = Some saved" "mr_ingress saved = Some human" "need_human au s human = Inr ()"
      "mr_proposal saved = Some p" "index_of (\<lambda>g. sg_group_id g = gid) (mp_groups p) = Some i"
    and g: "settled_group E T (st_root st) au s saved human i (mr_groups saved ! i) (mp_groups p ! i) = Inr (u, saved')"
    and s: "save_resolution E mid saved' u = Inr (Commit v r)"
    by (metis (no_types, lifting) option.inject prod.inject)
  have u: "approved u k" using assms(3,4) st' s by (auto simp: save_resolution_Inr)
  let ?g = "mp_groups p ! i"
  from index_of_Some [OF m(5)] have i: "?g \<in> set (mp_groups p)" "sg_group_id ?g = gid" by simp_all
  from g obtain w ids where valid: "validate_group T s human ?g = Inr ()"
    and run: "apply_operations E (st_root st) au (map typed_operation (sg_operations ?g)) (s\<lparr>sn_seq := sn_seq s + 1\<rparr>) = Inr (w, ids)"
    and w: "approved w k"
  proof (cases rule: settled_group_Inr)
    case (committed w ids bytes x)
    with that u show thesis by (auto simp: attempt_group_Inr group_command_def put_receipt_def)
  next
    case (refused e)
    with u assms(5) show thesis by simp
  qed
  from run have "approved w k \<longrightarrow> (\<exists>target fp. Sem_DecideApproval target fp True \<in> set (sg_operations ?g) \<and> re_request_id target = k)"
    by (rule apply_operations_invariant) (use assms(5) semantic_approved in \<open>fastforce+\<close>)
  with w obtain target fp where op: "Sem_DecideApproval target fp True \<in> set (sg_operations ?g)" "re_request_id target = k"
    by blast
  note checked = group_approval_checked [OF valid op(1)]
  from checked(2) show ?thesis
  proof (rule check_decision_Inr)
    let ?quote = "quoted_clause (sg_source_quote ?g)"
    fix q action
    assume q: "open_request s target = Inr q" "rq_kind q = Approval action fp"
      and a: "approval_text T s human ?quote q True = Inr ()"
    note q' = open_request_Inr [OF q(1)]
    note a' = approval_text_Inr [OF a]
    from check_approving_Inr(2) [OF a'(2) q(2)] obtain sentence where
      sent: "human_sentence human ?quote = Some sentence" "\<not> conditional_text T (tx_lower T sentence)"
      "\<not> refused_human_text T (tx_lower T sentence)"
      "explicit_amount_matches T (tx_lower T sentence) (ac_amount action)" by blast
    from q'(4) a'(3) obtain work where work: "map_get (sn_tickets s) (rq_work_id q) = Some work"
      "tk_generation work = rq_generation q" "tk_contract_revision work = rq_contract_revision q"
      "exact_name T ?quote (rq_id q) \<or> open_alike s q is_approval = 1 \<and> names_work T s ?quote work" by auto
    have user: "au_principal au = User (hi_user_id human)" using m(3) by (simp add: need_human_Inr)
    show ?thesis
      by (rule exI [of _ saved], rule exI [of _ human], rule exI [of _ p], rule exI [of _ ?g], rule exI [of _ target],
          rule exI [of _ fp], rule exI [of _ q], rule exI [of _ action], rule exI [of _ work], rule exI [of _ ?quote],
          rule exI [of _ sentence])
        (use m i op user q' q(2) work sent checked(1) a'(1) check_approving_Inr(1) [OF a'(2)] in simp)
  qed
qed

theorem message_approval_is_spoken_witness:
  "\<exists>human p quote sentence. mr_ingress demo_message = Some human \<and> mr_proposal demo_message = Some p \<and>
     human_sentence human quote = Some sentence \<and> hi_user_id human = ''ann'' \<and>
     explicit_amount_matches demo_text (tx_lower demo_text sentence) (Some ''5'')"
proof (rule settled_demo_result)
  fix r h t
  assume run: "settled_demo = (fst settled_demo, Inr r)" and t: "st_published (fst settled_demo) = Some (h, t)"
    "\<exists>q. map_get (sn_requests t) ''q1'' = Some q \<and> rq_status q = R_Approved"
  have run': "settle_message_group demo_env demo_text demo_disk (demo_au (User ''ann'')) ''m'' ''g1''
      (demo_store demo_asked) = (fst settled_demo, Inr r)" using run by (simp add: settled_demo_def)
  have asked: "map_get (sn_requests demo_asked) ''q1'' = Some asked"
    by (simp add: demo_asked_def map_get_Cons)
  have "approved t ''q1''" "\<not> approved demo_asked ''q1''"
    using t(2) asked by (simp_all add: approved_def asked_def)
  from message_approval_is_spoken [OF run' demo_message_fields(5) t(1) this] obtain saved human p q action fp quote sentence
    where m: "map_get (sn_resolutions demo_asked) ''m'' = Some saved" "mr_ingress saved = Some human" "mr_proposal saved = Some p"
      "au_principal (demo_au (User ''ann'')) = User (hi_user_id human)" "human_sentence human quote = Some sentence"
      "map_get (sn_requests demo_asked) ''q1'' = Some q" "rq_kind q = Approval action fp"
      "explicit_amount_matches demo_text (tx_lower demo_text sentence) (ac_amount action)"
    by blast
  from m(6) asked have "q = asked" by simp
  with m(7) have "ac_amount action = Some ''5''" by (auto simp: asked_def asked_action_def)
  moreover from m(1) demo_message_fields(1) have "saved = demo_message" by simp
  moreover from m(4) have "hi_user_id human = ''ann''" by (simp add: demo_au_def)
  ultimately show ?thesis using m(2,3,5,8) by auto
qed

section \<open>A quote with its delimiter\<close>

text \<open>
  The last delimiter of a quote is taken off before it is compared with the clauses of the
  message, for an approval but not for an acceptance: quoted as it stands in the message, an
  explicit acceptance always asks for clarification.
\<close>

definition demo_wanted :: snapshot where
  "demo_wanted = demo\<lparr>sn_tickets := [(''b'', demo_b\<lparr>tk_contract :=
     (demo_contract ''report'')\<lparr>co_user_acceptance_required := True\<rparr>\<rparr>)], sn_requests := [(''q1'', asked)]\<rparr>"

definition quoted_operation :: "string \<Rightarrow> string \<Rightarrow> semantic_operation \<Rightarrow> bool" where
  "quoted_operation words quote op =
     is_ok (validate_group demo_text demo_wanted (demo_human words)
       \<lparr>sg_group_id = ''g1'', sg_item_ids = [''i''], sg_source_quote = quote, sg_operations = [op],
        sg_clarification = None\<rparr>)"

definition accept_report :: semantic_operation where
  "accept_report = Sem_Accept (reference_of (the (map_get (sn_tickets demo_wanted) ''b''))) ''sb'' [''ok'']"

theorem delimited_acceptance_refused:
  "quoted_operation ''approve q1; thanks'' ''approve q1;'' (Sem_DecideApproval asked_reference ''fp'' True)"
  "quoted_operation ''accept report; thanks'' ''accept report'' accept_report"
  "\<not> quoted_operation ''accept report; thanks'' ''accept report;'' accept_report"
  by code_simp+

end
