(* ===== verification/Message_Input.thy ===== *)
theory Message_Input
  imports Message_Demo
begin

text \<open>What a model is shown of a message: a prefix of the candidates within the byte budget.\<close>

text \<open>The page shows the first tickets and says exactly how many it leaves out.\<close>

definition page_of :: "snapshot \<Rightarrow> ticket list \<Rightarrow> nat \<Rightarrow> resolution_input \<Rightarrow> bool" where
  "page_of s works k input =
     (k \<le> length works \<and> ri_candidates input = map (candidate_of s) (take k works) \<and>
      ri_omitted_count input = length works - k \<and> ri_truncated input = (k \<noteq> length works) \<and>
      ri_coverage input = (if k = length works then ''complete'' else ''partial''))"

definition measured :: "env \<Rightarrow> nat \<Rightarrow> resolution_input \<Rightarrow> bool" where
  "measured E budget input =
     (case canonical_bytes E (Pl_ResolutionInput input) of Inl _ \<Rightarrow> False | Inr b \<Rightarrow> length b \<le> budget)"

lemma page_with_candidates:
  "k \<le> length works \<Longrightarrow>
   page_of s works k (with_candidates (length works) (map (candidate_of s) (take k works)) (length works \<noteq> k) input)"
  by (auto simp: page_of_def with_candidates_def)

text \<open>A page that leaves something out already is its own truncation.\<close>

lemma with_candidates_page:
  assumes "page_of s works k input" "k < length works"
  shows "with_candidates (length works) (ri_candidates input) True input = input"
  using assms by (simp add: page_of_def with_candidates_def)

lemma with_candidates_frame [simp]:
  "ri_basis (with_candidates n cs b input) = ri_basis input"
  by (simp add: with_candidates_def)

lemma fill_candidates_page:
  assumes "fill_candidates E s budget (length works) input ts = Inr result"
    and "works = take k works @ ts @ rest" "page_of s works k input" "measured E budget input"
  shows "\<exists>j. k \<le> j \<and> j \<le> k + length ts \<and> page_of s works j result \<and> measured E budget result \<and>
    ri_basis result = ri_basis input"
  using assms
proof (induction ts arbitrary: k input)
  case Nil
  then show ?case by auto
next
  case (Cons t ts)
  have k: "k < length works" using Cons.prems(2) by (metis append_Cons append_Nil2 append_take_drop_id
        le_eq_less_or_eq linorder_not_less list.discI not_Cons_self2 same_append_eq self_append_conv2 take_all_iff)
  have next_take: "take (Suc k) works = take k works @ [t]"
    using Cons.prems(2) k by (metis append_Cons append_eq_conv_conj length_take min.absorb4 nth_append_length take_Suc_conv_app_nth)
  let ?more = "with_candidates (length works) (map (candidate_of s) (take (Suc k) works)) (length works \<noteq> Suc k) input"
  have cs: "ri_candidates input @ [candidate_of s t] = map (candidate_of s) (take (Suc k) works)"
    using Cons.prems(3) next_take by (simp add: page_of_def)
  have len: "length (map (candidate_of s) (take (Suc k) works)) = Suc k" using k by simp
  from Cons.prems(1) obtain b where b: "canonical_bytes E (Pl_ResolutionInput ?more) = Inr b"
    and rest: "(if length b \<le> budget then fill_candidates E s budget (length works) ?more ts
       else if ri_candidates input = [] then fail ContextBudgetExceeded
       else Inr (with_candidates (length works) (ri_candidates input) True input)) = Inr result"
    unfolding fill_candidates.simps Let_def cs len by (auto simp only: and_then_Inr)
  show ?case
  proof (cases "length b \<le> budget")
    case True
    with rest have r: "fill_candidates E s budget (length works) ?more ts = Inr result" by simp
    have "works = take (Suc k) works @ ts @ rest" using Cons.prems(2) next_take by simp
    from Cons.IH [OF r this page_with_candidates] k b True obtain j where
      "Suc k \<le> j" "j \<le> Suc k + length ts" "page_of s works j result" "measured E budget result"
      "ri_basis result = ri_basis input" by (auto simp: measured_def)
    then show ?thesis by (intro exI [of _ j]) simp
  next
    case False
    with rest with_candidates_page [OF Cons.prems(3) k] have "result = input" by (auto split: if_splits)
    with Cons.prems(3,4) show ?thesis by (intro exI [of _ k]) simp
  qed
qed

text \<open>
  C23: the input of a proposal keeps its budget and says what it leaves out.  The value fits the
  byte budget as a whole, its candidates are the first tickets of the pinned snapshot that are
  neither steps nor archived, at most as many as asked for and each with all its open requests,
  and the omitted count, the truncation flag and the coverage are exact.
\<close>

theorem resolution_input_bounded:
  assumes "make_resolution_input E disk load au mid limit budget st = (st', Inr input)"
  shows "\<exists>s k bytes. load (rb_commit (ri_basis input)) = Inr s \<and> k \<le> limit \<and> k \<le> length (candidates_of s) \<and>
    ri_candidates input = map (candidate_of s) (take k (candidates_of s)) \<and>
    ri_omitted_count input = length (candidates_of s) - k \<and>
    ri_truncated input = (k \<noteq> length (candidates_of s)) \<and>
    ri_coverage input = (if k = length (candidates_of s) then ''complete'' else ''partial'') \<and>
    canonical_bytes E (Pl_ResolutionInput input) = Inr bytes \<and> length bytes \<le> budget"
proof -
  from assms obtain saved where i: "input_of E load saved limit budget = Inr input"
    by (auto simp: make_resolution_input_def split: if_splits prod.splits sum.splits)
  then obtain human basis s where s: "load (rb_commit basis) = Inr s"
    and f: "fill_candidates E s budget (length (candidates_of s))
       (with_candidates (length (candidates_of s)) [] (candidates_of s \<noteq> [])
          \<lparr>ri_message_id = mr_message_id saved, ri_ingress_seq = mr_ingress_seq saved,
           ri_human = human, ri_basis = basis, ri_candidates = [], ri_truncated = False,
           ri_omitted_count = 0, ri_coverage = []\<rparr>) (take limit (candidates_of s)) = Inr input"
    and m: "measured E budget (with_candidates (length (candidates_of s)) [] (candidates_of s \<noteq> [])
          \<lparr>ri_message_id = mr_message_id saved, ri_ingress_seq = mr_ingress_seq saved,
           ri_human = human, ri_basis = basis, ri_candidates = [], ri_truncated = False,
           ri_omitted_count = 0, ri_coverage = []\<rparr>)"
    by (auto simp: input_of_def measured_def Let_def and_then_Inr split: if_splits)
  have p: "page_of s (candidates_of s) 0 (with_candidates (length (candidates_of s)) [] (candidates_of s \<noteq> [])
          \<lparr>ri_message_id = mr_message_id saved, ri_ingress_seq = mr_ingress_seq saved,
           ri_human = human, ri_basis = basis, ri_candidates = [], ri_truncated = False,
           ri_omitted_count = 0, ri_coverage = []\<rparr>)"
    by (auto simp: page_of_def with_candidates_def)
  have "candidates_of s = take 0 (candidates_of s) @ take limit (candidates_of s) @ drop limit (candidates_of s)" by simp
  from fill_candidates_page [OF f this p m] obtain k where "k \<le> length (take limit (candidates_of s))"
    "page_of s (candidates_of s) k input" "measured E budget input" "ri_basis input = basis" by auto
  with s show ?thesis by (auto simp: page_of_def measured_def split: sum.splits)
qed

definition demo_input_page :: "resolution_input result" where
  "demo_input_page = snd (make_resolution_input demo_env demo_disk (\<lambda>_. Inr demo_asked) (demo_au (User ''ann'')) ''m'' 2 128
     (demo_store demo_asked))"

lemma demo_input_page_ok: "is_ok demo_input_page"
  by code_simp

theorem resolution_input_bounded_witness:
  "\<exists>input k. demo_input_page = Inr input \<and> k \<le> 2 \<and>
     ri_candidates input = map (candidate_of demo_asked) (take k (candidates_of demo_asked))"
proof -
  from demo_input_page_ok obtain input where i: "demo_input_page = Inr input" by (auto simp: is_ok_iff)
  then have "make_resolution_input demo_env demo_disk (\<lambda>_. Inr demo_asked) (demo_au (User ''ann'')) ''m'' 2 128
     (demo_store demo_asked) = (fst (make_resolution_input demo_env demo_disk (\<lambda>_. Inr demo_asked)
       (demo_au (User ''ann'')) ''m'' 2 128 (demo_store demo_asked)), Inr input)"
    by (simp add: demo_input_page_def prod_eq_iff)
  from resolution_input_bounded [OF this] i show ?thesis by auto
qed

end
