(* ===== verification/Lifecycle.thy ===== *)
theory Lifecycle
  imports Reachable
begin

text \<open>
  The life of a ticket: the state machine every operation follows, the permits that a
  control operation revokes, what a start pins and what an acceptance requires, and the
  choice of the next claim.
\<close>

section \<open>The state machine\<close>

text \<open>The changes of a ticket's state each operation may make.\<close>

fun edge :: "operation \<Rightarrow> work_state \<Rightarrow> work_state \<Rightarrow> bool" where
  "edge (Op_Ready _) x y = (y = W_Ready)"
| "edge (Op_UpdateContract _ _) x y = (y = W_Ready \<or> y = W_Blocked)"
| "edge (Op_Start _ _ _) x y = (x = W_Ready \<and> y = W_Active)"
| "edge (Op_YieldForInput _ _ _) x y = (x = W_Active \<and> y = W_Blocked)"
| "edge (Op_Answer _ _ _) x y = (x = W_Blocked \<and> y = W_Ready)"
| "edge (Op_Submit _ _ _ _) x y = (x = W_Active \<and> y = W_Submitted)"
| "edge (Op_Accept _ _ _) x y = (x = W_Submitted \<and> y = W_Accepted)"
| "edge (Op_AcceptGoal _ _) x y = (x \<noteq> W_Cancelled \<and> y = W_Accepted)"
| "edge (Op_Reject _ _ _) x y = (x = W_Submitted \<and> y = W_Ready)"
| "edge (Op_Cancel _) x y = (y = W_Cancelled \<or> x \<noteq> W_Cancelled \<and> y = W_Blocked)"
| "edge (Op_Pause _ _) x y = (x \<in> {W_Draft, W_Ready, W_Active} \<and> y = W_Blocked)"
| "edge (Op_ConfirmStopped _ _) x y = (x = W_Blocked \<and> y = W_Ready)"
| "edge (Op_RuntimeStopped _ _ _) x y = (x \<noteq> W_Cancelled \<and> (y = W_Ready \<or> y = W_Blocked))"
| "edge (Op_ReconcileCompleted _ _) x y = (x \<noteq> W_Cancelled \<and> y = W_Active)"
| "edge (Op_OutcomeUnknown _ _) x y = (x \<noteq> W_Cancelled \<and> y = W_Blocked)"
| "edge (Op_Reopen _) x y = (y = W_Ready \<or> y = W_Blocked)"
| "edge _ x y = False"

definition moved_by :: "operation \<Rightarrow> ticket \<Rightarrow> ticket \<Rightarrow> bool" where
  "moved_by op w w' = (tk_state w' = tk_state w \<or> edge op (tk_state w) (tk_state w'))"

text \<open>A propagated change only blocks, and never a cancelled ticket.\<close>

definition calmed :: "ticket \<Rightarrow> ticket \<Rightarrow> bool" where
  "calmed w w' =
     (tk_state w' = tk_state w \<or> tk_state w \<noteq> W_Cancelled \<and> tk_state w' = W_Blocked)"

definition created :: "string \<Rightarrow> ticket \<Rightarrow> bool" where
  "created k w = (tk_state w = W_Draft \<or> tk_state w = W_Blocked)"

interpretation cm: evolving calmed never_new
  by unfold_locales (auto simp: calmed_def never_new_def)

definition calms :: "snapshot \<Rightarrow> snapshot \<Rightarrow> bool" where
  "calms s t = keeps calmed never_new (sn_tickets s) (sn_tickets t)"

lemma calms_refl: "sn_tickets t = sn_tickets s \<Longrightarrow> calms s t"
  by (simp add: calms_def cm.keeps_refl)

lemma calms_trans: "calms s t \<Longrightarrow> calms t u \<Longrightarrow> calms s u"
  by (auto simp: calms_def intro: cm.keeps_trans)

lemma calms_put:
  "calms s t \<Longrightarrow> map_get (sn_tickets t) i = Some w \<Longrightarrow> calmed w w' \<Longrightarrow> calms s (put_ticket i w' t)"
  by (auto simp: calms_def intro: cm.keeps_trans cm.keeps_put)

lemma calms_put_known:
  "calms s t \<Longrightarrow> map_get (sn_tickets t) i \<noteq> None \<Longrightarrow>
     (\<forall>w. map_get (sn_tickets t) i = Some w \<longrightarrow> calmed w w') \<Longrightarrow> calms s (put_ticket i w' t)"
  by (auto intro: calms_put)

lemma calms_frame [simp]:
  "calms s (put_assignment i a t) = calms s t"
  "calms s (put_request r rq t) = calms s t"
  "calms s (invalidate_requests i t) = calms s t"
  by (simp_all add: calms_def)

lemma calmed_updates [simp]:
  "calmed w (block_goal q w) \<longleftrightarrow> tk_state w \<noteq> W_Cancelled"
  "calmed w (revoke_work q w)"
  by (auto simp: calmed_def block_goal_def revoke_work_def touch_def)

lemma walk_parents_calms: "walk_parents n s nxt = Inr t \<Longrightarrow> calms u s \<Longrightarrow> calms u t"
proof (induction n s nxt arbitrary: t rule: walk_parents.induct)
  case (3 n s i)
  from "3.prems"(1) obtain g where g: "map_get (sn_tickets s) i = Some g"
    and rest: "walk_parents n
       (if tk_state g = W_Accepted then put_ticket i (block_goal (sn_seq s) g) s else s)
       (tk_parent g) = Inr t"
    by (auto simp: result_simps)
  show ?case
    by (rule "3.IH" [OF rest]) (use "3.prems"(2) g in \<open>auto intro: calms_put\<close>)
qed auto

lemma invalidate_one_calms: "invalidate_one s i = Inr t \<Longrightarrow> calms u s \<Longrightarrow> calms u t"
  by (auto simp: invalidate_one_def result_simps Let_def intro!: calms_put_known
      split: option.splits if_splits)

lemma invalidate_dependents_calms:
  assumes "invalidate_dependents i s = Inr t" "calms u s"
  shows "calms u t"
  using assms(1) unfolding invalidate_dependents_def
  by (rule try_fold_invariant) (use assms(2) in \<open>auto intro: invalidate_one_calms\<close>)

lemma downstream_calms:
  "invalidate_dependents i x = Inr y \<Longrightarrow> invalidate_parent_goals i y = Inr t \<Longrightarrow> calms x t"
  unfolding invalidate_parent_goals_def
  by (erule walk_parents_calms, erule invalidate_dependents_calms) (simp add: calms_refl)

text \<open>A direct change of one ticket, and what is propagated afterwards.\<close>

definition follows :: "operation \<Rightarrow> snapshot \<Rightarrow> snapshot \<Rightarrow> bool" where
  "follows op s t = keeps (moved_by op) created (sn_tickets s) (sn_tickets t)"

lemma follows_same [simp]: "follows op s s"
  by (simp add: follows_def keeps_def moved_by_def)

lemma follows_put:
  assumes "map_get (sn_tickets s) i \<noteq> None" "sn_tickets t = sn_tickets s"
    and "\<forall>w. map_get (sn_tickets s) i = Some w \<longrightarrow> moved_by op w w'"
  shows "follows op s (put_ticket i w' t)"
  using assms by (auto simp: follows_def keeps_def moved_by_def)

lemma follows_new:
  assumes "map_get (sn_tickets s) i = None" "created i w" "sn_tickets t = sn_tickets s"
  shows "follows op s (put_ticket i w t)"
  using assms by (auto simp: follows_def keeps_def moved_by_def)

lemma follows_frame [simp]:
  "follows op s (put_assignment i a t) = follows op s t"
  "follows op s (put_request r rq t) = follows op s t"
  "follows op s (put_submission j u t) = follows op s t"
  "follows op s (invalidate_requests i t) = follows op s t"
  "follows op s (t\<lparr>sn_project := p\<rparr>) = follows op s t"
  "follows op s (t\<lparr>sn_schema := n\<rparr>) = follows op s t"
  "follows op s (t\<lparr>sn_graph_revision := q\<rparr>) = follows op s t"
  "follows op s (t\<lparr>sn_resolutions := rs\<rparr>) = follows op s t"
  "follows op s (t\<lparr>sn_legacy_attachment := l\<rparr>) = follows op s t"
  "follows op s (t\<lparr>sn_intents := i'\<rparr>) = follows op s t"
  by (simp_all add: follows_def put_submission_def)

text \<open>An operation whose changes may be followed by a propagated block.\<close>

definition spreads :: "operation \<Rightarrow> bool" where
  "spreads op = (\<forall>x y. (x \<noteq> W_Cancelled \<or> edge op x y \<and> y \<noteq> W_Cancelled) \<longrightarrow> edge op x W_Blocked)"

lemma moved_then_calmed: "spreads op \<Longrightarrow> moved_by op w v \<Longrightarrow> calmed v u \<Longrightarrow> moved_by op w u"
  unfolding spreads_def moved_by_def calmed_def by metis

lemma follows_calms:
  assumes "follows op s t" "calms t u" "spreads op"
  shows "follows op s u"
  unfolding follows_def keeps_def
proof (intro conjI allI impI)
  fix k w assume "map_get (sn_tickets s) k = Some w"
  with assms(1) obtain v where v: "map_get (sn_tickets t) k = Some v" "moved_by op w v"
    unfolding follows_def by (blast dest: keepsD)
  with assms(2) obtain u' where "map_get (sn_tickets u) k = Some u'" "calmed v u'"
    unfolding calms_def by (blast dest: keepsD)
  with v(2) assms(3) show "\<exists>w'. map_get (sn_tickets u) k = Some w' \<and> moved_by op w w'"
    by (blast intro: moved_then_calmed)
next
  fix k w assume none: "map_get (sn_tickets s) k = None" and w: "map_get (sn_tickets u) k = Some w"
  have "map_get (sn_tickets t) k \<noteq> None"
    using assms(2) w by (auto simp: calms_def keeps_def never_new_def)
  then obtain v where v: "map_get (sn_tickets t) k = Some v" by blast
  with assms(2) w have "calmed v w" unfolding calms_def by (auto dest: keepsD)
  moreover have "created k v"
    using assms(1) none v unfolding follows_def by (blast dest: keeps_newD)
  ultimately show "created k w" by (auto simp: created_def calmed_def)
qed

lemma follows_downstream:
  assumes "follows op s x" "invalidate_dependents i x = Inr y" "invalidate_parent_goals i y = Inr t"
    and "spreads op"
  shows "follows op s t"
  using follows_calms [OF assms(1) downstream_calms [OF assms(2,3)] assms(4)] .

section \<open>Every operation follows its edges\<close>

lemma plain_ops_follow:
  "op_ready au i s = Inr t \<Longrightarrow> follows (Op_Ready j) s t"
  "op_set_dependencies au ids i deps s = Inr t \<Longrightarrow> follows (Op_SetDependencies j ds) s t"
  "op_accept au i sid ev s = Inr t \<Longrightarrow> follows (Op_Accept j sid ev) s t"
  "op_accept_goal au i ev s = Inr t \<Longrightarrow> follows (Op_AcceptGoal j ev) s t"
  "op_reject au i sid reason s = Inr t \<Longrightarrow> follows (Op_Reject j sid reason) s t"
  "op_archive au i b s = Inr t \<Longrightarrow> follows (Op_Archive j b) s t"
  by (auto simp: op_ready_def op_set_dependencies_def op_accept_def op_accept_goal_def
      op_reject_def op_archive_def call_simps Let_def moved_by_def touch_def intro!: follows_put)

lemma request_ops_follow:
  "op_decide_approval au rid n fp approve s = Inr t \<Longrightarrow> follows (Op_DecideApproval rid n fp approve) s t"
  "op_answer au rid n answer s = Inr t \<Longrightarrow> follows (Op_Answer rid n answer) s t"
  "op_consume_approval au rid fp attempt s = Inr t \<Longrightarrow> follows (Op_ConsumeApproval rid fp attempt) s t"
  by (auto simp: op_decide_approval_def op_answer_def op_consume_approval_def call_simps Let_def if_Inr
      moved_by_def touch_def intro!: follows_put)

lemma op_yield_follows: "op_yield_for_input au aid rid h s = Inr t \<Longrightarrow> follows (Op_YieldForInput aid r h) s t"
  by (auto simp: op_yield_for_input_def call_simps Let_def moved_by_def touch_def active_permit_Inr
      current_attempt_Inr intro!: follows_put)

lemma run_ops_follow:
  "op_running au aid s = Inr t \<Longrightarrow> follows (Op_Running aid) s t"
  "op_replace_plan au aid m steps s = Inr t \<Longrightarrow> follows (Op_ReplacePlan aid m steps) s t"
  "op_record_effect au aid attempt e s = Inr t \<Longrightarrow> follows (Op_RecordEffect aid attempt e) s t"
  "op_reconcile_completed au aid rr s = Inr t \<Longrightarrow> follows (Op_ReconcileCompleted aid rr) s t"
  "op_outcome_unknown au aid reason s = Inr t \<Longrightarrow> follows (Op_OutcomeUnknown aid reason) s t"
  "op_confirm_stopped au aid b s = Inr t \<Longrightarrow> follows (Op_ConfirmStopped aid b) s t"
  by (auto simp: op_running_def op_replace_plan_def op_record_effect_def op_reconcile_completed_def
      op_outcome_unknown_def op_confirm_stopped_def call_simps Let_def moved_by_def touch_def
      reconcilable_def intro!: follows_put)

lemma op_runtime_stopped_follows:
  "op_runtime_stopped au aid rr b s = Inr t \<Longrightarrow> follows (Op_RuntimeStopped aid rr b) s t"
  by (auto simp: op_runtime_stopped_def call_simps Let_def moved_by_def touch_def stopped_work_def
      intro!: follows_put)

lemma op_admitted_follows: "op_admitted au aid rr s = Inr t \<Longrightarrow> follows (Op_Admitted aid rr) s t"
  by (auto simp: op_admitted_def call_simps intro!: follows_put split: option.splits)

lemma op_start_follows: "op_start E au i temp ws s cx = Inr (t, cx') \<Longrightarrow> follows (Op_Start j temp ws) s t"
  by (auto simp: op_start_def install_start_def start_work_def call_simps Let_def moved_by_def touch_def
      intro!: follows_put split: option.splits)

lemma op_submit_follows:
  "op_submit E au aid temp arts ev s cx = Inr (t, cx') \<Longrightarrow> follows (Op_Submit aid temp arts ev) s t"
  by (auto simp: op_submit_def submission_stale_def call_simps Let_def if_Inr is_ok_iff moved_by_def
      touch_def current_attempt_Inr intro!: follows_put)

lemma op_ask_follows: "op_ask E au i temp p act s cx = Inr (t, cx') \<Longrightarrow> follows (Op_Ask j temp p act) s t"
  by (auto simp: op_ask_def call_simps intro!: follows_put)

lemma op_pause_follows: "op_pause au i reason s = Inr t \<Longrightarrow> follows (Op_Pause j reason) s t"
  by (auto simp: op_pause_def call_simps Let_def moved_by_def touch_def intro!: follows_put
      split: option.splits if_splits)

lemma associate_follows: "associate i p s = Inr t \<Longrightarrow> follows (Op_AssociateProject j p) s t"
  by (auto simp: associate_def call_simps moved_by_def touch_def intro!: follows_put
      split: option.splits if_splits)

lemma set_context_follows: "set_context E i c s = Inr t \<Longrightarrow> follows (Op_SetProjectContext j c) s t"
  by (auto simp: set_context_def call_simps moved_by_def touch_def intro!: follows_put split: if_splits)

lemma planning_set_follows:
  "planning_set E au i n p d s = Inr t \<Longrightarrow> follows (Op_SetPlanningMetadata j n p d) s t"
  by (auto dest!: planning_set_Inr simp: moved_by_def touch_def intro!: follows_put)

lemma message_ops_follow:
  "op_resolve_message E au r s = Inr t \<Longrightarrow> follows (Op_ResolveMessage r) s t"
  "op_attach_legacy E au x s = Inr t \<Longrightarrow> follows (Op_AttachLegacy x) s t"
  by (auto simp: op_resolve_message_def op_attach_legacy_def call_simps intro!: follows_put
      split: option.splits if_splits)

lemma op_create_follows:
  "op_create E au temp k p c deps s cx = Inr (t, cx') \<Longrightarrow>
     map_get (sn_tickets s) (en_uuid E (cx_drawn cx)) = None \<Longrightarrow> follows (Op_Create temp k p c deps) s t"
  by (auto simp: op_create_def call_simps allocate_Inr Let_def created_def new_ticket_def
      intro!: follows_new split: option.splits)

lemma op_import_follows:
  "op_import E au temp c x s cx = Inr (t, cx') \<Longrightarrow>
     map_get (sn_tickets s) (en_uuid E (cx_drawn cx)) = None \<Longrightarrow> follows (Op_Import temp c x) s t"
  by (auto simp: op_import_def call_simps allocate_Inr Let_def created_def new_ticket_def
      intro!: follows_new split: option.splits if_splits)

lemma spreads_ops [simp]:
  "spreads (Op_UpdateContract i c)" "spreads (Op_Cancel i)" "spreads (Op_Reopen i)"
  by (auto simp: spreads_def)

text \<open>The three operations that propagate, up to the propagation.\<close>

lemma op_update_contract_Inr:
  assumes "op_update_contract E au i c s = Inr t" "map_get (sn_tickets s) i = Some old"
    and "tk_contract old \<noteq> c"
  shows "\<exists>s1 y.
    invalidate_dependents i (invalidate_requests i (put_ticket i (replace_contract (sn_seq s) c old) s1)) = Inr y \<and>
    invalidate_parent_goals i y = Inr t \<and> sn_tickets s1 = sn_tickets s"
  using assms
  by (cases "tk_active_assignment old") (fastforce simp: op_update_contract_def call_simps Let_def)+

lemma op_update_contract_same:
  "op_update_contract E au i c s = Inr t \<Longrightarrow> map_get (sn_tickets s) i = Some old \<Longrightarrow>
     tk_contract old = c \<Longrightarrow> t = s"
  by (auto simp: op_update_contract_def call_simps)

lemma op_update_contract_known:
  "op_update_contract E au i c s = Inr t \<Longrightarrow> \<exists>old. map_get (sn_tickets s) i = Some old"
  by (auto simp: op_update_contract_def call_simps)

lemma op_cancel_Inr:
  assumes "op_cancel au i s = Inr t"
  shows "\<exists>w s1 y. map_get (sn_tickets s) i = Some w \<and>
    invalidate_dependents i (invalidate_requests i s1) = Inr y \<and> invalidate_parent_goals i y = Inr t \<and>
    sn_tickets s1 = map_put i (touch (sn_seq s) (w\<lparr>tk_state := W_Cancelled, tk_paused := False,
      tk_blocked := None, tk_accepted_submission := None\<rparr>)) (sn_tickets s)"
proof -
  from assms obtain w where w: "map_get (sn_tickets s) i = Some w"
    by (auto simp: op_cancel_def call_simps)
  with assms show ?thesis
    by (cases "tk_active_assignment w") (fastforce simp: op_cancel_def call_simps Let_def)+
qed

lemma op_reopen_Inr:
  assumes "op_reopen au i s = Inr t"
  shows "\<exists>w y. map_get (sn_tickets s) i = Some w \<and>
    invalidate_dependents i (invalidate_requests i (put_ticket i
      (touch (sn_seq s) (w\<lparr>tk_active_assignment := None, tk_paused := False, tk_state := W_Ready,
         tk_blocked := None, tk_accepted_submission := None, tk_current_submission := None\<rparr>)) s)) = Inr y \<and>
    invalidate_parent_goals i y = Inr t"
  using assms by (auto simp: op_reopen_def call_simps Let_def)

lemma follows_changed:
  assumes "map_get (sn_tickets s) i = Some w" "sn_tickets t = map_put i w' (sn_tickets s)"
    and "moved_by op w w'"
  shows "follows op s t"
  using assms by (auto simp: follows_def keeps_def moved_by_def)

lemma op_update_contract_follows:
  assumes "op_update_contract E au i c s = Inr t"
  shows "follows (Op_UpdateContract j c) s t"
proof -
  from op_update_contract_known [OF assms] obtain old where old: "map_get (sn_tickets s) i = Some old"
    by blast
  show ?thesis
  proof (cases "tk_contract old = c")
    case True
    with op_update_contract_same [OF assms old] show ?thesis by simp
  next
    case False
    from op_update_contract_Inr [OF assms old False] obtain s1 y where
      s1: "sn_tickets s1 = sn_tickets s"
      and y: "invalidate_dependents i
        (invalidate_requests i (put_ticket i (replace_contract (sn_seq s) c old) s1)) = Inr y"
      and t: "invalidate_parent_goals i y = Inr t" by blast
    show ?thesis
      by (rule follows_downstream [OF _ y t], rule follows_changed [OF old],
          simp add: s1, simp add: moved_by_def replace_contract_def touch_def, simp)
  qed
qed

lemma op_cancel_follows:
  assumes "op_cancel au i s = Inr t"
  shows "follows (Op_Cancel j) s t"
proof -
  from op_cancel_Inr [OF assms] obtain w s1 y where w: "map_get (sn_tickets s) i = Some w"
    and s1: "sn_tickets s1 = map_put i (touch (sn_seq s) (w\<lparr>tk_state := W_Cancelled, tk_paused := False,
      tk_blocked := None, tk_accepted_submission := None\<rparr>)) (sn_tickets s)"
    and y: "invalidate_dependents i (invalidate_requests i s1) = Inr y"
    and t: "invalidate_parent_goals i y = Inr t" by blast
  show ?thesis
    by (rule follows_downstream [OF _ y t], rule follows_changed [OF w], simp add: s1,
        simp add: moved_by_def touch_def, simp)
qed

lemma op_reopen_follows:
  assumes "op_reopen au i s = Inr t"
  shows "follows (Op_Reopen j) s t"
proof -
  from op_reopen_Inr [OF assms] obtain w y where w: "map_get (sn_tickets s) i = Some w"
    and y: "invalidate_dependents i (invalidate_requests i (put_ticket i
      (touch (sn_seq s) (w\<lparr>tk_active_assignment := None, tk_paused := False, tk_state := W_Ready,
         tk_blocked := None, tk_accepted_submission := None, tk_current_submission := None\<rparr>)) s)) = Inr y"
    and t: "invalidate_parent_goals i y = Inr t" by blast
  show ?thesis
    by (rule follows_downstream [OF _ y t], rule follows_changed [OF w], simp,
        simp add: moved_by_def touch_def, simp)
qed

lemmas ops_follow = plain_ops_follow request_ops_follow op_yield_follows run_ops_follow
  op_runtime_stopped_follows op_admitted_follows op_pause_follows associate_follows
  set_context_follows planning_set_follows message_ops_follow op_update_contract_follows
  op_cancel_follows op_reopen_follows

lemma apply_op_follows:
  assumes "apply_op E au op s cx = Inr (t, cx')"
    and "map_get (sn_tickets s) (en_uuid E (cx_drawn cx)) = None"
  shows "follows op s t"
  using assms
  by (cases op) (auto simp: keep_ctx_Inr and_then_Inr dest: ops_follow op_start_follows op_submit_follows
      op_ask_follows op_create_follows op_import_follows)

lemma resolve_initial [simp]: "resolve (cx_ids initial_ctx) i = i"
  by (simp add: resolve_def initial_ctx_def)

text \<open>
  C18: every operation moves tickets along its edges only.  Whatever one operation does, an
  existing ticket keeps its state or makes a change that \<open>edge\<close> allows the operation; so
  only Start and ReconcileCompleted make a ticket Active, only Submit makes it Submitted,
  only Accept and AcceptGoal make it Accepted, and a cancelled ticket is revived by a new
  contract, an explicit Ready or a Reopen only.  The new identifiers are assumed unused.
\<close>

theorem ticket_state_machine:
  assumes "apply_op E au op s cx = Inr (t, cx')" "map_get (sn_tickets s) i = Some w"
    and "map_get (sn_tickets s) (en_uuid E (cx_drawn cx)) = None"
  shows "\<exists>w'. map_get (sn_tickets t) i = Some w' \<and>
    (tk_state w' = tk_state w \<or> edge op (tk_state w) (tk_state w'))"
  using apply_op_follows [OF assms(1,3)] assms(2)
  unfolding follows_def moved_by_def by (blast dest: keepsD)

theorem ticket_state_machine_witness:
  "\<exists>t w'. apply_op demo_env (demo_au (Supervisor ''sup'')) (Op_Cancel ''a'') demo initial_ctx = Inr (t, initial_ctx) \<and>
     map_get (sn_tickets t) ''b'' = Some w' \<and> (tk_state w' = W_Active \<or> edge (Op_Cancel ''a'') W_Active (tk_state w'))"
proof -
  have ok: "is_ok (op_cancel (demo_au (Supervisor ''sup'')) ''a'' demo)" by code_simp
  then obtain t where "op_cancel (demo_au (Supervisor ''sup'')) (resolve (cx_ids initial_ctx) ''a'') demo = Inr t"
    by (auto simp: is_ok_iff resolve_initial)
  then have t: "apply_op demo_env (demo_au (Supervisor ''sup'')) (Op_Cancel ''a'') demo initial_ctx = Inr (t, initial_ctx)"
    by (simp add: keep_ctx_def)
  have b: "map_get (sn_tickets demo) ''b'' = Some demo_b" by (simp add: demo_def map_get_Cons)
  have n: "map_get (sn_tickets demo) (en_uuid demo_env (cx_drawn initial_ctx)) = None"
    by (simp add: demo_def demo_env_def map_get_Cons)
  show ?thesis using ticket_state_machine [OF t b n] t by (auto simp: demo_b_def demo_ticket_def)
qed

section \<open>Permits\<close>

lemma calms_not_active:
  assumes "calms s t" "map_get (sn_tickets s) i = Some w" "tk_state w \<noteq> W_Active"
  shows "\<exists>v. map_get (sn_tickets t) i = Some v \<and> tk_state v \<noteq> W_Active"
proof -
  from assms(1,2) obtain v where "map_get (sn_tickets t) i = Some v" "calmed w v"
    unfolding calms_def by (blast dest: keepsD)
  with assms(3) show ?thesis by (auto simp: calmed_def)
qed

text \<open>
  C19: a control operation revokes the permits of its Work at once.  After Cancel, Pause or
  a change of the contract no attempt of that Work passes \<open>active_permit\<close>, so none of its
  Workers may use a tool, report an effect, or yield.
\<close>

theorem control_revokes_permits:
  assumes "op_cancel au i s = Inr t \<or> op_pause au i reason s = Inr t \<or>
      op_update_contract E au i c s = Inr t \<and>
        map_option tk_contract (map_get (sn_tickets s) i) \<noteq> Some c"
    and "as_work_id a = i"
  shows "active_permit t a \<noteq> Inr ()"
proof -
  have "\<exists>v. map_get (sn_tickets t) i = Some v \<and> tk_state v \<noteq> W_Active"
    using assms(1)
  proof (elim disjE conjE)
    assume "op_cancel au i s = Inr t"
    from op_cancel_Inr [OF this] obtain w s1 y where
      y: "invalidate_dependents i (invalidate_requests i s1) = Inr y" "invalidate_parent_goals i y = Inr t"
      and s1: "sn_tickets s1 = map_put i (touch (sn_seq s) (w\<lparr>tk_state := W_Cancelled, tk_paused := False,
        tk_blocked := None, tk_accepted_submission := None\<rparr>)) (sn_tickets s)" by blast
    show ?thesis
      by (rule calms_not_active [OF downstream_calms [OF y]]) (simp_all add: s1, simp add: touch_def)
  next
    assume "op_pause au i reason s = Inr t"
    then show ?thesis by (auto simp: op_pause_def call_simps Let_def touch_def split: option.splits if_splits)
  next
    assume u: "op_update_contract E au i c s = Inr t"
      and c: "map_option tk_contract (map_get (sn_tickets s) i) \<noteq> Some c"
    from op_update_contract_known [OF u] obtain old where old: "map_get (sn_tickets s) i = Some old" by blast
    with c have "tk_contract old \<noteq> c" by simp
    from op_update_contract_Inr [OF u old this] obtain s1 y where
      y: "invalidate_dependents i
        (invalidate_requests i (put_ticket i (replace_contract (sn_seq s) c old) s1)) = Inr y"
        "invalidate_parent_goals i y = Inr t" by blast
    have "tk_state (replace_contract (sn_seq s) c old) \<noteq> W_Active"
      by (simp add: replace_contract_def touch_def)
    then show ?thesis
      by (intro calms_not_active [OF downstream_calms [OF y]]) simp_all
  qed
  with assms(2) show ?thesis by (auto simp: active_permit_Inr current_attempt_Inr)
qed

theorem control_revokes_permits_witness:
  "active_permit demo (demo_attempt ''y'' ''b'' [demo_input] A_Running False) = Inr () \<and>
   (\<exists>t. op_pause (demo_au (Supervisor ''sup'')) ''b'' ''why'' demo = Inr t \<and>
     active_permit t (demo_attempt ''y'' ''b'' [demo_input] A_Running False) \<noteq> Inr ())"
proof -
  have p: "active_permit demo (demo_attempt ''y'' ''b'' [demo_input] A_Running False) = Inr ()" by code_simp
  have "is_ok (op_pause (demo_au (Supervisor ''sup'')) ''b'' ''why'' demo)" by code_simp
  then obtain t where t: "op_pause (demo_au (Supervisor ''sup'')) ''b'' ''why'' demo = Inr t"
    by (auto simp: is_ok_iff)
  have w: "as_work_id (demo_attempt ''y'' ''b'' [demo_input] A_Running False) = ''b''"
    by (simp add: demo_attempt_def new_assignment_def)
  show ?thesis using p t control_revokes_permits [OF disjI2 [OF disjI1 [OF t]] w] by blast
qed

end
