(* ===== verification/Gates.thy ===== *)
theory Gates
  imports Lifecycle
begin

text \<open>
  What the gates of a Work's life let through: what a start pins, what an acceptance
  requires, how often an approval is used, and which Work a claim selects.
\<close>

section \<open>Starting\<close>

text \<open>The result of a Work that a later Work takes as an input.\<close>

definition accepted_result :: "snapshot \<Rightarrow> string \<Rightarrow> dependency_input \<Rightarrow> bool" where
  "accepted_result s d x =
     (\<exists>w sid su. map_get (sn_tickets s) d = Some w \<and> tk_state w = W_Accepted \<and>
        tk_accepted_submission w = Some sid \<and> map_get (sn_submissions s) sid = Some su \<and>
        x = \<lparr>di_work_id = d, di_submission_id = sid, di_contract_revision = tk_contract_revision w,
             di_artifact_hashes = map ar_sha256 (su_artifacts su)\<rparr>)"

lemma dependency_input_of_Inr: "dependency_input_of s d = Inr x \<longleftrightarrow> accepted_result s d x"
  by (auto simp: dependency_input_of_def accepted_result_def call_simps split: if_splits)

lemma dependencies_Inr:
  "dependencies s w = Inr xs \<longleftrightarrow> list_all2 (accepted_result s) (tk_depends_on w) xs"
  by (simp add: dependencies_def try_map_Inr dependency_input_of_Inr)

lemma install_start_frames:
  "sn_assignments (install_start s i w aid c h xs ws) =
     map_put aid (new_assignment s i w aid xs ws) (sn_assignments s)"
  "sn_tickets (install_start s i w aid c h xs ws) =
     map_put i (start_work (sn_seq s) aid w) (sn_tickets s)"
  by (auto simp: install_start_def Let_def split: option.splits)

lemma start_owner_free:
  assumes "check_start_workspace E s (Some x) = Inr ()" "map_get (sn_assignments s) j = Some b"
    and "holds_resources b" "as_workspace b = Some v"
  shows "\<not> conflicts x v"
proof -
  have "\<not> owner_conflict s x"
    using assms(1) by (auto simp: check_start_workspace_def call_simps)
  then show ?thesis using assms(2-4) by (rule owner_free)
qed

text \<open>
  C9: a start pins exactly the accepted results.  Starting succeeds only for a ready Work
  without an active attempt whose every dependency is accepted; the new attempt, in a fresh
  generation, carries for each dependency in order the accepted submission, its contract
  revision and its artifact hashes, and the contract's tools; and its workspace conflicts
  with no attempt that still holds its resources.
\<close>

theorem start_pins_accepted_inputs:
  assumes "op_start E au i temp ws s cx = Inr (t, cx')"
  shows "\<exists>w a. map_get (sn_tickets s) i = Some w \<and> tk_state w = W_Ready \<and>
    tk_active_assignment w = None \<and>
    map_get (sn_assignments t) (en_uuid E (cx_drawn cx)) = Some a \<and>
    list_all2 (accepted_result s) (tk_depends_on w) (as_dependency_inputs a) \<and>
    as_generation a = tk_generation w + 1 \<and> as_contract_revision a = tk_contract_revision w \<and>
    as_allowed_tools a = co_allowed_tools (tk_contract w) \<and> as_workspace a = ws \<and>
    (\<forall>j b x v. map_get (sn_assignments s) j = Some b \<and> holds_resources b \<and>
       as_workspace b = Some v \<and> ws = Some x \<longrightarrow> \<not> conflicts x v) \<and>
    map_get (sn_tickets t) i = Some (start_work (sn_seq s) (en_uuid E (cx_drawn cx)) w)"
proof -
  from assms obtain w c xs h where w: "map_get (sn_tickets s) i = Some w" "tk_state w = W_Ready"
      "tk_active_assignment w = None"
    and g: "check_start_workspace E s ws = Inr ()" "dependencies s w = Inr xs"
    and t: "t = install_start s i w (en_uuid E (cx_drawn cx)) c h xs ws"
    by (auto simp: op_start_def call_simps allocate_Inr split: if_splits)
  have "\<forall>j b x v. map_get (sn_assignments s) j = Some b \<and>
      holds_resources b \<and> as_workspace b = Some v \<and> ws = Some x \<longrightarrow> \<not> conflicts x v"
    using g(1) start_owner_free by blast
  with w g(2) show ?thesis
    by (simp add: t install_start_frames dependencies_Inr) (simp add: new_assignment_def)
qed

section \<open>Accepting\<close>

text \<open>
  C4: an acceptance needs the exact current result.  Only a supervisor (the user, where the
  contract asks for it) accepts, with evidence, and only the Work's current submission: not
  stale, for this contract revision and generation, made from what its dependencies have
  accepted now, without an uncertain effect, by an attempt whose process the host has
  confirmed stopped.  Nothing but the ticket changes.
\<close>

theorem accept_needs_exact_result:
  assumes "op_accept au i sid evidence s = Inr t"
  shows "need_supervisor au = Inr () \<and> evidence \<noteq> [] \<and>
    (\<exists>w su a. map_get (sn_tickets s) i = Some w \<and> tk_state w = W_Submitted \<and>
      (co_user_acceptance_required (tk_contract w) \<longrightarrow> need_user au = Inr ()) \<and>
      tk_current_submission w = Some sid \<and> map_get (sn_submissions s) sid = Some su \<and>
      \<not> su_stale su \<and> su_contract_revision su = tk_contract_revision w \<and>
      su_generation su = tk_generation w \<and>
      list_all2 (accepted_result s) (tk_depends_on w) (su_dependency_inputs su) \<and>
      (\<forall>e \<in> set (vals (su_effects su)). ef_state e \<noteq> E_Started \<and> ef_state e \<noteq> E_OutcomeUnknown) \<and>
      map_get (sn_assignments s) (su_assignment_id su) = Some a \<and> as_process_stopped a \<and>
      as_runtime a = Some (su_runtime su) \<and>
      t = put_ticket i (touch (sn_seq s)
            (w\<lparr>tk_state := W_Accepted, tk_accepted_submission := Some sid\<rparr>)) s)"
proof -
  from assms obtain w where w0: "map_get (sn_tickets s) i = Some w"
    by (auto simp: op_accept_def call_simps)
  with assms obtain su a where
    w: "map_get (sn_tickets s) i = Some w" "tk_state w = W_Submitted" "tk_current_submission w = Some sid"
    and su: "map_get (sn_submissions s) sid = Some su" "\<not> su_stale su" "su_generation su = tk_generation w"
      "su_contract_revision su = tk_contract_revision w" "dependencies s w = Inr (su_dependency_inputs su)"
      "\<not> uncertain (su_effects su)"
    and a: "matching_submission_assignment s w su = Some a" "as_process_stopped a"
    and g: "need_supervisor au = Inr ()" "evidence \<noteq> []"
      "\<not> co_user_acceptance_required (tk_contract w) \<or> need_user au = Inr ()"
      "t = put_ticket i (touch (sn_seq s)
            (w\<lparr>tk_state := W_Accepted, tk_accepted_submission := Some sid\<rparr>)) s"
    by (cases "co_user_acceptance_required (tk_contract w)")
      (auto simp: op_accept_def call_simps)
  from a(1) have m: "map_get (sn_assignments s) (su_assignment_id su) = Some a"
    "as_runtime a = Some (su_runtime su)"
    by (auto simp: matching_submission_assignment_def split: option.splits if_splits)
  from su(6) have "\<forall>e \<in> set (vals (su_effects su)). ef_state e \<noteq> E_Started \<and> ef_state e \<noteq> E_OutcomeUnknown"
    by (auto simp: uncertain_def uncertain_effect_def list_ex_iff)
  with w su a(2) g m show ?thesis unfolding dependencies_Inr
    by (intro conjI exI [of _ w] exI [of _ su] exI [of _ a]) simp_all
qed

section \<open>Approvals\<close>

text \<open>
  C21: an approval is used once.  Once an approval has been consumed for an action attempt,
  consuming it again succeeds only as a replay of the same attempt and the same action, and
  then changes nothing.
\<close>

theorem approval_used_once:
  assumes "op_consume_approval au rid fp attempt s = Inr t"
    and "op_consume_approval au' rid fp' attempt' t = Inr u"
  shows "attempt' = attempt \<and> fp' = fp \<and> u = t"
proof -
  from assms(1) obtain r where r: "map_get (sn_requests t) rid = Some r" "rq_status r = R_Consumed"
    "rq_consumed_attempt r = Some attempt" "has_fingerprint r fp"
    by (auto simp: op_consume_approval_def has_fingerprint_def call_simps if_Inr Let_def)
  with assms(2) show ?thesis
    by (auto simp: op_consume_approval_def has_fingerprint_def call_simps if_Inr Let_def
        split: request_kind.splits)
qed

section \<open>Claims\<close>

lemma pick_next [simp]:
  "pick e None = Some e"
  "pick e (Some b) = Some (if before_in_queue (fst e) (fst b) then e else b)"
  by (simp_all add: pick_def)

lemma fold_pick_least:
  "\<exists>m. fold pick es (Some b) = Some m \<and> m \<in> set (b # es) \<and>
     (\<forall>e \<in> set (b # es). \<not> before_in_queue (fst e) (fst m))"
proof (induction es arbitrary: b)
  case Nil
  then show ?case by (auto simp: before_in_queue_def)
next
  case (Cons e es)
  from Cons.IH [of "if before_in_queue (fst e) (fst b) then e else b"] show ?case
    by (auto simp: before_in_queue_def split: if_splits)
qed

lemma oldest_None: "oldest es = None \<longleftrightarrow> es = []"
proof (cases es)
  case (Cons e es')
  with fold_pick_least [of es' e] show ?thesis by (auto simp: oldest_def)
qed (simp add: oldest_def)

lemma oldest_least:
  assumes "oldest es = Some m"
  shows "m \<in> set es \<and> (\<forall>e \<in> set es. \<not> before_in_queue (fst e) (fst m))"
proof (cases es)
  case (Cons e es')
  with assms have "fold pick es' (Some e) = Some m" by (simp add: oldest_def)
  with fold_pick_least [of es' e] Cons show ?thesis by auto
qed (use assms in \<open>simp add: oldest_def\<close>)

lemma eligible_Some:
  "eligible s c = Some (w, c') \<longleftrightarrow>
     c' = c \<and> map_get (sn_tickets s) (cc_work_id c) = Some w \<and> claimable s w"
  by (auto simp: eligible_def split: option.splits if_splits)

lemma in_map_filter: "y \<in> set (List.map_filter f xs) \<longleftrightarrow> (\<exists>x \<in> set xs. f x = Some y)"
  by (induction xs) (auto split: option.splits)

lemma in_eligibles:
  "(w, c) \<in> set (List.map_filter (eligible s) cs) \<longleftrightarrow>
     c \<in> set cs \<and> map_get (sn_tickets s) (cc_work_id c) = Some w \<and> claimable s w"
  by (auto simp: in_map_filter eligible_Some)

lemma prepare_ready_claim_Inr:
  assumes "prepare_ready_claim au seen op_id cs n st = Inr r"
  shows "\<exists>s. st_published st = Some (sr_commit seen, s) \<and>
    (occupied s \<ge> n \<and> r = CapacityBlocked (occupied s) n \<or>
     occupied s < n \<and> \<not> has_key (sn_receipts s) op_id \<and> sr_seq seen = sn_seq s \<and>
     (oldest (List.map_filter (eligible s) cs) = None \<and> r = NoEligibleWork \<or>
      (\<exists>w c. oldest (List.map_filter (eligible s) cs) = Some (w, c) \<and>
         r = Prepared (start_command s op_id w c))))"
proof -
  from assms obtain s where s: "st_published st = Some (sr_commit seen, s)"
    by (auto simp: prepare_ready_claim_def published_def Let_def call_simps if_Inr)
  show ?thesis
    using assms s
    by (cases "oldest (List.map_filter (eligible s) cs)")
      (auto simp: prepare_ready_claim_def published_def Let_def call_simps if_Inr)
qed

text \<open>
  C25: a claim takes the Work that has waited longest.  A prepared claim starts, for the
  observed sequence, a candidate that can be started, and no other such candidate has waited
  longer (ties go to the smaller id); it is refused for capacity exactly when the attempts
  that hold resources fill it; and it finds no Work only when no candidate can be started.
\<close>

theorem claim_takes_longest_waiting:
  assumes "prepare_ready_claim au seen op_id cs capacity st = Inr r"
  shows "\<exists>s. st_published st = Some (sr_commit seen, s) \<and>
    (case r of
       CapacityBlocked n m \<Rightarrow> n = occupied s \<and> m = capacity \<and> capacity \<le> n
     | NoEligibleWork \<Rightarrow> occupied s < capacity \<and>
         (\<forall>c \<in> set cs. \<forall>w. map_get (sn_tickets s) (cc_work_id c) = Some w \<longrightarrow> \<not> claimable s w)
     | Prepared cmd \<Rightarrow> occupied s < capacity \<and> cd_expected_seq cmd = sn_seq s \<and>
         (\<exists>c \<in> set cs. \<exists>w. map_get (sn_tickets s) (cc_work_id c) = Some w \<and> claimable s w \<and>
            cd_operations cmd = [Op_Start (tk_id w) ''assignment'' (cc_workspace c)] \<and>
            (\<forall>c' \<in> set cs. \<forall>w'. map_get (sn_tickets s) (cc_work_id c') = Some w' \<and> claimable s w' \<longrightarrow>
               \<not> before_in_queue w' w)))"
proof -
  from prepare_ready_claim_Inr [OF assms] obtain s where s: "st_published st = Some (sr_commit seen, s)"
    and r: "occupied s \<ge> capacity \<and> r = CapacityBlocked (occupied s) capacity \<or>
     occupied s < capacity \<and>
     (oldest (List.map_filter (eligible s) cs) = None \<and> r = NoEligibleWork \<or>
      (\<exists>w c. oldest (List.map_filter (eligible s) cs) = Some (w, c) \<and>
         r = Prepared (start_command s op_id w c)))" by blast
  from r show ?thesis
  proof (elim disjE conjE exE)
    assume "oldest (List.map_filter (eligible s) cs) = None" "occupied s < capacity" "r = NoEligibleWork"
    moreover have "\<not> claimable s w"
      if "c \<in> set cs" "map_get (sn_tickets s) (cc_work_id c) = Some w" for c w
      using calculation(1) that in_eligibles [of w c s cs] by (auto simp: oldest_None)
    ultimately show ?thesis using s by auto
  next
    fix w c
    assume o: "oldest (List.map_filter (eligible s) cs) = Some (w, c)" "occupied s < capacity"
      "r = Prepared (start_command s op_id w c)"
    note least = oldest_least [OF o(1)]
    then have c: "c \<in> set cs" "map_get (sn_tickets s) (cc_work_id c) = Some w" "claimable s w"
      by (auto simp: in_eligibles)
    have "\<not> before_in_queue w' w"
      if "c' \<in> set cs" "map_get (sn_tickets s) (cc_work_id c') = Some w'" "claimable s w'" for c' w'
      using least that in_eligibles [of w' c' s cs] by force
    with o s c show ?thesis by (auto simp: start_command_def)
  qed (use s in auto)
qed

section \<open>The gates on a concrete scope\<close>

definition demo_action :: action where
  "demo_action = \<lparr>ac_kind = ''send'', ac_target = ''m'', ac_data_hash = ''h'', ac_amount = None,
     ac_permissions = [], ac_risk = ''low''\<rparr>"

definition demo_gate :: snapshot where
  "demo_gate = demo
     \<lparr>sn_tickets := [(''a'', demo_a W_Submitted), (''b'', demo_b),
                     (''c'', (demo_ticket ''c'' K_Work (Some ''g'') [] W_Ready)\<lparr>tk_updated_seq := 3\<rparr>),
                     (''d'', (demo_ticket ''d'' K_Work (Some ''g'') [] W_Ready)\<lparr>tk_updated_seq := 2\<rparr>),
                     (''g'', demo_ticket ''g'' K_Goal None [] W_Draft)],
      sn_requests := [(''q'', \<lparr>rq_id = ''q'', rq_work_id = ''b'', rq_assignment_id = Some ''y'',
         rq_generation = 1, rq_contract_revision = 1, rq_prompt_revision = 1,
         rq_kind = Approval demo_action ''fp'', rq_prompt = ''p'', rq_status = R_Approved,
         rq_answer = None, rq_consumed_attempt = None,
         rq_worker_packet_hash = None, rq_updated_seq = 4\<rparr>)]\<rparr>"

definition demo_ready :: snapshot where
  "demo_ready = demo
     \<lparr>sn_tickets := [(''a'', demo_a W_Accepted),
                     (''b'', demo_b\<lparr>tk_state := W_Ready, tk_active_assignment := None\<rparr>),
                     (''g'', demo_ticket ''g'' K_Goal None [] W_Draft)],
      sn_assignments := [(''x'', demo_attempt ''x'' ''a'' [] A_Submitted True)]\<rparr>"

theorem start_pins_accepted_inputs_witness:
  "\<exists>t cx' a. op_start demo_env (demo_au (Supervisor ''sup'')) ''b'' ''t'' (Some (demo_workspace ''z'')) demo_ready initial_ctx
       = Inr (t, cx') \<and>
     map_get (sn_assignments t) ''u0'' = Some a \<and> as_dependency_inputs a = [demo_input]"
proof -
  let ?op = "op_start demo_env (demo_au (Supervisor ''sup'')) ''b'' ''t'' (Some (demo_workspace ''z'')) demo_ready initial_ctx"
  have "is_ok ?op" by code_simp
  then obtain t cx' where r: "?op = Inr (t, cx')" by (auto simp: is_ok_iff)
  have b: "map_get (sn_tickets demo_ready) ''b'' = Some (demo_b\<lparr>tk_state := W_Ready, tk_active_assignment := None\<rparr>)"
    "map_get (sn_tickets demo_ready) ''a'' = Some (demo_a W_Accepted)"
    "map_get (sn_submissions demo_ready) ''sa'' = Some demo_submission"
    by (simp_all add: demo_ready_def demo_def map_get_Cons)
  have u: "en_uuid demo_env (cx_drawn initial_ctx) = ''u0''"
    by (simp add: demo_env_def initial_ctx_def decimal.simps char_of_def bit_0)
  have d: "tk_depends_on demo_b = [''a'']"
    by (simp add: demo_b_def demo_ticket_def new_ticket_def)
  have "xs = [demo_input]" if "list_all2 (accepted_result demo_ready) [''a''] xs" for xs
    using that b(2,3)
    by (auto simp: list_all2_Cons1 accepted_result_def demo_a_def demo_ticket_def new_ticket_def
        demo_submission_def demo_artifact_def demo_input_def)
  with start_pins_accepted_inputs [OF r] r b(1) u d show ?thesis by auto
qed

theorem accept_needs_exact_result_witness:
  "\<exists>t. op_accept (demo_au (Supervisor ''sup'')) ''a'' ''sa'' [''seen''] demo_gate = Inr t \<and>
     need_supervisor (demo_au (Supervisor ''sup'')) = Inr ()"
proof -
  have "is_ok (op_accept (demo_au (Supervisor ''sup'')) ''a'' ''sa'' [''seen''] demo_gate)" by code_simp
  then obtain t where r: "op_accept (demo_au (Supervisor ''sup'')) ''a'' ''sa'' [''seen''] demo_gate = Inr t"
    by (auto simp: is_ok_iff)
  from accept_needs_exact_result [OF r] r show ?thesis by blast
qed

definition demo_y :: authority where
  "demo_y = demo_au (Worker ''y'' 1 ''run-y'' ''ses-y'')"

theorem approval_used_once_witness:
  "\<exists>t u. op_consume_approval demo_y ''q'' ''fp'' ''try'' demo_gate = Inr t \<and>
     op_consume_approval demo_y ''q'' ''fp'' ''try'' t = Inr u \<and> u = t \<and>
     \<not> is_ok (op_consume_approval demo_y ''q'' ''fp'' ''again'' t)"
proof -
  let ?op = "op_consume_approval demo_y ''q'' ''fp''"
  have "is_ok (and_then (?op ''try'' demo_gate) (?op ''try''))" by code_simp
  then obtain t u where r: "?op ''try'' demo_gate = Inr t" "?op ''try'' t = Inr u"
    by (auto simp: is_ok_iff and_then_Inr)
  have "\<not> is_ok (?op ''again'' t)"
    using approval_used_once [OF r(1), of demo_y "''fp''" "''again''"] by (auto simp: is_ok_iff)
  with r approval_used_once [OF r] show ?thesis by blast
qed

definition demo_candidates :: "claim_candidate list" where
  "demo_candidates = [\<lparr>cc_work_id = ''c'', cc_workspace = None\<rparr>, \<lparr>cc_work_id = ''d'', cc_workspace = None\<rparr>]"

definition demo_seen :: snapshot_ref where
  "demo_seen = \<lparr>sr_commit = ''c'', sr_seq = 9, sr_authority_epoch = 0\<rparr>"

theorem claim_takes_longest_waiting_witness:
  "\<exists>cmd. prepare_ready_claim (demo_au (Supervisor ''sup'')) demo_seen ''claim'' demo_candidates 5
       (demo_store demo_gate) = Inr (Prepared cmd) \<and>
     cd_operations cmd = [Op_Start ''d'' ''assignment'' None]"
proof -
  let ?op = "prepare_ready_claim (demo_au (Supervisor ''sup'')) demo_seen ''claim'' demo_candidates 5
       (demo_store demo_gate)"
  have "(case ?op of Inr (Prepared cmd) \<Rightarrow> True | _ \<Rightarrow> False)" by code_simp
  then obtain cmd where r: "?op = Inr (Prepared cmd)"
    by (auto split: sum.splits claim_decision.splits)
  let ?c = "(demo_ticket ''c'' K_Work (Some ''g'') [] W_Ready)\<lparr>tk_updated_seq := 3\<rparr>"
  let ?d = "(demo_ticket ''d'' K_Work (Some ''g'') [] W_Ready)\<lparr>tk_updated_seq := 2\<rparr>"
  have get: "map_get (sn_tickets demo_gate) ''c'' = Some ?c" "map_get (sn_tickets demo_gate) ''d'' = Some ?d"
    by (simp_all add: demo_gate_def demo_def map_get_Cons)
  have st: "st_published (demo_store demo_gate) = Some (''c'', demo_gate)" by (simp add: demo_store_def)
  have "claimable demo_gate ?d \<and> before_in_queue ?d ?c \<and> tk_id ?d = ''d''" by code_simp
  then have ok: "claimable demo_gate ?d" "before_in_queue ?d ?c" "tk_id ?d = ''d''" by blast+
  from claim_takes_longest_waiting [OF r] st obtain c w where
    cw: "c \<in> set demo_candidates" "map_get (sn_tickets demo_gate) (cc_work_id c) = Some w"
      "cd_operations cmd = [Op_Start (tk_id w) ''assignment'' (cc_workspace c)]"
    and least: "\<forall>c' \<in> set demo_candidates. \<forall>w'. map_get (sn_tickets demo_gate) (cc_work_id c') = Some w' \<and>
       claimable demo_gate w' \<longrightarrow> \<not> before_in_queue w' w" by auto
  have "\<not> before_in_queue ?d w"
    using least get(2) ok(1) by (auto simp: demo_candidates_def)
  with cw get ok(2,3) have "tk_id w = ''d''" "cc_workspace c = None"
    by (auto simp: demo_candidates_def)
  with r cw(3) show ?thesis by simp
qed

end
