(* ===== verification/Decisions.thy ===== *)
theory Decisions
  imports Graphs Examples
begin

text \<open>
  What three checks of the code decide, stated without their loops: the plan of a Worker is a
  forest, the dependencies of a scope are acyclic, and canonical bytes do not depend on the
  order of JSON members.
\<close>

section \<open>Forests\<close>

lemma finite_uplinks:
  assumes "finite {i. link i \<noteq> None}"
  shows "finite (uplinks link)"
proof (rule finite_subset)
  show "uplinks link \<subseteq> (\<lambda>i. (i, the (the (link i)))) ` {i. link i \<noteq> None}"
    by (force simp: uplinks_def)
qed (use assms in simp)

lemma all_rooted_iff:
  assumes "finite {i. link i \<noteq> None}"
  shows "(\<forall>i. link i \<noteq> None \<longrightarrow> rooted link i) \<longleftrightarrow>
    acyclic (uplinks link) \<and> (\<forall>i p. link i = Some (Some p) \<longrightarrow> link p \<noteq> None)"
proof (intro iffI conjI allI impI)
  assume r: "\<forall>i. link i \<noteq> None \<longrightarrow> rooted link i"
  show "acyclic (uplinks link)"
    unfolding acyclic_def
  proof (intro allI notI)
    fix i assume c: "(i, i) \<in> (uplinks link)\<^sup>+"
    then have "link i \<noteq> None" by (auto simp: uplinks_def dest: tranclD)
    with r c rooted_no_cycle show False by metis
  qed
  fix i p assume l: "link i = Some (Some p)"
  with r have "rooted link i" by simp
  with l have "rooted link p" by (auto elim: rootedE)
  then show "link p \<noteq> None" by (auto elim: rootedE)
next
  fix i
  assume a: "acyclic (uplinks link) \<and> (\<forall>i p. link i = Some (Some p) \<longrightarrow> link p \<noteq> None)"
  then have "wf ((uplinks link)\<inverse>)"
    using finite_acyclic_wf_converse finite_uplinks assms by blast
  then show "link i \<noteq> None \<Longrightarrow> rooted link i"
  proof (induction i rule: wf_induct_rule)
    case (less i)
    then obtain q where q: "link i = Some q" by blast
    show ?case
    proof (cases q)
      case None
      with q show ?thesis by (simp add: rooted.root)
    next
      case (Some p)
      then have "rooted link p" using less q a by (auto simp: uplinks_def)
      with q Some show ?thesis by (auto intro: rooted.up)
    qed
  qed
qed

definition status_agrees :: "local_step \<Rightarrow> bool" where
  "status_agrees st = (\<forall>status. ls_status st = Some status \<longrightarrow> (status = S_Completed) = ls_completed st)"

lemma step_link_known: "step_link steps i \<noteq> None \<longleftrightarrow> i \<in> ls_id ` set steps"
  by (auto simp: step_link_def find_step_def find_None_iff)

lemma validate_step_Inr:
  "validate_step steps st = Inr u \<longleftrightarrow> status_agrees st \<and> rooted (step_link steps) (ls_id st)"
  by (auto simp: validate_step_def status_agrees_def stp.walk_iff simp del: walk_steps.simps
      split: option.splits if_splits)

text \<open>
  The plan check is exact.  A Worker's plan is accepted if and only if it has at most 256
  steps with distinct, nonempty ids, every status agrees with the completed flag, every parent
  is a step of the plan, and the parents form no cycle.
\<close>

theorem plan_check_exact:
  "validate_plan steps = Inr () \<longleftrightarrow>
     length steps \<le> 256 \<and> distinct (map ls_id steps) \<and> [] \<notin> set (map ls_id steps) \<and>
     list_all status_agrees steps \<and>
     (\<forall>i p. step_link steps i = Some (Some p) \<longrightarrow> p \<in> set (map ls_id steps)) \<and>
     acyclic (uplinks (step_link steps))"
proof -
  have fin: "finite {i. step_link steps i \<noteq> None}"
    by (rule stp.finite_nodes)
  have "(\<forall>st \<in> set steps. rooted (step_link steps) (ls_id st)) \<longleftrightarrow>
      (\<forall>i. step_link steps i \<noteq> None \<longrightarrow> rooted (step_link steps) i)"
    unfolding step_link_known by blast
  also have "\<dots> \<longleftrightarrow> acyclic (uplinks (step_link steps)) \<and>
      (\<forall>i p. step_link steps i = Some (Some p) \<longrightarrow> p \<in> ls_id ` set steps)"
    using all_rooted_iff [OF fin] unfolding step_link_known .
  finally have walks: "(\<forall>st \<in> set steps. rooted (step_link steps) (ls_id st)) \<longleftrightarrow>
      acyclic (uplinks (step_link steps)) \<and>
      (\<forall>i p. step_link steps i = Some (Some p) \<longrightarrow> p \<in> ls_id ` set steps)" .
  have "length (set_of (map ls_id steps)) = length steps \<longleftrightarrow> distinct (map ls_id steps)"
    using length_set_of [of "map ls_id steps"]
    by (metis card_distinct distinct_card length_map)
  then show ?thesis
    using walks
    by (auto simp: validate_plan_def Let_def call_simps try_each_Inr validate_step_Inr list_all_iff
        split: if_splits)
qed

section \<open>Dependencies\<close>

text \<open>
  C26: the dependency check is exact.  The searches from all tickets succeed if and only if
  the dependency relation has no cycle and leads to existing Works only.
\<close>

theorem dependency_check_exact:
  "(\<forall>i w. map_get (sn_tickets s) i = Some w \<longrightarrow>
       walk_dependencies s i [] (rev (tk_depends_on w)) = Inr ()) \<longleftrightarrow>
   acyclic (depends s) \<and> (\<forall>i d. (i, d) \<in> depends s \<longrightarrow> is_work s d)"
    (is "?walks \<longleftrightarrow> _")
proof (intro iffI conjI allI impI)
  assume w: ?walks
  have reach: "j \<noteq> i \<and> is_work s j" if c: "(i, j) \<in> (depends s)\<^sup>+" for i j
  proof -
    from c obtain t where t: "map_get (sn_tickets s) i = Some t"
      by (auto simp: depends_def dest: tranclD)
    from w t have "walk_dependencies s i [] (rev (tk_depends_on t)) = Inr ()" by blast
    with c show ?thesis unfolding walk_dependencies_iff [OF t] by blast
  qed
  then show "acyclic (depends s)" by (auto simp: acyclic_def)
  show "is_work s d" if "(i, d) \<in> depends s" for i d using reach that by blast
next
  fix i w
  assume a: "acyclic (depends s) \<and> (\<forall>i d. (i, d) \<in> depends s \<longrightarrow> is_work s d)"
    and w: "map_get (sn_tickets s) i = Some w"
  have "j \<noteq> i \<and> is_work s j" if c: "(i, j) \<in> (depends s)\<^sup>+" for j
  proof -
    from c obtain k where "(k, j) \<in> depends s" by (auto dest: tranclD2)
    with a c show ?thesis by (auto simp: acyclic_def)
  qed
  then show "walk_dependencies s i [] (rev (tk_depends_on w)) = Inr ()"
    using walk_dependencies_iff [OF w] by blast
qed

section \<open>Canonical bytes\<close>

text \<open>
  C28: canonical bytes and hashes do not depend on the order of JSON members.  Two values
  whose JSON differs only in the order of object members, at any depth, have the same
  canonical bytes and the same digest; and canonicalising is idempotent.
\<close>

theorem canonical_order_free:
  assumes "en_to_json E p = Some i" "en_to_json E q = Some j" "same_json i j" "json_wf i"
  shows "canonical_bytes E p = canonical_bytes E q \<and> digest E p = digest E q \<and>
    json_canonical (sort_json i) \<and> sort_json (sort_json i) = sort_json i"
  using assms sort_json_same [OF assms(3,4)] json_canonical_sort [OF assms(4)]
  by (simp add: canonical_bytes_def digest_def sort_json_canonical)

section \<open>The checks on concrete inputs\<close>

definition demo_step :: "string \<Rightarrow> string option \<Rightarrow> local_step" where
  "demo_step i p = \<lparr>ls_id = i, ls_parent = p, ls_title = ''t'', ls_completed = False, ls_status = None\<rparr>"

theorem plan_check_exact_witness:
  "validate_plan [demo_step ''a'' None, demo_step ''b'' (Some ''a'')] = Inr () \<and>
   acyclic (uplinks (step_link [demo_step ''a'' None, demo_step ''b'' (Some ''a'')]))"
proof -
  have "validate_plan [demo_step ''a'' None, demo_step ''b'' (Some ''a'')] = Inr ()" by code_simp
  with plan_check_exact [of "[demo_step ''a'' None, demo_step ''b'' (Some ''a'')]"] show ?thesis by blast
qed

theorem dependency_check_exact_witness:
  "walk_dependencies demo ''b'' [] (rev (tk_depends_on demo_b)) = Inr () \<and> acyclic (depends demo)"
proof -
  let ?ok = "\<lambda>e. is_ok (walk_dependencies demo (fst e) [] (rev (tk_depends_on (snd e))))"
  have "list_all ?ok (sn_tickets demo)" by code_simp
  then have "\<forall>i w. map_get (sn_tickets demo) i = Some w \<longrightarrow>
      walk_dependencies demo i [] (rev (tk_depends_on w)) = Inr ()"
    by (auto simp: list_all_iff is_ok_iff dest!: map_get_in_map)
  moreover have "map_get (sn_tickets demo) ''b'' = Some demo_b" by (simp add: demo_def map_get_Cons)
  ultimately show ?thesis using dependency_check_exact [of demo] by blast
qed

definition demo_object :: "bool \<Rightarrow> json" where
  "demo_object first =
     (if first then JObject [(''a'', JNull), (''b'', JBool True)]
      else JObject [(''b'', JBool True), (''a'', JNull)])"

definition demo_order_env :: env where
  "demo_order_env = demo_env\<lparr>en_to_json := \<lambda>p. Some (demo_object (p = Pl_Operations []))\<rparr>"

theorem canonical_order_free_witness:
  "demo_object True \<noteq> demo_object False \<and>
   canonical_bytes demo_order_env (Pl_Operations []) =
     canonical_bytes demo_order_env (Pl_Operations [Op_Reopen ''a''])"
proof -
  have same: "same_json (demo_object True) (demo_object False)"
    unfolding demo_object_def if_True if_False
  proof (rule same_json.object)
    show "list_all2 (\<lambda>p q. fst p = fst q \<and> same_json (snd p) (snd q))
        [(''a'', JNull), (''b'', JBool True)] [(''a'', JNull), (''b'', JBool True)]"
      by (simp add: same_json.null same_json.bool)
  qed simp
  have p: "en_to_json demo_order_env (Pl_Operations []) = Some (demo_object True)"
    and q: "en_to_json demo_order_env (Pl_Operations [Op_Reopen ''a'']) = Some (demo_object False)"
    by (simp_all add: demo_order_env_def)
  have w: "json_wf (demo_object True)" by (simp add: demo_object_def)
  show ?thesis
  proof
    show "demo_object True \<noteq> demo_object False" by (simp add: demo_object_def)
  qed (rule canonical_order_free [OF p q same w, THEN conjunct1])
qed

end
