(* ===== verification/Faults.thy ===== *)
theory Faults
  imports Histories Lifecycle
begin

text \<open>
  Where the code falls short of what it means to do: inputs of one supervisor command on
  which a loop inside \<open>apply\<close> does not end or an \<open>expect\<close> fails, because the graph is
  validated only after the whole batch, and a runtime report for a superseded attempt that
  blocks an accepted Work.
\<close>

lemma failing_decision:
  "decide_execute E au cmd st = Inl e \<Longrightarrow> execute E disk au cmd st = (st, Inl e)"
  by (simp add: execute_def run_def)

text \<open>A command that creates a Goal under a parent nobody has checked, and then changes its contract.\<close>

definition faulty_command :: "string \<Rightarrow> snapshot \<Rightarrow> string \<Rightarrow> string \<Rightarrow> contract \<Rightarrow> contract \<Rightarrow> command" where
  "faulty_command op s temp parent c c' = \<lparr>
     cd_operation_id = op, cd_binding = sn_binding s, cd_expected_seq = sn_seq s,
     cd_expected_epoch = sn_authority_epoch s,
     cd_operations = [Op_Create temp K_Goal (Some parent) c [], Op_UpdateContract temp c'],
     cd_source = None\<rparr>"

lemma not_consumed:
  assumes "consumers s i = []"
  shows "invalidate_dependents i s = Inr s"
  using assms by (simp add: invalidate_dependents_def affected_works_def)

text \<open>What the two operations do before the walk over the accepted goals starts.\<close>

lemma faulty_batch:
  assumes "need_supervisor au = Inr ()" "validate_contract E c = Inr ()" "validate_contract E c' = Inr ()"
    and "c \<noteq> c'" "temp \<noteq> []" "i = en_uuid E 0" "consumers s i = []"
  obtains t where "parent_of t i = Some (if parent = temp then i else parent)"
    "\<And>j. j \<noteq> i \<Longrightarrow> map_get (sn_tickets t) j = map_get (sn_tickets s) j"
    "apply_operations E root au [Op_Create temp K_Goal (Some parent) c [], Op_UpdateContract temp c'] s =
       and_then (invalidate_parent_goals i t) (\<lambda>t. Inr (t, [(temp, i)]))"
proof -
  let ?ids = "[(temp, i)]"
  let ?g = "new_ticket s i K_Goal (Some (resolve ?ids parent)) [] c"
  let ?s1 = "put_ticket i ?g s"
  let ?s2 = "case map_get (ps_links (sn_project ?s1)) (resolve ?ids parent) of None \<Rightarrow> ?s1
     | Some project \<Rightarrow> ?s1\<lparr>sn_project := (sn_project ?s1)\<lparr>ps_links := map_put i project (ps_links (sn_project ?s1))\<rparr>\<rparr>"
  let ?s3 = "?s2\<lparr>sn_graph_revision := sn_graph_revision ?s2 + 1\<rparr>"
  let ?t = "invalidate_requests i (put_ticket i (replace_contract (sn_seq ?s3) c' ?g) ?s3)"
  have tickets: "sn_tickets ?s3 = map_put i ?g (sn_tickets s)" "sn_assignments ?s3 = sn_assignments s"
    by (auto simp: put_ticket_def split: option.splits)
  have t: "sn_tickets ?t = map_put i (replace_contract (sn_seq ?s3) c' ?g) (sn_tickets ?s3)"
    "sn_assignments ?t = sn_assignments s"
    using tickets by (simp_all add: invalidate_requests_def put_ticket_def)
  have "consumers ?t i = consumers s i" using t(2) by (simp add: consumers_def)
  with assms(7) have none: "invalidate_dependents i ?t = Inr ?t" by (simp add: not_consumed)
  have ids: "resolve ?ids parent = (if parent = temp then i else parent)" "resolve ?ids temp = i"
    by (auto simp: resolve_def map_get_def)
  define cx where "cx = \<lparr>cx_ids = ?ids, cx_drawn = 1\<rparr>"
  have cx: "cx_ids cx = ?ids" by (simp add: cx_def)
  have "allocate E temp initial_ctx = Inr (i, cx)"
    using assms(5,6) by (simp add: allocate_def initial_ctx_def has_key_iff cx_def Let_def)
  then have create: "op_create E au temp K_Goal (Some parent) c [] s initial_ctx = Inr (?s3, cx)"
    using assms(1,2) by (simp add: op_create_def set_of_def cx Let_def split: option.split)
  have "op_update_contract E au i c' ?s3 = and_then (invalidate_dependents i ?t) (invalidate_parent_goals i)"
    using assms tickets by (simp add: op_update_contract_def find_ticket_def new_ticket_def Let_def)
  then have batch: "apply_operations E root au [Op_Create temp K_Goal (Some parent) c [], Op_UpdateContract temp c'] s =
      and_then (invalidate_parent_goals i ?t) (\<lambda>t. Inr (t, ?ids))"
    unfolding none
    by (cases "invalidate_parent_goals i ?t")
      (simp_all add: apply_operations_def apply_step_def check_roots_def create cx ids keep_ctx_def)
  show thesis
    by (rule that [of ?t])
      (use batch tickets t ids in \<open>simp_all add: parent_of_def replace_contract_def touch_def new_ticket_def\<close>)
qed

text \<open>
  C29: one command can hang the store.  In every writable store and for every Supervisor or
  User whose authority holds, a batch that creates a Goal under its own temporary id and then
  changes its contract runs for ever: \<open>invalidate_parent_goals\<close> follows the parent of the Goal
  to itself, and the cycle would be rejected by \<open>validate_snapshot\<close> only after the batch.
  Under a parent that does not exist the same batch panics.  The conditions are those of any
  fresh command that would be tried: the current sequence and epoch, valid and different
  contracts, an unused operation id and a new ticket id that no attempt depends on.
\<close>

theorem unvalidated_parent_hangs_or_panics:
  assumes "st_published st = Some (h, s)" "st_health st = Writable" "validate_authority au s = Inr ()"
    and "need_supervisor au = Inr ()" "op \<noteq> []" "length op \<le> 256" "map_get (sn_receipts s) op = None"
    and "\<not> migration_owns s op" "validate_contract E c = Inr ()" "validate_contract E c' = Inr ()" "c \<noteq> c'"
    and "temp \<noteq> []" "consumers s (en_uuid E 0) = []"
    and "canonical_bytes E (Pl_Command (faulty_command op s temp parent c c')) = Inr bytes"
  shows "(parent = temp \<longrightarrow>
      execute E disk au (faulty_command op s temp parent c c') st = (st, Inl Diverges)) \<and>
    (parent \<noteq> temp \<and> parent \<noteq> en_uuid E 0 \<and> map_get (sn_tickets s) parent = None \<longrightarrow>
      execute E disk au (faulty_command op s temp parent c c') st =
        (st, Inl (Panic ''validated containment parent'')))"
proof -
  let ?i = "en_uuid E 0" and ?s = "s\<lparr>sn_seq := sn_seq s + 1\<rparr>"
  let ?ops = "[Op_Create temp K_Goal (Some parent) c [], Op_UpdateContract temp c']"
  have "consumers ?s ?i = []" using assms(13) by (simp add: consumers_def)
  from faulty_batch [OF assms(4,9-12) refl this, of parent "st_root st"] obtain t where
    t: "parent_of t ?i = Some (if parent = temp then ?i else parent)"
      "\<And>j. j \<noteq> ?i \<Longrightarrow> map_get (sn_tickets t) j = map_get (sn_tickets ?s) j"
    and b: "apply_operations E (st_root st) au ?ops ?s =
      and_then (invalidate_parent_goals ?i t) (\<lambda>t. Inr (t, [(temp, ?i)]))" by blast
  have d: "decide_execute E au (faulty_command op s temp parent c c') st =
      and_then (perform E (st_root st) au (faulty_command op s temp parent c c') bytes s) (\<lambda>(t, r). Inr (Commit t r))"
    using assms(1-8,14)
    by (simp add: decide_execute_def published_def check_command_def require_writable_def faulty_command_def)
  have fails: "execute E disk au (faulty_command op s temp parent c c') st = (st, Inl e)"
    if "invalidate_parent_goals ?i t = Inl e" for e
  proof (rule failing_decision)
    have "perform E (st_root st) au (faulty_command op s temp parent c c') bytes s = Inl e"
      using that b by (simp add: perform_def faulty_command_def)
    then show "decide_execute E au (faulty_command op s temp parent c c') st = Inl e" by (simp add: d)
  qed
  show ?thesis
  proof (intro conjI impI)
    assume "parent = temp"
    with t(1) have "(?i, ?i) \<in> parents t" by (simp add: parents_iff)
    with t(1) \<open>parent = temp\<close> have "invalidate_parent_goals ?i t = Inl Diverges"
      unfolding invalidate_parent_goals_def by (auto simp: diverges_iff_loop simp del: walk_parents.simps)
    then show "execute E disk au (faulty_command op s temp parent c c') st = (st, Inl Diverges)" by (rule fails)
  next
    assume p: "parent \<noteq> temp \<and> parent \<noteq> ?i \<and> map_get (sn_tickets s) parent = None"
    with t have "invalidate_parent_goals ?i t = Inl (Panic ''validated containment parent'')"
      by (simp add: invalidate_parent_goals_def)
    then show "execute E disk au (faulty_command op s temp parent c c') st =
        (st, Inl (Panic ''validated containment parent''))" by (rule fails)
  qed
qed

lemma demo_fault_checks:
  "validate_authority (demo_au (Supervisor ''sup'')) (empty_snapshot demo_binding) = Inr ()"
  "need_supervisor (demo_au (Supervisor ''sup'')) = Inr ()"
  "map_get (sn_receipts (empty_snapshot demo_binding)) ''bad'' = None"
  "\<not> migration_owns (empty_snapshot demo_binding) ''bad''"
  "validate_contract demo_env (demo_contract ''t'') = Inr ()"
  "validate_contract demo_env (demo_contract ''u'') = Inr ()"
  "demo_contract ''t'' \<noteq> demo_contract ''u''"
  "consumers (empty_snapshot demo_binding) (en_uuid demo_env 0) = []"
  by code_simp+

theorem unvalidated_parent_hangs_or_panics_witness:
  "execute demo_env demo_disk (demo_au (Supervisor ''sup''))
     (faulty_command ''bad'' (empty_snapshot demo_binding) ''t'' ''t'' (demo_contract ''t'') (demo_contract ''u'')) demo_fresh
     = (demo_fresh, Inl Diverges) \<and>
   execute demo_env demo_disk (demo_au (Supervisor ''sup''))
     (faulty_command ''bad'' (empty_snapshot demo_binding) ''t'' ''none'' (demo_contract ''t'') (demo_contract ''u'')) demo_fresh
     = (demo_fresh, Inl (Panic ''validated containment parent''))"
proof -
  have st: "st_published demo_fresh = Some (''c'', empty_snapshot demo_binding)" "st_health demo_fresh = Writable"
    by (simp_all add: demo_fresh_def demo_store_def)
  have b: "canonical_bytes demo_env (Pl_Command cmd) = Inr (decimal (length (cd_operations cmd)))" for cmd
    by (simp add: canonical_bytes_def demo_env_def)
  have i: "en_uuid demo_env 0 \<noteq> ''none''" by code_simp
  have n: "map_get (sn_tickets (empty_snapshot demo_binding)) ''none'' = None" by (simp add: empty_snapshot_def)
  have "(''bad'' :: string) \<noteq> []" "length ''bad'' \<le> 256" "(''t'' :: string) \<noteq> []" by simp_all
  note u = unvalidated_parent_hangs_or_panics [OF st demo_fault_checks(1,2) this(1,2) demo_fault_checks(3-7) this(3)
    demo_fault_checks(8) b]
  from u [of "''t''"] u [of "''none''"] n i show ?thesis by auto
qed

definition late_report :: "snapshot result" where
  "late_report = op_outcome_unknown (demo_au Runtime) ''x'' ''late'' demo"

text \<open>
  A late report takes an acceptance back.  OutcomeUnknown for an attempt that is neither
  active nor running (here the stopped attempt of an accepted Work) blocks the Work although
  the other runtime reports leave a Work alone that the attempt no longer runs; the accepted
  submission stays recorded and the consumers of the result are not invalidated.
\<close>

theorem late_outcome_blocks_accepted_work:
  "\<exists>t. late_report = Inr t \<and>
     (\<exists>a w. map_get (sn_assignments demo) ''x'' = Some a \<and> as_process_stopped a \<and>
        map_get (sn_tickets demo) ''a'' = Some w \<and> tk_active_assignment w \<noteq> Some ''x'' \<and>
        tk_state w = W_Accepted) \<and>
     (\<exists>w. map_get (sn_tickets t) ''a'' = Some w \<and> tk_state w = W_Blocked \<and>
        tk_accepted_submission w = Some ''sa'') \<and>
     map_get (sn_tickets t) ''b'' = map_get (sn_tickets demo) ''b''"
proof -
  let ?a = "demo_attempt ''x'' ''a'' [] A_Submitted True"
  have get: "map_get (sn_assignments demo) ''x'' = Some ?a"
    "map_get (sn_tickets demo) ''a'' = Some (demo_a W_Accepted)"
    by (simp_all add: demo_def map_get_Cons)
  have "is_ok late_report" by code_simp
  then obtain t where t: "late_report = Inr t" by (auto simp: is_ok_iff)
  have w: "as_work_id ?a = ''a''" "as_process_stopped ?a"
    by (simp_all add: demo_attempt_def new_assignment_def)
  have d: "tk_active_assignment (demo_a W_Accepted) = None" "tk_state (demo_a W_Accepted) = W_Accepted"
    "tk_accepted_submission (demo_a W_Accepted) = Some ''sa''"
    by (simp_all add: demo_a_def demo_ticket_def new_ticket_def)
  from t have "map_get (sn_tickets t) ''b'' = map_get (sn_tickets demo) ''b''"
    "\<exists>v. map_get (sn_tickets t) ''a'' = Some v \<and> tk_state v = W_Blocked \<and> tk_accepted_submission v = Some ''sa''"
    using get w d
    by (auto simp: late_report_def op_outcome_unknown_def call_simps Let_def touch_def)
  with t get w d show ?thesis by auto
qed

end
