(* ===== verification/Workflow_Model.thy ===== *)
theory Workflow_Model
  imports Canonical_Json
begin

text \<open>
  The data of orchestration workflows: \<open>workflow/run.rs\<close> of the crate \<open>bamboo-domain\<close>, with
  the lookup of a definition in its bundle and the position of a step in its plan.
\<close>

section \<open>JSON access\<close>

text \<open>\<open>as_object\<close>, \<open>as_array\<close>, \<open>as_str\<close> and \<open>get\<close> of \<open>serde_json::Value\<close>.\<close>

fun as_object :: "json \<Rightarrow> (string \<times> json) list option" where
  "as_object (JObject ms) = Some ms"
| "as_object _ = None"

fun as_array :: "json \<Rightarrow> json list option" where
  "as_array (JArray xs) = Some xs"
| "as_array _ = None"

fun as_str :: "json \<Rightarrow> string option" where
  "as_str (JString s) = Some s"
| "as_str _ = None"

definition member :: "json \<Rightarrow> string \<Rightarrow> json option" where
  "member j k = (case as_object j of None \<Rightarrow> None | Some ms \<Rightarrow> map_of ms k)"

section \<open>Definitions\<close>

datatype value_ref =
    Ref_Args string
  | Ref_Step string string
  | Ref_Item string string
  | Ref_Literal json

datatype failure_policy = FailFast | ContinueWithError | SkipDependents

datatype step_kind =
    Tool_Step string json "string list"
  | Agent_Step string json "string option" "string option" "string list" u32
  | Workflow_Step string u64 json

record step_definition =
  sf_id :: string
  sf_kind :: step_kind
  sf_failure :: failure_policy
  sf_output_schema :: "json option"

datatype plan =
    P_Step string
  | P_Sequence "plan list"
  | P_Parallel "plan list"
  | P_Map value_ref string plan
  | P_Choice value_ref plan plan
  | P_Retry plan u32 u64

record budgets =
  bu_max_concurrency :: nat
  bu_max_agents :: u32
  bu_max_steps :: u32
  bu_max_retries :: u32
  bu_max_nesting_depth :: u32
  bu_wall_time_ms :: u64
  bu_max_tokens :: "u64 option"
  bu_max_cost_micros :: "u64 option"

definition default_budgets :: budgets where
  "default_budgets = \<lparr>bu_max_concurrency = 4, bu_max_agents = 8, bu_max_steps = 256,
     bu_max_retries = 8, bu_max_nesting_depth = 4, bu_wall_time_ms = 15 * 60 * 1000,
     bu_max_tokens = None, bu_max_cost_micros = None\<rparr>"

record run_definition =
  rd_workflow_schema :: u32
  rd_id :: string
  rd_revision :: u64
  rd_input_schema :: json
  rd_output_schema :: "json option"
  rd_steps :: "step_definition list"
  rd_plan :: plan
  rd_budgets :: budgets

record definition_bundle =
  db_publication_revision :: u64
  db_root_id :: string
  db_root_revision :: u64
  db_root_invocation_policy :: json
  db_definitions :: "(string, run_definition) btree_map"

definition bundle_key :: "string \<Rightarrow> u64 \<Rightarrow> string" where
  "bundle_key i revision = i @ ''@'' @ show_u64 revision"

definition bundle_get :: "definition_bundle \<Rightarrow> string \<Rightarrow> u64 \<Rightarrow> run_definition option" where
  "bundle_get b i revision = map_get (db_definitions b) (bundle_key i revision)"

definition bundle_root :: "definition_bundle \<Rightarrow> run_definition option" where
  "bundle_root b = bundle_get b (db_root_id b) (db_root_revision b)"

section \<open>Runs\<close>

datatype run_status = Run_Queued | Run_Running | Run_Suspended | Run_Succeeded | Run_Failed | Run_Cancelled

definition is_terminal :: "run_status \<Rightarrow> bool" where
  "is_terminal st = (st \<in> {Run_Succeeded, Run_Failed, Run_Cancelled})"

datatype run_step_status =
    Rs_Queued | Rs_Running | Rs_Suspended | Rs_Succeeded | Rs_Failed | Rs_Cancelled | Rs_Skipped

record budget_usage =
  us_steps :: u32
  us_retries :: u32
  us_agents :: u32
  us_tokens :: u64
  us_cost_micros :: "u64 option"

definition no_usage :: budget_usage where
  "no_usage = \<lparr>us_steps = 0, us_retries = 0, us_agents = 0, us_tokens = 0, us_cost_micros = Some 0\<rparr>"

datatype failure_code =
    InvalidDefinition | InvalidInput | InvalidOutput | UnknownReference | PermissionDenied
  | UntrustedWorkspace | BudgetExceeded | RetryExhausted | ExecutionFailed | Cancelled
  | RecoverySuspended | Suspended | DependencySkipped | Storage_Failure

record run_failure =
  rf_code :: failure_code
  rf_message :: string
  rf_retryable :: bool

section \<open>The position of a step\<close>

record step_topology =
  tp_planned_step_id :: string
  tp_plan_node_path :: "nat list"
  tp_map_index_path :: "nat list"

text \<open>
  \<open>locate\<close>: every leaf that names the step, with its path from the root and the number of
  maps around it, in the order of the plan.  The accumulator of the code is the result here.
\<close>

fun locate :: "plan \<Rightarrow> string \<Rightarrow> nat list \<Rightarrow> nat \<Rightarrow> (nat list \<times> nat) list"
  and locate_nodes :: "plan list \<Rightarrow> string \<Rightarrow> nat list \<Rightarrow> nat \<Rightarrow> nat \<Rightarrow> (nat list \<times> nat) list"
where
  "locate (P_Step step) i path depth = (if step = i then [(path, depth)] else [])"
| "locate (P_Sequence nodes) i path depth = locate_nodes nodes i path 0 depth"
| "locate (P_Parallel nodes) i path depth = locate_nodes nodes i path 0 depth"
| "locate (P_Choice condition then_branch else_branch) i path depth =
     locate then_branch i (path @ [0]) depth @ locate else_branch i (path @ [1]) depth"
| "locate (P_Map source item body) i path depth = locate body i (path @ [0]) (depth + 1)"
| "locate (P_Retry node max_attempts delay_ms) i path depth = locate node i (path @ [0]) depth"
| "locate_nodes [] i path n depth = []"
| "locate_nodes (node # nodes) i path n depth =
     locate node i (path @ [n]) depth @ locate_nodes nodes i path (n + 1) depth"

definition step_topology_of :: "plan \<Rightarrow> string \<Rightarrow> nat list \<Rightarrow> step_topology option" where
  "step_topology_of plan i index_path =
     (case locate plan i [] 0 of
        [(path, depth)] \<Rightarrow>
          if length index_path \<le> depth
          then Some \<lparr>tp_planned_step_id = i, tp_plan_node_path = path, tp_map_index_path = index_path\<rparr>
          else None
      | _ \<Rightarrow> None)"

end
