(* ===== verification/Workflow_Schema.thy ===== *)
theory Workflow_Schema
  imports Workflow_Model
begin

text \<open>
  \<open>workflow/schema.rs\<close>: the JSON schemas of workflows.  What the code takes from serde_json
  about numbers and equality, and the parsers of references and secret handles, are the
  record \<open>json_port\<close>: \<open>Value::eq\<close>, \<open>as_f64\<close> of both sides with \<open><\<close>, \<open>is_i64 || is_u64\<close>, and
  \<open>from_value\<close> of \<open>ValueRef\<close> and \<open>WorkflowSecretHandle\<close>.
\<close>

record json_port =
  jp_same :: "json \<Rightarrow> json \<Rightarrow> bool"
  jp_less :: "string \<Rightarrow> string \<Rightarrow> bool"
  jp_integer :: "string \<Rightarrow> bool"
  jp_ref :: "json \<Rightarrow> string + value_ref"
  jp_secret :: "json \<Rightarrow> string + string"

fun or_else :: "'e + 'a \<Rightarrow> ('a \<Rightarrow> 'e + 'b) \<Rightarrow> 'e + 'b" where
  "or_else (Inl e) f = Inl e"
| "or_else (Inr x) f = f x"

fun each_ok :: "('a \<Rightarrow> 'e + unit) \<Rightarrow> 'a list \<Rightarrow> 'e + unit" where
  "each_ok f [] = Inr ()"
| "each_ok f (x # xs) = or_else (f x) (\<lambda>_. each_ok f xs)"

fun fold_ok :: "('s \<Rightarrow> 'a \<Rightarrow> 'e + 's) \<Rightarrow> 's \<Rightarrow> 'a list \<Rightarrow> 'e + 's" where
  "fold_ok f s [] = Inr s"
| "fold_ok f s (x # xs) = or_else (f s x) (\<lambda>s'. fold_ok f s' xs)"

lemma each_ok_cong [fundef_cong]:
  "xs = ys \<Longrightarrow> (\<And>x. x \<in> set ys \<Longrightarrow> f x = g x) \<Longrightarrow> each_ok f xs = each_ok g ys"
proof (induction xs arbitrary: ys)
  case (Cons x xs)
  then show ?case by (cases "g x") auto
qed simp

lemma fold_ok_cong [fundef_cong]:
  "s = t \<Longrightarrow> xs = ys \<Longrightarrow> (\<And>u x. x \<in> set ys \<Longrightarrow> f u x = g u x) \<Longrightarrow> fold_ok f s xs = fold_ok g t ys"
proof (induction xs arbitrary: s t ys)
  case (Cons x xs)
  then show ?case by (cases "g t x") auto
qed simp

lemma or_else_cong [fundef_cong]:
  "r = q \<Longrightarrow> (\<And>x. f x = g x) \<Longrightarrow> or_else r f = or_else q g"
  by (cases q) simp_all

lemma or_else_Inr [simp]: "or_else r f = Inr y \<longleftrightarrow> (\<exists>x. r = Inr x \<and> f x = Inr y)"
  by (cases r) simp_all

lemma each_ok_Inr [simp]: "each_ok f xs = Inr u \<longleftrightarrow> (\<forall>x \<in> set xs. f x = Inr ())"
  by (induction xs) auto

text \<open>A member is smaller than its object.\<close>

lemma map_of_size: "map_of ms k = Some j \<Longrightarrow> size j < size (JObject ms)"
proof (induction ms)
  case (Cons e ms)
  then show ?case by (cases e) (auto split: if_splits)
qed simp

lemma in_members_size: "e \<in> set ms \<Longrightarrow> size (snd e) < size (JObject ms)"
proof (induction ms)
  case (Cons d ms)
  then show ?case by (cases d) auto
qed simp

lemma in_array_size: "j \<in> set xs \<Longrightarrow> size j < size (JArray xs)"
  by (induction xs) auto

lemma in_enumerate: "e \<in> set (enumerate n xs) \<Longrightarrow> snd e \<in> set xs"
  by (induction xs arbitrary: n) auto

section \<open>The shape of a schema\<close>

definition supported_keywords :: "string list" where
  "supported_keywords = [''type'', ''enum'', ''required'', ''properties'', ''additionalProperties'',
     ''items'', ''minimum'', ''maximum'', ''x-bamboo-secret'']"

definition valid_kind :: "string \<Rightarrow> bool" where
  "valid_kind k = (k \<in> {''null'', ''boolean'', ''object'', ''array'', ''number'', ''integer'', ''string''})"

fun is_boolean :: "json \<Rightarrow> bool" where
  "is_boolean (JBool _) = True"
| "is_boolean _ = False"

fun is_number :: "json \<Rightarrow> bool" where
  "is_number (JNumber _) = True"
| "is_number _ = False"

fun is_string :: "json \<Rightarrow> bool" where
  "is_string (JString _) = True"
| "is_string _ = False"

definition is_array :: "json \<Rightarrow> bool" where
  "is_array j = (as_array j \<noteq> None)"

definition some_and :: "('a \<Rightarrow> bool) \<Rightarrow> 'a option \<Rightarrow> bool" where
  "some_and P v = (case v of None \<Rightarrow> False | Some x \<Rightarrow> P x)"

definition valid_type :: "json \<Rightarrow> bool" where
  "valid_type t =
     (case t of
        JString k \<Rightarrow> valid_kind k
      | JArray ks \<Rightarrow> ks \<noteq> [] \<and> list_all (\<lambda>k. some_and valid_kind (as_str k)) ks
      | _ \<Rightarrow> False)"

text \<open>The keywords up to \<open>required\<close>, which do not contain schemas.\<close>

definition check_keyword :: "string \<Rightarrow> string \<Rightarrow> string + unit" where
  "check_keyword path key =
     (if key \<in> set supported_keywords then Inr ()
      else Inl (path @ '': unsupported schema keyword '' @ [CHR 0x27] @ key @ [CHR 0x27]))"

definition check_plain_keywords :: "string \<Rightarrow> (string \<times> json) list \<Rightarrow> string + unit" where
  "check_plain_keywords path ms =
     or_else (each_ok (check_keyword path) (map fst ms)) (\<lambda>_.
       if some_and (\<lambda>j. \<not> is_boolean j) (map_of ms ''x-bamboo-secret'')
       then Inl (path @ '': x-bamboo-secret must be boolean'')
       else if some_and (\<lambda>j. \<not> valid_type j) (map_of ms ''type'')
       then Inl (path @ '': invalid or unsupported type'')
       else if some_and (\<lambda>j. \<not> is_array j) (map_of ms ''enum'')
       then Inl (path @ '': enum must be an array'')
       else if some_and (\<lambda>j. \<not> some_and (list_all is_string) (as_array j)) (map_of ms ''required'')
       then Inl (path @ '': required must be an array of strings'')
       else Inr ())"

definition check_numeric :: "string \<Rightarrow> (string \<times> json) list \<Rightarrow> string \<Rightarrow> string + unit" where
  "check_numeric path ms key =
     (if some_and (\<lambda>j. \<not> is_number j) (map_of ms key)
      then Inl (path @ '': '' @ key @ '' must be numeric'') else Inr ())"

function schema_shape :: "json \<Rightarrow> string \<Rightarrow> string + unit" where
  "schema_shape schema path =
     (case as_object schema of
        None \<Rightarrow> Inl (path @ '': schema must be an object'')
      | Some ms \<Rightarrow>
          or_else (check_plain_keywords path ms) (\<lambda>_.
          or_else
            (case map_of ms ''properties'' of
               None \<Rightarrow> Inr ()
             | Some ps \<Rightarrow>
                 (case as_object ps of
                    None \<Rightarrow> Inl (path @ '': properties must be an object'')
                  | Some es \<Rightarrow> each_ok (\<lambda>e. schema_shape (snd e) (path @ ''/properties/'' @ fst e)) es)) (\<lambda>_.
          if some_and (\<lambda>j. \<not> is_boolean j) (map_of ms ''additionalProperties'')
          then Inl (path @ '': additionalProperties must be boolean'')
          else
            or_else
              (case map_of ms ''items'' of
                 None \<Rightarrow> Inr ()
               | Some items \<Rightarrow> schema_shape items (path @ ''/items'')) (\<lambda>_.
            each_ok (check_numeric path ms) [''minimum'', ''maximum'']))))"
  by pat_completeness auto

lemma as_object_Some: "as_object j = Some ms \<longleftrightarrow> j = JObject ms"
  by (cases j) auto

lemma as_array_Some: "as_array j = Some xs \<longleftrightarrow> j = JArray xs"
  by (cases j) auto

termination schema_shape
proof (relation "measure (\<lambda>(schema, path). size schema)", goal_cases)
  case (2 schema path ms u ps es e)
  then show ?case
    using map_of_size [of ms "''properties''" ps] in_members_size [of e es]
    by (auto simp: as_object_Some)
next
  case (3 schema path ms u v items)
  then show ?case using map_of_size [of ms "''items''" items] by (auto simp: as_object_Some)
qed simp

declare schema_shape.simps [simp del]

section \<open>Validation\<close>

definition matches_type :: "json_port \<Rightarrow> string \<Rightarrow> json \<Rightarrow> bool" where
  "matches_type J k v =
     (if k = ''null'' then v = JNull
      else if k = ''boolean'' then is_boolean v
      else if k = ''object'' then as_object v \<noteq> None
      else if k = ''array'' then is_array v
      else if k = ''number'' then is_number v
      else if k = ''integer'' then (case v of JNumber n \<Rightarrow> jp_integer J n | _ \<Rightarrow> False)
      else if k = ''string'' then is_string v
      else False)"

definition type_matches :: "json_port \<Rightarrow> json \<Rightarrow> json \<Rightarrow> bool" where
  "type_matches J t v =
     (case t of
        JString k \<Rightarrow> matches_type J k v
      | JArray ks \<Rightarrow> list_ex (\<lambda>k. some_and (\<lambda>s. matches_type J s v) (as_str k)) ks
      | _ \<Rightarrow> False)"

text \<open>A secret is an object with the one member \<open>$secret\<close>, a string that is not blank.\<close>

definition secret_handle :: "json \<Rightarrow> bool" where
  "secret_handle v =
     some_and (\<lambda>ms. length ms = 1 \<and>
       some_and (\<lambda>s. \<not> blank s) (Option.bind (map_of ms ''$secret'') as_str)) (as_object v)"

definition check_required :: "string \<Rightarrow> json \<Rightarrow> json list \<Rightarrow> string + unit" where
  "check_required path v required =
     (case as_object v of
        None \<Rightarrow> Inl (path @ '': required applies to an object'')
      | Some ms \<Rightarrow>
          each_ok (\<lambda>key. if map_of ms key \<noteq> None then Inr ()
             else Inl (path @ '': required property '' @ [CHR 0x27] @ key @ [CHR 0x27] @ '' is missing''))
            (List.map_filter as_str required))"

text \<open>\<open>as_f64\<close> of both sides; \<open>is_none_or\<close> fails a value that is not a number.\<close>

definition below :: "json_port \<Rightarrow> json \<Rightarrow> json \<Rightarrow> bool" where
  "below J v bound =
     (case bound of JNumber b \<Rightarrow> (case v of JNumber n \<Rightarrow> jp_less J n b | _ \<Rightarrow> True) | _ \<Rightarrow> False)"

definition above :: "json_port \<Rightarrow> json \<Rightarrow> json \<Rightarrow> bool" where
  "above J v bound =
     (case bound of JNumber b \<Rightarrow> (case v of JNumber n \<Rightarrow> jp_less J b n | _ \<Rightarrow> True) | _ \<Rightarrow> False)"

definition check_scalars :: "json_port \<Rightarrow> string \<Rightarrow> (string \<times> json) list \<Rightarrow> json \<Rightarrow> string + unit" where
  "check_scalars J path ms v =
     (if some_and (\<lambda>t. \<not> type_matches J t v) (map_of ms ''type'')
      then Inl (path @ '': value does not match schema type'')
      else if some_and (\<lambda>xs. \<not> list_ex (\<lambda>x. jp_same J x v) xs) (Option.bind (map_of ms ''enum'') as_array)
      then Inl (path @ '': value is not in enum'')
      else case Option.bind (map_of ms ''required'') as_array of
             None \<Rightarrow> Inr () | Some required \<Rightarrow> check_required path v required)"

definition check_bounds :: "json_port \<Rightarrow> string \<Rightarrow> (string \<times> json) list \<Rightarrow> json \<Rightarrow> string + unit" where
  "check_bounds J path ms v =
     (if some_and (below J v) (map_of ms ''minimum'') then Inl (path @ '': value is below minimum'')
      else if some_and (above J v) (map_of ms ''maximum'') then Inl (path @ '': value is above maximum'')
      else Inr ())"

text \<open>The members of the value, and its items, against their schemas.\<close>

definition closed_schema :: "(string \<times> json) list \<Rightarrow> bool" where
  "closed_schema ms = (map_of ms ''additionalProperties'' = Some (JBool False))"

definition extra_property :: "string \<Rightarrow> string \<Rightarrow> string + unit" where
  "extra_property path key =
     Inl (path @ '': additional property '' @ [CHR 0x27] @ key @ [CHR 0x27] @ '' is not allowed'')"

function validate_at :: "json_port \<Rightarrow> json \<Rightarrow> json \<Rightarrow> string \<Rightarrow> string + unit" where
  "validate_at J schema v path =
     (case as_object schema of
        None \<Rightarrow> Inl (path @ '': schema must be an object'')
      | Some ms \<Rightarrow>
          if map_of ms ''x-bamboo-secret'' = Some (JBool True)
          then (if secret_handle v then Inr ()
                else Inl (path @ '': secret input must be a typed capability handle''))
          else
            or_else (check_scalars J path ms v) (\<lambda>_.
            or_else
              (case as_object v of
                 None \<Rightarrow> Inr ()
               | Some vs \<Rightarrow>
                   each_ok (\<lambda>e.
                     case Option.bind (Option.bind (map_of ms ''properties'') as_object)
                            (\<lambda>ps. map_of ps (fst e)) of
                       Some child \<Rightarrow> validate_at J child (snd e) (path @ ''/'' @ fst e)
                     | None \<Rightarrow> if closed_schema ms then extra_property path (fst e) else Inr ()) vs) (\<lambda>_.
            or_else
              (case map_of ms ''items'' of
                 None \<Rightarrow> Inr ()
               | Some items \<Rightarrow>
                   (case as_array v of
                      None \<Rightarrow> Inr ()
                    | Some xs \<Rightarrow>
                        each_ok (\<lambda>e. validate_at J items (snd e) (path @ ''/'' @ decimal (fst e)))
                          (enumerate 0 xs))) (\<lambda>_.
            check_bounds J path ms v))))"
  by pat_completeness auto

termination validate_at
proof (relation "measure (\<lambda>(J, schema, v, path). size v)", goal_cases)
  case (2 J schema v path ms u vs e child)
  then show ?case using in_members_size [of e vs] by (auto simp: as_object_Some)
next
  case (3 J schema v path ms u w items xs e)
  then have "snd e \<in> set xs" by (blast intro: in_enumerate)
  with 3 show ?case using in_array_size [of "snd e" xs] by (auto simp: as_array_Some)
qed simp

declare validate_at.simps [simp del]

definition validate_schema :: "json_port \<Rightarrow> json \<Rightarrow> json \<Rightarrow> string + unit" where
  "validate_schema J schema v =
     or_else (schema_shape schema ''$'') (\<lambda>_. validate_at J schema v ''$'')"

end
