(* ===== verification/Workflow_Compiler.thy ===== *)
theory Workflow_Compiler
  imports Workflow_Schema
begin

text \<open>
  \<open>workflow/compiler.rs\<close>: what a workflow definition must satisfy before it may run.  The
  maps and sets of the code are hash maps; the model keeps them ordered, so where the code
  reports an element in the order of its hash map the model reports the least one.
\<close>

datatype compile_error =
    UnsupportedSchema u32
  | MissingIdentity
  | InvalidBudget string
  | DuplicateStep string
  | UnknownStep string
  | InvalidStep string string
  | Step_Cycle string
  | InvalidSchema string

text \<open>A refusal, or the panic of indexing the map with a step it does not contain.\<close>

datatype compile_stop = Refused compile_error | Missing_Key string

type_synonym 'a compiled = "compile_stop + 'a"

abbreviation refuse :: "compile_error \<Rightarrow> 'a compiled" where
  "refuse e \<equiv> Inl (Refused e)"

type_synonym step_map = "(string, step_definition) btree_map"

record compiled_workflow =
  cw_definition :: run_definition
  cw_steps :: step_map

section \<open>Single steps\<close>

definition check_shape :: "json \<Rightarrow> unit compiled" where
  "check_shape schema =
     (case schema_shape schema ''$'' of Inl m \<Rightarrow> refuse (InvalidSchema m) | Inr _ \<Rightarrow> Inr ())"

definition validate_budgets :: "budgets \<Rightarrow> unit compiled" where
  "validate_budgets b =
     (if bu_max_concurrency b = 0 \<or> bu_max_concurrency b > 64
      then refuse (InvalidBudget ''max_concurrency must be 1..=64'')
      else if bu_max_steps b = 0 \<or> bu_max_agents b > bu_max_steps b \<or> bu_max_nesting_depth b = 0
        \<or> bu_wall_time_ms b = 0
      then refuse (InvalidBudget ''step/agent/depth/wall budgets must be bounded and coherent'')
      else Inr ())"

definition step_target :: "step_definition \<Rightarrow> string compiled" where
  "step_target st =
     (case sf_kind st of
        Tool_Step tool args caps \<Rightarrow> Inr tool
      | Agent_Step agent prompt model effort caps attempts \<Rightarrow>
          if attempts = 0 \<or> attempts > 8
          then refuse (InvalidStep (sf_id st) ''structured_output_attempts must be 1..=8'')
          else Inr agent
      | Workflow_Step workflow_id revision args \<Rightarrow>
          if revision = 0
          then refuse (InvalidStep (sf_id st) ''nested workflow revision must be fixed and non-zero'')
          else Inr workflow_id)"

definition validate_step_definition :: "step_definition \<Rightarrow> unit compiled" where
  "validate_step_definition st =
     or_else (step_target st) (\<lambda>target.
       if blank target then refuse (InvalidStep (sf_id st) ''target cannot be empty'')
       else case sf_output_schema st of None \<Rightarrow> Inr () | Some schema \<Rightarrow> check_shape schema)"

definition add_step :: "step_map \<Rightarrow> step_definition \<Rightarrow> step_map compiled" where
  "add_step steps st =
     (if blank (sf_id st) \<or> has_key steps (sf_id st) then refuse (DuplicateStep (sf_id st))
      else or_else (validate_step_definition st) (\<lambda>_. Inr (map_put (sf_id st) st steps)))"

section \<open>The plan\<close>

definition check_ref :: "step_map \<Rightarrow> value_ref \<Rightarrow> unit compiled" where
  "check_ref steps ref =
     (case ref of
        Ref_Step step pointer \<Rightarrow> if has_key steps step then Inr () else refuse (UnknownStep step)
      | _ \<Rightarrow> Inr ())"

fun plan_inner :: "step_map \<Rightarrow> plan \<Rightarrow> string btree_set \<Rightarrow> string btree_set compiled" where
  "plan_inner steps (P_Step step) seen =
     (if \<not> has_key steps step then refuse (UnknownStep step)
      else if step \<in> set seen
      then refuse (InvalidStep step ''step appears more than once in the execution plan'')
      else Inr (set_add step seen))"
| "plan_inner steps (P_Sequence nodes) seen =
     (if nodes = [] then refuse (InvalidStep ''<plan>'' ''sequence/parallel requires nodes'')
      else fold_ok (\<lambda>seen node. plan_inner steps node seen) seen nodes)"
| "plan_inner steps (P_Parallel nodes) seen =
     (if nodes = [] then refuse (InvalidStep ''<plan>'' ''sequence/parallel requires nodes'')
      else fold_ok (\<lambda>seen node. plan_inner steps node seen) seen nodes)"
| "plan_inner steps (P_Choice condition then_branch else_branch) seen =
     or_else (check_ref steps condition) (\<lambda>_.
     or_else (plan_inner steps then_branch seen) (\<lambda>seen.
     plan_inner steps else_branch seen))"
| "plan_inner steps (P_Map source item body) seen =
     (if blank item then refuse (InvalidStep ''<map>'' ''map item name cannot be empty'')
      else or_else (check_ref steps source) (\<lambda>_. plan_inner steps body seen))"
| "plan_inner steps (P_Retry node max_attempts delay_ms) seen =
     (if max_attempts = 0
      then refuse (InvalidStep ''<retry>'' ''max_attempts must be greater than zero'')
      else plan_inner steps node seen)"

fun join_with :: "string \<Rightarrow> string list \<Rightarrow> string" where
  "join_with sep [] = []"
| "join_with sep [s] = s"
| "join_with sep (s # ss) = s @ sep @ join_with sep ss"

definition validate_run_plan :: "plan \<Rightarrow> step_map \<Rightarrow> unit compiled" where
  "validate_run_plan plan steps =
     or_else (plan_inner steps plan []) (\<lambda>seen.
       let unreferenced = filter (\<lambda>i. i \<notin> set seen) (keys steps)
       in if unreferenced \<noteq> []
          then refuse (InvalidStep ''<plan>'' (''unreferenced steps: '' @ join_with '', '' unreferenced))
          else Inr ())"

section \<open>Schema pointers\<close>

fun split_slash :: "string \<Rightarrow> string list" where
  "split_slash [] = [[]]"
| "split_slash (c # s) =
     (if c = CHR ''/'' then [] # split_slash s
      else case split_slash s of [] \<Rightarrow> [[c]] | t # ts \<Rightarrow> (c # t) # ts)"

text \<open>\<open>str::replace\<close> of a tilde and one more character by a character.\<close>

fun unescape :: "char \<Rightarrow> char \<Rightarrow> string \<Rightarrow> string" where
  "unescape d c (x # y # s) =
     (if x = CHR ''~'' \<and> y = d then c # unescape d c s else x # unescape d c (y # s))"
| "unescape d c s = s"

definition pointer_token :: "string \<Rightarrow> string" where
  "pointer_token t = unescape (CHR ''0'') (CHR ''~'') (unescape (CHR ''1'') (CHR ''/'') t)"

text \<open>\<open>parse::<usize>().is_ok()\<close>: an optional plus sign, digits, a value below 2 ^ 64.\<close>

definition digits_value :: "string \<Rightarrow> nat" where
  "digits_value s = foldl (\<lambda>n c. 10 * n + (byte c - 48)) 0 s"

definition is_usize :: "string \<Rightarrow> bool" where
  "is_usize s =
     (let d = (if s \<noteq> [] \<and> hd s = CHR ''+'' then tl s else s)
      in d \<noteq> [] \<and> list_all ascii_digit d \<and> digits_value d < 2 ^ 64)"

definition pointer_step :: "string \<Rightarrow> json \<Rightarrow> json option" where
  "pointer_step t current =
     (let token = pointer_token t
      in if is_usize token then member current ''items''
         else Option.bind (member current ''properties'') (\<lambda>ps. member ps token))"

fun follow :: "string list \<Rightarrow> json \<Rightarrow> json option" where
  "follow [] current = Some current"
| "follow (t # ts) current = Option.bind (pointer_step t current) (follow ts)"

definition schema_pointer :: "json \<Rightarrow> string \<Rightarrow> json option" where
  "schema_pointer schema pointer =
     (case pointer of
        [] \<Rightarrow> Some schema
      | c # rest \<Rightarrow> if c = CHR ''/'' then follow (split_slash rest) schema else None)"

section \<open>Bindings\<close>

definition literal_kind :: "json_port \<Rightarrow> json \<Rightarrow> string" where
  "literal_kind J v =
     (case v of
        JNull \<Rightarrow> ''null''
      | JBool _ \<Rightarrow> ''boolean''
      | JNumber n \<Rightarrow> if jp_integer J n then ''integer'' else ''number''
      | JString _ \<Rightarrow> ''string''
      | JArray _ \<Rightarrow> ''array''
      | JObject _ \<Rightarrow> ''object'')"

definition schema_for_literal :: "json_port \<Rightarrow> json \<Rightarrow> json" where
  "schema_for_literal J v = JObject [(''type'', JString (literal_kind J v))]"

text \<open>What a template may refer to: the definition, the steps before it, the map items.\<close>

record binding_scope =
  bs_port :: json_port
  bs_definition :: run_definition
  bs_steps :: step_map

definition or_refuse :: "'a option \<Rightarrow> string \<Rightarrow> string \<Rightarrow> 'a compiled" where
  "or_refuse v owner m = (case v of None \<Rightarrow> refuse (InvalidStep owner m) | Some x \<Rightarrow> Inr x)"

definition quoted :: "string \<Rightarrow> string" where
  "quoted s = [CHR 0x27] @ s @ [CHR 0x27]"

definition reference_schema ::
  "binding_scope \<Rightarrow> string btree_set \<Rightarrow> (string, json) btree_map \<Rightarrow> string \<Rightarrow> value_ref \<Rightarrow> json compiled"
where
  "reference_schema B available items owner ref =
     (case ref of
        Ref_Args pointer \<Rightarrow>
          or_refuse (schema_pointer (rd_input_schema (bs_definition B)) pointer) owner
            ''args reference has an invalid schema pointer''
      | Ref_Step step pointer \<Rightarrow>
          if step \<notin> set available
          then refuse (InvalidStep owner (''step reference '' @ quoted step @ '' is not available before this step''))
          else
            or_else (or_refuse (Option.bind (map_get (bs_steps B) step) sf_output_schema) owner
              (''step reference '' @ quoted step @ '' requires a declared output_schema'')) (\<lambda>schema.
            or_refuse (schema_pointer schema pointer) owner
              (''step reference '' @ quoted step @ '' has an invalid schema pointer''))
      | Ref_Item name pointer \<Rightarrow>
          or_else (or_refuse (map_get items name) owner
            (''map item reference '' @ quoted name @ '' is outside its map body'')) (\<lambda>schema.
          or_refuse (schema_pointer schema pointer) owner
            (''map item reference '' @ quoted name @ '' has an invalid schema pointer''))
      | Ref_Literal v \<Rightarrow> Inr (schema_for_literal (bs_port B) v))"

function walk_template ::
  "binding_scope \<Rightarrow> string btree_set \<Rightarrow> (string, json) btree_map \<Rightarrow> string \<Rightarrow> json \<Rightarrow> unit compiled"
where
  "walk_template B available items owner v =
     (case v of
        JObject ms \<Rightarrow>
          if map_of ms ''$secret'' \<noteq> None
          then (case jp_secret (bs_port B) v of
                  Inl m \<Rightarrow> refuse (InvalidStep owner (''malformed secret capability handle: '' @ m))
                | Inr capability \<Rightarrow>
                    if blank capability
                    then refuse (InvalidStep owner ''secret capability handle cannot be empty'')
                    else Inr ())
          else if map_of ms ''from'' \<noteq> None
          then (case jp_ref (bs_port B) v of
                  Inl m \<Rightarrow> refuse (InvalidStep owner (''malformed value reference: '' @ m))
                | Inr ref \<Rightarrow> or_else (reference_schema B available items owner ref) (\<lambda>_. Inr ()))
          else each_ok (\<lambda>e. walk_template B available items owner (snd e)) ms
      | JArray xs \<Rightarrow> each_ok (walk_template B available items owner) xs
      | _ \<Rightarrow> Inr ())"
  by pat_completeness auto

termination walk_template
proof (relation "measure (\<lambda>(B, available, items, owner, v). size v)", goal_cases)
  case (2 B available items owner v xs x)
  then show ?case using in_array_size [of x xs] by simp
next
  case (3 B available items owner v ms e)
  then show ?case using in_members_size [of e ms] by simp
qed simp_all

declare walk_template.simps [simp del]

definition step_template :: "step_definition \<Rightarrow> json" where
  "step_template st =
     (case sf_kind st of
        Tool_Step tool args caps \<Rightarrow> args
      | Agent_Step agent prompt model effort caps attempts \<Rightarrow> prompt
      | Workflow_Step workflow_id revision args \<Rightarrow> args)"

definition set_union :: "'a::linorder btree_set \<Rightarrow> 'a btree_set \<Rightarrow> 'a btree_set" where
  "set_union xs ys = fold set_add ys xs"

fun walk_plan ::
  "binding_scope \<Rightarrow> plan \<Rightarrow> string btree_set \<Rightarrow> (string, json) btree_map \<Rightarrow> string btree_set compiled"
where
  "walk_plan B (P_Step step) available items =
     (case map_get (bs_steps B) step of
        None \<Rightarrow> Inl (Missing_Key step)
      | Some st \<Rightarrow>
          or_else (walk_template B available items step (step_template st)) (\<lambda>_.
          Inr (set_add step available)))"
| "walk_plan B (P_Sequence nodes) available items =
     fold_ok (\<lambda>available node. walk_plan B node available items) available nodes"
| "walk_plan B (P_Parallel nodes) available items =
     fold_ok (\<lambda>result node.
       or_else (walk_plan B node available items) (\<lambda>others. Inr (set_union result others))) available nodes"
| "walk_plan B (P_Choice condition then_branch else_branch) available items =
     or_else (reference_schema B available items ''<choice>'' condition) (\<lambda>schema.
       if Option.bind (member schema ''type'') as_str \<noteq> Some ''boolean''
       then refuse (InvalidStep ''<choice>'' ''choice condition schema must declare type boolean'')
       else
         or_else (walk_plan B then_branch available items) (\<lambda>xs.
         or_else (walk_plan B else_branch available items) (\<lambda>ys.
         Inr (filter (\<lambda>i. i \<in> set ys) xs))))"
| "walk_plan B (P_Map source item body) available items =
     or_else (reference_schema B available items ''<map>'' source) (\<lambda>schema.
     or_else (or_refuse (member schema ''items'') ''<map>'' ''map source schema must declare array items'') (\<lambda>item_schema.
     or_else (walk_plan B body available (map_put item item_schema items)) (\<lambda>_.
     Inr available)))"
| "walk_plan B (P_Retry node max_attempts delay_ms) available items = walk_plan B node available items"

section \<open>Dependencies\<close>

type_synonym edge_map = "(string, string btree_set) btree_map"

definition edges_of :: "edge_map \<Rightarrow> string \<Rightarrow> string btree_set" where
  "edges_of edges i = (case map_get edges i of None \<Rightarrow> [] | Some ds \<Rightarrow> ds)"

text \<open>\<open>edges.entry(i).or_default().extend(ds)\<close>.\<close>

definition extend_edges :: "string \<Rightarrow> string list \<Rightarrow> edge_map \<Rightarrow> edge_map" where
  "extend_edges i ds edges = map_put i (fold set_add ds (edges_of edges i)) edges"

fun plan_edges :: "plan \<Rightarrow> string btree_set \<Rightarrow> edge_map \<Rightarrow> string btree_set \<times> edge_map" where
  "plan_edges (P_Step step) previous edges = ([step], extend_edges step previous edges)"
| "plan_edges (P_Sequence nodes) previous edges =
     fold (\<lambda>node (prior, edges). plan_edges node prior edges) nodes (previous, edges)"
| "plan_edges (P_Parallel nodes) previous edges =
     fold (\<lambda>node (tails, edges).
       case plan_edges node previous edges of (others, edges) \<Rightarrow> (set_union tails others, edges))
       nodes ([], edges)"
| "plan_edges (P_Choice condition then_branch else_branch) previous edges =
     (let incoming = (case condition of Ref_Step step pointer \<Rightarrow> set_add step previous | _ \<Rightarrow> previous)
      in case plan_edges then_branch incoming edges of (tails, edges) \<Rightarrow>
         (case plan_edges else_branch incoming edges of (others, edges) \<Rightarrow> (set_union tails others, edges)))"
| "plan_edges (P_Map source item body) previous edges = plan_edges body previous edges"
| "plan_edges (P_Retry node max_attempts delay_ms) previous edges = plan_edges node previous edges"

function value_step_refs :: "json \<Rightarrow> string list" where
  "value_step_refs v =
     (case v of
        JObject ms \<Rightarrow>
          (if Option.bind (map_of ms ''from'') as_str = Some ''step''
           then (case Option.bind (map_of ms ''step'') as_str of None \<Rightarrow> [] | Some step \<Rightarrow> [step])
           else [])
          @ concat (map (\<lambda>e. value_step_refs (snd e)) ms)
      | JArray xs \<Rightarrow> concat (map value_step_refs xs)
      | _ \<Rightarrow> [])"
  by pat_completeness auto

termination value_step_refs
proof (relation "measure size", goal_cases)
  case (2 v xs x)
  then show ?case using in_array_size [of x xs] by simp
next
  case (3 v ms e)
  then show ?case using in_members_size [of e ms] by simp
qed simp_all

declare value_step_refs.simps [simp del]

definition add_value_refs :: "string \<times> step_definition \<Rightarrow> edge_map \<Rightarrow> edge_map" where
  "add_value_refs e edges =
     (case value_step_refs (step_template (snd e)) of
        [] \<Rightarrow> edges
      | refs \<Rightarrow> extend_edges (fst e) refs edges)"

definition all_edges :: "plan \<Rightarrow> step_map \<Rightarrow> edge_map" where
  "all_edges plan steps = fold add_value_refs steps (snd (plan_edges plan [] []))"

text \<open>
  The depth-first search.  \<open>visiting\<close> is restored by the code when a call succeeds, so it is
  an argument here and only \<open>visited\<close> is threaded through.
\<close>

function visit_step ::
  "edge_map \<Rightarrow> string list \<Rightarrow> string \<Rightarrow> string list \<Rightarrow> string list compiled"
where
  "visit_step edges visiting node visited =
     (if node \<in> set visited then Inr visited
      else if node \<in> set visiting then refuse (Step_Cycle node)
      else if \<not> has_key edges node then Inr (node # visited)
      else
        or_else (fold_ok (\<lambda>visited d. visit_step edges (node # visiting) d visited) visited
          (edges_of edges node)) (\<lambda>visited. Inr (node # visited)))"
  by pat_completeness auto

termination visit_step
proof (relation "measure (\<lambda>(edges, visiting, node, visited). card (set (keys edges) - set visiting))", goal_cases)
  case (2 edges visiting node visited v d)
  then have "node \<in> set (keys edges) - set visiting" by (simp add: has_key_iff keys_map_get)
  then have "card (set (keys edges) - set (node # visiting)) < card (set (keys edges) - set visiting)"
    by (intro psubset_card_mono) auto
  then show ?case by simp
qed simp

declare visit_step.simps [simp del]

definition validate_step_dependencies :: "plan \<Rightarrow> step_map \<Rightarrow> unit compiled" where
  "validate_step_dependencies plan steps =
     or_else (fold_ok (\<lambda>visited i. visit_step (all_edges plan steps) [] i visited) [] (keys steps)) (\<lambda>_.
     Inr ())"

section \<open>Compiling\<close>

definition compile :: "json_port \<Rightarrow> run_definition \<Rightarrow> compiled_workflow compiled" where
  "compile J d =
     (if rd_workflow_schema d \<noteq> 1 then refuse (UnsupportedSchema (rd_workflow_schema d))
      else if blank (rd_id d) \<or> rd_revision d = 0 then refuse MissingIdentity
      else
        or_else (validate_budgets (rd_budgets d)) (\<lambda>_.
        or_else (check_shape (rd_input_schema d)) (\<lambda>_.
        or_else (case rd_output_schema d of None \<Rightarrow> Inr () | Some schema \<Rightarrow> check_shape schema) (\<lambda>_.
        or_else (fold_ok add_step [] (rd_steps d)) (\<lambda>steps.
          if steps = [] then refuse (InvalidStep ''<definition>'' ''at least one step is required'')
          else
            or_else (validate_run_plan (rd_plan d) steps) (\<lambda>_.
            or_else (validate_step_dependencies (rd_plan d) steps) (\<lambda>_.
            or_else (walk_plan \<lparr>bs_port = J, bs_definition = d, bs_steps = steps\<rparr> (rd_plan d) [] []) (\<lambda>_.
            Inr \<lparr>cw_definition = d, cw_steps = steps\<rparr>))))))))"

definition validate_input :: "json_port \<Rightarrow> compiled_workflow \<Rightarrow> json \<Rightarrow> string + unit" where
  "validate_input J c v = validate_schema J (rd_input_schema (cw_definition c)) v"

end
