(* ===== verification/Workflow_Bundle.thy ===== *)
theory Workflow_Bundle
  imports Workflow_Compiler Texts
begin

text \<open>
  The checks of \<open>workflow_run/executor.rs\<close> (crate \<open>bamboo-engine\<close>) before a run starts: secret
  material, nested definitions, budgets; and its functions on plans.
\<close>

datatype run_error =
    Compile_Error compile_error
  | Invalid_Input string
  | Preflight string
  | Unsupported_Monetary_Budget
  | Run_Storage string
  | Run_Not_Found
  | Run_Terminal
  | Run_Panic string

type_synonym 'a checked = "run_error + 'a"

abbreviation preflight :: "string \<Rightarrow> 'a checked" where
  "preflight m \<equiv> Inl (Preflight m)"

definition map_error :: "('e \<Rightarrow> 'f) \<Rightarrow> 'e + 'a \<Rightarrow> 'f + 'a" where
  "map_error f r = (case r of Inl e \<Rightarrow> Inl (f e) | Inr x \<Rightarrow> Inr x)"

lemma map_error_Inr [simp]: "map_error f r = Inr x \<longleftrightarrow> r = Inr x"
  by (cases r) (simp_all add: map_error_def)

section \<open>Secret material\<close>

definition lower_alphanumeric :: "char \<Rightarrow> string" where
  "lower_alphanumeric c =
     (let n = byte c
      in if 48 \<le> n \<and> n \<le> 57 \<or> 97 \<le> n \<and> n \<le> 122 then [c]
         else if 65 \<le> n \<and> n \<le> 90 then [char_of (n + 32)] else [])"

definition secret_names :: "string list" where
  "secret_names = [''secret'', ''token'', ''password'', ''credential'', ''credentials'', ''apikey'',
     ''accesskey'', ''accesstoken'', ''secretkey'', ''privatekey'']"

definition secret_key :: "string \<Rightarrow> bool" where
  "secret_key k = (concat (map lower_alphanumeric k) \<in> set secret_names)"

definition credential_text :: "string \<Rightarrow> bool" where
  "credential_text s =
     list_ex (starts_with (trim s)) [''capability://'', ''Bearer '', ''sk-'', ''ghp_'', ''github_pat_'']"

text \<open>A reference to data, which a definition may put under any key.\<close>

definition safe_binding :: "json_port \<Rightarrow> bool \<Rightarrow> json \<Rightarrow> bool" where
  "safe_binding J allow_bindings v =
     (allow_bindings \<and>
      (case jp_ref J v of Inl _ \<Rightarrow> False | Inr (Ref_Literal _) \<Rightarrow> False | Inr _ \<Rightarrow> True))"

function secret_walk :: "json_port \<Rightarrow> bool \<Rightarrow> json \<Rightarrow> string option \<Rightarrow> string + unit" where
  "secret_walk J allow_bindings v key =
     (if secret_handle v then Inr ()
      else if some_and secret_key key \<and> \<not> safe_binding J allow_bindings v
      then Inl ''secret-bearing fields are not accepted by workflow runs''
      else if some_and credential_text (as_str v)
      then Inl ''opaque credential handles are not enabled for workflows''
      else case v of
        JObject ms \<Rightarrow>
          each_ok (\<lambda>e.
            if fst e = ''properties''
            then (case snd e of
                    JObject ps \<Rightarrow> each_ok (\<lambda>p. secret_walk J allow_bindings (snd p) None) ps
                  | _ \<Rightarrow> Inl ''workflow schema properties must be an object'')
            else secret_walk J allow_bindings (snd e) (Some (fst e))) ms
      | JArray xs \<Rightarrow> each_ok (\<lambda>x. secret_walk J allow_bindings x None) xs
      | _ \<Rightarrow> Inr ())"
  by pat_completeness auto

termination secret_walk
proof (relation "measure (\<lambda>(J, allow_bindings, v, key). size v)", goal_cases)
  case (2 J allow_bindings v key xs x)
  then show ?case using in_array_size [of x xs] by simp
next
  case (3 J allow_bindings v key ms e ps p)
  then show ?case using in_members_size [of e ms] in_members_size [of p ps] by simp
next
  case (4 J allow_bindings v key ms e)
  then show ?case using in_members_size [of e ms] by simp
qed simp

declare secret_walk.simps [simp del]

definition reject_secret_material :: "json_port \<Rightarrow> json \<Rightarrow> string + unit" where
  "reject_secret_material J v = secret_walk J False v None"

definition reject_secret_material_in_definition :: "json_port \<Rightarrow> json \<Rightarrow> string + unit" where
  "reject_secret_material_in_definition J v = secret_walk J True v None"


section \<open>Nested definitions\<close>

function contains_ref :: "json \<Rightarrow> bool" where
  "contains_ref v =
     (case v of
        JObject ms \<Rightarrow> map_of ms ''from'' \<noteq> None \<or> list_ex (\<lambda>e. contains_ref (snd e)) ms
      | JArray xs \<Rightarrow> list_ex contains_ref xs
      | _ \<Rightarrow> False)"
  by pat_completeness auto

termination contains_ref
proof (relation "measure size", goal_cases)
  case (2 v xs x)
  then show ?case using in_array_size [of x xs] by simp
next
  case (3 v ms e)
  then show ?case using in_members_size [of e ms] by simp
qed simp_all

declare contains_ref.simps [simp del]

definition schema_at_pointer :: "json \<Rightarrow> string \<Rightarrow> json option" where
  "schema_at_pointer schema pointer =
     (case pointer of
        [] \<Rightarrow> Some schema
      | c # rest \<Rightarrow> if c = CHR ''/'' then follow (split_slash rest) schema else None)"

definition schema_compatible :: "json_port \<Rightarrow> json \<Rightarrow> json \<Rightarrow> bool" where
  "schema_compatible J source target =
     (jp_same J source target \<or>
      (let source_type = Option.bind (member source ''type'') as_str;
           target_type = Option.bind (member target ''type'') as_str
       in source_type \<noteq> None \<and> source_type = target_type \<and> target_type \<noteq> Some ''object''))"

definition check_static_input :: "json_port \<Rightarrow> json \<Rightarrow> json \<Rightarrow> string + unit" where
  "check_static_input J target v =
     map_error (\<lambda>e. ''nested workflow input is incompatible: '' @ e) (validate_schema J target v)"

definition check_source_schema :: "json_port \<Rightarrow> json option \<Rightarrow> json \<Rightarrow> string + unit" where
  "check_source_schema J source target =
     (case source of
        None \<Rightarrow> Inl ''nested dynamic input source schema is missing or pointer is invalid''
      | Some schema \<Rightarrow>
          if schema_compatible J schema target then Inr ()
          else Inl ''nested workflow input schema is not compatible with its pinned target'')"

definition validate_nested_input_contract ::
  "json_port \<Rightarrow> json \<Rightarrow> json \<Rightarrow> compiled_workflow \<Rightarrow> string + unit"
where
  "validate_nested_input_contract J template target c =
     (if \<not> contains_ref template then check_static_input J target template
      else case jp_ref J template of
        Inl _ \<Rightarrow> Inl ''nested dynamic input schema cannot be proven compatible in phase 1''
      | Inr (Ref_Literal v) \<Rightarrow> check_static_input J target v
      | Inr (Ref_Args pointer) \<Rightarrow>
          check_source_schema J (schema_at_pointer (rd_input_schema (cw_definition c)) pointer) target
      | Inr (Ref_Step step pointer) \<Rightarrow>
          check_source_schema J
            (Option.bind (Option.bind (map_get (cw_steps c) step) sf_output_schema)
              (\<lambda>schema. schema_at_pointer schema pointer)) target
      | Inr (Ref_Item name pointer) \<Rightarrow> check_source_schema J None target)"

text \<open>
  What the check of a bundle takes from serde: the values of a definition and of the bundle
  (\<open>to_value\<close>, which may fail) and the derived equality of definitions.
\<close>

record bundle_port =
  bp_json :: json_port
  bp_same :: "run_definition \<Rightarrow> run_definition \<Rightarrow> bool"
  bp_value :: "definition_bundle \<Rightarrow> json option"

definition compile_checked :: "json_port \<Rightarrow> run_definition \<Rightarrow> compiled_workflow checked" where
  "compile_checked J d =
     map_error (\<lambda>e. case e of Refused x \<Rightarrow> Compile_Error x | Missing_Key m \<Rightarrow> Run_Panic m) (compile J d)"

text \<open>One entry of the stack for each step that calls a workflow, in the order of the steps.\<close>

type_synonym entry = "string \<times> u64 \<times> string list"

definition nested_entry ::
  "bundle_port \<Rightarrow> definition_bundle \<Rightarrow> compiled_workflow \<Rightarrow> string list \<Rightarrow> entry list \<Rightarrow> step_definition
   \<Rightarrow> entry list checked"
where
  "nested_entry P b c path stack st =
     (case sf_kind st of
        Workflow_Step i revision args \<Rightarrow>
          (case bundle_get b i revision of
             None \<Rightarrow> preflight (''pinned bundle is missing '' @ bundle_key i revision)
           | Some nested \<Rightarrow>
               or_else (map_error Preflight
                   (validate_nested_input_contract (bp_json P) args (rd_input_schema nested) c)) (\<lambda>_.
               Inr ((i, revision, path) # stack)))
      | _ \<Rightarrow> Inr stack)"

function walk_bundle ::
  "bundle_port \<Rightarrow> definition_bundle \<Rightarrow> entry list \<Rightarrow> string btree_set \<Rightarrow> unit checked"
where
  "walk_bundle P b [] visited = Inr ()"
| "walk_bundle P b ((i, revision, path) # stack) visited =
     (let key = bundle_key i revision
      in if key \<in> set path then preflight (''nested workflow cycle includes '' @ key)
         else if key \<in> set visited then walk_bundle P b stack visited
         else case bundle_get b i revision of
           None \<Rightarrow> preflight (''pinned bundle is missing '' @ key)
         | Some d \<Rightarrow>
             if rd_id d \<noteq> i \<or> rd_revision d \<noteq> revision
             then preflight ''pinned bundle definition identity mismatch''
             else
               or_else (compile_checked (bp_json P) d) (\<lambda>c.
               or_else (fold_ok (nested_entry P b c (path @ [key])) stack (vals (cw_steps c))) (\<lambda>stack.
               walk_bundle P b stack (set_add key visited))))"
  by pat_completeness auto

termination walk_bundle
proof (relation "measures [\<lambda>(P, b, stack, visited). card (set (keys (db_definitions b)) - set visited),
    \<lambda>(P, b, stack, visited). length stack]", goal_cases)
  case (3 P b i revision path stack visited key d c s)
  then have "key \<in> set (keys (db_definitions b)) - set visited"
    by (auto simp: bundle_get_def keys_map_get)
  then have "card (set (keys (db_definitions b)) - set (set_add key visited)) <
      card (set (keys (db_definitions b)) - set visited)"
    by (intro psubset_card_mono) auto
  then show ?case by simp
qed simp_all

declare walk_bundle.simps [simp del]

definition validate_bundle :: "bundle_port \<Rightarrow> run_definition \<Rightarrow> definition_bundle \<Rightarrow> unit checked" where
  "validate_bundle P root b =
     (if db_root_id b \<noteq> rd_id root \<or> db_root_revision b \<noteq> rd_revision root
         \<or> \<not> some_and (\<lambda>d. bp_same P d root) (bundle_root b)
      then preflight ''pinned bundle root identity/content mismatch''
      else case bp_value P b of
        None \<Rightarrow> preflight ''workflow bundle is not serializable''
      | Some v \<Rightarrow>
          or_else (map_error Preflight (reject_secret_material_in_definition (bp_json P) v)) (\<lambda>_.
          walk_bundle P b [(rd_id root, rd_revision root, [])] []))"

section \<open>Budgets\<close>

definition exceeds_optional :: "u64 option \<Rightarrow> u64 option \<Rightarrow> bool" where
  "exceeds_optional requested ceiling =
     (case requested of
        None \<Rightarrow> False
      | Some r \<Rightarrow> (case ceiling of None \<Rightarrow> False | Some c \<Rightarrow> c < r))"

definition enforce_budget_within :: "budgets \<Rightarrow> budgets \<Rightarrow> string + unit" where
  "enforce_budget_within r c =
     (if bu_max_concurrency c < bu_max_concurrency r then Inl ''max_concurrency''
      else if bu_max_agents c < bu_max_agents r then Inl ''max_agents''
      else if bu_max_steps c < bu_max_steps r then Inl ''max_steps''
      else if bu_max_retries c < bu_max_retries r then Inl ''max_retries''
      else if bu_max_nesting_depth c < bu_max_nesting_depth r then Inl ''max_nesting_depth''
      else if bu_wall_time_ms c < bu_wall_time_ms r then Inl ''wall_time_ms''
      else if exceeds_optional (bu_max_tokens r) (bu_max_tokens c) then Inl ''max_tokens''
      else if exceeds_optional (bu_max_cost_micros r) (bu_max_cost_micros c) then Inl ''max_cost_micros''
      else Inr ())"

definition enforce_ceilings :: "budgets \<Rightarrow> budgets \<Rightarrow> unit checked" where
  "enforce_ceilings c b =
     (if bu_max_concurrency c < bu_max_concurrency b
         \<or> bu_max_agents c < bu_max_agents b
         \<or> bu_max_steps c < bu_max_steps b
         \<or> bu_max_retries c < bu_max_retries b
         \<or> bu_max_nesting_depth c < bu_max_nesting_depth b
         \<or> bu_wall_time_ms c < bu_wall_time_ms b
         \<or> exceeds_optional (bu_max_tokens b) (bu_max_tokens c)
         \<or> exceeds_optional (bu_max_cost_micros b) (bu_max_cost_micros c)
      then preflight ''definition exceeds server workflow budget ceilings''
      else Inr ())"

definition least_limit :: "u64 option \<Rightarrow> u64 option \<Rightarrow> u64 option" where
  "least_limit requested ceiling =
     (case requested of
        None \<Rightarrow> ceiling
      | Some r \<Rightarrow> (case ceiling of None \<Rightarrow> Some r | Some c \<Rightarrow> Some (min r c)))"

definition effective_limits :: "budgets \<Rightarrow> budgets \<Rightarrow> budgets" where
  "effective_limits r c =
     \<lparr>bu_max_concurrency = min (bu_max_concurrency r) (bu_max_concurrency c),
      bu_max_agents = min (bu_max_agents r) (bu_max_agents c),
      bu_max_steps = min (bu_max_steps r) (bu_max_steps c),
      bu_max_retries = min (bu_max_retries r) (bu_max_retries c),
      bu_max_nesting_depth = min (bu_max_nesting_depth r) (bu_max_nesting_depth c),
      bu_wall_time_ms = min (bu_wall_time_ms r) (bu_wall_time_ms c),
      bu_max_tokens = least_limit (bu_max_tokens r) (bu_max_tokens c),
      bu_max_cost_micros = least_limit (bu_max_cost_micros r) (bu_max_cost_micros c)\<rparr>"

section \<open>Plans\<close>

fun plan_step_ids :: "plan \<Rightarrow> string list" where
  "plan_step_ids (P_Step step) = [step]"
| "plan_step_ids (P_Sequence nodes) = concat (map plan_step_ids nodes)"
| "plan_step_ids (P_Parallel nodes) = concat (map plan_step_ids nodes)"
| "plan_step_ids (P_Choice condition then_branch else_branch) =
     plan_step_ids then_branch @ plan_step_ids else_branch"
| "plan_step_ids (P_Map source item body) = plan_step_ids body"
| "plan_step_ids (P_Retry body max_attempts delay_ms) = plan_step_ids body"

fun plan_frontier :: "plan \<Rightarrow> string list" where
  "plan_frontier (P_Step step) = [step]"
| "plan_frontier (P_Sequence nodes) = (case nodes of [] \<Rightarrow> [] | node # _ \<Rightarrow> plan_frontier node)"
| "plan_frontier (P_Parallel nodes) = concat (map plan_frontier nodes)"
| "plan_frontier (P_Choice condition then_branch else_branch) =
     plan_frontier then_branch @ plan_frontier else_branch"
| "plan_frontier (P_Map source item body) = plan_frontier body"
| "plan_frontier (P_Retry body max_attempts delay_ms) = plan_frontier body"

text \<open>A \<open>usize\<close> that saturates.\<close>

definition saturating_add :: "u64 \<Rightarrow> u64 \<Rightarrow> u64" where
  "saturating_add a b = (case checked_add a b of None \<Rightarrow> - 1 | Some c \<Rightarrow> c)"

fun plan_leaf_count :: "plan \<Rightarrow> u64" where
  "plan_leaf_count (P_Step step) = 1"
| "plan_leaf_count (P_Sequence nodes) = foldl (\<lambda>total node. saturating_add total node) 0 (map plan_leaf_count nodes)"
| "plan_leaf_count (P_Parallel nodes) = foldl (\<lambda>total node. saturating_add total node) 0 (map plan_leaf_count nodes)"
| "plan_leaf_count (P_Choice condition then_branch else_branch) =
     max (plan_leaf_count then_branch) (plan_leaf_count else_branch)"
| "plan_leaf_count (P_Map source item body) = plan_leaf_count body"
| "plan_leaf_count (P_Retry body max_attempts delay_ms) = plan_leaf_count body"

end
