(* ===== verification/Workflow_Run.thy ===== *)
theory Workflow_Run
  imports Workflow_Bundle
begin

text \<open>
  One workflow run: its snapshot and event log, the transitions that commit them, the budget
  ledger, and the resolution of data references (\<open>workflow/run.rs\<close> and \<open>RunContext\<close> of
  \<open>workflow_run/executor.rs\<close>).  The snapshot in memory and the one in the repository are one
  value here: a transition reloads it, changes it, commits it and publishes it.
\<close>

section \<open>Snapshots and events\<close>

record step_snapshot =
  ws_id :: string
  ws_topology :: "step_topology option"
  ws_status :: run_step_status
  ws_input_hash :: string
  ws_output :: "json option"
  ws_failure :: "run_failure option"
  ws_attempts :: u32

datatype suspension =
    Tool_Approval string string string
  | Tool_Running string string string bool
  | Recovery string

record run_snapshot =
  wr_run_id :: string
  wr_parent_run_id :: "string option"
  wr_parent_step_id :: "string option"
  wr_session_id :: string
  wr_definition :: run_definition
  wr_bundle :: definition_bundle
  wr_bundle_hash :: string
  wr_args :: json
  wr_status :: run_status
  wr_steps :: "(string, step_snapshot) btree_map"
  wr_usage :: budget_usage
  wr_last_sequence :: u64
  wr_output :: "json option"
  wr_failure :: "run_failure option"
  wr_suspension :: "suspension option"
  wr_created_at :: int
  wr_updated_at :: int

datatype event_kind =
    E_Run_Queued
  | E_Run_Started
  | E_Phase string
  | E_Step_Queued
  | E_Step_Started
  | E_Step_Suspended string
  | E_Step_Completed json
  | E_Step_Failed run_failure
  | E_Step_Cancelled
  | E_Step_Skipped string
  | E_Run_Suspended string
  | E_Run_Succeeded json
  | E_Run_Failed run_failure
  | E_Run_Cancelled

record run_event =
  re_run_id :: string
  re_sequence :: u64
  re_at :: int
  re_step_id :: "string option"
  re_kind :: event_kind

definition failure :: "failure_code \<Rightarrow> string \<Rightarrow> bool \<Rightarrow> run_failure" where
  "failure code message retryable = \<lparr>rf_code = code, rf_message = message, rf_retryable = retryable\<rparr>"

definition cancelled_failure :: run_failure where
  "cancelled_failure = failure Cancelled ''workflow cancelled'' False"

text \<open>
  The shared state of a run: the snapshot, the events, the ledger, the permits of the
  semaphore that are free, and the cancellation token.
\<close>

record run_store =
  rs_snapshot :: run_snapshot
  rs_log :: "run_event list"
  rs_ledger :: budget_usage
  rs_permits :: nat
  rs_cancelled :: bool

abbreviation steps_of :: "run_store \<Rightarrow> (string, step_snapshot) btree_map" where
  "steps_of st \<equiv> wr_steps (rs_snapshot st)"

definition run_event_of :: "run_snapshot \<Rightarrow> string option \<Rightarrow> event_kind \<Rightarrow> int \<Rightarrow> run_event" where
  "run_event_of s step_id kind now =
     \<lparr>re_run_id = wr_run_id s, re_sequence = wr_last_sequence s, re_at = now, re_step_id = step_id, re_kind = kind\<rparr>"

definition transition ::
  "int \<Rightarrow> string option \<Rightarrow> event_kind \<Rightarrow> (run_snapshot \<Rightarrow> run_snapshot) \<Rightarrow> run_store \<Rightarrow> run_store"
where
  "transition now step_id kind mutate st =
     (let candidate = mutate (rs_snapshot st);
          candidate = candidate\<lparr>wr_last_sequence := wr_last_sequence candidate + 1, wr_updated_at := now\<rparr>
      in st\<lparr>rs_snapshot := candidate, rs_log := rs_log st @ [run_event_of candidate step_id kind now]\<rparr>)"

text \<open>\<open>get_mut\<close> of a step, and the change of it.\<close>

definition with_step :: "string \<Rightarrow> (step_snapshot \<Rightarrow> step_snapshot) \<Rightarrow> run_snapshot \<Rightarrow> run_snapshot" where
  "with_step i f s =
     (case map_get (wr_steps s) i of
        None \<Rightarrow> s
      | Some x \<Rightarrow> s\<lparr>wr_steps := map_put i (f x) (wr_steps s)\<rparr>)"

text \<open>\<open>entry(i).or_insert(x)\<close> and the change of the entry.\<close>

definition with_entry ::
  "string \<Rightarrow> step_snapshot \<Rightarrow> (step_snapshot \<Rightarrow> step_snapshot) \<Rightarrow> run_snapshot \<Rightarrow> run_snapshot"
where
  "with_entry i x f s =
     s\<lparr>wr_steps := map_put i (f (case map_get (wr_steps s) i of None \<Rightarrow> x | Some y \<Rightarrow> y)) (wr_steps s)\<rparr>"

definition active :: "step_snapshot \<Rightarrow> bool" where
  "active x = (ws_status x = Rs_Queued \<or> ws_status x = Rs_Running)"

section \<open>The ledger\<close>

definition budget_exceeded :: "string \<Rightarrow> run_failure" where
  "budget_exceeded m = failure BudgetExceeded m False"

definition reserve_step :: "budgets \<Rightarrow> budget_usage \<Rightarrow> run_failure + budget_usage" where
  "reserve_step b u =
     (if bu_max_steps b \<le> us_steps u then Inl (budget_exceeded ''workflow step budget exceeded'')
      else Inr (u\<lparr>us_steps := us_steps u + 1\<rparr>))"

definition reserve_retry :: "budgets \<Rightarrow> budget_usage \<Rightarrow> run_failure + budget_usage" where
  "reserve_retry b u =
     (if bu_max_retries b \<le> us_retries u then Inl (budget_exceeded ''workflow retry budget exceeded'')
      else Inr (u\<lparr>us_retries := us_retries u + 1\<rparr>))"

definition reserve_agent :: "budgets \<Rightarrow> budget_usage \<Rightarrow> run_failure + budget_usage" where
  "reserve_agent b u =
     (if bu_max_agents b \<le> us_agents u then Inl (budget_exceeded ''workflow agent budget exceeded'')
      else Inr (u\<lparr>us_agents := us_agents u + 1\<rparr>))"

definition record_usage ::
  "budgets \<Rightarrow> u64 \<Rightarrow> u64 option \<Rightarrow> budget_usage \<Rightarrow> run_failure option \<times> budget_usage"
where
  "record_usage b tokens cost u =
     (let next_tokens = saturating_add (us_tokens u) tokens;
          next_cost = (case us_cost_micros u of
             None \<Rightarrow> None
           | Some x \<Rightarrow> (case cost of None \<Rightarrow> None | Some y \<Rightarrow> Some (saturating_add x y)))
      in (if some_and (\<lambda>limit. limit < next_tokens) (bu_max_tokens b)
             \<or> some_and (\<lambda>limit. case next_cost of None \<Rightarrow> True | Some c \<Rightarrow> limit < c) (bu_max_cost_micros b)
          then Some (budget_exceeded ''workflow token/cost budget exceeded'') else None,
          u\<lparr>us_tokens := next_tokens, us_cost_micros := next_cost\<rparr>))"

definition ensure_agent_usage_budget_available :: "budgets \<Rightarrow> budget_usage \<Rightarrow> run_failure + unit" where
  "ensure_agent_usage_budget_available b u =
     (if some_and (\<lambda>limit. limit \<le> us_tokens u) (bu_max_tokens b)
         \<or> some_and (\<lambda>limit. case us_cost_micros u of None \<Rightarrow> True | Some c \<Rightarrow> limit \<le> c) (bu_max_cost_micros b)
      then Inl (budget_exceeded ''workflow token/cost budget exhausted before agent dispatch'')
      else Inr ())"

text \<open>
  What the agents still owed: their usage, or an error, which makes the cost unknown.
\<close>

definition drain_one ::
  "budgets \<Rightarrow> (u64 \<times> u64 option) option \<Rightarrow> bool \<times> budget_usage \<Rightarrow> bool \<times> budget_usage"
where
  "drain_one b r acc =
     (case r of
        Some (tokens, cost) \<Rightarrow> (fst acc, snd (record_usage b tokens cost (snd acc)))
      | None \<Rightarrow> (True, (snd acc)\<lparr>us_cost_micros := None\<rparr>))"

definition drain_agents ::
  "budgets \<Rightarrow> (u64 \<times> u64 option) option list \<Rightarrow> budget_usage \<Rightarrow> bool \<times> budget_usage"
where
  "drain_agents b results u = fold (drain_one b) results (False, u)"

section \<open>The context of a node\<close>

record run_context =
  rc_items :: "(string, json) btree_map"
  rc_scope :: string
  rc_index_path :: "nat list"

definition root_context :: run_context where
  "root_context = \<lparr>rc_items = [], rc_scope = ''root'', rc_index_path = []\<rparr>"

definition child_context :: "string \<Rightarrow> json \<Rightarrow> nat \<Rightarrow> run_context \<Rightarrow> run_context" where
  "child_context item v n c =
     c\<lparr>rc_items := map_put item v (rc_items c),
       rc_scope := rc_scope c @ ''['' @ decimal n @ '']'',
       rc_index_path := rc_index_path c @ [n]\<rparr>"

text \<open>The loop that pads an id with at signs until no declared step has it.\<close>

function free_id :: "step_map \<Rightarrow> string \<Rightarrow> string" where
  "free_id steps i = (if has_key steps i then free_id steps (i @ ''@'') else i)"
  by pat_completeness auto

termination free_id
proof (relation "measure (\<lambda>(steps, i). card {k \<in> set (keys steps). length i \<le> length k})", goal_cases)
  case (2 steps i)
  let ?longer = "\<lambda>n. {k \<in> set (keys steps). n \<le> length k}"
  have "i \<in> ?longer (length i)" using 2 by (simp add: has_key_iff keys_map_get)
  moreover have "i \<notin> ?longer (Suc (length i))" by simp
  moreover have "?longer (Suc (length i)) \<subseteq> ?longer (length i)" by auto
  ultimately have "?longer (Suc (length i)) \<subset> ?longer (length i)" by blast
  then show ?case by (simp add: psubset_card_mono)
qed simp

declare free_id.simps [simp del]

definition instance_id :: "step_map \<Rightarrow> run_context \<Rightarrow> string \<Rightarrow> string" where
  "instance_id steps c i =
     (if rc_scope c = ''root'' then i else free_id steps (i @ ''@'' @ rc_scope c))"

definition instance_is_in_scope :: "string \<Rightarrow> string \<Rightarrow> string \<Rightarrow> bool" where
  "instance_is_in_scope instance step scope =
     (let exact = step @ ''@'' @ scope
      in if scope = ''root''
         then instance = step \<or> starts_with instance exact \<and> starts_with (drop (length exact) instance) ''[''
         else instance = exact \<or> starts_with instance exact \<and> starts_with (drop (length exact) instance) ''['')"

definition step_is_in_scope :: "run_context \<Rightarrow> step_snapshot \<Rightarrow> string \<Rightarrow> bool" where
  "step_is_in_scope c x i =
     (case ws_topology x of
        None \<Rightarrow> instance_is_in_scope (ws_id x) i (rc_scope c)
      | Some t \<Rightarrow> tp_planned_step_id t = i \<and>
          take (length (rc_index_path c)) (tp_map_index_path t) = rc_index_path c)"

section \<open>References\<close>

text \<open>
  What a run takes from its libraries and its host: the JSON port, \<open>Value::pointer\<close>, the
  hash of an input, the value of a failure; and the run itself: the compiled workflow, the
  limits of the root run and whether agents were pinned.
\<close>

record run_env =
  en_json :: json_port
  en_pointer :: "json \<Rightarrow> string \<Rightarrow> json option"
  en_input_hash :: "json \<Rightarrow> string"
  en_failure_json :: "run_failure \<Rightarrow> json"
  en_compiled :: compiled_workflow
  en_limits :: budgets
  en_agents :: bool

definition unknown_reference :: "string \<Rightarrow> run_failure" where
  "unknown_reference m = failure UnknownReference m False"

definition at_pointer :: "run_env \<Rightarrow> json \<Rightarrow> string \<Rightarrow> run_failure + json" where
  "at_pointer E root pointer =
     (if pointer = [] then Inr root
      else case en_pointer E root pointer of
             None \<Rightarrow> Inl (unknown_reference (''JSON pointer '' @ quoted pointer @ '' not found''))
           | Some v \<Rightarrow> Inr v)"

definition step_output :: "run_env \<Rightarrow> run_context \<Rightarrow> run_snapshot \<Rightarrow> string \<Rightarrow> json option" where
  "step_output E c s i =
     (let exact = instance_id (cw_steps (en_compiled E)) c i;
          found = (case map_get (wr_steps s) exact of None \<Rightarrow> map_get (wr_steps s) i | Some x \<Rightarrow> Some x)
      in Option.bind found ws_output)"

definition resolve_ref :: "run_env \<Rightarrow> run_context \<Rightarrow> run_snapshot \<Rightarrow> value_ref \<Rightarrow> run_failure + json" where
  "resolve_ref E c s ref =
     (case ref of
        Ref_Args pointer \<Rightarrow> at_pointer E (wr_args s) pointer
      | Ref_Step step pointer \<Rightarrow>
          (case step_output E c s step of
             None \<Rightarrow> Inl (unknown_reference (''step output '' @ quoted step @ '' unavailable in execution scope''))
           | Some v \<Rightarrow> at_pointer E v pointer)
      | Ref_Item name pointer \<Rightarrow>
          (case map_get (rc_items c) name of
             None \<Rightarrow> Inl (unknown_reference (''map item '' @ quoted name @ '' unavailable''))
           | Some v \<Rightarrow> at_pointer E v pointer)
      | Ref_Literal v \<Rightarrow> Inr v)"

fun map_ok :: "('a \<Rightarrow> 'e + 'b) \<Rightarrow> 'a list \<Rightarrow> 'e + 'b list" where
  "map_ok f [] = Inr []"
| "map_ok f (x # xs) = or_else (f x) (\<lambda>y. or_else (map_ok f xs) (\<lambda>ys. Inr (y # ys)))"

lemma map_ok_cong [fundef_cong]:
  "xs = ys \<Longrightarrow> (\<And>x. x \<in> set ys \<Longrightarrow> f x = g x) \<Longrightarrow> map_ok f xs = map_ok g ys"
  by (induction xs arbitrary: ys) auto

function resolve_template :: "run_env \<Rightarrow> run_context \<Rightarrow> run_snapshot \<Rightarrow> json \<Rightarrow> run_failure + json" where
  "resolve_template E c s v =
     (case v of
        JObject ms \<Rightarrow>
          if map_of ms ''from'' \<noteq> None
          then (case jp_ref (en_json E) v of
                  Inl m \<Rightarrow> Inl (failure InvalidInput (''malformed value reference: '' @ m) False)
                | Inr ref \<Rightarrow> resolve_ref E c s ref)
          else or_else (map_ok (\<lambda>e. or_else (resolve_template E c s (snd e)) (\<lambda>w. Inr (fst e, w))) ms)
                 (\<lambda>ms. Inr (JObject ms))
      | JArray xs \<Rightarrow> or_else (map_ok (resolve_template E c s) xs) (\<lambda>xs. Inr (JArray xs))
      | _ \<Rightarrow> Inr v)"
  by pat_completeness auto

termination resolve_template
proof (relation "measure (\<lambda>(E, c, s, v). size v)", goal_cases)
  case (2 E c s v xs x)
  then show ?case using in_array_size [of x xs] by simp
next
  case (3 E c s v ms e)
  then show ?case using in_members_size [of e ms] by simp
qed simp_all

declare resolve_template.simps [simp del]

end
