(* ===== verification/Workflow_Exec.thy ===== *)
theory Workflow_Exec
  imports Workflow_Run
begin

text \<open>
  The execution of a plan: \<open>execute_node\<close>, \<open>execute_step\<close>, \<open>skip_plan\<close> and the finalizers of
  \<open>workflow_run/executor.rs\<close>.  The futures of the code are values of \<open>task\<close>, one constructor
  for each place where a future may be waiting; a poll lets one leaf of the tree make its next
  change of the shared state, so a list of polls is one interleaving of the concurrent parts.
  What a poll cannot know is its argument: the answer of the dispatched tool, agent or nested
  run, whether the repository commits, the clock.
\<close>

section \<open>Tasks\<close>

datatype step_stage =
    Reserving json
  | Checkpointing json
  | Queueing json
  | Acquiring
  | Starting
  | Dispatching
  | Finishing "run_failure + json"

datatype task =
    Ready plan run_context
  | In_Step step_definition step_stage run_context
  | In_Sequence task "plan list" run_context
  | In_Parallel "plan list" "task list" run_context
  | Draining "plan list" run_failure run_context
  | Cancelling "string list" "plan list" run_failure run_context
  | In_Map "task list"
  | In_Retry task plan u32 u32 run_context
  | Saving_Retry plan u32 u32 run_context
  | Sleeping plan u32 u32 run_context
  | Skipping "(string \<times> string) list" "string list" string run_context task
  | Returned "run_failure + json"

record poll =
  po_now :: int
  po_commit_error :: "string option"
  po_outcome :: "run_failure + json"
  po_violated :: bool
  po_permit_first :: bool
  po_drained :: "(u64 \<times> u64 option) option list"
  po_drain_error :: bool

section \<open>Commits\<close>

text \<open>A transition whose commit the repository may refuse, and the mutations of the code.\<close>

definition commit ::
  "poll \<Rightarrow> string option \<Rightarrow> event_kind \<Rightarrow> (run_snapshot \<Rightarrow> run_snapshot) \<Rightarrow> run_store \<Rightarrow> run_failure + run_store"
where
  "commit po step_id kind mutate st =
     (case po_commit_error po of
        Some m \<Rightarrow> Inl (failure Storage_Failure m False)
      | None \<Rightarrow> Inr (transition (po_now po) step_id kind mutate st))"

definition checkpoint_usage :: "poll \<Rightarrow> string \<Rightarrow> run_store \<Rightarrow> run_failure + run_store" where
  "checkpoint_usage po name st = commit po None (E_Phase name) (\<lambda>s. s\<lparr>wr_usage := rs_ledger st\<rparr>) st"

definition checkpoint_agent_usage :: "poll \<Rightarrow> string \<Rightarrow> run_store \<Rightarrow> run_failure + run_store" where
  "checkpoint_agent_usage po name st =
     commit po None (E_Phase name)
       (\<lambda>s. s\<lparr>wr_usage := (wr_usage s)\<lparr>us_tokens := us_tokens (rs_ledger st),
                                      us_cost_micros := us_cost_micros (rs_ledger st)\<rparr>\<rparr>) st"

definition own_id :: "run_env \<Rightarrow> run_context \<Rightarrow> string \<Rightarrow> string" where
  "own_id E c i = instance_id (cw_steps (en_compiled E)) c i"

definition placeholder :: "run_env \<Rightarrow> run_context \<Rightarrow> string \<Rightarrow> string \<Rightarrow> run_step_status \<Rightarrow> string \<Rightarrow> step_snapshot" where
  "placeholder E c i key status input_hash =
     \<lparr>ws_id = key,
      ws_topology = step_topology_of (rd_plan (cw_definition (en_compiled E))) i (rc_index_path c),
      ws_status = status, ws_input_hash = input_hash, ws_output = None, ws_failure = None, ws_attempts = 0\<rparr>"

definition queue_step :: "run_env \<Rightarrow> run_context \<Rightarrow> string \<Rightarrow> json \<Rightarrow> run_snapshot \<Rightarrow> run_snapshot" where
  "queue_step E c i input =
     with_entry (own_id E c i) (placeholder E c i (own_id E c i) Rs_Queued (en_input_hash E input))
       (\<lambda>x. x\<lparr>ws_status := Rs_Queued, ws_input_hash := en_input_hash E input, ws_output := None, ws_failure := None\<rparr>)"

definition start_step :: "step_snapshot \<Rightarrow> step_snapshot" where
  "start_step x = x\<lparr>ws_status := Rs_Running, ws_attempts := ws_attempts x + 1\<rparr>"

definition complete_step :: "json \<Rightarrow> step_snapshot \<Rightarrow> step_snapshot" where
  "complete_step v x = x\<lparr>ws_status := Rs_Succeeded, ws_output := Some v\<rparr>"

definition end_step :: "run_step_status \<Rightarrow> run_failure \<Rightarrow> step_snapshot \<Rightarrow> step_snapshot" where
  "end_step status e x = x\<lparr>ws_status := status, ws_failure := Some e\<rparr>"

definition skip_step :: "run_env \<Rightarrow> run_context \<Rightarrow> string \<Rightarrow> string \<Rightarrow> string \<Rightarrow> run_snapshot \<Rightarrow> run_snapshot" where
  "skip_step E c i key reason =
     with_entry key (placeholder E c i key Rs_Skipped [])
       (\<lambda>x. x\<lparr>ws_status := Rs_Skipped, ws_output := None,
              ws_failure := Some (failure DependencySkipped reason False)\<rparr>)"

section \<open>One step\<close>

definition check_suspension_restriction :: "poll \<Rightarrow> run_failure + unit" where
  "check_suspension_restriction po =
     (if po_violated po
      then Inl (failure ExecutionFailed
        ''workflow cannot continue after a forbidden Running outcome; cleanup requested, stop unconfirmed'' False)
      else Inr ())"

definition takes_permit :: "step_definition \<Rightarrow> bool" where
  "takes_permit sd = (case sf_kind sd of Workflow_Step _ _ _ \<Rightarrow> False | _ \<Rightarrow> True)"

definition release :: "step_definition \<Rightarrow> run_store \<Rightarrow> run_store" where
  "release sd st = (if takes_permit sd then st\<lparr>rs_permits := rs_permits st + 1\<rparr> else st)"

text \<open>What becomes of the answer of a dispatch before it is recorded.\<close>

definition judge_outcome :: "run_env \<Rightarrow> poll \<Rightarrow> step_definition \<Rightarrow> run_failure + json" where
  "judge_outcome E po sd =
     or_else (po_outcome po) (\<lambda>v.
     or_else (check_suspension_restriction po) (\<lambda>_.
     or_else (case sf_output_schema sd of
                None \<Rightarrow> Inr ()
              | Some schema \<Rightarrow> map_error (\<lambda>m. failure InvalidOutput m False) (validate_schema (en_json E) schema v)) (\<lambda>_.
     or_else (map_error (\<lambda>m. failure InvalidOutput m False) (reject_secret_material (en_json E) v)) (\<lambda>_.
     Inr v))))"

text \<open>What the step returns when it has failed.\<close>

definition after_failure :: "run_env \<Rightarrow> poll \<Rightarrow> step_definition \<Rightarrow> run_failure \<Rightarrow> run_failure + json" where
  "after_failure E po sd e =
     or_else (check_suspension_restriction po) (\<lambda>_.
       case sf_failure sd of
         ContinueWithError \<Rightarrow> Inr (JObject [(''error'', en_failure_json E e)])
       | SkipDependents \<Rightarrow> Inl (failure DependencySkipped (rf_message e @ '' (dependents skipped)'') False)
       | FailFast \<Rightarrow> Inl e)"

definition record_result ::
  "run_env \<Rightarrow> poll \<Rightarrow> step_definition \<Rightarrow> string \<Rightarrow> run_failure + json \<Rightarrow> run_store
   \<Rightarrow> (run_failure + json) \<times> run_store"
where
  "record_result E po sd key result st =
     (let (kind, change, answer) =
        (case result of
           Inr v \<Rightarrow> (E_Step_Completed v, complete_step v, Inr v)
         | Inl e \<Rightarrow>
             if rf_code e = Cancelled
             then (E_Step_Cancelled, end_step Rs_Cancelled (failure Cancelled ''workflow branch cancelled'' False), Inl e)
             else if rf_code e = Suspended
             then (E_Step_Suspended (rf_message e), end_step Rs_Suspended (failure Suspended (rf_message e) True), Inl e)
             else (E_Step_Failed e, end_step Rs_Failed e, after_failure E po sd e))
      in case commit po (Some key) kind (with_step key change) st of
           Inl m \<Rightarrow> (Inl m, st)
         | Inr st \<Rightarrow> (answer, st))"

definition step_task :: "step_definition \<Rightarrow> run_context \<Rightarrow> run_store \<Rightarrow> run_failure + step_stage \<times> run_store \<Rightarrow> task \<times> run_store" where
  "step_task sd c st r =
     (case r of
        Inl e \<Rightarrow> (Returned (Inl e), st)
      | Inr (step_stage, st') \<Rightarrow> (In_Step sd step_stage c, st'))"

definition cancel_waiting :: "poll \<Rightarrow> string \<Rightarrow> run_store \<Rightarrow> task \<times> run_store" where
  "cancel_waiting po key st =
     (case commit po (Some key) E_Step_Cancelled (with_step key (\<lambda>x. x\<lparr>ws_status := Rs_Cancelled\<rparr>)) st of
        Inl e \<Rightarrow> (Returned (Inl e), st)
      | Inr st' \<Rightarrow> (Returned (Inl cancelled_failure), st'))"

fun poll_step :: "run_env \<Rightarrow> poll \<Rightarrow> step_definition \<Rightarrow> step_stage \<Rightarrow> run_context \<Rightarrow> run_store \<Rightarrow> task \<times> run_store" where
  "poll_step E po sd (Reserving input) c st =
     step_task sd c st (or_else (reserve_step (en_limits E) (rs_ledger st)) (\<lambda>u.
       Inr (Checkpointing input, st\<lparr>rs_ledger := u\<rparr>)))"
| "poll_step E po sd (Checkpointing input) c st =
     step_task sd c st (or_else (checkpoint_usage po ''step_reserved'' st) (\<lambda>st. Inr (Queueing input, st)))"
| "poll_step E po sd (Queueing input) c st =
     step_task sd c st (or_else
       (commit po (Some (own_id E c (sf_id sd))) E_Step_Queued (queue_step E c (sf_id sd) input) st) (\<lambda>st.
       Inr (if takes_permit sd then Acquiring else Starting, st)))"
| "poll_step E po sd Acquiring c st =
     (if rs_cancelled st \<and> \<not> (po_permit_first po \<and> 0 < rs_permits st)
      then cancel_waiting po (own_id E c (sf_id sd)) st
      else if 0 < rs_permits st then (In_Step sd Starting c, st\<lparr>rs_permits := rs_permits st - 1\<rparr>)
      else (In_Step sd Acquiring c, st))"
| "poll_step E po sd Starting c st =
     (case commit po (Some (own_id E c (sf_id sd))) E_Step_Started (with_step (own_id E c (sf_id sd)) start_step) st of
        Inl e \<Rightarrow> (Returned (Inl e), release sd st)
      | Inr st' \<Rightarrow> (In_Step sd Dispatching c, st'))"
| "poll_step E po sd Dispatching c st = (In_Step sd (Finishing (judge_outcome E po sd)) c, st)"
| "poll_step E po sd (Finishing result) c st =
     (case record_result E po sd (own_id E c (sf_id sd)) result st of
        (answer, st') \<Rightarrow> (Returned answer, release sd st'))"

section \<open>Entering a node\<close>

definition as_bool :: "json \<Rightarrow> bool option" where
  "as_bool v = (case v of JBool b \<Rightarrow> Some b | _ \<Rightarrow> None)"

definition refuse_node :: "failure_code \<Rightarrow> string \<Rightarrow> task" where
  "refuse_node code m = Returned (Inl (failure code m False))"

definition map_exceeds :: "run_env \<Rightarrow> run_store \<Rightarrow> plan \<Rightarrow> nat \<Rightarrow> bool" where
  "map_exceeds E st body n =
     (let remaining = unat (bu_max_steps (en_limits E)) - unat (us_steps (rs_ledger st));
          required = n * unat (max (plan_leaf_count body) 1)
      in 2 ^ 64 \<le> required \<or> remaining < required)"

definition enter_step :: "run_env \<Rightarrow> string \<Rightarrow> run_context \<Rightarrow> run_store \<Rightarrow> task" where
  "enter_step E i c st =
     (case map_get (cw_steps (en_compiled E)) i of
        None \<Rightarrow> refuse_node UnknownReference (''unknown step '' @ i)
      | Some sd \<Rightarrow>
          (case resolve_template E c (rs_snapshot st) (step_template sd) of
             Inl e \<Rightarrow> Returned (Inl e)
           | Inr input \<Rightarrow> In_Step sd (Reserving input) c))"

definition enter_choice :: "run_env \<Rightarrow> value_ref \<Rightarrow> plan \<Rightarrow> plan \<Rightarrow> run_context \<Rightarrow> run_store \<Rightarrow> task" where
  "enter_choice E condition then_branch else_branch c st =
     (case resolve_ref E c (rs_snapshot st) condition of
        Inl e \<Rightarrow> Returned (Inl e)
      | Inr v \<Rightarrow>
          (case as_bool v of
             None \<Rightarrow> refuse_node InvalidInput ''choice condition must be a boolean''
           | Some selected \<Rightarrow>
               let chosen = (if selected then then_branch else else_branch);
                   unchosen = (if selected then else_branch else then_branch)
               in Skipping [] (plan_step_ids unchosen) ''conditional branch not selected'' c (Ready chosen c)))"

definition enter_map :: "run_env \<Rightarrow> value_ref \<Rightarrow> string \<Rightarrow> plan \<Rightarrow> run_context \<Rightarrow> run_store \<Rightarrow> task" where
  "enter_map E source item body c st =
     (case resolve_ref E c (rs_snapshot st) source of
        Inl e \<Rightarrow> Returned (Inl e)
      | Inr v \<Rightarrow>
          (case as_array v of
             None \<Rightarrow> refuse_node InvalidInput ''map source must be an array''
           | Some vs \<Rightarrow>
               if map_exceeds E st body (length vs)
               then refuse_node BudgetExceeded ''map cardinality exceeds remaining workflow step budget''
               else In_Map (map (\<lambda>(n, v). Ready body (child_context item v n c)) (enumerate 0 vs))))"

definition retry_limit :: "run_env \<Rightarrow> u32 \<Rightarrow> u32" where
  "retry_limit E max_attempts =
     min max_attempts (bu_max_retries (rd_budgets (cw_definition (en_compiled E))) + 1)"

definition enter :: "run_env \<Rightarrow> plan \<Rightarrow> run_context \<Rightarrow> run_store \<Rightarrow> task" where
  "enter E p c st =
     (if rs_cancelled st then Returned (Inl cancelled_failure)
      else case p of
        P_Step i \<Rightarrow> enter_step E i c st
      | P_Sequence nodes \<Rightarrow>
          (case nodes of [] \<Rightarrow> Returned (Inr JNull) | node # rest \<Rightarrow> In_Sequence (Ready node c) rest c)
      | P_Parallel nodes \<Rightarrow> In_Parallel nodes (map (\<lambda>node. Ready node c) nodes) c
      | P_Choice condition then_branch else_branch \<Rightarrow> enter_choice E condition then_branch else_branch c st
      | P_Map source item body \<Rightarrow> enter_map E source item body c st
      | P_Retry node max_attempts delay_ms \<Rightarrow>
          (if retry_limit E max_attempts = 0
           then refuse_node RetryExhausted ''retry exhausted''
           else In_Retry (Ready node c) node 0 (retry_limit E max_attempts) c))"

section \<open>Returning from children\<close>

definition next_in_sequence :: "run_failure + json \<Rightarrow> plan list \<Rightarrow> run_context \<Rightarrow> task" where
  "next_in_sequence r rest c =
     (case r of
        Inr v \<Rightarrow> (case rest of [] \<Rightarrow> Returned (Inr v) | node # rest \<Rightarrow> In_Sequence (Ready node c) rest c)
      | Inl e \<Rightarrow>
          if rf_code e = DependencySkipped
          then Skipping [] (concat (map plan_step_ids rest)) ''dependency requested skip_dependents'' c (Returned (Inl e))
          else Returned (Inl e))"

definition returned :: "task \<Rightarrow> (run_failure + json) option" where
  "returned t = (case t of Returned r \<Rightarrow> Some r | _ \<Rightarrow> None)"

fun results :: "task list \<Rightarrow> (run_failure + json) list option" where
  "results [] = Some []"
| "results (t # ts) =
     (case returned t of
        None \<Rightarrow> None
      | Some r \<Rightarrow> map_option (\<lambda>rs. r # rs) (results ts))"

fun outputs :: "(run_failure + json) list \<Rightarrow> json list" where
  "outputs [] = []"
| "outputs (Inr v # rs) = v # outputs rs"
| "outputs (Inl e # rs) = outputs rs"

fun failures_from :: "nat \<Rightarrow> (run_failure + json) list \<Rightarrow> (nat \<times> run_failure) list" where
  "failures_from n [] = []"
| "failures_from n (Inr v # rs) = failures_from (Suc n) rs"
| "failures_from n (Inl e # rs) = (n, e) # failures_from (Suc n) rs"

definition join_map :: "(run_failure + json) list \<Rightarrow> run_failure + json" where
  "join_map rs =
     (case failures_from 0 rs of
        [] \<Rightarrow> Inr (JArray (outputs rs))
      | (n, e) # es \<Rightarrow>
          let fs = (n, e) # es;
              code = (if list_ex (\<lambda>f. rf_code (snd f) = DependencySkipped) fs then DependencySkipped
                      else if list_all (\<lambda>f. rf_code (snd f) = rf_code e) fs then rf_code e
                      else ExecutionFailed);
              diagnostics = join_with ''; '' (map (\<lambda>f. ''item['' @ decimal (fst f) @ '']: '' @ rf_message (snd f)) fs)
          in Inl (failure code (''map items failed: '' @ diagnostics) (list_ex (\<lambda>f. rf_retryable (snd f)) fs)))"

text \<open>The permits that dropped futures give back.\<close>

definition stage_permit :: "step_definition \<Rightarrow> step_stage \<Rightarrow> nat" where
  "stage_permit sd s =
     (case s of Starting \<Rightarrow> 1 | Dispatching \<Rightarrow> 1 | Finishing _ \<Rightarrow> 1 | _ \<Rightarrow> 0) * (if takes_permit sd then 1 else 0)"

fun held :: "task \<Rightarrow> nat" where
  "held (In_Step sd s c) = stage_permit sd s"
| "held (In_Sequence t rest c) = held t"
| "held (In_Parallel nodes ts c) = sum_list (map held ts)"
| "held (In_Map ts) = sum_list (map held ts)"
| "held (In_Retry t node attempt limit c) = held t"
| "held (Skipping instances leaves reason c t) = held t"
| "held _ = 0"

definition active_siblings :: "run_context \<Rightarrow> plan list \<Rightarrow> run_store \<Rightarrow> string list" where
  "active_siblings c nodes st =
     (let siblings = set_of (concat (map plan_step_ids nodes))
      in map fst (filter (\<lambda>(key, x). active x \<and> list_ex (step_is_in_scope c x) siblings) (steps_of st)))"

definition parallel_failure :: "nat \<Rightarrow> run_failure \<Rightarrow> run_failure" where
  "parallel_failure n e = e\<lparr>rf_message := ''parallel branch['' @ decimal n @ ''] failed: '' @ rf_message e\<rparr>"

definition fail_parallel ::
  "run_env \<Rightarrow> plan list \<Rightarrow> task list \<Rightarrow> run_context \<Rightarrow> run_failure \<Rightarrow> run_store \<Rightarrow> task \<times> run_store"
where
  "fail_parallel E nodes ts c e st =
     (let st = st\<lparr>rs_permits := rs_permits st + sum_list (map held ts)\<rparr>
      in (if en_agents E then Draining nodes e c else Cancelling (active_siblings c nodes st) nodes e c, st))"

definition drain_parallel ::
  "run_env \<Rightarrow> poll \<Rightarrow> plan list \<Rightarrow> run_failure \<Rightarrow> run_context \<Rightarrow> run_store \<Rightarrow> task \<times> run_store"
where
  "drain_parallel E po nodes e c st =
     (let (unavailable, ledger) = drain_agents (en_limits E) (po_drained po) (rs_ledger st);
          st = st\<lparr>rs_ledger := ledger\<rparr>
      in case checkpoint_agent_usage po ''AgentDrained'' st of
           Inl m \<Rightarrow> (Returned (Inl m), st)
         | Inr st \<Rightarrow>
             (if unavailable
              then refuse_node ExecutionFailed
                ''workflow Agent cumulative token observation unavailable; usage is not measured''
              else if po_drain_error po
              then refuse_node ExecutionFailed ''Workflow children have not confirmed stop''
              else Cancelling (active_siblings c nodes st) nodes e c, st))"

definition next_attempt ::
  "run_env \<Rightarrow> run_failure + json \<Rightarrow> plan \<Rightarrow> u32 \<Rightarrow> u32 \<Rightarrow> run_context \<Rightarrow> run_store \<Rightarrow> task \<times> run_store"
where
  "next_attempt E r node attempt limit c st =
     (case r of
        Inr v \<Rightarrow> (Returned (Inr v), st)
      | Inl e \<Rightarrow>
          if \<not> rf_retryable e then (Returned (Inl e), st)
          else if attempt + 1 < limit
          then (case reserve_retry (en_limits E) (rs_ledger st) of
                  Inl m \<Rightarrow> (Returned (Inl m), st)
                | Inr u \<Rightarrow> (Saving_Retry node attempt limit c, st\<lparr>rs_ledger := u\<rparr>))
          else (refuse_node RetryExhausted (rf_message e), st))"

definition cancel_sibling :: "poll \<Rightarrow> string \<Rightarrow> run_store \<Rightarrow> run_failure + run_store" where
  "cancel_sibling po key =
     commit po (Some key) E_Step_Cancelled
       (with_step key (end_step Rs_Cancelled (failure Cancelled ''parallel sibling cancelled by fail_fast'' False)))"

definition in_scope_instances :: "run_env \<Rightarrow> run_context \<Rightarrow> string \<Rightarrow> run_store \<Rightarrow> (string \<times> string) list" where
  "in_scope_instances E c i st =
     (case filter (\<lambda>(key, x). step_is_in_scope c x i) (steps_of st) of
        [] \<Rightarrow> [(i, own_id E c i)]
      | found \<Rightarrow> map (\<lambda>(key, x). (i, key)) found)"


section \<open>Polls\<close>

text \<open>
  The leaf that is polled is named by the indices of the parallel branches and map items that
  lead to it.  A poll of a node whose child has returned takes the result of the child.
\<close>

definition poll_skip ::
  "run_env \<Rightarrow> poll \<Rightarrow> (string \<times> string) list \<Rightarrow> string list \<Rightarrow> string \<Rightarrow> run_context \<Rightarrow> task \<Rightarrow> run_store
   \<Rightarrow> task \<times> run_store"
where
  "poll_skip E po instances leaves reason c t st =
     (case instances of
        (i, key) # rest \<Rightarrow>
          (case commit po (Some key) (E_Step_Skipped reason) (skip_step E c i key reason) st of
             Inl e \<Rightarrow> (Returned (Inl e), st)
           | Inr st' \<Rightarrow> (Skipping rest leaves reason c t, st'))
      | [] \<Rightarrow>
          (case leaves of
             i # rest \<Rightarrow> (Skipping (in_scope_instances E c i st) rest reason c t, st)
           | [] \<Rightarrow> (t, st)))"

definition poll_cancelling ::
  "poll \<Rightarrow> string list \<Rightarrow> plan list \<Rightarrow> run_failure \<Rightarrow> run_context \<Rightarrow> run_store \<Rightarrow> task \<times> run_store"
where
  "poll_cancelling po ids nodes e c st =
     (case ids of
        [] \<Rightarrow> (Returned (Inl e), st)
      | key # rest \<Rightarrow>
          (case cancel_sibling po key st of
             Inl m \<Rightarrow> (Returned (Inl m), st)
           | Inr st' \<Rightarrow> (Cancelling rest nodes e c, st')))"

definition poll_saving :: "poll \<Rightarrow> plan \<Rightarrow> u32 \<Rightarrow> u32 \<Rightarrow> run_context \<Rightarrow> run_store \<Rightarrow> task \<times> run_store" where
  "poll_saving po node attempt limit c st =
     (case checkpoint_usage po ''retry_reserved'' st of
        Inl e \<Rightarrow> (Returned (Inl e), st)
      | Inr st' \<Rightarrow> (Sleeping node attempt limit c, st'))"

definition poll_sleeping :: "plan \<Rightarrow> u32 \<Rightarrow> u32 \<Rightarrow> run_context \<Rightarrow> run_store \<Rightarrow> task \<times> run_store" where
  "poll_sleeping node attempt limit c st =
     (if rs_cancelled st then (Returned (Inl cancelled_failure), st)
      else (In_Retry (Ready node c) node (attempt + 1) limit c, st))"

definition join_parallel :: "plan list \<Rightarrow> task list \<Rightarrow> run_context \<Rightarrow> task" where
  "join_parallel nodes ts c =
     (case results ts of
        None \<Rightarrow> In_Parallel nodes ts c
      | Some rs \<Rightarrow> if failures_from 0 rs = [] then Returned (Inr (JArray (outputs rs))) else In_Parallel nodes ts c)"

function advance :: "run_env \<Rightarrow> poll \<Rightarrow> nat list \<Rightarrow> task \<Rightarrow> run_store \<Rightarrow> task \<times> run_store" where
  "advance E po path (Ready p c) st = (enter E p c st, st)"
| "advance E po path (In_Step sd s c) st = poll_step E po sd s c st"
| "advance E po path (In_Sequence t rest c) st =
     (case returned t of
        Some r \<Rightarrow> (next_in_sequence r rest c, st)
      | None \<Rightarrow> (case advance E po path t st of (t', st') \<Rightarrow> (In_Sequence t' rest c, st')))"
| "advance E po path (In_Parallel nodes ts c) st =
     (case path of
        [] \<Rightarrow> (join_parallel nodes ts c, st)
      | n # path \<Rightarrow>
          if n < length ts
          then (case returned (ts ! n) of
                  Some (Inr v) \<Rightarrow> (In_Parallel nodes ts c, st)
                | Some (Inl e) \<Rightarrow> fail_parallel E nodes ts c (parallel_failure n e) st
                | None \<Rightarrow> (case advance E po path (ts ! n) st of (t', st') \<Rightarrow> (In_Parallel nodes (ts[n := t']) c, st')))
          else (In_Parallel nodes ts c, st))"
| "advance E po path (Draining nodes e c) st = drain_parallel E po nodes e c st"
| "advance E po path (Cancelling ids nodes e c) st = poll_cancelling po ids nodes e c st"
| "advance E po path (In_Map ts) st =
     (case path of
        [] \<Rightarrow> (case results ts of None \<Rightarrow> (In_Map ts, st) | Some rs \<Rightarrow> (Returned (join_map rs), st))
      | n # path \<Rightarrow>
          if n < length ts
          then (case returned (ts ! n) of
                  Some r \<Rightarrow> (In_Map ts, st)
                | None \<Rightarrow> (case advance E po path (ts ! n) st of (t', st') \<Rightarrow> (In_Map (ts[n := t']), st')))
          else (In_Map ts, st))"
| "advance E po path (In_Retry t node attempt limit c) st =
     (case returned t of
        Some r \<Rightarrow> next_attempt E r node attempt limit c st
      | None \<Rightarrow> (case advance E po path t st of (t', st') \<Rightarrow> (In_Retry t' node attempt limit c, st')))"
| "advance E po path (Saving_Retry node attempt limit c) st = poll_saving po node attempt limit c st"
| "advance E po path (Sleeping node attempt limit c) st = poll_sleeping node attempt limit c st"
| "advance E po path (Skipping instances leaves reason c t) st = poll_skip E po instances leaves reason c t st"
| "advance E po path (Returned r) st = (Returned r, st)"
  by pat_completeness auto

lemma nth_size: "n < length ts \<Longrightarrow> size (ts ! n) < Suc (size_list size ts)"
  using size_list_estimation' [of "ts ! n" ts "size (ts ! n)" size] by (simp add: less_Suc_eq_le)

termination advance
  by (relation "measure (\<lambda>(E, po, path, t, st). size t)") (auto simp: nth_size)

section \<open>The run\<close>

text \<open>
  What happens to a run: a poll of its tree; the cancellation of its token; and, while agents
  and nested runs are dispatched, their reservations in the shared ledger, the usage they
  report and the suspension context of a tool.
\<close>

datatype run_action =
    Poll "nat list" poll
  | Cancel_Run
  | Nested_Step
  | Nested_Retry
  | Agent_Reserved bool
  | Agent_Usage u64 "u64 option"
  | Save_Usage string poll
  | Persist_Suspension suspension poll

definition keep_ledger :: "run_store \<Rightarrow> run_failure + budget_usage \<Rightarrow> run_store" where
  "keep_ledger st r = (case r of Inl _ \<Rightarrow> st | Inr u \<Rightarrow> st\<lparr>rs_ledger := u\<rparr>)"

definition keep_store :: "run_store \<Rightarrow> run_failure + run_store \<Rightarrow> run_store" where
  "keep_store st r = (case r of Inl _ \<Rightarrow> st | Inr st' \<Rightarrow> st')"

definition persist_suspension :: "poll \<Rightarrow> suspension \<Rightarrow> run_store \<Rightarrow> run_failure + run_store" where
  "persist_suspension po x st =
     commit po None (E_Phase ''suspension_context_persisted'') (\<lambda>s. s\<lparr>wr_suspension := Some x\<rparr>) st"

text \<open>An agent dispatch: the two guards before each attempt, and an unmeasured cost.\<close>

definition agent_reserved :: "run_env \<Rightarrow> bool \<Rightarrow> budget_usage \<Rightarrow> run_failure + budget_usage" where
  "agent_reserved E cost_supported u =
     or_else (ensure_agent_usage_budget_available (en_limits E) u) (\<lambda>_.
     or_else (reserve_agent (en_limits E) u) (\<lambda>u.
     Inr (if cost_supported then u else u\<lparr>us_cost_micros := None\<rparr>)))"

fun act :: "run_env \<Rightarrow> run_action \<Rightarrow> task \<times> run_store \<Rightarrow> task \<times> run_store" where
  "act E (Poll path po) (t, st) = advance E po path t st"
| "act E Cancel_Run (t, st) = (t, st\<lparr>rs_cancelled := True\<rparr>)"
| "act E Nested_Step (t, st) = (t, keep_ledger st (reserve_step (en_limits E) (rs_ledger st)))"
| "act E Nested_Retry (t, st) = (t, keep_ledger st (reserve_retry (en_limits E) (rs_ledger st)))"
| "act E (Agent_Reserved cost_supported) (t, st) =
     (t, keep_ledger st (agent_reserved E cost_supported (rs_ledger st)))"
| "act E (Agent_Usage tokens cost) (t, st) =
     (t, st\<lparr>rs_ledger := snd (record_usage (en_limits E) tokens cost (rs_ledger st))\<rparr>)"
| "act E (Save_Usage name po) (t, st) = (t, keep_store st (checkpoint_usage po name st))"
| "act E (Persist_Suspension x po) (t, st) = (t, keep_store st (persist_suspension po x st))"

definition run_actions :: "run_env \<Rightarrow> run_action list \<Rightarrow> task \<times> run_store \<Rightarrow> task \<times> run_store" where
  "run_actions E as x = fold (act E) as x"

definition root_task :: "run_env \<Rightarrow> task" where
  "root_task E = Ready (rd_plan (cw_definition (en_compiled E))) root_context"

end
