(* ===== verification/Workflow_Finish.thy ===== *)
theory Workflow_Finish
  imports Workflow_Exec
begin

text \<open>
  The life of a run around its plan (\<open>WorkflowRunEngine\<close> in \<open>workflow_run/executor.rs\<close>): how
  it is admitted and started, how it ends, how it is cancelled, recovered after a restart of
  the process, and continued from a completed prefix.  The repository is a function from the
  snapshot and the event of a commit to an error or nothing.
\<close>

section \<open>Commits of the engine\<close>

type_synonym repository = "run_snapshot \<Rightarrow> run_event \<Rightarrow> string option"
type_synonym commit_request = "string option \<times> event_kind \<times> (run_snapshot \<Rightarrow> run_snapshot)"

definition durable ::
  "repository \<Rightarrow> int \<Rightarrow> string option \<Rightarrow> event_kind \<Rightarrow> (run_snapshot \<Rightarrow> run_snapshot) \<Rightarrow> run_store
   \<Rightarrow> run_store checked"
where
  "durable repo now step_id kind mutate st =
     (let st' = transition now step_id kind mutate st
      in case repo (rs_snapshot st') (last (rs_log st')) of
           Some m \<Rightarrow> Inl (Run_Storage m)
         | None \<Rightarrow> Inr st')"

text \<open>Commits in a row; the first that fails ends them, and the ones before it stay.\<close>

fun commit_all :: "repository \<Rightarrow> int \<Rightarrow> commit_request list \<Rightarrow> run_store \<Rightarrow> run_error option \<times> run_store" where
  "commit_all repo now [] st = (None, st)"
| "commit_all repo now ((step_id, kind, mutate) # cs) st =
     (case durable repo now step_id kind mutate st of
        Inl e \<Rightarrow> (Some e, st)
      | Inr st' \<Rightarrow> commit_all repo now cs st')"

definition then_finish ::
  "run_error option \<times> run_store \<Rightarrow> (run_store \<Rightarrow> run_error option \<times> run_store) \<Rightarrow> run_error option \<times> run_store"
where
  "then_finish r f = (case r of (Some e, st) \<Rightarrow> (Some e, st) | (None, st) \<Rightarrow> f st)"

definition status_of :: "run_store \<Rightarrow> run_status" where
  "status_of st = wr_status (rs_snapshot st)"

definition active_keys :: "run_store \<Rightarrow> string list" where
  "active_keys st = map fst (filter (\<lambda>e. active (snd e)) (steps_of st))"

section \<open>The finalizers\<close>

definition finish_succeeded :: "repository \<Rightarrow> int \<Rightarrow> json \<Rightarrow> run_store \<Rightarrow> run_error option \<times> run_store" where
  "finish_succeeded repo now v st =
     (if is_terminal (status_of st) then (None, st)
      else commit_all repo now
        [(None, E_Run_Succeeded v, \<lambda>s. s\<lparr>wr_status := Run_Succeeded, wr_output := Some v\<rparr>)] st)"

definition finish_failed :: "repository \<Rightarrow> int \<Rightarrow> run_failure \<Rightarrow> run_store \<Rightarrow> run_error option \<times> run_store" where
  "finish_failed repo now e st =
     (if is_terminal (status_of st) then (None, st)
      else commit_all repo now
        [(None, E_Run_Failed e, \<lambda>s. s\<lparr>wr_status := Run_Failed, wr_failure := Some e\<rparr>)] st)"

definition finish_cancelled :: "repository \<Rightarrow> int \<Rightarrow> run_store \<Rightarrow> run_error option \<times> run_store" where
  "finish_cancelled repo now st =
     (if status_of st = Run_Cancelled then (None, st)
      else commit_all repo now
        (map (\<lambda>key. (Some key, E_Step_Cancelled, with_step key (end_step Rs_Cancelled cancelled_failure))) (active_keys st)
         @ [(None, E_Run_Cancelled, \<lambda>s. s\<lparr>wr_status := Run_Cancelled, wr_failure := Some cancelled_failure\<rparr>)]) st)"

definition finish_suspended :: "repository \<Rightarrow> int \<Rightarrow> string \<Rightarrow> run_store \<Rightarrow> run_error option \<times> run_store" where
  "finish_suspended repo now reason st =
     (if is_terminal (status_of st) then (None, st)
      else commit_all repo now [(None, E_Run_Suspended reason, \<lambda>s. s\<lparr>wr_status := Run_Suspended\<rparr>)] st)"

definition fail_active_steps :: "repository \<Rightarrow> int \<Rightarrow> run_failure \<Rightarrow> run_store \<Rightarrow> run_error option \<times> run_store" where
  "fail_active_steps repo now e st =
     commit_all repo now
       (map (\<lambda>key. (Some key, E_Step_Failed e, with_step key (end_step Rs_Failed e))) (active_keys st)) st"

definition timed_out_step :: "plan \<Rightarrow> run_failure \<Rightarrow> string \<Rightarrow> step_snapshot" where
  "timed_out_step p e i =
     \<lparr>ws_id = i, ws_topology = step_topology_of p i [], ws_status = Rs_Failed, ws_input_hash = [],
      ws_output = None, ws_failure = Some e, ws_attempts = 0\<rparr>"

fun fail_frontier ::
  "repository \<Rightarrow> int \<Rightarrow> plan \<Rightarrow> run_failure \<Rightarrow> string list \<Rightarrow> run_store \<Rightarrow> run_error option \<times> run_store"
where
  "fail_frontier repo now p e [] st = (None, st)"
| "fail_frontier repo now p e (i # is) st =
     (if has_key (steps_of st) i then fail_frontier repo now p e is st
      else then_finish
        (commit_all repo now
          [(Some i, E_Step_Failed e, \<lambda>s. s\<lparr>wr_steps := map_put i (timed_out_step p e i) (wr_steps s)\<rparr>)] st)
        (fail_frontier repo now p e is))"

definition fail_timeout_frontier ::
  "repository \<Rightarrow> int \<Rightarrow> plan \<Rightarrow> run_failure \<Rightarrow> run_store \<Rightarrow> run_error option \<times> run_store"
where
  "fail_timeout_frontier repo now p e st =
     (if list_ex active (vals (steps_of st)) then (None, st)
      else fail_frontier repo now p e (plan_frontier p) st)"

section \<open>The end of a run\<close>

definition drain_checkpoint :: "run_store \<Rightarrow> commit_request" where
  "drain_checkpoint st =
     (None, E_Phase ''AgentDrained'',
      \<lambda>s. s\<lparr>wr_usage := (wr_usage s)\<lparr>us_tokens := us_tokens (rs_ledger st),
                                     us_cost_micros := us_cost_micros (rs_ledger st)\<rparr>\<rparr>)"

definition stop_unconfirmed :: run_error where
  "stop_unconfirmed = Preflight ''Workflow children have not confirmed stop; cancellation can be retried''"

definition usage_unmeasured :: run_failure where
  "usage_unmeasured = failure ExecutionFailed
     ''workflow Agent stopped but cumulative token observation unavailable; usage is not measured'' False"

definition wall_time_exceeded :: run_failure where
  "wall_time_exceeded = failure BudgetExceeded ''workflow wall-time budget exceeded'' False"

text \<open>The result of the plan, or nothing when the wall-time budget ran out first.\<close>

definition finish_with ::
  "run_env \<Rightarrow> repository \<Rightarrow> int \<Rightarrow> (run_failure + json) option \<Rightarrow> run_store \<Rightarrow> run_error option \<times> run_store"
where
  "finish_with E repo now result st =
     (case result of
        Some (Inr v) \<Rightarrow>
          if rs_cancelled st then finish_cancelled repo now st
          else (case rd_output_schema (cw_definition (en_compiled E)) of
                  None \<Rightarrow> finish_succeeded repo now v st
                | Some schema \<Rightarrow>
                    (case validate_schema (en_json E) schema v of
                       Inl m \<Rightarrow> finish_failed repo now (failure InvalidOutput m False) st
                     | Inr _ \<Rightarrow> finish_succeeded repo now v st))
      | Some (Inl e) \<Rightarrow>
          if rf_code e = Cancelled then finish_cancelled repo now st
          else if rf_code e = Suspended then finish_suspended repo now (rf_message e) st
          else finish_failed repo now e st
      | None \<Rightarrow>
          then_finish (fail_timeout_frontier repo now (rd_plan (cw_definition (en_compiled E))) wall_time_exceeded st) (\<lambda>st.
          then_finish (fail_active_steps repo now wall_time_exceeded st) (\<lambda>st.
          finish_failed repo now wall_time_exceeded st)))"

definition conclude ::
  "run_env \<Rightarrow> repository \<Rightarrow> int \<Rightarrow> (run_failure + json) option \<Rightarrow> (u64 \<times> u64 option) option list \<Rightarrow> bool
   \<Rightarrow> run_store \<Rightarrow> run_error option \<times> run_store"
where
  "conclude E repo now result drained drain_error st =
     (let st = (if result = None then st\<lparr>rs_cancelled := True\<rparr> else st)
      in if is_terminal (status_of st) then (None, st)
         else let (unavailable, ledger) = drain_agents (en_limits E) drained (rs_ledger st);
                  st = st\<lparr>rs_ledger := ledger\<rparr>
           in then_finish (if 0 < us_agents ledger then commit_all repo now [drain_checkpoint st] st else (None, st)) (\<lambda>st.
              if drain_error then (Some stop_unconfirmed, st)
              else if unavailable then finish_failed repo now usage_unmeasured st
              else finish_with E repo now result st))"

section \<open>Starting a run\<close>

record run_request =
  sr_definition :: run_definition
  sr_args :: json
  sr_session_id :: string

text \<open>
  The checks of \<open>run_internal\<close>, for a run under the server's ceilings and, for a nested run,
  under the limits of its root; \<open>to_value\<close> of a definition is a parameter.
\<close>

definition admit_run ::
  "json_port \<Rightarrow> (run_definition \<Rightarrow> string + json) \<Rightarrow> budgets \<Rightarrow> budgets \<Rightarrow> run_request \<Rightarrow> compiled_workflow checked"
where
  "admit_run J to_value ceilings root_limits r =
     (if unat (bu_max_steps ceilings) < length (rd_steps (sr_definition r))
      then preflight ''workflow definition exceeds server step-count ceiling''
      else or_else (compile_checked J (sr_definition r)) (\<lambda>c.
           or_else (enforce_ceilings ceilings (rd_budgets (cw_definition c))) (\<lambda>_.
           or_else (map_error Preflight (to_value (cw_definition c))) (\<lambda>v.
           or_else (map_error Preflight (reject_secret_material_in_definition J v)) (\<lambda>_.
           or_else (map_error Invalid_Input (validate_input J c (sr_args r))) (\<lambda>_.
           or_else (map_error Invalid_Input (reject_secret_material J (sr_args r))) (\<lambda>_.
           or_else (map_error (\<lambda>m. Preflight (''nested workflow budget expands root: '' @ m))
               (enforce_budget_within (rd_budgets (cw_definition c)) root_limits)) (\<lambda>_.
           Inr c))))))))"

definition queued_run ::
  "string \<Rightarrow> string option \<Rightarrow> string option \<Rightarrow> definition_bundle \<Rightarrow> string \<Rightarrow> int \<Rightarrow> run_request \<Rightarrow> compiled_workflow
   \<Rightarrow> run_snapshot"
where
  "queued_run run_id parent_run parent_step b bundle_hash now r c =
     \<lparr>wr_run_id = run_id, wr_parent_run_id = parent_run, wr_parent_step_id = parent_step,
      wr_session_id = sr_session_id r, wr_definition = cw_definition c, wr_bundle = b,
      wr_bundle_hash = bundle_hash, wr_args = sr_args r, wr_status = Run_Queued, wr_steps = [],
      wr_usage = no_usage, wr_last_sequence = 1, wr_output = None, wr_failure = None,
      wr_suspension = None, wr_created_at = now, wr_updated_at = now\<rparr>"

text \<open>The run is created with its first event, and started unless it is cancelled already.\<close>

definition start_run ::
  "repository \<Rightarrow> int \<Rightarrow> budget_usage \<Rightarrow> nat \<Rightarrow> bool \<Rightarrow> run_snapshot \<Rightarrow> run_store checked"
where
  "start_run repo now ledger permits cancelled s =
     (let queued = run_event_of s None E_Run_Queued now;
          st = \<lparr>rs_snapshot = s, rs_log = [queued], rs_ledger = ledger, rs_permits = permits, rs_cancelled = cancelled\<rparr>
      in case repo s queued of
           Some m \<Rightarrow> Inl (Run_Storage m)
         | None \<Rightarrow>
             (case (if cancelled then finish_cancelled repo now st
                    else commit_all repo now [(None, E_Run_Started, \<lambda>s. s\<lparr>wr_status := Run_Running\<rparr>)] st) of
                (Some e, _) \<Rightarrow> Inl e
              | (None, st') \<Rightarrow> Inr st'))"

section \<open>Cancelling a run\<close>

text \<open>
  \<open>cancel\<close>: the token, and then the durable end of the run; with agents only after the
  agents of the run have been drained (the drain has no limits to compare with).
\<close>

definition no_limits :: "budgets \<Rightarrow> budgets" where
  "no_limits b = b\<lparr>bu_max_tokens := None, bu_max_cost_micros := None\<rparr>"

definition cancel_run ::
  "run_env \<Rightarrow> repository \<Rightarrow> int \<Rightarrow> bool \<Rightarrow> (u64 \<times> u64 option) option list \<Rightarrow> bool \<Rightarrow> run_store
   \<Rightarrow> run_error option \<times> run_store"
where
  "cancel_run E repo now has_agents drained drain_error st =
     (if status_of st = Run_Cancelled then (None, st)
      else if is_terminal (status_of st) then (Some Run_Terminal, st)
      else let st = st\<lparr>rs_cancelled := True\<rparr>
      in if \<not> has_agents then finish_cancelled repo now st
         else let (unavailable, ledger) = drain_agents (no_limits (en_limits E)) drained (rs_ledger st);
                  st = st\<lparr>rs_ledger := ledger\<rparr>
           in then_finish (commit_all repo now [drain_checkpoint st] st) (\<lambda>st.
              if drain_error then (Some stop_unconfirmed, st)
              else if unavailable then finish_failed repo now usage_unmeasured st
              else finish_cancelled repo now st))"

section \<open>Recovery and restart\<close>

definition recovery_reason :: string where
  "recovery_reason = ''process restarted; explicit safe restart is required''"

text \<open>One run of \<open>recover\<close>.\<close>

definition recover_run :: "repository \<Rightarrow> int \<Rightarrow> run_store \<Rightarrow> run_error option \<times> run_store" where
  "recover_run repo now st =
     (if status_of st = Run_Queued \<or> status_of st = Run_Running
      then commit_all repo now
        (map (\<lambda>key. (Some key, E_Step_Suspended recovery_reason,
            with_step key (end_step Rs_Suspended (failure RecoverySuspended recovery_reason True)))) (active_keys st)
         @ [(None, E_Run_Suspended recovery_reason,
             \<lambda>s. s\<lparr>wr_status := Run_Suspended, wr_suspension := Some (Recovery recovery_reason)\<rparr>)]) st
      else (None, st))"

text \<open>\<open>restart\<close>: what may be started afresh from a suspended run.\<close>

definition restart_request :: "run_snapshot \<Rightarrow> (run_request \<times> definition_bundle) checked" where
  "restart_request s =
     (if wr_status s \<noteq> Run_Suspended
      then (if is_terminal (wr_status s) then Inl Run_Terminal
            else preflight ''only suspended workflows can restart'')
      else (case wr_suspension s of
              Some (Tool_Approval _ _ _) \<Rightarrow>
                preflight ''workflow has durable suspension context and requires explicit resume handling''
            | Some (Tool_Running _ _ _ _) \<Rightarrow>
                preflight ''workflow has durable suspension context and requires explicit resume handling''
            | _ \<Rightarrow> Inr (\<lparr>sr_definition = wr_definition s, sr_args = wr_args s, sr_session_id = wr_session_id s\<rparr>,
                       wr_bundle s)))"

end
