(* ===== verification/Workflow_Prefix.thy ===== *)
theory Workflow_Prefix
  imports Workflow_Finish
begin

text \<open>
  The continuation of a run whose process was restarted: \<open>completed_prefix\<close> recognises a
  checkpoint in which a flat, read-only sequence of tools has completed some of its steps and
  entered no other, and \<open>execute_root\<close> carries on after them.
\<close>

section \<open>Recomputing the inputs of a checkpoint\<close>

function contains_secret_handle :: "json \<Rightarrow> bool" where
  "contains_secret_handle v =
     (case v of
        JObject ms \<Rightarrow> map_of ms ''$secret'' \<noteq> None \<or> list_ex (\<lambda>e. contains_secret_handle (snd e)) ms
      | JArray xs \<Rightarrow> list_ex contains_secret_handle xs
      | _ \<Rightarrow> False)"
  by pat_completeness auto

termination contains_secret_handle
proof (relation "measure size", goal_cases)
  case (2 v xs x)
  then show ?case using in_array_size [of x xs] by simp
next
  case (3 v ms e)
  then show ?case using in_members_size [of e ms] by simp
qed simp_all

declare contains_secret_handle.simps [simp del]

text \<open>
  What the continuation takes from its libraries: the JSON port, \<open>Value::pointer\<close>, the hash of
  an input and of a bundle, the JSON of a bundle, and the derived equalities.
\<close>

record prefix_port =
  pp_json :: json_port
  pp_pointer :: "json \<Rightarrow> string \<Rightarrow> json option"
  pp_input_hash :: "json \<Rightarrow> string"
  pp_bundle_hash :: "definition_bundle \<Rightarrow> string option"
  pp_value :: "definition_bundle \<Rightarrow> string + json"
  pp_same :: "run_definition \<Rightarrow> run_definition \<Rightarrow> bool"
  pp_unchanged :: "run_snapshot \<Rightarrow> run_snapshot \<Rightarrow> bool"

definition checkpoint_pointer :: "prefix_port \<Rightarrow> json \<Rightarrow> string \<Rightarrow> json checked" where
  "checkpoint_pointer P root pointer =
     (if pointer = [] then Inr root
      else case pp_pointer P root pointer of
             None \<Rightarrow> preflight ''checkpoint reference pointer is missing''
           | Some v \<Rightarrow> Inr v)"

definition checkpoint_ref ::
  "prefix_port \<Rightarrow> json \<Rightarrow> (string, json) btree_map \<Rightarrow> value_ref \<Rightarrow> json checked"
where
  "checkpoint_ref P args outs r =
     (case r of
        Ref_Args pointer \<Rightarrow> checkpoint_pointer P args pointer
      | Ref_Step step pointer \<Rightarrow>
          (case map_get outs step of
             None \<Rightarrow> preflight ''checkpoint reference is not in the completed prefix''
           | Some v \<Rightarrow> checkpoint_pointer P v pointer)
      | Ref_Literal v \<Rightarrow> Inr v
      | Ref_Item _ _ \<Rightarrow> preflight ''map references are unsupported for continuation'')"

function resolve_checkpoint_template ::
  "prefix_port \<Rightarrow> json \<Rightarrow> (string, json) btree_map \<Rightarrow> json \<Rightarrow> json checked"
where
  "resolve_checkpoint_template P args outs v =
     (case v of
        JObject ms \<Rightarrow>
          if map_of ms ''from'' \<noteq> None
          then (case jp_ref (pp_json P) v of
                  Inl _ \<Rightarrow> preflight ''invalid checkpoint reference''
                | Inr r \<Rightarrow> checkpoint_ref P args outs r)
          else or_else (map_ok (\<lambda>e. or_else (resolve_checkpoint_template P args outs (snd e))
                  (\<lambda>w. Inr (fst e, w))) ms) (\<lambda>ms. Inr (JObject ms))
      | JArray xs \<Rightarrow>
          or_else (map_ok (resolve_checkpoint_template P args outs) xs) (\<lambda>xs. Inr (JArray xs))
      | _ \<Rightarrow> Inr v)"
  by pat_completeness auto

termination resolve_checkpoint_template
proof (relation "measure (\<lambda>(P, args, outs, v). size v)", goal_cases)
  case (2 P args outs v xs x)
  then show ?case using in_array_size [of x xs] by simp
next
  case (3 P args outs v ms e)
  then show ?case using in_members_size [of e ms] by simp
qed simp_all

declare resolve_checkpoint_template.simps [simp del]

section \<open>The completed prefix\<close>

text \<open>Instants are counted in milliseconds.\<close>

definition remaining_wall_time :: "int \<Rightarrow> run_snapshot \<Rightarrow> u64" where
  "remaining_wall_time now s =
     (let elapsed = word_of_int (max (now - wr_created_at s) 0);
          budget = bu_wall_time_ms (rd_budgets (wr_definition s))
      in if budget < elapsed then 0 else budget - elapsed)"

abbreviation refuse_prefix :: "'a checked" where
  "refuse_prefix \<equiv> preflight ''workflow has no safe completed-prefix checkpoint''"

definition refusing :: "'e + 'a \<Rightarrow> 'a checked" where
  "refusing r = (case r of Inl _ \<Rightarrow> refuse_prefix | Inr x \<Rightarrow> Inr x)"

definition step_of_node :: "plan \<Rightarrow> string checked" where
  "step_of_node p = (case p of P_Step i \<Rightarrow> Inr i | _ \<Rightarrow> refuse_prefix)"

text \<open>An entered step: it has succeeded once, on the input that its arguments still give.\<close>

definition check_entered ::
  "prefix_port \<Rightarrow> run_snapshot \<Rightarrow> (string, json) btree_map \<Rightarrow> step_definition \<Rightarrow> json \<Rightarrow> step_snapshot \<Rightarrow> json checked"
where
  "check_entered P s outs sd args x =
     or_else (resolve_checkpoint_template P (wr_args s) outs args) (\<lambda>input.
     case ws_output x of
       None \<Rightarrow> refuse_prefix
     | Some output \<Rightarrow>
         if pp_input_hash P input \<noteq> ws_input_hash x then refuse_prefix
         else or_else (case sf_output_schema sd of
                         None \<Rightarrow> Inr ()
                       | Some schema \<Rightarrow> refusing (validate_schema (pp_json P) schema output)) (\<lambda>_.
              or_else (refusing (reject_secret_material (pp_json P) output)) (\<lambda>_.
              Inr output)))"

type_synonym prefix_state = "(string, json) btree_map \<times> nat \<times> bool"

definition prefix_step ::
  "prefix_port \<Rightarrow> run_snapshot \<Rightarrow> step_map \<Rightarrow> prefix_state \<Rightarrow> string \<Rightarrow> prefix_state checked"
where
  "prefix_step P s steps acc i =
     (case acc of (outs, n, suffix) \<Rightarrow>
      case map_get steps i of
        None \<Rightarrow> refuse_prefix
      | Some sd \<Rightarrow>
          (case sf_kind sd of
             Tool_Step tool args capabilities \<Rightarrow>
               if list_ex (\<lambda>c. c \<noteq> ''read'') capabilities \<or> contains_secret_handle args then refuse_prefix
               else (case map_get (wr_steps s) i of
                       None \<Rightarrow> Inr (outs, n, True)
                     | Some x \<Rightarrow>
                         if suffix \<or> ws_id x \<noteq> i \<or> ws_status x \<noteq> Rs_Succeeded \<or> ws_attempts x \<noteq> 1 \<or> ws_failure x \<noteq> None
                         then refuse_prefix
                         else or_else (check_entered P s outs sd args x) (\<lambda>output.
                              Inr (map_put i output outs, n + 1, suffix)))
           | _ \<Rightarrow> refuse_prefix))"

definition not_resumable :: "run_snapshot \<Rightarrow> bool" where
  "not_resumable s =
     (wr_status s \<noteq> Run_Suspended \<or> \<not> some_and (\<lambda>x. case x of Recovery _ \<Rightarrow> True | _ \<Rightarrow> False) (wr_suspension s)
      \<or> wr_parent_run_id s \<noteq> None \<or> wr_parent_step_id s \<noteq> None \<or> wr_output s \<noteq> None \<or> wr_failure s \<noteq> None)"

definition foreign_bundle :: "prefix_port \<Rightarrow> run_snapshot \<Rightarrow> bool" where
  "foreign_bundle P s =
     (let b = wr_bundle s; d = wr_definition s
      in length (db_definitions b) \<noteq> 1 \<or> db_root_id b \<noteq> rd_id d \<or> db_root_revision b \<noteq> rd_revision d
         \<or> \<not> some_and (\<lambda>r. pp_same P r d) (bundle_root b))"

definition usage_mismatch :: "int \<Rightarrow> run_snapshot \<Rightarrow> nat \<Rightarrow> nat \<Rightarrow> bool" where
  "usage_mismatch now s planned n =
     (let u = wr_usage s; b = rd_budgets (wr_definition s)
      in n = 0 \<or> length (wr_steps s) \<noteq> n \<or> unat (us_steps u) \<noteq> n \<or> us_agents u \<noteq> 0 \<or> us_retries u \<noteq> 0
         \<or> unat (bu_max_steps b) < planned
         \<or> some_and (\<lambda>limit. limit < us_tokens u) (bu_max_tokens b)
         \<or> some_and (\<lambda>limit. case us_cost_micros u of None \<Rightarrow> True | Some c \<Rightarrow> limit < c) (bu_max_cost_micros b)
         \<or> remaining_wall_time now s = 0)"

text \<open>The scan of the plan: a sequence of all the steps, each a tool.\<close>

definition flat_prefix :: "prefix_port \<Rightarrow> int \<Rightarrow> run_snapshot \<Rightarrow> compiled_workflow \<Rightarrow> nat checked" where
  "flat_prefix P now s c =
     (case rd_plan (wr_definition s) of
        P_Sequence nodes \<Rightarrow>
          or_else (map_ok step_of_node nodes) (\<lambda>ids.
          if ids = [] \<or> length ids \<noteq> length (cw_steps c) \<or> length (set_of ids) \<noteq> length ids
          then refuse_prefix
          else or_else (fold_ok (prefix_step P s (cw_steps c)) ([], 0, False) ids) (\<lambda>(outs, n, suffix).
               if usage_mismatch now s (length ids) n then refuse_prefix else Inr n))
      | _ \<Rightarrow> refuse_prefix)"

definition completed_prefix :: "prefix_port \<Rightarrow> int \<Rightarrow> run_snapshot \<Rightarrow> nat checked" where
  "completed_prefix P now s =
     (if not_resumable s \<or> foreign_bundle P s then refuse_prefix
      else case pp_bundle_hash P (wr_bundle s) of
        None \<Rightarrow> preflight ''workflow bundle hashing failed''
      | Some hash \<Rightarrow>
          if hash \<noteq> wr_bundle_hash s then refuse_prefix
          else
            or_else (compile_checked (pp_json P) (wr_definition s)) (\<lambda>c.
            or_else (map_error Invalid_Input (validate_input (pp_json P) c (wr_args s))) (\<lambda>_.
            or_else (map_error Invalid_Input (reject_secret_material (pp_json P) (wr_args s))) (\<lambda>_.
            or_else (map_error Preflight (pp_value P (wr_bundle s))) (\<lambda>v.
            or_else (map_error Preflight (reject_secret_material_in_definition (pp_json P) v)) (\<lambda>_.
            flat_prefix P now s c))))))"

section \<open>Admission of a continuation\<close>

text \<open>
  \<open>previous\<close> and \<open>current\<close> are the two reads of the repository, before and after the run is
  registered as active; \<open>registered\<close> says that another owner is already there, and
  \<open>preflighted\<close> is the answer of the policy, agent and permission ports.
\<close>

definition admit_continuation ::
  "prefix_port \<Rightarrow> bundle_port \<Rightarrow> budgets \<Rightarrow> int \<Rightarrow> string \<Rightarrow> string \<Rightarrow> run_snapshot option \<Rightarrow> bool \<Rightarrow> run_snapshot option
   \<Rightarrow> unit checked \<Rightarrow> nat checked"
where
  "admit_continuation P B ceilings now run_id session_id previous registered current preflighted =
     (case previous of
        None \<Rightarrow> Inl Run_Not_Found
      | Some s \<Rightarrow>
          if wr_run_id s \<noteq> run_id \<or> wr_session_id s \<noteq> session_id then Inl Run_Not_Found
          else or_else (completed_prefix P now s) (\<lambda>_.
          if registered then preflight ''workflow continuation is already active''
          else case current of
            None \<Rightarrow> Inl Run_Not_Found
          | Some s' \<Rightarrow>
              or_else (completed_prefix P now s') (\<lambda>n.
              if \<not> pp_unchanged P s' s then preflight ''workflow checkpoint changed during continuation admission''
              else or_else (validate_bundle B (wr_definition s') (wr_bundle s')) (\<lambda>_.
                   or_else (enforce_ceilings ceilings (rd_budgets (wr_definition s'))) (\<lambda>_.
                   or_else preflighted (\<lambda>_.
                   or_else (completed_prefix P now s') (\<lambda>_.
                   Inr n)))))))"

definition resume_run :: "repository \<Rightarrow> int \<Rightarrow> run_store \<Rightarrow> run_error option \<times> run_store" where
  "resume_run repo now st =
     (if rs_cancelled st then (Some (Preflight ''workflow continuation was cancelled during admission''), st)
      else commit_all repo now
        [(None, E_Run_Started, \<lambda>s. s\<lparr>wr_status := Run_Running, wr_suspension := None\<rparr>)] st)"

section \<open>Carrying on\<close>

text \<open>
  \<open>execute_root\<close>: the task that is running and the nodes after it.  After a prefix the nodes
  are awaited one by one in a loop of its own, which unlike a sequence skips nothing when a
  node has failed.
\<close>

type_synonym root = "task \<times> plan list"

definition execute_root :: "run_env \<Rightarrow> nat \<Rightarrow> run_snapshot \<Rightarrow> root option" where
  "execute_root E n s =
     (if n = 0 then Some (root_task E, [])
      else case rd_plan (cw_definition (en_compiled E)) of
        P_Sequence nodes \<Rightarrow>
          (case nodes ! (n - 1) of
             P_Step i \<Rightarrow>
               (case Option.bind (map_get (wr_steps s) i) ws_output of
                  None \<Rightarrow> None
                | Some v \<Rightarrow> Some (Returned (Inr v), drop n nodes))
           | _ \<Rightarrow> None)
      | _ \<Rightarrow> None)"

definition act_root :: "run_env \<Rightarrow> run_action \<Rightarrow> root \<times> run_store \<Rightarrow> root \<times> run_store" where
  "act_root E a x =
     (case x of ((t, rest), st) \<Rightarrow>
      case (a, returned t, rest) of
        (Poll path po, Some (Inr v), node # rest) \<Rightarrow> ((Ready node root_context, rest), st)
      | _ \<Rightarrow> (case act E a (t, st) of (t', st') \<Rightarrow> ((t', rest), st')))"

definition run_root :: "run_env \<Rightarrow> run_action list \<Rightarrow> root \<times> run_store \<Rightarrow> root \<times> run_store" where
  "run_root E as x = fold (act_root E) as x"

end
