(* ===== verification/Workflow_Dispatch.thy ===== *)
theory Workflow_Dispatch
  imports Workflow_Prefix
begin

text \<open>
  The dispatch of a step (\<open>dispatch\<close> of \<open>workflow_run/executor.rs\<close>): the authorization, the
  secrets of a tool call and the answer of the tool, the attempts of an agent, a nested run;
  and \<open>preflight_bundle\<close>, which asks the same ports for every step before a run starts.
\<close>

section \<open>Ports\<close>

datatype policy_target =
    Target_Tool string
  | Target_Agent string
  | Target_Workflow string u64

record agent_spec =
  ag_name :: string
  ag_allowed :: "string btree_set"
  ag_cost_supported :: bool

text \<open>
  The ports as one session of one run sees them: the policy (nothing means allow), the names
  of agents (an error, unknown or a specification), the secrets, and serde.
\<close>

record dispatch_port =
  dp_bundle :: bundle_port
  dp_policy :: "policy_target \<Rightarrow> string btree_set \<Rightarrow> string option"
  dp_resolve :: "string \<Rightarrow> string + agent_spec option"
  dp_secret :: "string \<Rightarrow> string option"
  dp_parse :: "string \<Rightarrow> json option"
  dp_text :: "json \<Rightarrow> string + string"
  dp_trusted :: bool
  dp_allowed :: "string btree_set"

definition dp_json :: "dispatch_port \<Rightarrow> json_port" where
  "dp_json D = bp_json (dp_bundle D)"

definition within :: "'a list \<Rightarrow> 'a list \<Rightarrow> bool" where
  "within xs ys = list_all (\<lambda>x. x \<in> set ys) xs"

definition authorize :: "dispatch_port \<Rightarrow> policy_target \<Rightarrow> string list \<Rightarrow> run_failure + unit" where
  "authorize D target capabilities =
     (let requested = set_of capabilities
      in if \<not> within requested (dp_allowed D)
         then Inl (failure PermissionDenied ''step capability exceeds root policy'' False)
         else case dp_policy D target requested of
           None \<Rightarrow> Inr ()
         | Some _ \<Rightarrow> Inl (failure (if dp_trusted D then PermissionDenied else UntrustedWorkspace)
             ''workflow policy denied this step'' False))"

definition restriction :: "bool \<Rightarrow> run_failure + unit" where
  "restriction violated =
     (if violated
      then Inl (failure ExecutionFailed
        ''workflow cannot continue after a forbidden Running outcome; cleanup requested, stop unconfirmed'' False)
      else Inr ())"

section \<open>Secrets\<close>

text \<open>A handle is replaced by its material, which is also collected.\<close>

function resolve_secret_handles :: "dispatch_port \<Rightarrow> json \<Rightarrow> run_failure + json \<times> string list" where
  "resolve_secret_handles D v =
     (case v of
        JObject ms \<Rightarrow>
          if map_of ms ''$secret'' \<noteq> None
          then (case jp_secret (dp_json D) v of
                  Inl _ \<Rightarrow> Inl (failure InvalidInput ''malformed secret capability handle'' False)
                | Inr capability \<Rightarrow>
                    (case dp_secret D capability of
                       None \<Rightarrow> Inl (failure PermissionDenied ''secret capability resolution denied'' False)
                     | Some material \<Rightarrow> Inr (JString material, [material])))
          else or_else (map_ok (\<lambda>e. or_else (resolve_secret_handles D (snd e)) (\<lambda>r. Inr (fst e, r))) ms) (\<lambda>rs.
               Inr (JObject (map (\<lambda>r. (fst r, fst (snd r))) rs), concat (map (\<lambda>r. snd (snd r)) rs)))
      | JArray xs \<Rightarrow>
          or_else (map_ok (resolve_secret_handles D) xs) (\<lambda>rs.
          Inr (JArray (map fst rs), concat (map snd rs)))
      | _ \<Rightarrow> Inr (v, []))"
  by pat_completeness auto

termination resolve_secret_handles
proof (relation "measure (\<lambda>(D, v). size v)", goal_cases)
  case (2 D v xs x)
  then show ?case using in_array_size [of x xs] by simp
next
  case (3 D v ms e)
  then show ?case using in_members_size [of e ms] by simp
qed simp_all

declare resolve_secret_handles.simps [simp del]

definition shows_secret :: "string list \<Rightarrow> string \<Rightarrow> bool" where
  "shows_secret secrets s = list_ex (\<lambda>secret. secret \<noteq> [] \<and> contains s secret) secrets"

function contains_any_secret_material :: "string list \<Rightarrow> json \<Rightarrow> bool" where
  "contains_any_secret_material secrets v =
     (case v of
        JString s \<Rightarrow> shows_secret secrets s
      | JObject ms \<Rightarrow> list_ex (\<lambda>e. shows_secret secrets (fst e) \<or> contains_any_secret_material secrets (snd e)) ms
      | JArray xs \<Rightarrow> list_ex (contains_any_secret_material secrets) xs
      | _ \<Rightarrow> False)"
  by pat_completeness auto

termination contains_any_secret_material
proof (relation "measure (\<lambda>(secrets, v). size v)", goal_cases)
  case (2 secrets v xs x)
  then show ?case using in_array_size [of x xs] by simp
next
  case (3 secrets v ms e)
  then show ?case using in_members_size [of e ms] by simp
qed simp_all

declare contains_any_secret_material.simps [simp del]

section \<open>A tool\<close>

datatype tool_error = Tool_Not_Found | Tool_Invalid_Arguments | Tool_Execution

datatype tool_outcome =
    Tool_Completed bool string
  | Tool_Needs_Human string
  | Tool_Runs string

text \<open>
  What the host answers while a tool is dispatched: whether a forbidden outcome was seen before
  the call and after it, the session flags (an error, or whether the session plans only),
  whether the plan mode allows the tool, the outcome, and the commit of the suspension.
\<close>

record tool_call =
  tl_flags :: "string + bool"
  tl_plan_allows :: bool
  tl_violated :: bool
  tl_outcome :: "tool_error + tool_outcome"
  tl_violated_after :: bool
  tl_commit :: poll

definition parse_tool_result :: "dispatch_port \<Rightarrow> bool \<Rightarrow> string \<Rightarrow> run_failure + json" where
  "parse_tool_result D success text =
     (if \<not> success then Inl (failure ExecutionFailed ''workflow tool reported failure'' True)
      else Inr (case dp_parse D text of None \<Rightarrow> JString text | Some v \<Rightarrow> v))"

definition tool_failure :: "tool_error \<Rightarrow> run_failure" where
  "tool_failure e =
     (case e of
        Tool_Not_Found \<Rightarrow> failure UnknownReference ''workflow tool is not available'' False
      | Tool_Invalid_Arguments \<Rightarrow> failure InvalidInput ''workflow tool arguments were rejected'' False
      | Tool_Execution \<Rightarrow> failure ExecutionFailed ''workflow tool execution was denied or failed'' True)"

definition suspend_tool :: "poll \<Rightarrow> suspension \<Rightarrow> string \<Rightarrow> run_store \<Rightarrow> (run_failure + json) \<times> run_store" where
  "suspend_tool po x m st =
     (case persist_suspension po x st of
        Inl e \<Rightarrow> (Inl e, st)
      | Inr st' \<Rightarrow> (Inl (failure Suspended m True), st'))"

definition tool_answer ::
  "dispatch_port \<Rightarrow> poll \<Rightarrow> string \<Rightarrow> string \<Rightarrow> string list \<Rightarrow> tool_outcome \<Rightarrow> run_store
   \<Rightarrow> (run_failure + json) \<times> run_store"
where
  "tool_answer D po tool key secrets x st =
     (case x of
        Tool_Completed success text \<Rightarrow>
          (or_else (parse_tool_result D success text) (\<lambda>v.
             if contains_any_secret_material secrets v
             then Inl (failure InvalidOutput ''workflow tool output contained resolved secret material'' False)
             else Inr v), st)
      | Tool_Needs_Human call \<Rightarrow>
          suspend_tool po (Tool_Approval key tool call) ''workflow tool requires human approval'' st
      | Tool_Runs call \<Rightarrow>
          suspend_tool po (Tool_Running key tool call True)
            ''workflow tool is running without a durable workflow resume handle'' st)"

definition tool_arguments ::
  "dispatch_port \<Rightarrow> string \<Rightarrow> string list \<Rightarrow> json \<Rightarrow> tool_call \<Rightarrow> run_failure + string \<times> string list"
where
  "tool_arguments D tool capabilities input x =
     or_else (authorize D (Target_Tool tool) capabilities) (\<lambda>_.
     or_else (resolve_secret_handles D input) (\<lambda>(resolved, secrets).
     or_else (map_error (\<lambda>m. failure InvalidInput m False) (dp_text D resolved)) (\<lambda>arguments.
     or_else (map_error (\<lambda>m. failure ExecutionFailed
         (''workflow session permission posture is unavailable: '' @ m) True) (tl_flags x)) (\<lambda>plan_read_only.
     if plan_read_only \<and> \<not> tl_plan_allows x
     then Inl (failure ExecutionFailed (''Plan mode: '' @ tool @ '' operation blocked'') False)
     else or_else (restriction (tl_violated x)) (\<lambda>_. Inr (arguments, secrets))))))"

definition dispatch_tool ::
  "dispatch_port \<Rightarrow> string \<Rightarrow> string list \<Rightarrow> json \<Rightarrow> string \<Rightarrow> tool_call \<Rightarrow> run_store
   \<Rightarrow> (run_failure + json) \<times> run_store"
where
  "dispatch_tool D tool capabilities input key x st =
     (case or_else (tool_arguments D tool capabilities input x) (\<lambda>(_, secrets).
           or_else (map_error tool_failure (tl_outcome x)) (\<lambda>outcome.
           or_else (restriction (tl_violated_after x)) (\<lambda>_. Inr (secrets, outcome)))) of
        Inl e \<Rightarrow> (Inl e, st)
      | Inr (secrets, outcome) \<Rightarrow> tool_answer D (tl_commit x) tool key secrets outcome st)"

section \<open>An agent\<close>

text \<open>
  One attempt: the commits before and after it, the result of the port (usage, output, a
  failure after consuming tokens, and whether a drain has taken the result already).
\<close>

record agent_result =
  ar_tokens :: u64
  ar_cost :: "u64 option"
  ar_output :: json
  ar_failure :: "run_failure option"
  ar_drained :: bool

record agent_attempt =
  at_reserved :: poll
  at_violated :: bool
  at_result :: "agent_result option"
  at_recorded :: poll
  at_cancelled :: bool

definition check_cancelled :: "bool \<Rightarrow> run_failure + unit" where
  "check_cancelled c = (if c then Inl cancelled_failure else Inr ())"

definition agent_outcome ::
  "run_env \<Rightarrow> step_definition \<Rightarrow> agent_attempt \<Rightarrow> agent_result \<Rightarrow> run_store \<Rightarrow> (run_failure + string + json) \<times> run_store"
where
  "agent_outcome E sd a r st =
     (if ar_drained r
      then (or_else (check_cancelled (at_cancelled a)) (\<lambda>_.
              Inl (failure Cancelled ''workflow Agent result already drained'' False)), st)
      else let (exceeded, u) = record_usage (en_limits E) (ar_tokens r) (ar_cost r) (rs_ledger st);
               st = st\<lparr>rs_ledger := u\<rparr>
           in case checkpoint_usage (at_recorded a) ''agent_usage_recorded'' st of
                Inl e \<Rightarrow> (Inl e, st)
              | Inr st \<Rightarrow>
                  (or_else (check_cancelled (at_cancelled a)) (\<lambda>_.
                   case ar_failure r of
                     Some e \<Rightarrow> Inl e
                   | None \<Rightarrow>
                       (case exceeded of
                          Some e \<Rightarrow> Inl e
                        | None \<Rightarrow>
                            (case sf_output_schema sd of
                               None \<Rightarrow> Inr (Inr (ar_output r))
                             | Some schema \<Rightarrow>
                                 (case validate_schema (en_json E) schema (ar_output r) of
                                    Inl m \<Rightarrow> Inr (Inl m)
                                  | Inr _ \<Rightarrow> Inr (Inr (ar_output r)))))), st))"

text \<open>The attempts; one whose output does not have the form asked for is followed by the next.\<close>

fun agent_attempts ::
  "run_env \<Rightarrow> agent_spec \<Rightarrow> step_definition \<Rightarrow> agent_attempt list \<Rightarrow> string option \<Rightarrow> run_store
   \<Rightarrow> (run_failure + json) \<times> run_store"
where
  "agent_attempts E spec sd [] last_error st =
     (Inl (failure InvalidOutput
        (case last_error of None \<Rightarrow> ''agent structured output exhausted'' | Some m \<Rightarrow> m) False), st)"
| "agent_attempts E spec sd (a # as) last_error st =
     (case agent_reserved E (ag_cost_supported spec) (rs_ledger st) of
        Inl e \<Rightarrow> (Inl e, st)
      | Inr u \<Rightarrow>
          (case checkpoint_usage (at_reserved a) ''agent_reserved'' (st\<lparr>rs_ledger := u\<rparr>) of
             Inl e \<Rightarrow> (Inl e, st\<lparr>rs_ledger := u\<rparr>)
           | Inr st \<Rightarrow>
               (case restriction (at_violated a) of
                  Inl e \<Rightarrow> (Inl e, st)
                | Inr _ \<Rightarrow>
                    (case at_result a of
                       None \<Rightarrow>
                         (or_else (check_cancelled (at_cancelled a)) (\<lambda>_.
                            Inl (failure ExecutionFailed
                              ''named agent execution or usage observation unavailable'' False)), st)
                     | Some r \<Rightarrow>
                         (case agent_outcome E sd a r st of
                            (Inl e, st) \<Rightarrow> (Inl e, st)
                          | (Inr (Inr v), st) \<Rightarrow> (Inr v, st)
                          | (Inr (Inl m), st) \<Rightarrow> agent_attempts E spec sd as (Some m) st)))))"

definition agent_guard ::
  "dispatch_port \<Rightarrow> (string, agent_spec) btree_map \<Rightarrow> string \<Rightarrow> string list \<Rightarrow> json \<Rightarrow> run_failure + agent_spec"
where
  "agent_guard D pinned agent capabilities input =
     (if contains_secret_handle input
      then Inl (failure PermissionDenied
        ''secret capability handles are supported only for tool arguments'' False)
      else or_else (authorize D (Target_Agent agent) capabilities) (\<lambda>_.
        case map_get pinned agent of
          None \<Rightarrow> Inl (failure PermissionDenied ''named agent was not pinned during preflight'' False)
        | Some spec \<Rightarrow>
            if \<not> within (set_of capabilities) (ag_allowed spec)
            then Inl (failure PermissionDenied ''named agent capability intersection changed'' False)
            else Inr spec))"

definition dispatch_agent ::
  "dispatch_port \<Rightarrow> run_env \<Rightarrow> (string, agent_spec) btree_map \<Rightarrow> step_definition \<Rightarrow> string \<Rightarrow> string list \<Rightarrow> u32
   \<Rightarrow> json \<Rightarrow> (nat \<Rightarrow> agent_attempt) \<Rightarrow> run_store \<Rightarrow> (run_failure + json) \<times> run_store"
where
  "dispatch_agent D E pinned sd agent capabilities attempts input a st =
     (case agent_guard D pinned agent capabilities input of
        Inl e \<Rightarrow> (Inl e, st)
      | Inr spec \<Rightarrow> agent_attempts E spec sd (map a [0..<unat attempts]) None st)"

section \<open>A nested run\<close>

definition nested_definition ::
  "definition_bundle \<Rightarrow> budgets \<Rightarrow> u32 \<Rightarrow> string \<Rightarrow> u64 \<Rightarrow> run_failure + run_definition"
where
  "nested_definition b limits depth i revision =
     (if bu_max_nesting_depth limits \<le> depth + 1
      then Inl (failure BudgetExceeded ''nested workflow depth exceeded'' False)
      else case bundle_get b i revision of
        None \<Rightarrow> Inl (failure UnknownReference (''persisted bundle missing workflow '' @ bundle_key i revision) False)
      | Some d \<Rightarrow> Inr d)"

text \<open>What the step makes of the ended nested run.\<close>

definition nested_answer :: "run_error + run_snapshot \<Rightarrow> run_failure + json" where
  "nested_answer r =
     (case r of
        Inl _ \<Rightarrow> Inl (failure ExecutionFailed ''nested workflow execution failed'' False)
      | Inr s \<Rightarrow>
          (case wr_output s of
             Some v \<Rightarrow> Inr v
           | None \<Rightarrow>
               Inl (case wr_failure s of
                      Some e \<Rightarrow> e
                    | None \<Rightarrow> failure ExecutionFailed ''nested workflow returned no output'' False)))"

text \<open>
  A nested run shares the ledger with its caller; what it charges there, and how it ends, are
  given as a function of the request it is started with.
\<close>

definition shared_action :: "run_action \<Rightarrow> bool" where
  "shared_action a =
     (case a of
        Nested_Step \<Rightarrow> True
      | Nested_Retry \<Rightarrow> True
      | Agent_Reserved _ \<Rightarrow> True
      | Agent_Usage _ _ \<Rightarrow> True
      | _ \<Rightarrow> False)"

definition side_effect :: "run_env \<Rightarrow> run_action \<Rightarrow> run_store \<Rightarrow> run_store" where
  "side_effect E a st = snd (act E a (Returned (Inr JNull), st))"

definition dispatch_nested ::
  "run_env \<Rightarrow> definition_bundle \<Rightarrow> u32 \<Rightarrow> string \<Rightarrow> u64 \<Rightarrow> json \<Rightarrow> bool
   \<Rightarrow> (run_request \<Rightarrow> (run_error + run_snapshot) \<times> run_action list) \<Rightarrow> run_store \<Rightarrow> (run_failure + json) \<times> run_store"
where
  "dispatch_nested E b depth i revision input violated run st =
     (case nested_definition b (en_limits E) depth i revision of
        Inl e \<Rightarrow> (Inl e, st)
      | Inr d \<Rightarrow>
          (case restriction violated of
             Inl e \<Rightarrow> (Inl e, st)
           | Inr _ \<Rightarrow>
               (case run \<lparr>sr_definition = d, sr_args = input, sr_session_id = wr_session_id (rs_snapshot st)\<rparr> of
                  (r, as) \<Rightarrow> (nested_answer r, fold (side_effect E) (filter shared_action as) st))))"

section \<open>A step\<close>

text \<open>Everything the host answers while a step is dispatched.\<close>

record dispatch_host =
  dh_violated :: bool
  dh_tool :: tool_call
  dh_agent :: "nat \<Rightarrow> agent_attempt"
  dh_nested_violated :: bool
  dh_nested :: "run_request \<Rightarrow> (run_error + run_snapshot) \<times> run_action list"

definition dispatch ::
  "dispatch_port \<Rightarrow> run_env \<Rightarrow> definition_bundle \<Rightarrow> (string, agent_spec) btree_map \<Rightarrow> u32 \<Rightarrow> step_definition \<Rightarrow> json
   \<Rightarrow> string \<Rightarrow> dispatch_host \<Rightarrow> run_store \<Rightarrow> (run_failure + json) \<times> run_store"
where
  "dispatch D E b pinned depth sd input key h st =
     (case restriction (dh_violated h) of
        Inl e \<Rightarrow> (Inl e, st)
      | Inr _ \<Rightarrow>
          (case sf_kind sd of
             Tool_Step tool args capabilities \<Rightarrow> dispatch_tool D tool capabilities input key (dh_tool h) st
           | Agent_Step agent prompt model effort capabilities attempts \<Rightarrow>
               dispatch_agent D E pinned sd agent capabilities attempts input (dh_agent h) st
           | Workflow_Step i revision args \<Rightarrow>
               dispatch_nested E b depth i revision input (dh_nested_violated h) (dh_nested h) st))"

section \<open>Preflight\<close>

type_synonym agents = "(string, agent_spec) btree_map"
type_synonym preflight_entry = "string \<times> u64 \<times> u32"

definition pin_agent :: "dispatch_port \<Rightarrow> string \<Rightarrow> agents \<Rightarrow> (agent_spec \<times> agents) checked" where
  "pin_agent D agent pinned =
     (case map_get pinned agent of
        Some spec \<Rightarrow> Inr (spec, pinned)
      | None \<Rightarrow>
          (case dp_resolve D agent of
             Inl _ \<Rightarrow> preflight ''named agent resolution failed''
           | Inr None \<Rightarrow> preflight (''unknown named agent '' @ quoted agent)
           | Inr (Some spec) \<Rightarrow>
               if ag_name spec \<noteq> agent then preflight ''named agent resolver returned mismatched identity''
               else Inr (spec, map_put agent spec pinned)))"

definition preflight_kind ::
  "dispatch_port \<Rightarrow> definition_bundle \<Rightarrow> budgets \<Rightarrow> compiled_workflow \<Rightarrow> u32 \<Rightarrow> agents \<times> preflight_entry list
   \<Rightarrow> step_definition \<Rightarrow> (policy_target \<times> string list \<times> agents \<times> preflight_entry list) checked"
where
  "preflight_kind D b limits c depth acc st =
     (case sf_kind st of
        Tool_Step tool _ capabilities \<Rightarrow> Inr (Target_Tool tool, capabilities, acc)
      | Agent_Step agent _ _ _ capabilities _ \<Rightarrow>
          or_else (pin_agent D agent (fst acc)) (\<lambda>(spec, pinned).
          if (bu_max_cost_micros limits \<noteq> None \<or> bu_max_cost_micros (rd_budgets (cw_definition c)) \<noteq> None)
              \<and> \<not> ag_cost_supported spec
          then Inl Unsupported_Monetary_Budget
          else if \<not> within capabilities (ag_allowed spec)
          then preflight (''agent '' @ quoted agent @ '' capability expansion denied'')
          else Inr (Target_Agent agent, capabilities, pinned, snd acc))
      | Workflow_Step i revision args \<Rightarrow>
          (case bundle_get b i revision of
             None \<Rightarrow> preflight (''missing pinned workflow '' @ bundle_key i revision)
           | Some nested \<Rightarrow>
               or_else (map_error Preflight
                 (validate_nested_input_contract (dp_json D) args (rd_input_schema nested) c)) (\<lambda>_.
               Inr (Target_Workflow i revision, [], fst acc, (i, revision, depth + 1) # snd acc))))"

definition preflight_step ::
  "dispatch_port \<Rightarrow> definition_bundle \<Rightarrow> budgets \<Rightarrow> compiled_workflow \<Rightarrow> u32 \<Rightarrow> agents \<times> preflight_entry list
   \<Rightarrow> step_definition \<Rightarrow> (agents \<times> preflight_entry list) checked"
where
  "preflight_step D b limits c depth acc st =
     or_else (preflight_kind D b limits c depth acc st) (\<lambda>(target, capabilities, acc).
       if \<not> within (set_of capabilities) (dp_allowed D)
       then preflight (''step '' @ quoted (sf_id st) @ '' exceeds root capabilities'')
       else case dp_policy D target (set_of capabilities) of
         Some _ \<Rightarrow> preflight ''workflow policy denied this step''
       | None \<Rightarrow> Inr acc)"

function preflight_walk ::
  "dispatch_port \<Rightarrow> definition_bundle \<Rightarrow> budgets \<Rightarrow> preflight_entry list \<Rightarrow> string btree_set \<Rightarrow> agents \<Rightarrow> agents checked"
where
  "preflight_walk D b limits [] visited pinned = Inr pinned"
| "preflight_walk D b limits ((i, revision, depth) # stack) visited pinned =
     (let key = bundle_key i revision
      in if bu_max_nesting_depth limits \<le> depth
         then preflight ''nested workflow depth exceeded shared root limit''
         else if key \<in> set visited then preflight_walk D b limits stack visited pinned
         else case bundle_get b i revision of
           None \<Rightarrow> preflight ''pinned workflow definition missing''
         | Some d \<Rightarrow>
             or_else (map_error (\<lambda>m. Preflight (''nested workflow budget expands root: '' @ m))
               (enforce_budget_within (rd_budgets d) limits)) (\<lambda>_.
             or_else (compile_checked (dp_json D) d) (\<lambda>c.
             or_else (fold_ok (preflight_step D b limits c depth) (pinned, stack) (vals (cw_steps c))) (\<lambda>acc.
             preflight_walk D b limits (snd acc) (set_add key visited) (fst acc)))))"
  by pat_completeness auto

termination preflight_walk
proof (relation "measures [\<lambda>(D, b, limits, stack, visited, pinned). card (set (keys (db_definitions b)) - set visited),
    \<lambda>(D, b, limits, stack, visited, pinned). length stack]", goal_cases)
  case (3 D b limits i revision depth stack visited pinned key d u c acc)
  then have "key \<in> set (keys (db_definitions b)) - set visited"
    by (auto simp: bundle_get_def keys_map_get)
  then have "card (set (keys (db_definitions b)) - set (set_add key visited)) <
      card (set (keys (db_definitions b)) - set visited)"
    by (intro psubset_card_mono) auto
  then show ?case by simp
qed simp_all

declare preflight_walk.simps [simp del]

definition preflight_bundle :: "dispatch_port \<Rightarrow> definition_bundle \<Rightarrow> budgets \<Rightarrow> agents checked" where
  "preflight_bundle D b limits = preflight_walk D b limits [(db_root_id b, db_root_revision b, 0)] [] []"

section \<open>Starting a run\<close>

text \<open>
  The checks of \<open>start_pinned\<close> and of \<open>run_pinned\<close>, before anything is stored; the answer is the
  compiled workflow, the agents and the limits of the run.
\<close>

definition start_pinned ::
  "dispatch_port \<Rightarrow> (run_definition \<Rightarrow> string + json) \<Rightarrow> budgets \<Rightarrow> run_request \<Rightarrow> definition_bundle
   \<Rightarrow> (compiled_workflow \<times> agents \<times> budgets) checked"
where
  "start_pinned D to_value ceilings r b =
     or_else (validate_bundle (dp_bundle D) (sr_definition r) b) (\<lambda>_.
       let limits = effective_limits (rd_budgets (sr_definition r)) ceilings
       in or_else (preflight_bundle D b limits) (\<lambda>pinned.
          or_else (admit_run (dp_json D) to_value ceilings limits r) (\<lambda>c.
          Inr (c, pinned, limits))))"

end
