(* ===== verification/Workflow_Demo.thy ===== *)
theory Workflow_Demo
  imports Workflow_Bundle
begin

text \<open>
  Concrete workflows, for the witnesses: a port that reads references as the derive of
  \<open>ValueRef\<close> does, and definitions with one and with two levels.
\<close>

definition text_member :: "(string \<times> json) list \<Rightarrow> string \<Rightarrow> string option" where
  "text_member ms k = Option.bind (map_of ms k) as_str"

definition pointer_member :: "(string \<times> json) list \<Rightarrow> string" where
  "pointer_member ms = (case text_member ms ''pointer'' of None \<Rightarrow> [] | Some p \<Rightarrow> p)"

definition read_ref :: "json \<Rightarrow> string + value_ref" where
  "read_ref j =
     (case as_object j of
        None \<Rightarrow> Inl ''expected an object''
      | Some ms \<Rightarrow>
          (case text_member ms ''from'' of
             None \<Rightarrow> Inl ''missing field from''
           | Some tag \<Rightarrow>
               if tag = ''args'' then Inr (Ref_Args (pointer_member ms))
               else if tag = ''step''
               then (case text_member ms ''step'' of
                       None \<Rightarrow> Inl ''missing field step''
                     | Some s \<Rightarrow> Inr (Ref_Step s (pointer_member ms)))
               else if tag = ''item''
               then (case text_member ms ''name'' of
                       None \<Rightarrow> Inl ''missing field name''
                     | Some s \<Rightarrow> Inr (Ref_Item s (pointer_member ms)))
               else if tag = ''literal''
               then (case map_of ms ''value'' of None \<Rightarrow> Inl ''missing field value'' | Some v \<Rightarrow> Inr (Ref_Literal v))
               else Inl ''unknown variant''))"

definition demo_json :: json_port where
  "demo_json = \<lparr>jp_same = (=), jp_less = (\<lambda>m n. length m < length n),
     jp_integer = list_all ascii_digit, jp_ref = read_ref,
     jp_secret = (\<lambda>j. case Option.bind (member j ''$secret'') as_str of
        None \<Rightarrow> Inl ''missing field'' | Some s \<Rightarrow> Inr s)\<rparr>"

definition boolean_schema :: json where
  "boolean_schema = JObject [(''type'', JString ''boolean'')]"

definition tool_step :: "string \<Rightarrow> json \<Rightarrow> failure_policy \<Rightarrow> step_definition" where
  "tool_step i args policy = \<lparr>sf_id = i, sf_kind = Tool_Step ''echo'' args [], sf_failure = policy,
     sf_output_schema = Some boolean_schema\<rparr>"

definition step_ref :: "string \<Rightarrow> json" where
  "step_ref i = JObject [(''from'', JString ''step''), (''step'', JString i)]"

definition call_step :: "string \<Rightarrow> string \<Rightarrow> step_definition" where
  "call_step i target = \<lparr>sf_id = i, sf_kind = Workflow_Step target 1 (JObject []), sf_failure = FailFast,
     sf_output_schema = None\<rparr>"

definition workflow :: "string \<Rightarrow> step_definition list \<Rightarrow> plan \<Rightarrow> run_definition" where
  "workflow i sts p = \<lparr>rd_workflow_schema = 1, rd_id = i, rd_revision = 1, rd_input_schema = JObject [],
     rd_output_schema = None, rd_steps = sts, rd_plan = p, rd_budgets = default_budgets\<rparr>"

definition demo_pair :: run_definition where
  "demo_pair = workflow ''pair'' [tool_step ''a'' JNull FailFast, tool_step ''b'' (step_ref ''a'') FailFast]
     (P_Sequence [P_Step ''a'', P_Step ''b''])"

definition demo_caller :: run_definition where
  "demo_caller = workflow ''caller'' [call_step ''c'' ''pair''] (P_Retry (P_Step ''c'') 2 0)"

definition demo_bundle :: definition_bundle where
  "demo_bundle = \<lparr>db_publication_revision = 1, db_root_id = ''caller'', db_root_revision = 1,
     db_root_invocation_policy = JNull, db_definitions = [(''caller@1'', demo_caller), (''pair@1'', demo_pair)]\<rparr>"

definition demo_ports :: bundle_port where
  "demo_ports = \<lparr>bp_json = demo_json, bp_same = (=), bp_value = (\<lambda>b. Some (JArray (map (JString \<circ> fst) (db_definitions b))))\<rparr>"

end
