(* ===== verification/Workflow_Trial.thy ===== *)
theory Workflow_Trial
  imports Workflow_Prefix Workflow_Demo
begin

text \<open>A concrete host for runs of the workflows of \<open>Workflow_Demo\<close>.\<close>

definition trial_pointer :: "json \<Rightarrow> string \<Rightarrow> json option" where
  "trial_pointer v p =
     (case p of
        [] \<Rightarrow> Some v
      | c # key \<Rightarrow> if c = CHR ''/'' then member v key else None)"

definition trial_compiled :: "run_definition \<Rightarrow> compiled_workflow" where
  "trial_compiled d = \<lparr>cw_definition = d, cw_steps = map (\<lambda>sd. (sf_id sd, sd)) (rd_steps d)\<rparr>"

definition trial_env :: "run_definition \<Rightarrow> run_env" where
  "trial_env d = \<lparr>en_json = demo_json, en_pointer = trial_pointer, en_input_hash = (\<lambda>_. ''hash''),
     en_failure_json = (\<lambda>e. JString (rf_message e)), en_compiled = trial_compiled d,
     en_limits = rd_budgets d, en_agents = False\<rparr>"

definition solo_bundle :: "run_definition \<Rightarrow> definition_bundle" where
  "solo_bundle d = \<lparr>db_publication_revision = 1, db_root_id = rd_id d, db_root_revision = rd_revision d,
     db_root_invocation_policy = JNull, db_definitions = [(bundle_key (rd_id d) (rd_revision d), d)]\<rparr>"

definition trial_snapshot :: "run_definition \<Rightarrow> run_snapshot" where
  "trial_snapshot d = \<lparr>wr_run_id = ''run'', wr_parent_run_id = None, wr_parent_step_id = None,
     wr_session_id = ''session'', wr_definition = d, wr_bundle = solo_bundle d, wr_bundle_hash = ''hash'',
     wr_args = JObject [], wr_status = Run_Running, wr_steps = [], wr_usage = no_usage, wr_last_sequence = 2,
     wr_output = None, wr_failure = None, wr_suspension = None, wr_created_at = 0, wr_updated_at = 0\<rparr>"

definition trial_store :: "run_definition \<Rightarrow> run_store" where
  "trial_store d = \<lparr>rs_snapshot = trial_snapshot d, rs_log = [], rs_ledger = no_usage,
     rs_permits = bu_max_concurrency (rd_budgets d), rs_cancelled = False\<rparr>"

definition answering :: "run_failure + json \<Rightarrow> poll" where
  "answering r = \<lparr>po_now = 1, po_commit_error = None, po_outcome = r, po_violated = False,
     po_permit_first = True, po_drained = [], po_drain_error = False\<rparr>"

text \<open>Polls of one sequential run, each step answered by \<open>r\<close>.\<close>

definition polls :: "nat \<Rightarrow> run_failure + json \<Rightarrow> run_action list" where
  "polls n r = replicate n (Poll [] (answering r))"

definition trial :: "run_definition \<Rightarrow> run_action list \<Rightarrow> task \<times> run_store" where
  "trial d as = run_actions (trial_env d) as (root_task (trial_env d), trial_store d)"

text \<open>A step that fails, two steps side by side, and a repository that commits everything.\<close>

definition broken :: "run_failure + json" where
  "broken = Inl (failure ExecutionFailed ''workflow tool reported failure'' False)"

definition demo_fork :: run_definition where
  "demo_fork = workflow ''fork'' [tool_step ''a'' JNull FailFast, tool_step ''b'' JNull FailFast]
     (P_Parallel [P_Step ''a'', P_Step ''b''])"

definition branch_polls :: "nat \<Rightarrow> nat \<Rightarrow> run_failure + json \<Rightarrow> run_action list" where
  "branch_polls n branch r = replicate n (Poll [branch] (answering r))"

definition commits_all :: repository where
  "commits_all s e = None"

definition trial_ports :: prefix_port where
  "trial_ports = \<lparr>pp_json = demo_json, pp_pointer = trial_pointer, pp_input_hash = (\<lambda>_. ''hash''),
     pp_bundle_hash = (\<lambda>_. Some ''hash''), pp_value = (\<lambda>b. Inr (JArray (map (JString \<circ> fst) (db_definitions b)))),
     pp_same = (=), pp_unchanged = (=)\<rparr>"

end
