(* ===== verification/Workflow_Host.thy ===== *)
theory Workflow_Host
  imports Workflow_Dispatch Workflow_Trial
begin

text \<open>A concrete host for dispatches: its policy, agents and secrets, and what it answers.\<close>

definition writer :: agent_spec where
  "writer = \<lparr>ag_name = ''writer'', ag_allowed = [''read'', ''write''], ag_cost_supported = False\<rparr>"

definition demo_host :: dispatch_port where
  "demo_host = \<lparr>dp_bundle = demo_ports,
     dp_policy = (\<lambda>target _. if target = Target_Tool ''bash'' then Some ''denied'' else None),
     dp_resolve = (\<lambda>agent. Inr (if agent = ''writer'' then Some writer else None)),
     dp_secret = (\<lambda>capability. if capability = ''key'' then Some ''hunter2'' else None),
     dp_parse = (\<lambda>text. if text = ''true'' then Some (JBool True) else None),
     dp_text = (\<lambda>v. Inr (case v of JString s \<Rightarrow> s | _ \<Rightarrow> ''arguments'')),
     dp_trusted = True, dp_allowed = [''read'', ''write'']\<rparr>"

text \<open>An agent step in a definition that another one calls.\<close>

definition writer_step :: step_definition where
  "writer_step = \<lparr>sf_id = ''w'', sf_kind = Agent_Step ''writer'' JNull None None [''write''] 2, sf_failure = FailFast,
     sf_output_schema = Some boolean_schema\<rparr>"

definition crew :: run_definition where
  "crew = workflow ''crew'' [writer_step] (P_Step ''w'')"

definition lead :: run_definition where
  "lead = workflow ''lead'' [call_step ''c'' ''crew''] (P_Step ''c'')"

definition host_bundle :: "string \<Rightarrow> run_definition list \<Rightarrow> definition_bundle" where
  "host_bundle root ds = \<lparr>db_publication_revision = 1, db_root_id = root, db_root_revision = 1,
     db_root_invocation_policy = JNull,
     db_definitions = fold (\<lambda>d. map_put (bundle_key (rd_id d) (rd_revision d)) d) ds []\<rparr>"

definition request_of :: "run_definition \<Rightarrow> run_request" where
  "request_of d = \<lparr>sr_definition = d, sr_args = JObject [], sr_session_id = ''session''\<rparr>"

definition no_value :: "run_definition \<Rightarrow> string + json" where
  "no_value d = Inr JNull"

text \<open>
  The writer, which first answers with something else than the boolean asked for; a tool that
  answers \<open>true\<close>.
\<close>

definition attempt_answering :: "json \<Rightarrow> agent_attempt" where
  "attempt_answering v = \<lparr>at_reserved = answering (Inr JNull), at_violated = False,
     at_result = Some \<lparr>ar_tokens = 10, ar_cost = None, ar_output = v, ar_failure = None, ar_drained = False\<rparr>,
     at_recorded = answering (Inr JNull), at_cancelled = False\<rparr>"

definition demo_tool :: tool_call where
  "demo_tool = \<lparr>tl_flags = Inr False, tl_plan_allows = True, tl_violated = False,
     tl_outcome = Inr (Tool_Completed True ''true''), tl_violated_after = False, tl_commit = answering (Inr JNull)\<rparr>"

definition demo_calls :: dispatch_host where
  "demo_calls = \<lparr>dh_violated = False, dh_tool = demo_tool,
     dh_agent = (\<lambda>n. attempt_answering (if n = 0 then JNull else JBool True)),
     dh_nested_violated = False, dh_nested = (\<lambda>r. (Inl Run_Not_Found, []))\<rparr>"

text \<open>An input with a handle at some depth.\<close>

definition secret_input :: json where
  "secret_input = JObject [(''headers'', JArray [JObject [(''$secret'', JString ''key'')]]), (''body'', JNull)]"

end
