(* ===== verification/Workflow_Facts.thy ===== *)
theory Workflow_Facts
  imports Workflow_Demo "HOL-Library.Multiset"
begin

text \<open>
  What compiling a workflow establishes: the position of a step in the plan, the steps of an
  accepted plan, and the order of its steps.
\<close>

section \<open>Positions\<close>

text \<open>The node at a path, and the number of maps around it.\<close>

fun node_at :: "plan \<Rightarrow> nat list \<Rightarrow> plan option" where
  "node_at p [] = Some p"
| "node_at (P_Sequence nodes) (n # path) = (if n < length nodes then node_at (nodes ! n) path else None)"
| "node_at (P_Parallel nodes) (n # path) = (if n < length nodes then node_at (nodes ! n) path else None)"
| "node_at (P_Choice condition a b) (n # path) =
     (if n = 0 then node_at a path else if n = 1 then node_at b path else None)"
| "node_at (P_Map source item body) (n # path) = (if n = 0 then node_at body path else None)"
| "node_at (P_Retry node max_attempts delay_ms) (n # path) = (if n = 0 then node_at node path else None)"
| "node_at (P_Step step) (n # path) = None"

fun maps_around :: "plan \<Rightarrow> nat list \<Rightarrow> nat" where
  "maps_around (P_Sequence nodes) (n # path) = (if n < length nodes then maps_around (nodes ! n) path else 0)"
| "maps_around (P_Parallel nodes) (n # path) = (if n < length nodes then maps_around (nodes ! n) path else 0)"
| "maps_around (P_Choice condition a b) (n # path) = (if n = 0 then maps_around a path else maps_around b path)"
| "maps_around (P_Map source item body) (n # path) = Suc (maps_around body path)"
| "maps_around (P_Retry node max_attempts delay_ms) (n # path) = maps_around node path"
| "maps_around p path = 0"

definition leaf_at :: "plan \<Rightarrow> string \<Rightarrow> nat list \<Rightarrow> bool" where
  "leaf_at p i path = (node_at p path = Some (P_Step i))"

lemma leaf_at_simps [simp]:
  "leaf_at (P_Step s) i path \<longleftrightarrow> path = [] \<and> s = i"
  "leaf_at (P_Sequence nodes) i path \<longleftrightarrow> (\<exists>n q. path = n # q \<and> n < length nodes \<and> leaf_at (nodes ! n) i q)"
  "leaf_at (P_Parallel nodes) i path \<longleftrightarrow> (\<exists>n q. path = n # q \<and> n < length nodes \<and> leaf_at (nodes ! n) i q)"
  "leaf_at (P_Choice c a b) i path \<longleftrightarrow>
     (\<exists>q. path = 0 # q \<and> leaf_at a i q) \<or> (\<exists>q. path = 1 # q \<and> leaf_at b i q)"
  "leaf_at (P_Map r x body) i path \<longleftrightarrow> (\<exists>q. path = 0 # q \<and> leaf_at body i q)"
  "leaf_at (P_Retry body m d) i path \<longleftrightarrow> (\<exists>q. path = 0 # q \<and> leaf_at body i q)"
  by (cases path; auto simp: leaf_at_def)+

text \<open>\<open>locate\<close> lists exactly the leaves that name the step, each with its depth.\<close>

lemma locate_leaves:
  "set (locate p i path d) = {(path @ q, d + maps_around p q) | q. leaf_at p i q}"
  "set (locate_nodes nodes i path n d) =
     {(path @ k # q, d + maps_around node q) | k node q. (k, node) \<in> set (enumerate n nodes) \<and> leaf_at node i q}"
proof (induction p i path d and nodes i path n d rule: locate_locate_nodes.induct)
  case (2 nodes i path d)
  then show ?case by (force simp: in_set_enumerate_eq)
next
  case (3 nodes i path d)
  then show ?case by (force simp: in_set_enumerate_eq)
next
  case (1 step i path d)
  show ?case by simp
next
  case (4 c a b i path d)
  then show ?case by force
next
  case (5 r x body i path d)
  then show ?case by force
next
  case (6 node m w i path d)
  then show ?case by force
next
  case (8 node nodes i path n d)
  then show ?case by force
qed simp

lemma distinct_parts:
  "distinct (map fst xs) \<Longrightarrow> distinct (map fst ys) \<Longrightarrow>
   (\<And>p d q e. (p, d) \<in> set xs \<Longrightarrow> (q, e) \<in> set ys \<Longrightarrow> p \<noteq> q) \<Longrightarrow> distinct (map fst (xs @ ys))"
  by (fastforce simp: disjoint_iff)

lemma locate_distinct:
  "distinct (map fst (locate p i path d))"
  "distinct (map fst (locate_nodes nodes i path n d))"
proof (induction p i path d and nodes i path n d rule: locate_locate_nodes.induct)
  case (8 node nodes i path n d)
  then show ?case
    unfolding locate.simps locate_nodes.simps
    by (intro distinct_parts) (auto simp: locate_leaves in_set_enumerate_eq)
next
  case (4 c a b i path d)
  then show ?case
    unfolding locate.simps locate_nodes.simps by (intro distinct_parts) (auto simp: locate_leaves)
qed simp_all

lemma one_element: "distinct xs \<Longrightarrow> set xs = {a} \<Longrightarrow> xs = [a]"
proof (cases xs)
  case (Cons y ys)
  assume "distinct xs" "set xs = {a}"
  with Cons have "y = a" "set ys \<subseteq> {a}" "y \<notin> set ys" by auto
  from \<open>set ys \<subseteq> {a}\<close> have "set ys = {} \<or> set ys = {a}" by (rule subset_singletonD)
  with \<open>y = a\<close> \<open>y \<notin> set ys\<close> have "set ys = {}" by blast
  with Cons \<open>y = a\<close> show ?thesis by simp
qed simp

lemma locate_single:
  "locate p i [] 0 = [(path, d)] \<longleftrightarrow> (\<forall>q. leaf_at p i q \<longleftrightarrow> q = path) \<and> d = maps_around p path"
  (is "?l = _ \<longleftrightarrow> ?r")
proof
  assume "?l = [(path, d)]"
  then have "{(q, maps_around p q) | q. leaf_at p i q} = {(path, d)}"
    using locate_leaves(1) [of p i "[]" 0] by simp
  then show ?r by (auto simp: set_eq_iff)
next
  assume r: ?r
  then have "set ?l = {(path, d)}" using locate_leaves(1) [of p i "[]" 0] by auto
  moreover have "distinct ?l" using locate_distinct(1) distinct_map by blast
  ultimately show "?l = [(path, d)]"
    by (intro one_element)
qed

text \<open>
  C30: the topology of a step is its address.  A step has a topology exactly when one leaf of
  the plan names it and the run has entered no more maps than surround that leaf; following
  the path of the topology from the root leads back to that leaf and to no other leaf.
\<close>

theorem topology_roundtrip:
  "step_topology_of p i indices = Some t \<longleftrightarrow>
     tp_planned_step_id t = i \<and> tp_map_index_path t = indices \<and>
     (\<forall>path. node_at p path = Some (P_Step i) \<longleftrightarrow> path = tp_plan_node_path t) \<and>
     length indices \<le> maps_around p (tp_plan_node_path t)"
proof -
  have "step_topology_of p i indices = Some t \<longleftrightarrow>
      (\<exists>path d. locate p i [] 0 = [(path, d)] \<and> length indices \<le> d \<and>
         t = \<lparr>tp_planned_step_id = i, tp_plan_node_path = path, tp_map_index_path = indices\<rparr>)"
    by (auto simp: step_topology_of_def split: list.splits prod.splits)
  then show ?thesis
    unfolding locate_single leaf_at_def [symmetric] by (cases t) auto
qed


section \<open>Accepted plans\<close>

text \<open>What a walk over part of a plan adds to the steps seen before it.\<close>

definition fresh_steps :: "step_map \<Rightarrow> string list \<Rightarrow> string btree_set \<Rightarrow> string btree_set \<Rightarrow> bool" where
  "fresh_steps steps ids seen seen' =
     (distinct ids \<and> set ids \<inter> set seen = {} \<and> set seen' = set seen \<union> set ids \<and>
      list_all (has_key steps) ids)"

lemma fresh_Nil [simp]: "fresh_steps steps [] s s"
  by (simp add: fresh_steps_def)

lemma fresh_append:
  "fresh_steps steps xs s t \<Longrightarrow> fresh_steps steps ys t u \<Longrightarrow> fresh_steps steps (xs @ ys) s u"
  by (auto simp: fresh_steps_def)

lemma fold_fresh:
  assumes "\<And>node s t. node \<in> set nodes \<Longrightarrow> f s node = Inr t \<Longrightarrow> fresh_steps steps (ids node) s t"
    and "fold_ok f s nodes = Inr t"
  shows "fresh_steps steps (concat (map ids nodes)) s t"
  using assms
proof (induction nodes arbitrary: s)
  case (Cons node nodes)
  from Cons.prems(2) obtain u where u: "f s node = Inr u" "fold_ok f u nodes = Inr t" by auto
  have "fresh_steps steps (concat (map ids nodes)) u t"
    using Cons.prems(1) u(2) by (intro Cons.IH) auto
  with Cons.prems(1) [OF _ u(1)] show ?case by (auto intro: fresh_append)
qed simp

lemma plan_inner_fresh:
  "plan_inner steps p seen = Inr seen' \<Longrightarrow> fresh_steps steps (plan_step_ids p) seen seen'"
proof (induction steps p seen arbitrary: seen' rule: plan_inner.induct)
  case (2 steps nodes seen)
  then show ?case
    by (auto split: if_splits intro!: fold_fresh [where f = "\<lambda>seen node. plan_inner steps node seen"])
next
  case (3 steps nodes seen)
  then show ?case
    by (auto split: if_splits intro!: fold_fresh [where f = "\<lambda>seen node. plan_inner steps node seen"])
next
  case (4 steps c a b seen)
  then show ?case by (auto intro!: fresh_append)
qed (auto simp: fresh_steps_def split: if_splits)

text \<open>The map of the steps.\<close>

definition step_map_of :: "step_map \<Rightarrow> step_definition list \<Rightarrow> bool" where
  "step_map_of steps sts =
     (distinct (map sf_id sts) \<and> ordered steps \<and>
      (\<forall>i st. map_get steps i = Some st \<longleftrightarrow> st \<in> set sts \<and> sf_id st = i))"

lemma add_steps:
  "fold_ok add_step steps sts = Inr steps' \<Longrightarrow> step_map_of steps done_steps \<Longrightarrow>
   step_map_of steps' (done_steps @ sts)"
proof (induction sts arbitrary: steps done_steps)
  case (Cons st sts)
  from Cons.prems(1) obtain u where u: "add_step steps st = Inr u" "fold_ok add_step u sts = Inr steps'"
    by auto
  then have n: "\<not> has_key steps (sf_id st)"
    and r: "fold_ok add_step (map_put (sf_id st) st steps) sts = Inr steps'"
    by (auto simp: add_step_def split: if_splits)
  have "map_get steps (sf_id x) = Some x" if "x \<in> set done_steps" for x
    using that Cons.prems(2) by (simp add: step_map_of_def)
  then have "\<forall>x \<in> set done_steps. sf_id x \<noteq> sf_id st" using n
    by (metis has_key_iff)
  with Cons.prems(2) have "step_map_of (map_put (sf_id st) st steps) (done_steps @ [st])"
    by (auto simp: step_map_of_def)
  from Cons.IH [OF r this] show ?case by simp
qed simp

lemma compile_Inr:
  assumes "compile J d = Inr c"
  obtains steps where "c = \<lparr>cw_definition = d, cw_steps = steps\<rparr>" "fold_ok add_step [] (rd_steps d) = Inr steps"
    "step_map_of steps (rd_steps d)"
    "validate_run_plan (rd_plan d) steps = Inr ()" "validate_step_dependencies (rd_plan d) steps = Inr ()"
    "\<exists>available. walk_plan \<lparr>bs_port = J, bs_definition = d, bs_steps = steps\<rparr> (rd_plan d) [] [] = Inr available"
proof -
  from assms obtain steps where c: "c = \<lparr>cw_definition = d, cw_steps = steps\<rparr>"
    and s: "fold_ok add_step [] (rd_steps d) = Inr steps"
    and rest: "validate_run_plan (rd_plan d) steps = Inr ()"
      "validate_step_dependencies (rd_plan d) steps = Inr ()"
      "\<exists>available. walk_plan \<lparr>bs_port = J, bs_definition = d, bs_steps = steps\<rparr> (rd_plan d) [] [] = Inr available"
    by (auto simp: compile_def split: if_splits)
  have "step_map_of [] []" by (simp add: step_map_of_def)
  from that [OF c s _ rest] add_steps [OF s this] show thesis by simp
qed

lemma validate_run_plan_Inr:
  assumes "validate_run_plan p steps = Inr ()"
  shows "distinct (plan_step_ids p)" "set (plan_step_ids p) = set (keys steps)"
proof -
  from assms obtain seen where s: "plan_inner steps p [] = Inr seen"
    and "filter (\<lambda>i. i \<notin> set seen) (keys steps) = []"
    by (auto simp: validate_run_plan_def Let_def split: if_splits)
  then have "set (keys steps) \<subseteq> set seen" by (auto simp: filter_empty_conv)
  with plan_inner_fresh [OF s] show "distinct (plan_step_ids p)" "set (plan_step_ids p) = set (keys steps)"
    by (auto simp: fresh_steps_def list_all_iff has_key_iff keys_map_get)
qed

lemma step_keys: "step_map_of steps sts \<Longrightarrow> set (keys steps) = set (map sf_id sts)"
  by (auto simp: step_map_of_def keys_map_get)

lemma count_list_distinct: "distinct xs \<Longrightarrow> x \<in> set xs \<Longrightarrow> count_list xs x = 1"
  by (induction xs) auto

text \<open>A step has as many positions as the plan names it.\<close>

lemma locate_count:
  "length (locate p i path d) = count_list (plan_step_ids p) i"
  "length (locate_nodes nodes i path n d) = count_list (concat (map plan_step_ids nodes)) i"
  by (induction p i path d and nodes i path n d rule: locate_locate_nodes.induct) simp_all

lemma topology_exists: "count_list (plan_step_ids p) i = 1 \<Longrightarrow> \<exists>t. step_topology_of p i [] = Some t"
  using locate_count(1) [of p i "[]" 0]
  by (auto simp: step_topology_of_def length_Suc_conv split: list.splits)

text \<open>
  C31: an accepted plan runs exactly the declared steps.  After a successful compile the
  plan names every declared step once and nothing else, step ids are distinct, the compiled
  map holds each step under its id, and every step has a position in the plan.
\<close>

theorem compiled_plan_is_exact:
  assumes "compile J d = Inr c"
  shows "mset (plan_step_ids (rd_plan d)) = mset (map sf_id (rd_steps d)) \<and>
    distinct (map sf_id (rd_steps d)) \<and> cw_definition c = d \<and>
    (\<forall>st \<in> set (rd_steps d). map_get (cw_steps c) (sf_id st) = Some st \<and>
       (\<exists>t. step_topology_of (rd_plan d) (sf_id st) [] = Some t))"
proof -
  from assms obtain steps where c: "c = \<lparr>cw_definition = d, cw_steps = steps\<rparr>"
    and s: "step_map_of steps (rd_steps d)" and p: "validate_run_plan (rd_plan d) steps = Inr ()"
    by (rule compile_Inr)
  note ids = validate_run_plan_Inr [OF p]
  have d: "distinct (map sf_id (rd_steps d))" using s by (simp add: step_map_of_def)
  then have m: "mset (plan_step_ids (rd_plan d)) = mset (map sf_id (rd_steps d))"
    using ids step_keys [OF s] by (intro iffD1 [OF set_eq_iff_mset_eq_distinct]) simp_all
  have "\<exists>t. step_topology_of (rd_plan d) (sf_id st) [] = Some t" if "st \<in> set (rd_steps d)" for st
    using that ids(1) ids(2) step_keys [OF s] by (intro topology_exists) (simp add: count_list_distinct)
  with s c d m show ?thesis by (auto simp: step_map_of_def)
qed


section \<open>Compiling does not panic\<close>

text \<open>The only panic is \<open>steps[step]\<close> in \<open>walk_plan\<close>.\<close>

definition panics :: "'a compiled \<Rightarrow> bool" where
  "panics r = (\<exists>k. r = Inl (Missing_Key k))"

lemma panics_simps [simp]:
  "\<not> panics (Inr x)" "\<not> panics (refuse e)" "panics (Inl (Missing_Key k))"
  "panics (or_else r f) \<longleftrightarrow> panics r \<or> (\<exists>x. r = Inr x \<and> panics (f x))"
  by (cases r; auto simp: panics_def)+

lemma panics_option [simp]:
  "\<not> panics (or_refuse v owner m)" "\<not> panics (check_shape schema)"
  by (auto simp: panics_def or_refuse_def check_shape_def split: option.splits sum.splits)

lemma panics_each: "(\<And>x. x \<in> set xs \<Longrightarrow> \<not> panics (f x)) \<Longrightarrow> \<not> panics (each_ok f xs)"
  by (induction xs) auto

lemma panics_fold: "(\<And>s x. x \<in> set xs \<Longrightarrow> \<not> panics (f s x)) \<Longrightarrow> \<not> panics (fold_ok f s xs)"
  by (induction xs arbitrary: s) auto

lemma panics_reference: "\<not> panics (reference_schema B available items owner ref)"
  by (cases ref) (simp_all add: reference_schema_def)

lemma panics_template: "\<not> panics (walk_template B available items owner v)"
proof (induction B available items owner v rule: walk_template.induct)
  case (1 B available items owner v)
  then show ?case
    by (subst walk_template.simps)
       (auto simp: panics_reference intro!: panics_each split: json.splits sum.splits)
qed

lemma panics_walk:
  "list_all (has_key (bs_steps B)) (plan_step_ids p) \<Longrightarrow> \<not> panics (walk_plan B p available items)"
proof (induction B p available items rule: walk_plan.induct)
  case (1 B step available items)
  then show ?case by (auto simp: panics_template has_key_iff split: option.splits)
next
  case (2 B nodes available items)
  then show ?case
    by (auto simp: list_all_iff intro!: panics_fold [where f = "\<lambda>available node. walk_plan B node available items"])
next
  case (3 B nodes available items)
  then show ?case by (auto simp: list_all_iff intro!: panics_fold)
qed (auto simp: panics_reference)

lemma panics_plan: "\<not> panics (plan_inner steps p seen)"
proof (induction steps p seen rule: plan_inner.induct)
  case (2 steps nodes seen)
  then show ?case by (auto intro!: panics_fold [where f = "\<lambda>seen node. plan_inner steps node seen"])
next
  case (3 steps nodes seen)
  then show ?case by (auto intro!: panics_fold [where f = "\<lambda>seen node. plan_inner steps node seen"])
next
  case (4 steps c a b seen)
  then show ?case by (cases c) (auto simp: check_ref_def)
next
  case (5 steps r x body seen)
  then show ?case by (cases r) (auto simp: check_ref_def)
qed auto

lemma panics_visit: "\<not> panics (visit_step edges visiting node visited)"
proof (induction edges visiting node visited rule: visit_step.induct)
  case (1 edges visiting node visited)
  then show ?case
    by (subst visit_step.simps)
       (auto intro!: panics_fold [where f = "\<lambda>visited d. visit_step edges (node # visiting) d visited"])
qed

lemma panics_add_step: "\<not> panics (add_step steps st)"
  by (cases "sf_kind st")
    (auto simp: add_step_def validate_step_definition_def step_target_def split: option.splits)

text \<open>Compiling never panics: every refusal of a definition is an error value.\<close>

lemma compile_never_panics: "compile J d \<noteq> Inl (Missing_Key k)"
proof -
  have "\<not> panics (walk_plan \<lparr>bs_port = J, bs_definition = d, bs_steps = steps\<rparr> (rd_plan d) [] [])"
    if "validate_run_plan (rd_plan d) steps = Inr ()" for steps
    using validate_run_plan_Inr [OF that]
    by (intro panics_walk) (simp add: list_all_iff has_key_iff keys_map_get)
  then have "\<not> panics (compile J d)"
    by (auto simp: compile_def validate_budgets_def validate_run_plan_def Let_def panics_plan
        validate_step_dependencies_def panics_add_step panics_visit intro!: panics_fold split: option.splits)
  then show ?thesis by (simp add: panics_def)
qed

section \<open>The order of the steps\<close>

definition dep_rel :: "edge_map \<Rightarrow> (string \<times> string) set" where
  "dep_rel edges = {(i, d). d \<in> set (edges_of edges i)}"

text \<open>A successful search leaves only nodes from which every path ends.\<close>

abbreviation ends :: "('k \<times> 'k) set \<Rightarrow> 'k set" where
  "ends R \<equiv> Wellfounded.acc (R\<inverse>)"

lemma ends_no_loop: "x \<in> ends R \<Longrightarrow> (x, x) \<notin> R\<^sup>+"
proof (rule acc_induct [of x "R\<inverse>"])
  fix x
  assume IH: "\<forall>y. (y, x) \<in> R\<inverse> \<longrightarrow> (y, y) \<notin> R\<^sup>+"
  show "(x, x) \<notin> R\<^sup>+"
  proof
    assume "(x, x) \<in> R\<^sup>+"
    then obtain y where "(x, y) \<in> R" "(y, x) \<in> R\<^sup>*" by (blast dest: tranclD)
    then have "(y, y) \<in> R\<^sup>+" by (rule rtrancl_into_trancl1 [rotated])
    with IH \<open>(x, y) \<in> R\<close> show False by blast
  qed
qed

abbreviation grounded :: "edge_map \<Rightarrow> string set" where
  "grounded edges \<equiv> ends (dep_rel edges)"

lemma groundedI: "(\<And>d. d \<in> set (edges_of edges i) \<Longrightarrow> d \<in> grounded edges) \<Longrightarrow> i \<in> grounded edges"
  by (rule accI) (simp add: dep_rel_def)

lemma no_edges: "\<not> has_key edges i \<Longrightarrow> edges_of edges i = []"
  by (auto simp: has_key_def edges_of_def split: option.splits)

lemma fold_visit:
  assumes "\<And>d s t. d \<in> set ds \<Longrightarrow> f s d = Inr t \<Longrightarrow> set s \<subseteq> G \<Longrightarrow> set s \<subseteq> set t \<and> d \<in> set t \<and> set t \<subseteq> G"
    and "fold_ok f s ds = Inr t" "set s \<subseteq> G"
  shows "set s \<subseteq> set t \<and> set ds \<subseteq> set t \<and> set t \<subseteq> G"
  using assms
proof (induction ds arbitrary: s)
  case (Cons d ds)
  from Cons.prems(2) obtain u where u: "f s d = Inr u" "fold_ok f u ds = Inr t" by auto
  have s: "set s \<subseteq> set u \<and> d \<in> set u \<and> set u \<subseteq> G"
    using Cons.prems(1) [OF _ u(1) Cons.prems(3)] by simp
  have "set u \<subseteq> set t \<and> set ds \<subseteq> set t \<and> set t \<subseteq> G"
  proof (rule Cons.IH [OF _ u(2)])
    show "set v \<subseteq> set w \<and> x \<in> set w \<and> set w \<subseteq> G" if "x \<in> set ds" "f v x = Inr w" "set v \<subseteq> G" for x v w
      using that by (intro Cons.prems(1)) simp_all
  qed (use s in simp)
  with s show ?case by auto
qed simp

lemma visit_grounded:
  "visit_step edges visiting node visited = Inr visited' \<Longrightarrow> set visited \<subseteq> grounded edges \<Longrightarrow>
   set visited \<subseteq> set visited' \<and> node \<in> set visited' \<and> set visited' \<subseteq> grounded edges"
proof (induction edges visiting node visited arbitrary: visited' rule: visit_step.induct)
  case (1 edges visiting node visited)
  consider "node \<in> set visited" "visited' = visited"
    | "\<not> has_key edges node" "visited' = node # visited"
    | v where "node \<notin> set visited" "node \<notin> set visiting" "has_key edges node" "visited' = node # v"
      "fold_ok (\<lambda>visited d. visit_step edges (node # visiting) d visited) visited (edges_of edges node) = Inr v"
    using "1.prems"(1) by (subst (asm) visit_step.simps) (auto split: if_splits)
  then show ?case
  proof cases
    case 3
    have "set visited \<subseteq> set v \<and> set (edges_of edges node) \<subseteq> set v \<and> set v \<subseteq> grounded edges"
      using 3(5) "1.prems"(2) by (rule fold_visit [rotated]) (use "1.IH" 3(1-3) in blast)
    with 3(4) show ?thesis by (auto intro: groundedI)
  qed (use "1.prems"(2) in \<open>auto intro: groundedI simp: no_edges\<close>)
qed

text \<open>A failing search has found a cycle.\<close>

lemma fold_fails:
  "fold_ok f s xs = Inl e \<Longrightarrow> \<exists>x \<in> set xs. \<exists>u. f u x = Inl e"
proof (induction xs arbitrary: s)
  case (Cons x xs)
  then show ?case by (cases "f s x") auto
qed simp

lemma visit_cycle:
  "visit_step edges visiting node visited = Inl e \<Longrightarrow> (\<forall>v \<in> set visiting. (v, node) \<in> (dep_rel edges)\<^sup>+) \<Longrightarrow>
   \<exists>j. e = Refused (Step_Cycle j) \<and> (node, j) \<in> (dep_rel edges)\<^sup>* \<and> (j, j) \<in> (dep_rel edges)\<^sup>+"
proof (induction edges visiting node visited rule: visit_step.induct)
  case (1 edges visiting node visited)
  let ?R = "dep_rel edges"
  consider "node \<in> set visiting" "e = Refused (Step_Cycle node)"
    | "node \<notin> set visited" "node \<notin> set visiting" "has_key edges node"
      "fold_ok (\<lambda>visited d. visit_step edges (node # visiting) d visited) visited (edges_of edges node) = Inl e"
    using "1.prems"(1) by (subst (asm) visit_step.simps) (auto split: if_splits elim: or_else.elims)
  then show ?case
  proof cases
    case 1
    then show ?thesis using "1.prems"(2) by auto
  next
    case 2
    from fold_fails [OF 2(4)] obtain d u where d: "d \<in> set (edges_of edges node)"
      "visit_step edges (node # visiting) d u = Inl e" by blast
    then have step: "(node, d) \<in> ?R" by (simp add: dep_rel_def)
    have "\<forall>v \<in> set (node # visiting). (v, d) \<in> ?R\<^sup>+"
      using "1.prems"(2) step by (auto intro: trancl_into_trancl)
    then have "\<exists>j. e = Refused (Step_Cycle j) \<and> (d, j) \<in> ?R\<^sup>* \<and> (j, j) \<in> ?R\<^sup>+"
      using "1.IH" [of d u] 2(1-3) d by blast
    with step show ?thesis by (blast intro: converse_rtrancl_into_rtrancl)
  qed
qed

lemma grounded_no_cycle:
  assumes "i \<in> grounded edges" "(i, j) \<in> (dep_rel edges)\<^sup>*"
  shows "(j, j) \<notin> (dep_rel edges)\<^sup>+"
proof -
  have "j \<in> grounded edges"
    using assms(1) acc_downwards [of i "(dep_rel edges)\<inverse>" j] assms(2) by (simp add: rtrancl_converse)
  then show ?thesis by (rule ends_no_loop)
qed

text \<open>
  C32: the dependency check is exact.  It accepts a plan exactly when no step lies on or
  leads to a cycle of the order that the plan and the references in the templates impose;
  when it refuses, the step it names lies on such a cycle.
\<close>

theorem dependency_cycles_exact:
  "(validate_step_dependencies p steps = Inr () \<longleftrightarrow>
     (\<forall>i \<in> set (keys steps). \<forall>j. (i, j) \<in> (dep_rel (all_edges p steps))\<^sup>* \<longrightarrow>
        (j, j) \<notin> (dep_rel (all_edges p steps))\<^sup>+)) \<and>
   (\<forall>e. validate_step_dependencies p steps = Inl e \<longrightarrow>
     (\<exists>j. e = Refused (Step_Cycle j) \<and> (j, j) \<in> (dep_rel (all_edges p steps))\<^sup>+))"
  (is "(?ok \<longleftrightarrow> ?acyclic) \<and> ?named")
proof -
  let ?f = "\<lambda>visited i. visit_step (all_edges p steps) [] i visited"
  have bad: "\<exists>i \<in> set (keys steps). \<exists>j. e = Refused (Step_Cycle j) \<and>
      (i, j) \<in> (dep_rel (all_edges p steps))\<^sup>* \<and> (j, j) \<in> (dep_rel (all_edges p steps))\<^sup>+"
    if "validate_step_dependencies p steps = Inl e" for e
  proof -
    have "fold_ok ?f [] (keys steps) = Inl e"
      using that by (auto simp: validate_step_dependencies_def elim: or_else.elims)
    then obtain i u where "i \<in> set (keys steps)" "?f u i = Inl e" by (blast dest: fold_fails)
    with visit_cycle [of "all_edges p steps" "[]" i u e] show ?thesis by auto
  qed
  have ?acyclic if ?ok
  proof -
    from that obtain v where v: "fold_ok ?f [] (keys steps) = Inr v"
      by (auto simp: validate_step_dependencies_def)
    have "set (keys steps) \<subseteq> grounded (all_edges p steps)"
      using fold_visit [OF _ v, of "grounded (all_edges p steps)"] visit_grounded by fastforce
    then show ?thesis using grounded_no_cycle by blast
  qed
  moreover have ?ok if ?acyclic
  proof (cases "validate_step_dependencies p steps")
    case (Inl e)
    with bad that show ?thesis by blast
  qed simp
  ultimately show ?thesis using bad by blast
qed


section \<open>Witnesses\<close>

theorem compiled_plan_is_exact_witness:
  "\<exists>c t. compile demo_json demo_pair = Inr c \<and> cw_definition c = demo_pair \<and>
     distinct (map sf_id (rd_steps demo_pair)) \<and>
     step_topology_of (rd_plan demo_pair) ''b'' [] = Some t"
proof -
  have "case compile demo_json demo_pair of Inl _ \<Rightarrow> False | Inr _ \<Rightarrow> True" by code_simp
  then obtain c where c: "compile demo_json demo_pair = Inr c" by (auto split: sum.splits)
  have "tool_step ''b'' (step_ref ''a'') FailFast \<in> set (rd_steps demo_pair)"
    and "sf_id (tool_step ''b'' (step_ref ''a'') FailFast) = ''b''"
    by (simp_all add: demo_pair_def workflow_def tool_step_def)
  with compiled_plan_is_exact [OF c] c show ?thesis by metis
qed

definition looped :: step_map where
  "looped = [(''a'', tool_step ''a'' (step_ref ''b'') FailFast), (''b'', tool_step ''b'' JNull FailFast)]"

theorem dependency_cycles_exact_witness:
  "\<exists>j. validate_step_dependencies (P_Sequence [P_Step ''a'', P_Step ''b'']) looped = Inl (Refused (Step_Cycle j)) \<and>
     (j, j) \<in> (dep_rel (all_edges (P_Sequence [P_Step ''a'', P_Step ''b'']) looped))\<^sup>+"
proof -
  have "validate_step_dependencies (P_Sequence [P_Step ''a'', P_Step ''b'']) looped = Inl (Refused (Step_Cycle ''a''))"
    by code_simp
  with dependency_cycles_exact [of "P_Sequence [P_Step ''a'', P_Step ''b'']" looped] show ?thesis by auto
qed

end
