(* ===== verification/Workflow_Nesting.thy ===== *)
theory Workflow_Nesting
  imports Workflow_Facts "HOL-Library.Sublist"
begin

text \<open>
  Nested workflows: a validated bundle has no cycle of calls.  The search of the code keeps a
  stack of entries, each with the path of keys that led to it; the invariant says that the
  stack is the unfinished part of a depth-first search.
\<close>

section \<open>Search with a stack of paths\<close>

definition top_path :: "('k \<times> 'k list) list \<Rightarrow> 'k list" where
  "top_path S = (case S of [] \<Rightarrow> [] | e # _ \<Rightarrow> snd e)"

definition open_successor :: "('k \<times> 'k list) list \<Rightarrow> 'k list \<Rightarrow> nat \<Rightarrow> 'k \<Rightarrow> bool" where
  "open_successor S p m c =
     (Suc m < length p \<and> c = p ! Suc m \<or> (c, take (Suc m) p) \<in> set S)"

definition search_inv :: "('k \<times> 'k) set \<Rightarrow> ('k \<times> 'k list) list \<Rightarrow> 'k set \<Rightarrow> bool" where
  "search_inv R S V =
     (sorted_wrt (\<lambda>e e'. prefix (snd e') (snd e)) S \<and>
      (\<forall>k \<in> V. k \<in> set (top_path S) \<or> k \<in> ends R) \<and>
      (\<forall>m c. m < length (top_path S) \<and> (top_path S ! m, c) \<in> R \<longrightarrow>
         c \<in> ends R \<or> open_successor S (top_path S) m c))"

lemma top_path_simps [simp]: "top_path [] = []" "top_path (e # S) = snd e"
  by (simp_all add: top_path_def)

lemma prefix_top:
  assumes "sorted_wrt (\<lambda>e e'. prefix (snd e') (snd e)) (e # S)"
  shows "prefix (top_path S) (snd e)"
  using assms by (cases S) auto

lemma below_top:
  assumes "sorted_wrt (\<lambda>e e'. prefix (snd e') (snd e)) S" "(c, q) \<in> set S"
  shows "length q \<le> length (top_path S)"
  using assms by (cases S) (auto dest!: bspec prefix_length_le)

lemma search_successor:
  assumes "search_inv R ((k, p) # S) V" "m < length p" "(p ! m, c) \<in> R"
  obtains "c \<in> ends R" | "Suc m < length p" "c = p ! Suc m" | "c = k" "take (Suc m) p = p"
    | "(c, take (Suc m) p) \<in> set S"
proof -
  have "c \<in> ends R \<or> open_successor ((k, p) # S) p m c"
    using assms by (simp add: search_inv_def)
  then show thesis using that by (auto simp: open_successor_def)
qed

lemma search_sorted: "search_inv R S V \<Longrightarrow> sorted_wrt (\<lambda>e e'. prefix (snd e') (snd e)) S"
  by (simp add: search_inv_def)

lemma sorted_wrt_all: "sorted_wrt (\<lambda>_ _. True) xs"
  by (induction xs) simp_all

text \<open>What lies above the remaining stack is finished when the popped entry is.\<close>

lemma finished_tail:
  assumes i: "search_inv R ((k, p) # S) V" and k: "k \<in> ends R"
  shows "length (top_path S) \<le> m \<Longrightarrow> m < length p \<Longrightarrow> p ! m \<in> ends R"
proof (induction "length p - m" arbitrary: m rule: less_induct)
  case less
  show ?case
  proof (rule accI)
    fix c assume "(c, p ! m) \<in> R\<inverse>"
    then have "(p ! m, c) \<in> R" by simp
    from i less.prems(2) this show "c \<in> ends R"
    proof (cases rule: search_successor)
      case 2
      with less show ?thesis by simp
    next
      case 4
      have "length (take (Suc m) p) \<le> length (top_path S)"
        using search_sorted [OF i] 4 by (intro below_top) simp_all
      with less.prems show ?thesis by simp
    qed (use k in simp_all)
  qed
qed

lemma search_pop:
  assumes i: "search_inv R ((k, p) # S) V" and k: "k \<in> ends R"
  shows "search_inv R S V"
proof -
  let ?q = "top_path S"
  have q: "prefix ?q p" using prefix_top [of "(k, p)" S] i by (simp add: search_inv_def)
  then have at: "m < length ?q \<Longrightarrow> p ! m = ?q ! m" for m by (auto simp: prefix_def nth_append)
  have take_q: "m < length ?q \<Longrightarrow> take (Suc m) p = take (Suc m) ?q" for m
    using q by (auto simp: prefix_def)
  have 1: "x \<in> set ?q \<or> x \<in> ends R" if "x \<in> V" for x
  proof (cases "x \<in> set p")
    case True
    then obtain m where m: "m < length p" "x = p ! m" by (auto simp: in_set_conv_nth)
    show ?thesis
    proof (cases "m < length ?q")
      case True
      with at m show ?thesis by auto
    next
      case False
      with finished_tail [OF i k, of m] m show ?thesis by simp
    qed
  qed (use i that in \<open>auto simp: search_inv_def\<close>)
  have 2: "c \<in> ends R \<or> open_successor S ?q m c" if "m < length ?q" "(?q ! m, c) \<in> R" for m c
  proof -
    have "m < length p" using that(1) q prefix_length_le [OF q] by simp
    have r: "(p ! m, c) \<in> R" using at that by simp
    from i \<open>m < length p\<close> r show ?thesis
    proof (cases rule: search_successor)
      case 2
      then show ?thesis
        using at [of "Suc m"] finished_tail [OF i k, of "Suc m"]
        by (cases "Suc m < length ?q") (auto simp: open_successor_def)
    next
      case 4
      with take_q [OF that(1)] show ?thesis by (simp add: open_successor_def)
    qed (use k in simp_all)
  qed
  show ?thesis using i 1 2 by (auto simp: search_inv_def)
qed

lemma search_push:
  assumes i: "search_inv R ((k, p) # S) V" and c: "\<And>c. (k, c) \<in> R \<Longrightarrow> c \<in> set cs"
  shows "search_inv R (map (\<lambda>c. (c, p @ [k])) cs @ S) (insert k V)"
proof (cases cs)
  case Nil
  with c have "\<forall>d. (k, d) \<notin> R" by auto
  then have "k \<in> ends R" by (auto intro: accI)
  with search_pop [OF i] Nil show ?thesis by (simp add: search_inv_def)
next
  case (Cons x xs)
  let ?S = "map (\<lambda>c. (c, p @ [k])) cs @ S"
  have top: "top_path ?S = p @ [k]" using Cons by simp
  have "sorted_wrt (\<lambda>e e'. prefix (snd e') (snd e)) S" "\<forall>e \<in> set S. prefix (snd e) p"
    using search_sorted [OF i] by simp_all
  moreover from this(2) have "\<forall>e \<in> set S. prefix (snd e) (p @ [k])" by (blast intro: prefix_prefix)
  ultimately have sorted: "sorted_wrt (\<lambda>e e'. prefix (snd e') (snd e)) ?S"
    by (simp add: sorted_wrt_append sorted_wrt_map sorted_wrt_all del: prefix_snoc)
  have "d \<in> ends R \<or> open_successor ?S (p @ [k]) m d" if "m < Suc (length p)" "((p @ [k]) ! m, d) \<in> R" for m d
  proof (cases "m < length p")
    case True
    with that have "(p ! m, d) \<in> R" by (simp add: nth_append)
    with i True show ?thesis
    proof (cases rule: search_successor)
      case 3
      then have "Suc m = length p" using True by simp
      with 3 show ?thesis by (simp add: open_successor_def nth_append)
    qed (use True in \<open>simp_all add: open_successor_def nth_append\<close>)
  next
    case False
    with that have "m = length p" "d \<in> set cs" using c by (auto simp: nth_append)
    then show ?thesis by (simp add: open_successor_def)
  qed
  with sorted i show ?thesis by (auto simp: search_inv_def top)
qed


section \<open>The search of a bundle\<close>

definition calls :: "definition_bundle \<Rightarrow> (string \<times> string) set" where
  "calls b = {(k, bundle_key i revision) | k d st i revision args.
     map_get (db_definitions b) k = Some d \<and> st \<in> set (rd_steps d) \<and>
     sf_kind st = Workflow_Step i revision args}"

lemma callsI:
  "map_get (db_definitions b) k = Some d \<Longrightarrow> st \<in> set (rd_steps d) \<Longrightarrow>
   sf_kind st = Workflow_Step i revision args \<Longrightarrow> (k, bundle_key i revision) \<in> calls b"
  unfolding calls_def by blast

definition entry_key :: "entry \<Rightarrow> string \<times> string list" where
  "entry_key e = (case e of (i, revision, path) \<Rightarrow> (bundle_key i revision, path))"

lemma entry_key_simp [simp]: "entry_key (i, revision, path) = (bundle_key i revision, path)"
  by (simp add: entry_key_def)

lemma nested_entries:
  assumes "fold_ok (nested_entry P b c path) stack sts = Inr stack'"
  shows "\<exists>cs. map entry_key stack' = map (\<lambda>k. (k, path)) cs @ map entry_key stack \<and>
    set cs = {bundle_key i revision | st i revision args. st \<in> set sts \<and> sf_kind st = Workflow_Step i revision args}"
  using assms
proof (induction sts arbitrary: stack)
  case (Cons st sts)
  then obtain u where u: "nested_entry P b c path stack st = Inr u"
    "fold_ok (nested_entry P b c path) u sts = Inr stack'" by auto
  from Cons.IH [OF u(2)] obtain cs where cs:
    "map entry_key stack' = map (\<lambda>k. (k, path)) cs @ map entry_key u"
    "set cs = {bundle_key i revision | st i revision args. st \<in> set sts \<and> sf_kind st = Workflow_Step i revision args}"
    by blast
  show ?case
  proof (cases "sf_kind st")
    case (Workflow_Step i revision args)
    with u(1) have "u = (i, revision, path) # stack"
      by (auto simp: nested_entry_def split: option.splits)
    with cs Workflow_Step show ?thesis
      by (intro exI [of _ "cs @ [bundle_key i revision]"]) auto
  next
    case (Tool_Step tool args caps)
    with u(1) have "u = stack" by (simp add: nested_entry_def)
    with cs Tool_Step show ?thesis by (intro exI [of _ cs]) auto
  next
    case (Agent_Step agent prompt model effort caps attempts)
    with u(1) have "u = stack" by (simp add: nested_entry_def)
    with cs Agent_Step show ?thesis by (intro exI [of _ cs]) auto
  qed
qed simp

text \<open>What holds of the keys that were visited, and of the entries.\<close>

definition bundle_inv :: "bundle_port \<Rightarrow> definition_bundle \<Rightarrow> entry list \<Rightarrow> string set \<Rightarrow> bool" where
  "bundle_inv P b stack V =
     (search_inv (calls b) (map entry_key stack) V \<and>
      (\<forall>k \<in> V. \<exists>d c. map_get (db_definitions b) k = Some d \<and> compile (bp_json P) d = Inr c) \<and>
      (\<forall>k l. k \<in> V \<and> (k, l) \<in> calls b \<longrightarrow> l \<in> V \<or> l \<in> fst ` entry_key ` set stack))"

lemma bundle_expand:
  assumes i: "bundle_inv P b ((i, revision, path) # stack) V"
    and d: "bundle_get b i revision = Some d" "compile_checked (bp_json P) d = Inr c"
    and s: "fold_ok (nested_entry P b c (path @ [bundle_key i revision])) stack (vals (cw_steps c)) = Inr stack'"
  shows "bundle_inv P b stack' (insert (bundle_key i revision) V)"
proof -
  let ?k = "bundle_key i revision"
  from d(2) have c: "compile (bp_json P) d = Inr c" by (simp add: compile_checked_def)
  then obtain steps where "c = \<lparr>cw_definition = d, cw_steps = steps\<rparr>" "step_map_of steps (rd_steps d)"
    by (rule compile_Inr)
  then have v: "set (vals (cw_steps c)) = set (rd_steps d)"
    by (auto simp: step_map_of_def in_vals_ordered)
  from nested_entries [OF s] obtain cs where
    cs: "map entry_key stack' = map (\<lambda>k. (k, path @ [?k])) cs @ map entry_key stack"
    and set_cs: "set cs = {bundle_key i revision | st i revision args.
        st \<in> set (vals (cw_steps c)) \<and> sf_kind st = Workflow_Step i revision args}" by blast
  have k: "map_get (db_definitions b) ?k = Some d" using d(1) by (simp add: bundle_get_def)
  have succ: "l \<in> set cs" if "(?k, l) \<in> calls b" for l
    using that k by (auto simp: calls_def set_cs v)
  have keys: "fst ` entry_key ` set stack' = set cs \<union> fst ` entry_key ` set stack"
    using arg_cong [OF cs, of "\<lambda>xs. fst ` set xs"] by (simp add: image_Un image_image)
  have "search_inv (calls b) (map entry_key stack') (insert ?k V)"
    unfolding cs using i succ by (intro search_push) (simp_all add: bundle_inv_def)
  with i k c succ keys show ?thesis by (auto simp: bundle_inv_def)
qed

lemma bundle_skip:
  assumes i: "bundle_inv P b ((i, revision, path) # stack) V"
    and k: "bundle_key i revision \<notin> set path" "bundle_key i revision \<in> V"
  shows "bundle_inv P b stack V"
proof -
  let ?k = "bundle_key i revision"
  have s: "search_inv (calls b) ((?k, path) # map entry_key stack) V"
    using i by (simp add: bundle_inv_def)
  then have "?k \<in> ends (calls b)" using k by (auto simp: search_inv_def)
  with search_pop [OF s] i k(2) show ?thesis by (auto simp: bundle_inv_def)
qed

lemma walk_bundle_closed:
  "walk_bundle P b stack visited = Inr () \<Longrightarrow> bundle_inv P b stack (set visited) \<Longrightarrow>
   \<exists>V. set visited \<union> fst ` entry_key ` set stack \<subseteq> V \<and> bundle_inv P b [] V"
proof (induction P b stack visited rule: walk_bundle.induct)
  case (2 P b i revision path stack visited)
  let ?k = "bundle_key i revision"
  from "2.prems"(1) consider "?k \<notin> set path" "?k \<in> set visited" "walk_bundle P b stack visited = Inr ()"
    | d c stack' where "?k \<notin> set path" "?k \<notin> set visited" "bundle_get b i revision = Some d"
      "rd_id d = i" "rd_revision d = revision" "compile_checked (bp_json P) d = Inr c"
      "fold_ok (nested_entry P b c (path @ [?k])) stack (vals (cw_steps c)) = Inr stack'"
      "walk_bundle P b stack' (set_add ?k visited) = Inr ()"
    unfolding walk_bundle.simps(2) Let_def by (auto split: if_splits option.splits)
  then show ?case
  proof cases
    case 1
    then have "bundle_inv P b stack (set visited)" using bundle_skip [OF "2.prems"(2)] by simp
    then obtain V where "set visited \<union> fst ` entry_key ` set stack \<subseteq> V" "bundle_inv P b [] V"
      using "2.IH"(1) [OF refl 1] by blast
    with 1 show ?thesis by (intro exI [of _ V]) auto
  next
    case 2
    have inv: "bundle_inv P b stack' (set (set_add ?k visited))"
      using bundle_expand [OF "2.prems"(2) 2(3,6,7)] by simp
    have "\<not> (rd_id d \<noteq> i \<or> rd_revision d \<noteq> revision)" using 2(4,5) by simp
    from "2.IH"(2) [OF refl 2(1-3) this 2(8) inv] obtain V where V: "set (set_add ?k visited) \<union> fst ` entry_key ` set stack' \<subseteq> V" "bundle_inv P b [] V"
      by blast
    have "fst ` entry_key ` set stack \<subseteq> fst ` entry_key ` set stack'"
    proof -
      from nested_entries [OF 2(7)] obtain cs where
        "map entry_key stack' = map (\<lambda>k. (k, path @ [?k])) cs @ map entry_key stack" by blast
      from arg_cong [OF this, of "\<lambda>xs. fst ` set xs"] show ?thesis by (auto simp: image_Un image_image)
    qed
    with V(1) have "fst ` entry_key ` set stack \<subseteq> V" by (meson le_sup_iff subset_trans)
    with V show ?thesis by (intro exI [of _ V]) simp
  qed
qed auto


text \<open>Chains of calls that do not end repeat a key.\<close>

lemma chain_reaches: "successively (\<lambda>x y. (x, y) \<in> R) (x # xs) \<Longrightarrow> y \<in> set xs \<Longrightarrow> (x, y) \<in> R\<^sup>+"
proof (induction xs arbitrary: x)
  case (Cons z zs)
  then show ?case by (cases "y = z") (auto intro: trancl_into_trancl2)
qed simp

lemma chain_distinct:
  "successively (\<lambda>x y. (x, y) \<in> R) xs \<Longrightarrow> set xs \<subseteq> ends R \<Longrightarrow> distinct xs"
proof (induction xs)
  case (Cons x xs)
  have "x \<notin> set xs" using chain_reaches [OF Cons.prems(1)] ends_no_loop [of x R] Cons.prems(2) by auto
  moreover have "successively (\<lambda>x y. (x, y) \<in> R) xs" using Cons.prems(1) by (cases xs) simp_all
  ultimately show ?case using Cons by simp
qed simp

text \<open>
  C33: nested workflows end.  In a bundle that passes validation, every chain of calls that
  starts at the root definition goes through definitions that are in the bundle under their
  keys and compile, never enters the same definition twice, and so is no longer than the
  bundle.
\<close>

theorem nested_calls_end:
  assumes "validate_bundle P root b = Inr ()"
    and "successively (\<lambda>k l. (k, l) \<in> calls b) (bundle_key (rd_id root) (rd_revision root) # ks)"
  shows "distinct (bundle_key (rd_id root) (rd_revision root) # ks) \<and>
    Suc (length ks) \<le> length (db_definitions b) \<and>
    (\<forall>k \<in> set ks. \<exists>d c. map_get (db_definitions b) k = Some d \<and> compile (bp_json P) d = Inr c)"
proof -
  let ?root = "bundle_key (rd_id root) (rd_revision root)"
  have "walk_bundle P b [(rd_id root, rd_revision root, [])] [] = Inr ()"
    using assms(1) by (auto simp: validate_bundle_def split: if_splits option.splits)
  from walk_bundle_closed [OF this] obtain V where V: "?root \<in> V" "bundle_inv P b [] V"
    by (auto simp: bundle_inv_def search_inv_def)
  have in_V: "successively (\<lambda>k l. (k, l) \<in> calls b) (k # ls) \<Longrightarrow> k \<in> V \<Longrightarrow> set (k # ls) \<subseteq> V" for k ls
  proof (induction ls arbitrary: k)
    case (Cons l ls)
    then have "l \<in> V" using V(2) by (auto simp: bundle_inv_def)
    with Cons.IH [of l] Cons.prems show ?case by simp
  qed simp
  then have sub: "set (?root # ks) \<subseteq> V" using assms(2) V(1) by blast
  have "V \<subseteq> ends (calls b)" using V(2) by (auto simp: bundle_inv_def search_inv_def)
  with sub have d: "distinct (?root # ks)" using chain_distinct [OF assms(2)] by blast
  have defs: "\<forall>k \<in> V. \<exists>d c. map_get (db_definitions b) k = Some d \<and> compile (bp_json P) d = Inr c"
    using V(2) by (simp add: bundle_inv_def)
  then have "V \<subseteq> set (keys (db_definitions b))" using keys_map_get by fast
  with sub have "set (?root # ks) \<subseteq> set (keys (db_definitions b))" by (rule subset_trans)
  then have "card (set (?root # ks)) \<le> card (set (keys (db_definitions b)))" by (intro card_mono) simp_all
  also have "\<dots> \<le> length (db_definitions b)" using card_length [of "keys (db_definitions b)"] by (simp add: keys_def)
  finally have "length (?root # ks) \<le> length (db_definitions b)" using distinct_card [OF d] by simp
  with d sub defs show ?thesis by auto
qed


theorem nested_calls_end_witness:
  "validate_bundle demo_ports demo_caller demo_bundle = Inr () \<and> (''caller@1'', ''pair@1'') \<in> calls demo_bundle \<and>
   (\<exists>d c. map_get (db_definitions demo_bundle) ''pair@1'' = Some d \<and> compile demo_json d = Inr c)"
proof -
  have v: "validate_bundle demo_ports demo_caller demo_bundle = Inr ()" by code_simp
  have k: "bundle_key (rd_id demo_caller) (rd_revision demo_caller) = ''caller@1'' \<and>
      bundle_key ''pair'' 1 = ''pair@1'' \<and> map_get (db_definitions demo_bundle) ''caller@1'' = Some demo_caller"
    by code_simp
  have "call_step ''c'' ''pair'' \<in> set (rd_steps demo_caller)"
    by (simp add: demo_caller_def workflow_def)
  moreover have "sf_kind (call_step ''c'' ''pair'') = Workflow_Step ''pair'' 1 (JObject [])"
    by (simp add: call_step_def)
  ultimately have c: "(''caller@1'', ''pair@1'') \<in> calls demo_bundle"
    using callsI [of demo_bundle "''caller@1''" demo_caller] k by metis
  have "bp_json demo_ports = demo_json" by (simp add: demo_ports_def)
  with nested_calls_end [OF v, of "[''pair@1'']"] k c v show ?thesis by simp
qed

end
