(* ===== verification/Workflow_Preflight.thy ===== *)
theory Workflow_Preflight
  imports Workflow_Host Workflow_Nesting
begin

text \<open>
  What the checks before a run promise to its dispatches.  The walk of \<open>preflight_bundle\<close> keeps
  an invariant: the definitions already visited are admitted, and every call from them leads
  to a visited definition or to an entry of the stack.
\<close>

section \<open>Admitted steps\<close>



definition agents_grow :: "agents \<Rightarrow> agents \<Rightarrow> bool" where
  "agents_grow m n = (\<forall>k v. map_get m k = Some v \<longrightarrow> map_get n k = Some v)"

lemma agents_grow_refl [simp]: "agents_grow m m"
  by (simp add: agents_grow_def)





lemma within_set_of [simp]: "within (set_of xs) ys = within xs ys"
  by (simp add: within_def list_all_iff)



definition entry_keys :: "preflight_entry list \<Rightarrow> string set" where
  "entry_keys stack = {bundle_key i revision | i revision depth. (i, revision, depth) \<in> set stack}"

lemma entry_keys_simps [simp]:
  "entry_keys [] = {}" "entry_keys ((i, revision, depth) # stack) = insert (bundle_key i revision) (entry_keys stack)"
  by (auto simp: entry_keys_def)





section \<open>The walk\<close>













end
