(* ===== verification/Workflow_Calls.thy ===== *)
theory Workflow_Calls
  imports Workflow_Host
begin

text \<open>
  What a dispatch does to the run, and what it lets out.  Its changes of the ledger and of the
  snapshot are actions of the run, so that the properties of all schedules cover it; the
  secrets of a tool call stay between the resolver and the tool.
\<close>

section \<open>Dispatches as actions\<close>

definition side_action :: "run_action \<Rightarrow> bool" where
  "side_action a = (case a of Poll _ _ \<Rightarrow> False | Cancel_Run \<Rightarrow> False | _ \<Rightarrow> True)"

definition agent_reservations :: "run_action list \<Rightarrow> nat" where
  "agent_reservations as = length (filter (\<lambda>a. case a of Agent_Reserved _ \<Rightarrow> True | _ \<Rightarrow> False) as)"

lemma agent_reservations_simps [simp]:
  "agent_reservations [] = 0"
  "agent_reservations (Agent_Reserved c # as) = Suc (agent_reservations as)"
  "agent_reservations (Agent_Usage tokens cost # as) = agent_reservations as"
  "agent_reservations (Save_Usage name po # as) = agent_reservations as"
  "agent_reservations (Persist_Suspension x po # as) = agent_reservations as"
  "agent_reservations (as @ bs) = agent_reservations as + agent_reservations bs"
  by (simp_all add: agent_reservations_def)

lemma act_side: "side_action a \<Longrightarrow> act E a (t, st) = (t, side_effect E a st)"
  by (cases a) (simp_all add: side_action_def side_effect_def)

lemma run_side: "list_all side_action as \<Longrightarrow> run_actions E as (t, st) = (t, fold (side_effect E) as st)"
  by (induction as arbitrary: st) (simp_all add: run_actions_def act_side)

lemma shared_side: "shared_action a \<Longrightarrow> side_action a"
  by (cases a) (simp_all add: shared_action_def side_action_def)

text \<open>\<open>st'\<close> comes from \<open>st\<close> by actions beside the tree, with at most \<open>n\<close> agents reserved.\<close>

definition by_actions :: "run_env \<Rightarrow> nat \<Rightarrow> run_store \<Rightarrow> run_store \<Rightarrow> bool" where
  "by_actions E n st st' =
     (\<exists>as. list_all side_action as \<and> agent_reservations as \<le> n \<and> fold (side_effect E) as st = st')"

lemma by_actionsI:
  "list_all side_action as \<Longrightarrow> agent_reservations as \<le> n \<Longrightarrow> fold (side_effect E) as st = st' \<Longrightarrow> by_actions E n st st'"
  unfolding by_actions_def by blast

lemma by_actions_refl [simp]: "by_actions E n st st"
  by (rule by_actionsI [of "[]"]) simp_all

lemma by_actions_trans: "by_actions E m st st' \<Longrightarrow> by_actions E n st' st'' \<Longrightarrow> by_actions E (m + n) st st''"
  unfolding by_actions_def
proof (elim exE conjE)
  fix as bs
  assume "list_all side_action as" "agent_reservations as \<le> m" "fold (side_effect E) as st = st'"
    "list_all side_action bs" "agent_reservations bs \<le> n" "fold (side_effect E) bs st' = st''"
  then show "\<exists>cs. list_all side_action cs \<and> agent_reservations cs \<le> m + n \<and> fold (side_effect E) cs st = st''"
    by (intro exI [of _ "as @ bs"]) simp
qed

lemma by_actions_more: "by_actions E m st st' \<Longrightarrow> m \<le> n \<Longrightarrow> by_actions E n st st'"
  unfolding by_actions_def using le_trans [of _ m n] by fast

lemma checkpoint_by_actions: "checkpoint_usage po name st = Inr st' \<Longrightarrow> by_actions E n st st'"
  by (rule by_actionsI [of "[Save_Usage name po]"]) (simp_all add: side_action_def side_effect_def keep_store_def)

lemma usage_by_actions:
  "by_actions E n st (st\<lparr>rs_ledger := snd (record_usage (en_limits E) tokens cost (rs_ledger st))\<rparr>)"
  by (rule by_actionsI [of "[Agent_Usage tokens cost]"]) (simp_all add: side_action_def side_effect_def)

lemma reserved_by_actions:
  "agent_reserved E c (rs_ledger st) = Inr u \<Longrightarrow> by_actions E (Suc n) st (st\<lparr>rs_ledger := u\<rparr>)"
  by (rule by_actionsI [of "[Agent_Reserved c]"]) (simp_all add: side_action_def side_effect_def keep_ledger_def)

lemma suspension_by_actions: "persist_suspension po x st = Inr st' \<Longrightarrow> by_actions E n st st'"
  by (rule by_actionsI [of "[Persist_Suspension x po]"]) (simp_all add: side_action_def side_effect_def keep_store_def)

lemma outcome_by_actions: "agent_outcome E sd a r st = (result, st') \<Longrightarrow> by_actions E 0 st st'"
proof -
  obtain exceeded u where u: "record_usage (en_limits E) (ar_tokens r) (ar_cost r) (rs_ledger st) = (exceeded, u)"
    by fastforce
  then have "by_actions E 0 st (st\<lparr>rs_ledger := u\<rparr>)"
    using usage_by_actions [of E 0 st "ar_tokens r" "ar_cost r"] by simp
  moreover assume "agent_outcome E sd a r st = (result, st')"
  ultimately show ?thesis using u
    by (auto simp: agent_outcome_def Let_def split: if_splits sum.splits
        dest: by_actions_trans checkpoint_by_actions [of _ _ _ _ E 0])
qed

lemma attempts_by_actions:
  "agent_attempts E spec sd as m0 st = (r, st') \<Longrightarrow> by_actions E (length as) st st'"
proof (induction as arbitrary: m0 st)
  case (Cons a as)
  note step = Cons.prems [unfolded agent_attempts.simps]
  show ?case
  proof (cases "agent_reserved E (ag_cost_supported spec) (rs_ledger st)")
    case u: (Inr u)
    note reserved = reserved_by_actions [OF u, of 0]
    show ?thesis
    proof (cases "checkpoint_usage (at_reserved a) ''agent_reserved'' (st\<lparr>rs_ledger := u\<rparr>)")
      case st1: (Inr st1)
      note begun = by_actions_trans [OF reserved checkpoint_by_actions [OF st1, of E 0]]
      show ?thesis
      proof (cases "st' = st1")
        case False
        with step u st1 obtain x where x: "at_result a = Some x" "restriction (at_violated a) = Inr ()"
          by (auto split: sum.splits option.splits)
        obtain y st2 where y: "agent_outcome E sd a x st1 = (y, st2)" by fastforce
        note ended = by_actions_trans [OF begun outcome_by_actions [OF y]]
        have "st' = st2 \<or> (\<exists>m. agent_attempts E spec sd as (Some m) st2 = (r, st'))"
          using step u st1 x y by (auto split: sum.splits)
        then show ?thesis
          using by_actions_more [OF ended] by_actions_trans [OF ended Cons.IH] by auto
      qed (use by_actions_more [OF begun] in simp)
    qed (use step u by_actions_more [OF reserved] in auto)
  qed (use step in auto)
qed simp

lemma tool_by_actions: "dispatch_tool D tool capabilities input key x st = (r, st') \<Longrightarrow> by_actions E 0 st st'"
  by (auto simp: dispatch_tool_def tool_answer_def suspend_tool_def split: sum.splits tool_outcome.splits
      intro: suspension_by_actions)

lemma nested_by_actions:
  assumes "dispatch_nested E b depth i revision input violated run st = (r, st')"
  shows "\<exists>n. by_actions E n st st'"
proof -
  have "by_actions E (agent_reservations (filter shared_action as)) st
      (fold (side_effect E) (filter shared_action as) st)" for as
    by (rule by_actionsI [of "filter shared_action as"]) (auto simp: list_all_iff shared_side)
  moreover have "by_actions E 0 st st" by simp
  ultimately show ?thesis using assms
    by (auto simp: dispatch_nested_def split: sum.splits prod.splits)
qed

text \<open>
  C36: a dispatch is made of run actions.  Whatever the host answers while a step is dispatched
  (the tool, each attempt of the agent, the nested run, the commits), the changes of the
  ledger and of the snapshot are a list of run actions beside the tree of tasks, so that every
  statement on all schedules covers them; a tool reserves no agent, and an agent step reserves
  no more than its structured-output attempts.
\<close>

theorem dispatch_is_actions:
  assumes "dispatch D E b pinned depth sd input key h st = (r, st')"
  shows "\<exists>as. (\<forall>t. run_actions E as (t, st) = (t, st')) \<and>
    (case sf_kind sd of
       Tool_Step tool args capabilities \<Rightarrow> agent_reservations as = 0
     | Agent_Step agent prompt model effort capabilities attempts \<Rightarrow> agent_reservations as \<le> unat attempts
     | Workflow_Step i revision args \<Rightarrow> True)"
proof -
  let ?bound = "case sf_kind sd of
      Agent_Step agent prompt model effort capabilities attempts \<Rightarrow> unat attempts | _ \<Rightarrow> 0"
  have "\<exists>n. by_actions E n st st' \<and> (n \<le> ?bound \<or> (\<exists>i revision args. sf_kind sd = Workflow_Step i revision args))"
  proof (cases "restriction (dh_violated h)")
    case (Inr u)
    show ?thesis
    proof (cases "sf_kind sd")
      case (Tool_Step tool args capabilities)
      with assms Inr have "by_actions E 0 st st'" by (auto simp: dispatch_def intro: tool_by_actions)
      then show ?thesis by blast
    next
      case (Agent_Step agent prompt model effort capabilities attempts)
      with assms Inr have "dispatch_agent D E pinned sd agent capabilities attempts input (dh_agent h) st = (r, st')"
        by (simp add: dispatch_def)
      then have "by_actions E (unat attempts) st st'"
        using attempts_by_actions [of E _ sd "map (dh_agent h) [0..<unat attempts]" None st r st']
        by (auto simp: dispatch_agent_def split: sum.splits)
      with Agent_Step show ?thesis by (intro exI [of _ "unat attempts"]) simp
    next
      case (Workflow_Step i revision args)
      with assms Inr show ?thesis by (auto simp: dispatch_def dest: nested_by_actions)
    qed
  next
    case (Inl e)
    with assms have "by_actions E 0 st st'" by (simp add: dispatch_def)
    then show ?thesis by blast
  qed
  then obtain as where "list_all side_action as" "fold (side_effect E) as st = st'"
    and "agent_reservations as \<le> ?bound \<or> (\<exists>i revision args. sf_kind sd = Workflow_Step i revision args)"
    using order_trans unfolding by_actions_def by blast
  then show ?thesis using run_side [of as E _ st]
    by (intro exI [of _ as]) (auto split: step_kind.splits)
qed

text \<open>The writer needs both attempts: its first answer is not the boolean asked for.\<close>

definition written :: "(run_failure + json) \<times> run_store" where
  "written = dispatch demo_host (trial_env crew) (host_bundle ''crew'' [crew]) [(''writer'', writer)] 0 writer_step JNull ''w''
     demo_calls (trial_store crew)"

lemma writer_answers: "fst written = Inr (JBool True) \<and> us_agents (rs_ledger (snd written)) = 2"
  by code_simp

theorem dispatch_is_actions_witness:
  "fst written = Inr (JBool True) \<and> us_agents (rs_ledger (snd written)) = 2 \<and>
   (\<exists>as. agent_reservations as \<le> 2 \<and>
     run_actions (trial_env crew) as (root_task (trial_env crew), trial_store crew) =
       (root_task (trial_env crew), snd written))"
proof -
  have "dispatch demo_host (trial_env crew) (host_bundle ''crew'' [crew]) [(''writer'', writer)] 0 writer_step JNull ''w''
      demo_calls (trial_store crew) = (fst written, snd written)" by (simp add: written_def)
  from dispatch_is_actions [OF this] writer_answers show ?thesis by (auto simp: writer_step_def)
qed

section \<open>Secrets\<close>

text \<open>The handles of an input, in the order they are resolved, and the strings of an output.\<close>

function secret_handles :: "json \<Rightarrow> json list" where
  "secret_handles v =
     (case v of
        JObject ms \<Rightarrow> if map_of ms ''$secret'' \<noteq> None then [v] else concat (map (\<lambda>e. secret_handles (snd e)) ms)
      | JArray xs \<Rightarrow> concat (map secret_handles xs)
      | _ \<Rightarrow> [])"
  by pat_completeness auto

termination secret_handles
proof (relation "measure size", goal_cases)
  case (2 v xs x)
  then show ?case using in_array_size [of x xs] by simp
next
  case (3 v ms e)
  then show ?case using in_members_size [of e ms] by simp
qed simp_all

declare secret_handles.simps [simp del]

inductive occurs_in :: "string \<Rightarrow> json \<Rightarrow> bool" where
  "occurs_in s (JString s)"
| "(s, v) \<in> set ms \<Longrightarrow> occurs_in s (JObject ms)"
| "(k, v) \<in> set ms \<Longrightarrow> occurs_in s v \<Longrightarrow> occurs_in s (JObject ms)"
| "v \<in> set xs \<Longrightarrow> occurs_in s v \<Longrightarrow> occurs_in s (JArray xs)"

lemma clean_occurs: "occurs_in s v \<Longrightarrow> \<not> contains_any_secret_material secrets v \<Longrightarrow> \<not> shows_secret secrets s"
proof (induction rule: occurs_in.induct)
  case (1 s)
  then show ?case by (simp add: contains_any_secret_material.simps)
next
  case (2 s v ms)
  then show ?case using contains_any_secret_material.simps [of secrets "JObject ms"] by (auto simp: list_ex_iff)
next
  case (3 k v ms s)
  then show ?case using contains_any_secret_material.simps [of secrets "JObject ms"] by (auto simp: list_ex_iff)
next
  case (4 v xs s)
  then show ?case using contains_any_secret_material.simps [of secrets "JArray xs"] by (auto simp: list_ex_iff)
qed

lemma map_ok_Inr_iff: "map_ok f xs = Inr ys \<longleftrightarrow> list_all2 (\<lambda>x y. f x = Inr y) xs ys"
  by (induction xs arbitrary: ys) (auto simp: list_all2_Cons1)

definition material :: "dispatch_port \<Rightarrow> json \<Rightarrow> string option" where
  "material D v = (case jp_secret (dp_json D) v of Inl _ \<Rightarrow> None | Inr capability \<Rightarrow> dp_secret D capability)"

lemma resolved_members:
  assumes "list_all2 (\<lambda>e r. or_else (f (snd e)) (\<lambda>r. Inr (fst e, r)) = Inr r) ms rs"
    and "\<And>e w secrets. e \<in> set ms \<Longrightarrow> f (snd e) = Inr (w, secrets) \<Longrightarrow>
      \<not> contains_secret_handle w \<and> map (material D) (secret_handles (snd e)) = map Some secrets"
  shows "map fst rs = map fst ms \<and> list_all (\<lambda>r. \<not> contains_secret_handle (fst (snd r))) rs \<and>
    map (material D) (concat (map (\<lambda>e. secret_handles (snd e)) ms)) = map Some (concat (map (\<lambda>r. snd (snd r)) rs))"
  using assms
proof (induction rule: list_all2_induct)
  case (Cons e ms r rs)
  from Cons.hyps(1) obtain w secrets where f: "f (snd e) = Inr (w, secrets)" "r = (fst e, w, secrets)" by auto
  from Cons.IH Cons.prems have "map fst rs = map fst ms \<and> list_all (\<lambda>r. \<not> contains_secret_handle (fst (snd r))) rs \<and>
    map (material D) (concat (map (\<lambda>e. secret_handles (snd e)) ms)) = map Some (concat (map (\<lambda>r. snd (snd r)) rs))"
    by (meson list.set_intros(2))
  with f Cons.prems [of e w secrets] show ?case by simp
qed simp

lemma resolved_array:
  assumes "list_all2 (\<lambda>x r. f x = Inr r) xs rs"
    and "\<And>x w secrets. x \<in> set xs \<Longrightarrow> f x = Inr (w, secrets) \<Longrightarrow>
      \<not> contains_secret_handle w \<and> map (material D) (secret_handles x) = map Some secrets"
  shows "list_all (\<lambda>r. \<not> contains_secret_handle (fst r)) rs \<and>
    map (material D) (concat (map secret_handles xs)) = map Some (concat (map snd rs))"
  using assms
proof (induction rule: list_all2_induct)
  case (Cons x xs r rs)
  obtain w secrets where f: "r = (w, secrets)" by fastforce
  from Cons.IH Cons.prems have "list_all (\<lambda>r. \<not> contains_secret_handle (fst r)) rs \<and>
    map (material D) (concat (map secret_handles xs)) = map Some (concat (map snd rs))"
    by (meson list.set_intros(2))
  with f Cons.hyps(1) Cons.prems [of x w secrets] show ?case by simp
qed simp

lemma resolved_input:
  "resolve_secret_handles D v = Inr (w, secrets) \<Longrightarrow>
   \<not> contains_secret_handle w \<and> map (material D) (secret_handles v) = map Some secrets"
proof (induction D v arbitrary: w secrets rule: resolve_secret_handles.induct)
  case (1 D v)
  show ?case
  proof (cases v)
    case (JObject ms)
    show ?thesis
    proof (cases "map_of ms ''$secret''")
      case None
      let ?g = "\<lambda>e. or_else (resolve_secret_handles D (snd e)) (\<lambda>r. Inr (fst e, r))"
      from "1.prems" JObject None have "or_else (map_ok ?g ms) (\<lambda>rs.
          Inr (JObject (map (\<lambda>r. (fst r, fst (snd r))) rs), concat (map (\<lambda>r. snd (snd r)) rs))) = Inr (w, secrets)"
        by (simp add: resolve_secret_handles.simps [of D "JObject ms"] del: or_else_Inr)
      then obtain rs where "map_ok ?g ms = Inr rs"
        and w: "w = JObject (map (\<lambda>r. (fst r, fst (snd r))) rs)" "secrets = concat (map (\<lambda>r. snd (snd r)) rs)"
        by (cases "map_ok ?g ms") auto
      then have rs: "list_all2 (\<lambda>e r. ?g e = Inr r) ms rs" by (simp only: map_ok_Inr_iff)
      have ih: "\<not> contains_secret_handle w \<and> map (material D) (secret_handles (snd e)) = map Some secrets"
        if "e \<in> set ms" "resolve_secret_handles D (snd e) = Inr (w, secrets)" for e w secrets
        using "1.IH"(2) [OF JObject] None that by auto
      from resolved_members [OF rs ih]
      have all: "map fst rs = map fst ms" "list_all (\<lambda>r. \<not> contains_secret_handle (fst (snd r))) rs"
        "map (material D) (concat (map (\<lambda>e. secret_handles (snd e)) ms)) = map Some secrets"
        by (simp_all add: w)
      have "map_of (map (\<lambda>r. (fst r, fst (snd r))) rs) ''$secret'' = None"
        using None arg_cong [OF all(1), of set] by (simp add: map_of_eq_None_iff image_image)
      with all None show ?thesis
        by (simp add: w(1) JObject contains_secret_handle.simps [of "JObject _"] secret_handles.simps [of "JObject ms"]
            list_ex_iff list_all_iff)
    next
      case (Some h)
      with "1.prems" JObject show ?thesis
        by (auto simp: resolve_secret_handles.simps [of D "JObject ms"] secret_handles.simps [of "JObject ms"] material_def
            contains_secret_handle.simps [of "JString _"] split: sum.splits option.splits)
    qed
  next
    case (JArray xs)
    with "1.prems" obtain rs where rs: "list_all2 (\<lambda>x r. resolve_secret_handles D x = Inr r) xs rs"
      and w: "w = JArray (map fst rs)" "secrets = concat (map snd rs)"
      by (auto simp: resolve_secret_handles.simps [of D "JArray xs"] map_ok_Inr_iff)
    from resolved_array [OF rs "1.IH"(1) [OF JArray]] show ?thesis
      by (simp add: w JArray contains_secret_handle.simps [of "JArray _"] secret_handles.simps [of "JArray xs"]
          list_ex_iff list_all_iff)
  qed (use "1.prems" resolve_secret_handles.simps [of D v] secret_handles.simps [of v]
      contains_secret_handle.simps [of v] in auto)
qed

text \<open>
  C35: secrets stay between the resolver and the tool.  When the dispatch of a tool succeeds,
  the call was authorized; in its arguments every handle has been replaced by the material
  that the resolver gave for it; the output shows none of that material, neither in a string
  nor in an object key at any depth; and nothing is written to the ledger or the snapshot.
\<close>

theorem tool_secrets_stay_inside:
  assumes "dispatch_tool D tool capabilities input key x st = (Inr v, st')"
  shows "authorize D (Target_Tool tool) capabilities = Inr () \<and> st' = st \<and>
    (\<exists>resolved secrets arguments. resolve_secret_handles D input = Inr (resolved, secrets) \<and>
      dp_text D resolved = Inr arguments \<and> \<not> contains_secret_handle resolved \<and>
      map (material D) (secret_handles input) = map Some secrets \<and>
      (\<forall>secret s. secret \<in> set secrets \<and> secret \<noteq> [] \<and> occurs_in s v \<longrightarrow> \<not> contains s secret))"
proof -
  from assms obtain resolved secrets arguments where
    r: "authorize D (Target_Tool tool) capabilities = Inr ()" "resolve_secret_handles D input = Inr (resolved, secrets)"
      "dp_text D resolved = Inr arguments" "st' = st" and v: "\<not> contains_any_secret_material secrets v"
    by (auto simp: dispatch_tool_def tool_arguments_def tool_answer_def suspend_tool_def
        split: sum.splits tool_outcome.splits if_splits)
  have "\<not> contains s secret" if "secret \<in> set secrets" "secret \<noteq> []" "occurs_in s v" for secret s
    using clean_occurs [OF that(3) v] that(1,2) by (auto simp: shows_secret_def list_ex_iff)
  with r resolved_input [OF r(2)] show ?thesis by blast
qed


lemma secret_call:
  "dispatch_tool demo_host ''echo'' [''read''] secret_input ''s'' demo_tool (trial_store crew) = (Inr (JBool True), trial_store crew) \<and>
   secret_handles secret_input = [JObject [(''$secret'', JString ''key'')]] \<and>
   map (material demo_host) (secret_handles secret_input) = [Some ''hunter2'']"
  by code_simp

theorem tool_secrets_stay_inside_witness:
  "\<exists>resolved. resolve_secret_handles demo_host secret_input = Inr (resolved, [''hunter2'']) \<and>
     \<not> contains_secret_handle resolved \<and> authorize demo_host (Target_Tool ''echo'') [''read''] = Inr ()"
proof -
  from secret_call have "dispatch_tool demo_host ''echo'' [''read''] secret_input ''s'' demo_tool (trial_store crew)
      = (Inr (JBool True), trial_store crew)" by blast
  from tool_secrets_stay_inside [OF this] obtain resolved secrets where
    "resolve_secret_handles demo_host secret_input = Inr (resolved, secrets)" "\<not> contains_secret_handle resolved"
    "map (material demo_host) (secret_handles secret_input) = map Some secrets"
    "authorize demo_host (Target_Tool ''echo'') [''read''] = Inr ()" by blast
  with secret_call show ?thesis by auto
qed

end
