(* ===== verification/Workflow_Ids.thy ===== *)
theory Workflow_Ids
  imports Workflow_Facts Workflow_Run
begin

text \<open>
  The ids under which a run keeps its steps.  Below a map the id of a step carries the scope
  of the map items; the text of \<open>instance_id\<close> claims that ids of different instances never
  coincide, with each other or with a declared step.
\<close>

section \<open>Decimal numerals\<close>

lemma index_digits: "c \<in> set (decimal n) \<Longrightarrow> 48 \<le> byte c \<and> byte c \<le> 57"
proof (induction n rule: decimal.induct)
  case (1 n)
  then show ?case by (subst (asm) decimal.simps) (auto split: if_splits)
qed

lemma foldl_digits: "foldl (\<lambda>n c. 10 * n + (byte c - 48)) 0 (decimal n) = n"
proof (induction n rule: decimal.induct)
  case (1 n)
  then show ?case by (subst decimal.simps) auto
qed

lemma index_inject [simp]: "decimal m = decimal n \<longleftrightarrow> m = n"
  by (metis foldl_digits)

lemma decimal_no: "byte c < 48 \<or> 57 < byte c \<Longrightarrow> c \<notin> set (decimal n)"
  using index_digits by fastforce

section \<open>Scopes\<close>

definition index_text :: "nat \<Rightarrow> string" where
  "index_text n = ''['' @ decimal n @ '']''"

definition scope_of :: "nat list \<Rightarrow> string" where
  "scope_of p = ''root'' @ concat (map index_text p)"

lemma split_at:
  assumes "x \<notin> set xs" "x \<notin> set ys"
  shows "xs @ x # us = ys @ x # vs \<longleftrightarrow> xs = ys \<and> us = vs"
  using assms by (auto simp: append_eq_append_conv2 append_eq_Cons_conv Cons_eq_append_conv)

lemma scope_inject [simp]: "scope_of p = scope_of q \<longleftrightarrow> p = q"
proof -
  have "concat (map index_text p) = concat (map index_text q) \<Longrightarrow> p = q"
  proof (induction p arbitrary: q)
    case Nil
    then show ?case by (cases q) (simp_all add: index_text_def)
  next
    case (Cons n p)
    then obtain m r where q: "q = m # r" by (cases q) (simp_all add: index_text_def)
    have "CHR '']'' \<notin> set (decimal k)" for k by (rule decimal_no) (simp add: of_char_def)
    moreover have "concat (map index_text (k # ks)) = CHR ''['' # (decimal k @ CHR '']'' # concat (map index_text ks))"
      for k ks by (simp add: index_text_def)
    ultimately have "decimal n = decimal m \<and> concat (map index_text p) = concat (map index_text r)"
      using Cons.prems q by (simp only: list.inject split_at simp_thms)
    with q Cons.IH show ?case by simp
  qed
  then show ?thesis by (auto simp: scope_of_def)
qed

lemma scope_root [simp]: "scope_of p = ''root'' \<longleftrightarrow> p = []"
  by (cases p) (simp_all add: scope_of_def index_text_def)

lemma scope_snoc: "scope_of (p @ [n]) = scope_of p @ ''['' @ decimal n @ '']''"
  by (simp add: scope_of_def index_text_def)

lemma scope_no_at: "CHR ''@'' \<notin> set (scope_of p)"
proof -
  have "CHR ''@'' \<notin> set (decimal k)" for k by (rule decimal_no) (simp add: of_char_def)
  then show ?thesis by (auto simp: scope_of_def index_text_def)
qed

lemma scope_last: "p \<noteq> [] \<Longrightarrow> last (scope_of p) = CHR '']''"
  by (induction p rule: rev_induct) (simp_all add: scope_of_def index_text_def)

section \<open>Instances\<close>

lemma free_id_padded: "\<exists>n. free_id steps i = i @ replicate n (CHR ''@'')"
proof (induction steps i rule: free_id.induct)
  case (1 steps i)
  show ?case
  proof (cases "has_key steps i")
    case True
    with 1 obtain n where "free_id steps (i @ ''@'') = (i @ ''@'') @ replicate n (CHR ''@'')" by blast
    then have "free_id steps i = i @ replicate (Suc n) (CHR ''@'')"
      using True by (subst free_id.simps) simp
    then show ?thesis by blast
  next
    case False
    then have "free_id steps i = i @ replicate 0 (CHR ''@'')" by (subst free_id.simps) simp
    then show ?thesis by blast
  qed
qed

lemma free_id_free: "\<not> has_key steps (free_id steps i)"
proof (induction steps i rule: free_id.induct)
  case (1 steps i)
  then show ?case by (cases "has_key steps i") (simp_all add: free_id.simps [of steps i])
qed

lemma unpad:
  assumes "a \<noteq> []" "last a \<noteq> x" "b \<noteq> []" "last b \<noteq> x" "a @ replicate m x = b @ replicate n x"
  shows "a = b"
proof -
  have drop: "dropWhile (\<lambda>c. c = x) (rev (c @ replicate k x)) = rev c" if "c \<noteq> []" "last c \<noteq> x" for c k
    using that by (cases c rule: rev_cases) (simp_all add: dropWhile_append)
  have "rev a = rev b" using assms drop [of a m] drop [of b n] by (metis (no_types))
  then show ?thesis by simp
qed

text \<open>The id of a step in the scope of an index path.\<close>

definition id_at :: "step_map \<Rightarrow> nat list \<Rightarrow> string \<Rightarrow> string" where
  "id_at steps p i = instance_id steps \<lparr>rc_items = [], rc_scope = scope_of p, rc_index_path = p\<rparr> i"

lemma instance_id_at: "rc_scope c = scope_of p \<Longrightarrow> instance_id steps c i = id_at steps p i"
  by (simp add: id_at_def instance_id_def)

lemma id_at_root [simp]: "id_at steps [] i = i"
  by (simp add: id_at_def instance_id_def)

lemma id_at_scoped: "p \<noteq> [] \<Longrightarrow> id_at steps p i = free_id steps (i @ ''@'' @ scope_of p)"
  by (simp add: id_at_def instance_id_def)

theorem instance_ids_apart:
  assumes "has_key steps i" "has_key steps j"
  shows "id_at steps p i = id_at steps q j \<longleftrightarrow> p = q \<and> i = j"
proof
  assume e: "id_at steps p i = id_at steps q j"
  show "p = q \<and> i = j"
  proof (cases "p = [] \<or> q = []")
    case True
    have "\<not> has_key steps (id_at steps r k)" if "r \<noteq> []" for r k
      using that free_id_free by (simp add: id_at_scoped)
    with True e assms show ?thesis by (metis id_at_root)
  next
    case False
    then have n: "p \<noteq> []" "q \<noteq> []" by simp_all
    obtain k m where "(i @ ''@'' @ scope_of p) @ replicate k (CHR ''@'') = (j @ ''@'' @ scope_of q) @ replicate m (CHR ''@'')"
      using e n free_id_padded by (metis id_at_scoped)
    moreover have "last (i @ ''@'' @ scope_of p) \<noteq> CHR ''@''" "last (j @ ''@'' @ scope_of q) \<noteq> CHR ''@''"
      using scope_last [OF n(1)] scope_last [OF n(2)] by (simp_all add: scope_of_def)
    ultimately have "i @ ''@'' @ scope_of p = j @ ''@'' @ scope_of q"
      by (metis (no_types) append_is_Nil_conv list.distinct(1) unpad)
    from arg_cong [OF this, of rev] have "rev (scope_of p) @ CHR ''@'' # rev i = rev (scope_of q) @ CHR ''@'' # rev j"
      by simp
    then have "rev (scope_of p) = rev (scope_of q) \<and> rev i = rev j"
      using scope_no_at by (subst (asm) split_at) simp_all
    then show ?thesis by simp
  qed
qed simp

end
