(* ===== verification/Workflow_Tree.thy ===== *)
theory Workflow_Tree
  imports Workflow_Ids Workflow_Exec "HOL-Library.Sublist"
begin

text \<open>
  Where the tasks of a run sit: each node of the task tree belongs to a node of the plan, its
  context has entered the maps around that node, and the instances in the store have the
  topology of their step.  \<open>placed\<close> and \<open>store_ok\<close> say so, and every poll keeps them.
\<close>

section \<open>Positions in the plan\<close>

lemma node_at_append: "node_at p q = Some r \<Longrightarrow> node_at p (q @ s) = node_at r s"
  by (induction p q rule: node_at.induct) (auto split: if_splits)

lemma maps_append: "node_at p q = Some r \<Longrightarrow> maps_around p (q @ s) = maps_around p q + maps_around r s"
  by (induction p q rule: node_at.induct) (auto split: if_splits)

lemma leaf_ids: "i \<in> set (plan_step_ids p) \<longleftrightarrow> (\<exists>q. leaf_at p i q)"
proof -
  have "i \<in> set (plan_step_ids p) \<longleftrightarrow> count_list (plan_step_ids p) i \<noteq> 0" by (simp add: count_list_0_iff)
  also have "\<dots> \<longleftrightarrow> locate p i [] 0 \<noteq> []" using locate_count(1) [of p i "[]" 0] by (metis length_0_conv)
  also have "\<dots> \<longleftrightarrow> set (locate p i [] 0) \<noteq> {}" by simp
  also have "\<dots> \<longleftrightarrow> (\<exists>q. leaf_at p i q)" unfolding locate_leaves by auto
  finally show ?thesis .
qed

lemma leaf_topology:
  assumes "distinct (plan_step_ids p)" "leaf_at p i q" "length path \<le> maps_around p q"
  shows "step_topology_of p i path =
    Some \<lparr>tp_planned_step_id = i, tp_plan_node_path = q, tp_map_index_path = path\<rparr>"
proof -
  have "i \<in> set (plan_step_ids p)" using assms(2) leaf_ids by blast
  then have "length (locate p i [] 0) = 1" using assms(1) by (simp add: locate_count count_list_distinct)
  moreover have "(q, maps_around p q) \<in> set (locate p i [] 0)" using assms(2) by (simp add: locate_leaves)
  ultimately have "locate p i [] 0 = [(q, maps_around p q)]" by (auto simp: length_Suc_conv)
  with assms(3) show ?thesis by (simp add: step_topology_of_def)
qed

section \<open>The environment of an accepted workflow\<close>

definition steps_map :: "run_env \<Rightarrow> step_map" where
  "steps_map E = cw_steps (en_compiled E)"

definition whole_plan :: "run_env \<Rightarrow> plan" where
  "whole_plan E = rd_plan (cw_definition (en_compiled E))"

definition accepted_env :: "run_env \<Rightarrow> bool" where
  "accepted_env E = (\<exists>J d. compile J d = Inr (en_compiled E))"

lemma accepted_facts:
  assumes "accepted_env E"
  shows "distinct (plan_step_ids (whole_plan E))" "set (plan_step_ids (whole_plan E)) = set (keys (steps_map E))"
    "map_get (steps_map E) i = Some sd \<Longrightarrow> sf_id sd = i"
proof -
  from assms obtain J d where "compile J d = Inr (en_compiled E)" by (auto simp: accepted_env_def)
  then obtain steps where c: "en_compiled E = \<lparr>cw_definition = d, cw_steps = steps\<rparr>"
    "step_map_of steps (rd_steps d)" "validate_run_plan (rd_plan d) steps = Inr ()"
    by (rule compile_Inr)
  note validate_run_plan_Inr [OF c(3)]
  with c show "distinct (plan_step_ids (whole_plan E))"
    "set (plan_step_ids (whole_plan E)) = set (keys (steps_map E))"
    "map_get (steps_map E) i = Some sd \<Longrightarrow> sf_id sd = i"
    by (auto simp: whole_plan_def steps_map_def step_map_of_def)
qed

definition in_scope_of :: "run_context \<Rightarrow> bool" where
  "in_scope_of c = (rc_scope c = scope_of (rc_index_path c))"

definition at_node :: "run_env \<Rightarrow> plan \<Rightarrow> run_context \<Rightarrow> bool" where
  "at_node E p c =
     (in_scope_of c \<and>
      (\<exists>q. node_at (whole_plan E) q = Some p \<and> maps_around (whole_plan E) q = length (rc_index_path c)))"

definition at_leaf :: "run_env \<Rightarrow> string \<Rightarrow> run_context \<Rightarrow> bool" where
  "at_leaf E i c =
     (in_scope_of c \<and>
      (\<exists>q. leaf_at (whole_plan E) i q \<and> length (rc_index_path c) \<le> maps_around (whole_plan E) q))"

lemma at_root: "at_node E (whole_plan E) root_context"
  unfolding at_node_def in_scope_of_def
  by (intro conjI exI [of _ "[]"]) (simp_all add: root_context_def scope_of_def)

lemma at_child:
  assumes "at_node E p c" "node_at p [n] = Some r" "maps_around p [n] = 0"
  shows "at_node E r c"
proof -
  from assms(1) obtain q where q: "node_at (whole_plan E) q = Some p"
    "maps_around (whole_plan E) q = length (rc_index_path c)" "in_scope_of c" by (auto simp: at_node_def)
  then have "node_at (whole_plan E) (q @ [n]) = Some r"
    "maps_around (whole_plan E) (q @ [n]) = length (rc_index_path c)"
    using assms(2,3) by (simp_all add: node_at_append maps_append)
  with q(3) show ?thesis by (auto simp: at_node_def)
qed

lemma at_children:
  "at_node E (P_Sequence nodes) c \<Longrightarrow> p \<in> set nodes \<Longrightarrow> at_node E p c"
  "at_node E (P_Parallel nodes) c \<Longrightarrow> p \<in> set nodes \<Longrightarrow> at_node E p c"
  "at_node E (P_Choice r a b) c \<Longrightarrow> at_node E a c"
  "at_node E (P_Choice r a b) c \<Longrightarrow> at_node E b c"
  "at_node E (P_Retry node m d) c \<Longrightarrow> at_node E node c"
  by (auto simp: in_set_conv_nth intro: at_child [where n = 0] at_child [where n = 1] at_child)

lemma at_map:
  assumes "at_node E (P_Map r x body) c"
  shows "at_node E body (child_context x v n c)"
proof -
  from assms obtain q where q: "node_at (whole_plan E) q = Some (P_Map r x body)"
    "maps_around (whole_plan E) q = length (rc_index_path c)" "in_scope_of c" by (auto simp: at_node_def)
  then have "node_at (whole_plan E) (q @ [0]) = Some body"
    "maps_around (whole_plan E) (q @ [0]) = Suc (length (rc_index_path c))"
    by (simp_all add: node_at_append maps_append)
  with q(3) show ?thesis
    by (auto simp: at_node_def in_scope_of_def child_context_def scope_snoc intro!: exI [of _ "q @ [0]"])
qed

lemma at_node_leaf:
  assumes "at_node E p c" "i \<in> set (plan_step_ids p)"
  shows "at_leaf E i c"
proof -
  from assms obtain q r where q: "node_at (whole_plan E) q = Some p" "leaf_at p i r"
    "maps_around (whole_plan E) q = length (rc_index_path c)" "in_scope_of c"
    by (auto simp: at_node_def leaf_ids)
  then have "leaf_at (whole_plan E) i (q @ r)"
    "length (rc_index_path c) \<le> maps_around (whole_plan E) (q @ r)"
    by (simp_all add: leaf_at_def node_at_append maps_append)
  with q(4) show ?thesis by (auto simp: at_leaf_def)
qed

lemma at_leaf_key:
  assumes "accepted_env E" "at_leaf E i c"
  shows "has_key (steps_map E) i" "own_id E c i = id_at (steps_map E) (rc_index_path c) i"
    "\<exists>q. step_topology_of (whole_plan E) i (rc_index_path c) =
      Some \<lparr>tp_planned_step_id = i, tp_plan_node_path = q, tp_map_index_path = rc_index_path c\<rparr>"
proof -
  from assms(2) obtain q where q: "leaf_at (whole_plan E) i q"
    "length (rc_index_path c) \<le> maps_around (whole_plan E) q" "in_scope_of c" by (auto simp: at_leaf_def)
  then have "i \<in> set (plan_step_ids (whole_plan E))" using leaf_ids by blast
  then show "has_key (steps_map E) i" using accepted_facts(2) [OF assms(1)] by (simp add: has_key_iff keys_map_get)
  show "own_id E c i = id_at (steps_map E) (rc_index_path c) i"
    using q(3) by (simp add: own_id_def instance_id_at in_scope_of_def steps_map_def)
  show "\<exists>q. step_topology_of (whole_plan E) i (rc_index_path c) =
      Some \<lparr>tp_planned_step_id = i, tp_plan_node_path = q, tp_map_index_path = rc_index_path c\<rparr>"
    using leaf_topology [OF accepted_facts(1) [OF assms(1)] q(1,2)] by blast
qed

section \<open>The instances in the store\<close>

definition instance_of :: "run_env \<Rightarrow> string \<Rightarrow> nat list \<Rightarrow> string \<Rightarrow> step_snapshot \<Rightarrow> bool" where
  "instance_of E i p key x =
     (has_key (steps_map E) i \<and> key = id_at (steps_map E) p i \<and>
      (\<exists>q. ws_topology x = Some \<lparr>tp_planned_step_id = i, tp_plan_node_path = q, tp_map_index_path = p\<rparr>))"

definition store_ok :: "run_env \<Rightarrow> run_store \<Rightarrow> bool" where
  "store_ok E st = (\<forall>key x. map_get (steps_of st) key = Some x \<longrightarrow> (\<exists>i p. instance_of E i p key x))"

lemma take_prefix: "take (length p) q = p \<longleftrightarrow> prefix p q"
  by (metis append_eq_conv_conj prefix_def)

lemma instance_in_scope:
  assumes "instance_of E i p key x"
  shows "step_is_in_scope c x j \<longleftrightarrow> i = j \<and> prefix (rc_index_path c) p"
  using assms by (auto simp: instance_of_def step_is_in_scope_def take_prefix)

text \<open>A change of the store that keeps the instances: no key goes, no topology changes.\<close>

definition grows :: "run_store \<Rightarrow> run_store \<Rightarrow> bool" where
  "grows st st' =
     (\<forall>key x. map_get (steps_of st) key = Some x \<longrightarrow>
        (\<exists>y. map_get (steps_of st') key = Some y \<and> ws_topology y = ws_topology x))"

lemma grows_refl: "steps_of st' = steps_of st \<Longrightarrow> grows st st'"
  by (simp add: grows_def)

lemma steps_transition [simp]:
  "steps_of (transition now i kind f st) = wr_steps (f (rs_snapshot st))"
  by (simp add: transition_def Let_def)

lemma steps_with_step:
  "map_get (wr_steps (with_step key f s)) k =
     (if k = key then map_option f (map_get (wr_steps s) k) else map_get (wr_steps s) k)"
  by (auto simp: with_step_def split: option.splits)

lemma steps_with_entry:
  "map_get (wr_steps (with_entry key x f s)) k =
     (if k = key then Some (f (case map_get (wr_steps s) k of None \<Rightarrow> x | Some y \<Rightarrow> y)) else map_get (wr_steps s) k)"
  by (simp add: with_entry_def)

definition keeps_topology :: "(step_snapshot \<Rightarrow> step_snapshot) \<Rightarrow> bool" where
  "keeps_topology f = (\<forall>x. ws_topology (f x) = ws_topology x)"

lemma with_step_ok:
  assumes "store_ok E st" "keeps_topology f"
  shows "store_ok E (transition now i kind (with_step key f) st)" "grows st (transition now i kind (with_step key f) st)"
  using assms
  by (fastforce simp: store_ok_def grows_def steps_with_step keeps_topology_def instance_of_def)+

lemma with_entry_ok:
  assumes "store_ok E st" "keeps_topology f" "\<exists>i p. instance_of E i p key x \<or> map_get (steps_of st) key \<noteq> None"
  shows "store_ok E (transition now i kind (with_entry key x f) st)" "grows st (transition now i kind (with_entry key x f) st)"
proof -
  have f: "ws_topology (f y) = ws_topology y" for y using assms(2) by (simp add: keeps_topology_def)
  have i: "instance_of E j p k (f y) = instance_of E j p k y" for j p k y by (simp add: instance_of_def f)
  show "store_ok E (transition now i kind (with_entry key x f) st)"
    using assms(1,3) by (auto simp: store_ok_def steps_with_entry i split: option.splits)
  show "grows st (transition now i kind (with_entry key x f) st)"
    by (auto simp: grows_def steps_with_entry f)
qed


section \<open>The place of a task\<close>

abbreviation ids_of :: "plan list \<Rightarrow> string set" where
  "ids_of nodes \<equiv> set (concat (map plan_step_ids nodes))"

lemma prefix_more: "prefix p q \<Longrightarrow> prefix p (q @ [n])"
  by simp

text \<open>A task that works only on these steps, below this index path.\<close>

fun inside :: "string set \<Rightarrow> nat list \<Rightarrow> task \<Rightarrow> bool" where
  "inside ids p (Ready q c) = (set (plan_step_ids q) \<subseteq> ids \<and> prefix p (rc_index_path c))"
| "inside ids p (In_Step sd s c) = (sf_id sd \<in> ids \<and> prefix p (rc_index_path c))"
| "inside ids p (In_Sequence t rest c) = (inside ids p t \<and> ids_of rest \<subseteq> ids \<and> prefix p (rc_index_path c))"
| "inside ids p (In_Parallel nodes ts c) =
     ((\<forall>t \<in> set ts. inside ids p t) \<and> ids_of nodes \<subseteq> ids \<and> prefix p (rc_index_path c))"
| "inside ids p (Draining nodes e c) = (ids_of nodes \<subseteq> ids \<and> prefix p (rc_index_path c))"
| "inside ids p (Cancelling ks nodes e c) = (ids_of nodes \<subseteq> ids \<and> prefix p (rc_index_path c))"
| "inside ids p (In_Map ts) = (\<forall>t \<in> set ts. inside ids p t)"
| "inside ids p (In_Retry t node a l c) =
     (inside ids p t \<and> set (plan_step_ids node) \<subseteq> ids \<and> prefix p (rc_index_path c))"
| "inside ids p (Saving_Retry node a l c) = (set (plan_step_ids node) \<subseteq> ids \<and> prefix p (rc_index_path c))"
| "inside ids p (Sleeping node a l c) = (set (plan_step_ids node) \<subseteq> ids \<and> prefix p (rc_index_path c))"
| "inside ids p (Skipping instances leaves reason c t) = inside ids p t"
| "inside ids p (Returned r) = True"

lemma inside_mono: "inside ids p t \<Longrightarrow> ids \<subseteq> ids' \<Longrightarrow> inside ids' p t"
  by (induction t) auto

text \<open>The place of every task, and instances to be skipped that are or may be in the store.\<close>

definition may_skip :: "run_env \<Rightarrow> run_store \<Rightarrow> run_context \<Rightarrow> string \<times> string \<Rightarrow> bool" where
  "may_skip E st c e =
     (at_leaf E (fst e) c \<and> (snd e = own_id E c (fst e) \<or> map_get (steps_of st) (snd e) \<noteq> None))"

fun placed :: "run_env \<Rightarrow> run_store \<Rightarrow> task \<Rightarrow> bool" where
  "placed E st (Ready q c) = at_node E q c"
| "placed E st (In_Step sd s c) = at_leaf E (sf_id sd) c"
| "placed E st (In_Sequence t rest c) = (placed E st t \<and> (\<forall>n \<in> set rest. at_node E n c))"
| "placed E st (In_Parallel nodes ts c) =
     ((\<forall>n \<in> set nodes. at_node E n c) \<and>
      (\<forall>t \<in> set ts. placed E st t \<and> inside (ids_of nodes) (rc_index_path c) t))"
| "placed E st (Draining nodes e c) = (\<forall>n \<in> set nodes. at_node E n c)"
| "placed E st (Cancelling ks nodes e c) = (\<forall>n \<in> set nodes. at_node E n c)"
| "placed E st (In_Map ts) = (\<forall>t \<in> set ts. placed E st t)"
| "placed E st (In_Retry t node a l c) = (placed E st t \<and> at_node E node c)"
| "placed E st (Saving_Retry node a l c) = at_node E node c"
| "placed E st (Sleeping node a l c) = at_node E node c"
| "placed E st (Skipping instances leaves reason c t) =
     (placed E st t \<and> (\<forall>i \<in> set leaves. at_leaf E i c) \<and> (\<forall>e \<in> set instances. may_skip E st c e))"
| "placed E st (Returned r) = True"

lemma placed_grows: "placed E st t \<Longrightarrow> grows st st' \<Longrightarrow> placed E st' t"
proof (induction t)
  case (Skipping instances leaves reason c t)
  then show ?case by (fastforce simp: may_skip_def grows_def)
qed auto

section \<open>Steps of the tree\<close>

text \<open>What a poll keeps: the store, the place of the task, and the steps it works on.\<close>

definition keeps_place :: "run_env \<Rightarrow> task \<Rightarrow> run_store \<Rightarrow> task \<Rightarrow> run_store \<Rightarrow> bool" where
  "keeps_place E t st t' st' =
     (store_ok E st \<and> placed E st t \<longrightarrow>
      store_ok E st' \<and> grows st st' \<and> placed E st' t' \<and> (\<forall>ids p. inside ids p t \<longrightarrow> inside ids p t'))"

lemma keeps_place_same:
  assumes "steps_of st' = steps_of st" "placed E st t \<Longrightarrow> placed E st t'" "\<And>ids p. inside ids p t \<Longrightarrow> inside ids p t'"
  shows "keeps_place E t st t' st'"
  using assms grows_refl [OF assms(1)] placed_grows [of E st t' st'] by (auto simp: keeps_place_def store_ok_def)

lemma placed_enter:
  assumes "accepted_env E" "at_node E p c"
  shows "placed E st (enter E p c st)"
proof (cases p)
  case (P_Step i)
  have "at_leaf E (sf_id sd) c" if "map_get (steps_map E) i = Some sd" for sd
    using assms that accepted_facts(3) [OF assms(1)] by (auto simp: P_Step intro: at_node_leaf)
  then show ?thesis
    by (auto simp: P_Step enter_def enter_step_def refuse_node_def steps_map_def split: option.splits sum.splits)
next
  case (P_Sequence nodes)
  note k = at_children(1) [OF assms(2) [unfolded P_Sequence]]
  show ?thesis by (auto simp: P_Sequence enter_def k split: list.splits)
next
  case (P_Parallel nodes)
  note k = at_children(2) [OF assms(2) [unfolded P_Parallel]]
  show ?thesis by (auto simp: P_Parallel enter_def k)
next
  case (P_Choice r a b)
  note k = at_children(3,4) [OF assms(2) [unfolded P_Choice]]
  have "at_leaf E i c" if "i \<in> set (plan_step_ids a) \<or> i \<in> set (plan_step_ids b)" for i
    using that k at_node_leaf by blast
  with k show ?thesis
    by (simp add: P_Choice enter_def enter_choice_def refuse_node_def Let_def split: option.splits sum.splits)
next
  case (P_Map r x body)
  note k = at_map [OF assms(2) [unfolded P_Map]]
  show ?thesis
    by (auto simp: P_Map enter_def enter_map_def refuse_node_def Let_def k split: option.splits sum.splits)
next
  case (P_Retry node m d)
  note k = at_children(5) [OF assms(2) [unfolded P_Retry]]
  show ?thesis by (simp add: P_Retry enter_def refuse_node_def k)
qed

lemma inside_enter:
  assumes "accepted_env E" "inside ids q (Ready p c)"
  shows "inside ids q (enter E p c st)"
proof (cases p)
  case (P_Step i)
  have "sf_id sd = i" if "map_get (steps_map E) i = Some sd" for sd
    using that accepted_facts(3) [OF assms(1)] by simp
  with assms(2) show ?thesis
    by (auto simp: P_Step enter_def enter_step_def refuse_node_def steps_map_def split: option.splits sum.splits)
next
  case (P_Sequence nodes)
  with assms(2) show ?thesis by (cases nodes) (simp_all add: enter_def)
next
  case (P_Map r x body)
  with assms(2) show ?thesis
    by (auto simp: enter_def enter_map_def refuse_node_def Let_def child_context_def
        split: option.splits sum.splits)
qed (use assms(2) in \<open>auto simp: enter_def enter_choice_def refuse_node_def Let_def
      split: option.splits sum.splits list.splits\<close>)

lemma place_enter:
  assumes "accepted_env E"
  shows "keeps_place E (Ready p c) st (enter E p c st) st"
  by (rule keeps_place_same) (simp_all add: placed_enter inside_enter assms del: inside.simps)

lemma place_next:
  "keeps_place E (In_Sequence t rest c) st (next_in_sequence r rest c) st"
  by (rule keeps_place_same)
    (auto simp: next_in_sequence_def UN_subset_iff intro: at_node_leaf split: sum.splits list.splits)

lemma place_context:
  assumes "keeps_place E t st t' st'"
  shows "keeps_place E (In_Sequence t rest c) st (In_Sequence t' rest c) st'"
    "keeps_place E (In_Retry t node a l c) st (In_Retry t' node a l c) st'"
  using assms by (auto simp: keeps_place_def)

lemma place_branch:
  assumes "keeps_place E (ts ! n) st t' st'" "n < length ts"
  shows "keeps_place E (In_Parallel nodes ts c) st (In_Parallel nodes (ts[n := t']) c) st'"
    "keeps_place E (In_Map ts) st (In_Map (ts[n := t'])) st'"
proof -
  have sub: "u = t' \<or> u \<in> set ts" if "u \<in> set (ts[n := t'])" for u
    using that set_update_subset_insert [of ts n t'] by blast
  have mem: "ts ! n \<in> set ts" using assms(2) by simp
  have k: "store_ok E st'" "grows st st'" "placed E st' t'" "\<And>ids p. inside ids p (ts ! n) \<Longrightarrow> inside ids p t'"
    if "store_ok E st" "placed E st (ts ! n)"
    using assms(1) that by (auto simp: keeps_place_def)
  show "keeps_place E (In_Parallel nodes ts c) st (In_Parallel nodes (ts[n := t']) c) st'"
    unfolding keeps_place_def
  proof (intro impI, elim conjE, intro conjI allI impI)
    assume s: "store_ok E st" and p: "placed E st (In_Parallel nodes ts c)"
    then have n: "placed E st (ts ! n)" "inside (ids_of nodes) (rc_index_path c) (ts ! n)" using mem by simp_all
    note k = k [OF s n(1)]
    show "store_ok E st'" "grows st st'" by (fact k)+
    have "placed E st' u \<and> inside (ids_of nodes) (rc_index_path c) u" if "u \<in> set (ts[n := t'])" for u
      using sub [OF that] k n p placed_grows by auto
    with p show "placed E st' (In_Parallel nodes (ts[n := t']) c)" by simp
    show "inside ids q (In_Parallel nodes (ts[n := t']) c)" if "inside ids q (In_Parallel nodes ts c)" for ids q
      using that sub mem k(4) [of ids q] by auto
  qed
  show "keeps_place E (In_Map ts) st (In_Map (ts[n := t'])) st'"
    unfolding keeps_place_def
  proof (intro impI, elim conjE, intro conjI allI impI)
    assume s: "store_ok E st" and p: "placed E st (In_Map ts)"
    note k = k [OF s]
    have n: "placed E st (ts ! n)" using mem p by simp
    note k = k [OF n]
    show "store_ok E st'" "grows st st'" by (fact k)+
    have "placed E st' u" if "u \<in> set (ts[n := t'])" for u
      using sub [OF that] k p placed_grows by auto
    then show "placed E st' (In_Map (ts[n := t']))" by simp
    show "inside ids q (In_Map (ts[n := t']))" if "inside ids q (In_Map ts)" for ids q
      using that sub mem k(4) [of ids q] by auto
  qed
qed

lemma keeps_placeI:
  assumes "store_ok E st \<Longrightarrow> placed E st t \<Longrightarrow> store_ok E st' \<and> grows st st'"
    and "placed E st' t \<Longrightarrow> placed E st' t'" "\<And>ids p. inside ids p t \<Longrightarrow> inside ids p t'"
  shows "keeps_place E t st t' st'"
  using assms placed_grows [of E st t st'] by (auto simp: keeps_place_def)

lemma commit_Inr: "commit po i kind f st = Inr st' \<Longrightarrow> st' = transition (po_now po) i kind f st"
  by (auto simp: commit_def split: option.splits)

lemma steps_of_checkpoint:
  "checkpoint_usage po name st = Inr st' \<Longrightarrow> steps_of st' = steps_of st"
  "checkpoint_agent_usage po name st = Inr st' \<Longrightarrow> steps_of st' = steps_of st"
  by (auto simp: checkpoint_usage_def checkpoint_agent_usage_def dest!: commit_Inr)

lemma steps_of_release [simp]: "steps_of (release sd st) = steps_of st"
  by (simp add: release_def)

lemma same_steps: "steps_of st' = steps_of st \<Longrightarrow> store_ok E st' = store_ok E st \<and> grows s st' = grows s st"
  by (simp add: store_ok_def grows_def)

lemma own_instance:
  assumes "accepted_env E" "at_leaf E i c"
  shows "instance_of E i (rc_index_path c) (own_id E c i) (placeholder E c i key status h)"
  using at_leaf_key [OF assms] by (simp add: instance_of_def placeholder_def whole_plan_def)

lemma keeps_topology_changes [simp]:
  "keeps_topology start_step" "keeps_topology (complete_step v)" "keeps_topology (end_step status e)"
  "keeps_topology (\<lambda>x. x\<lparr>ws_status := s1\<rparr>)"
  "keeps_topology (\<lambda>x. x\<lparr>ws_status := s1, ws_input_hash := h, ws_output := None, ws_failure := None\<rparr>)"
  "keeps_topology (\<lambda>x. x\<lparr>ws_status := s1, ws_output := None, ws_failure := f1\<rparr>)"
  by (simp_all add: keeps_topology_def start_step_def complete_step_def end_step_def)

section \<open>Polls of one step\<close>

lemma or_else_sum: "or_else r f = (case r of Inl e \<Rightarrow> Inl e | Inr x \<Rightarrow> f x)"
  by (cases r) simp_all

lemma poll_step_task:
  assumes "poll_step E po sd s c st = (t', st')"
  shows "(\<exists>r. t' = Returned r) \<or> (\<exists>s'. t' = In_Step sd s' c)"
  using assms
  by (cases s) (auto simp: step_task_def cancel_waiting_def or_else_sum split: sum.splits if_splits prod.splits)

lemma record_result_commit:
  obtains kind change a where "record_result E po sd key r st =
      (case commit po (Some key) kind (with_step key change) st of Inl m \<Rightarrow> (Inl m, st) | Inr st' \<Rightarrow> (a, st'))"
    and "keeps_topology change" "\<And>x. \<not> active (change x)"
proof (cases r)
  case (Inl e)
  note d = Inl record_result_def active_def end_step_def keeps_topology_def
  consider (cancelled) "rf_code e = Cancelled" | (suspended) "rf_code e = Suspended"
    | (failed) "rf_code e \<noteq> Cancelled" "rf_code e \<noteq> Suspended" by blast
  then show thesis
  proof cases
    case cancelled
    show thesis
      by (rule that [of "Inl e" E_Step_Cancelled
            "end_step Rs_Cancelled (failure Cancelled ''workflow branch cancelled'' False)"])
        (simp_all add: d cancelled)
  next
    case suspended
    show thesis
      by (rule that [of "Inl e" "E_Step_Suspended (rf_message e)"
            "end_step Rs_Suspended (failure Suspended (rf_message e) True)"])
        (simp_all add: d suspended)
  next
    case failed
    show thesis
      by (rule that [of "after_failure E po sd e" "E_Step_Failed e" "end_step Rs_Failed e"])
        (simp_all add: d failed)
  qed
next
  case (Inr v)
  show thesis
    by (rule that [of "Inr v" "E_Step_Completed v" "complete_step v"])
      (simp_all add: Inr record_result_def active_def complete_step_def keeps_topology_def)
qed

lemma record_result_store:
  assumes "record_result E po sd key r st = (answer, st')"
  shows "st' = st \<or> (\<exists>kind f. st' = transition (po_now po) (Some key) kind (with_step key f) st \<and> keeps_topology f)"
proof -
  obtain kind change a where r: "record_result E po sd key r st =
      (case commit po (Some key) kind (with_step key change) st of Inl m \<Rightarrow> (Inl m, st) | Inr st' \<Rightarrow> (a, st'))"
    and c: "keeps_topology change"
    by (rule record_result_commit [where E = E and po = po and sd = sd and key = key and r = r and st = st]) (rule that)
  show ?thesis
  proof (cases "commit po (Some key) kind (with_step key change) st")
    case (Inl m)
    with assms r show ?thesis by simp
  next
    case (Inr st1)
    with assms r c show ?thesis by (auto dest!: commit_Inr)
  qed
qed

lemma place_step:
  assumes "accepted_env E" and poll: "poll_step E po sd s c st = (t', st')"
  shows "keeps_place E (In_Step sd s c) st t' st'"
proof (rule keeps_placeI)
  assume ok: "store_ok E st" and "placed E st (In_Step sd s c)"
  then have leaf: "at_leaf E (sf_id sd) c" by simp
  have same: "store_ok E st' \<and> grows st st'" if "steps_of st' = steps_of st"
    using ok grows_refl [OF that] by (simp add: store_ok_def that)
  have step: "store_ok E (transition n i k (with_step key f) st) \<and> grows st (transition n i k (with_step key f) st)"
    if "keeps_topology f" for n i k key f
    using with_step_ok [OF ok that] by blast
  show "store_ok E st' \<and> grows st st'"
  proof (cases s)
    case (Queueing input)
    have "store_ok E (transition n i k (queue_step E c (sf_id sd) input) st) \<and>
        grows st (transition n i k (queue_step E c (sf_id sd) input) st)" for n i k
      using with_entry_ok [OF ok] own_instance [OF assms(1) leaf] unfolding queue_step_def
      by (metis keeps_topology_changes(5))
    with poll show ?thesis
      using same by (auto simp: Queueing step_task_def or_else_sum split: sum.splits dest!: commit_Inr)
  next
    case Starting
    with poll show ?thesis
      using same step by (auto split: sum.splits dest!: commit_Inr)
  next
    case Acquiring
    with poll show ?thesis
      using same step by (auto simp: cancel_waiting_def split: sum.splits if_splits dest!: commit_Inr)
  next
    case (Finishing r)
    with poll obtain answer st1 where r: "record_result E po sd (own_id E c (sf_id sd)) r st = (answer, st1)"
      "st' = release sd st1" by (auto split: prod.splits)
    with record_result_store [OF r(1)] show ?thesis
      using same step same_steps [of st' st1] by auto
  qed (use poll same in \<open>auto simp: step_task_def or_else_sum dest: steps_of_checkpoint split: sum.splits\<close>)
next
  show "placed E st' t'" if "placed E st' (In_Step sd s c)" using poll_step_task [OF poll] that by auto
  show "inside ids p t'" if "inside ids p (In_Step sd s c)" for ids p using poll_step_task [OF poll] that by auto
qed

end
