(* ===== verification/Workflow_Place.thy ===== *)
theory Workflow_Place
  imports Workflow_Tree
begin

text \<open>
  What relates a task and the store before a poll to the task and the store after it: the
  locale \<open>poll_relation\<close> asks for each change a poll can make and for the contexts a task may
  stand in, and gives the relation for every poll.  Its first instance: every poll keeps the
  places of \<open>Workflow_Tree\<close>.
\<close>

section \<open>Relations over polls\<close>

locale poll_relation =
  fixes R :: "run_env \<Rightarrow> task \<Rightarrow> run_store \<Rightarrow> task \<Rightarrow> run_store \<Rightarrow> bool"
    and fine :: "poll \<Rightarrow> bool"
  assumes same: "R E t st t st"
    and enter: "R E (Ready p c) st (enter E p c st) st"
    and step: "fine po \<Longrightarrow> poll_step E po sd s c st = (t', st') \<Longrightarrow> R E (In_Step sd s c) st t' st'"
    and next_node: "R E (In_Sequence (Returned r) rest c) st (next_in_sequence r rest c) st"
    and joined: "results ts = Some rs \<Longrightarrow> R E (In_Parallel nodes ts c) st (Returned r) st"
    and failed: "fail_parallel E nodes ts c e st = (t', st') \<Longrightarrow> R E (In_Parallel nodes ts c) st t' st'"
    and drained: "fine po \<Longrightarrow> drain_parallel E po nodes e c st = (t', st') \<Longrightarrow> R E (Draining nodes e c) st t' st'"
    and cancelled: "fine po \<Longrightarrow> poll_cancelling po ks nodes e c st = (t', st') \<Longrightarrow>
      R E (Cancelling ks nodes e c) st t' st'"
    and mapped: "results ts = Some rs \<Longrightarrow> R E (In_Map ts) st (Returned r) st"
    and attempted: "next_attempt E r node a l c st = (t', st') \<Longrightarrow>
      R E (In_Retry (Returned r) node a l c) st t' st'"
    and saved: "fine po \<Longrightarrow> poll_saving po node a l c st = (t', st') \<Longrightarrow> R E (Saving_Retry node a l c) st t' st'"
    and slept: "poll_sleeping node a l c st = (t', st') \<Longrightarrow> R E (Sleeping node a l c) st t' st'"
    and skipped: "fine po \<Longrightarrow> poll_skip E po inst leaves reason c t st = (t', st') \<Longrightarrow>
      R E (Skipping inst leaves reason c t) st t' st'"
    and in_sequence: "R E t st t' st' \<Longrightarrow> R E (In_Sequence t rest c) st (In_Sequence t' rest c) st'"
    and in_retry: "R E t st t' st' \<Longrightarrow> R E (In_Retry t node a l c) st (In_Retry t' node a l c) st'"
    and in_parallel: "R E (ts ! n) st t' st' \<Longrightarrow> n < length ts \<Longrightarrow>
      R E (In_Parallel nodes ts c) st (In_Parallel nodes (ts[n := t']) c) st'"
    and in_map: "R E (ts ! n) st t' st' \<Longrightarrow> n < length ts \<Longrightarrow>
      R E (In_Map ts) st (In_Map (ts[n := t'])) st'"
begin

lemma advance_related:
  assumes "fine po" "advance E po path t st = (t', st')"
  shows "R E t st t' st'"
  using assms
proof (induction E po path t st arbitrary: t' st' rule: advance.induct)
  case (1 E po path p c st)
  then show ?case using enter [of E p c st] by auto
next
  case (2 E po path sd s c st)
  then show ?case using step by simp
next
  case (3 E po path t rest c st)
  show ?case
  proof (cases t)
    case (Returned r)
    with "3.prems" show ?thesis using next_node [of E r rest c st] by (auto simp: returned_def)
  qed (use 3 in_sequence in \<open>auto simp: returned_def simp del: advance.simps split: prod.splits
        simp: advance.simps(3)\<close>)
next
  case (4 E po path nodes ts c st)
  show ?case
  proof (cases path)
    case Nil
    with 4 show ?thesis
      using same joined by (auto simp: join_parallel_def split: option.splits if_splits)
  next
    case (Cons n rest)
    show ?thesis
    proof (cases "n < length ts \<and> returned (ts ! n) = None")
      case True
      obtain u su where u: "advance E po rest (ts ! n) st = (u, su)" by fastforce
      have "R E (ts ! n) st u su" using "4.IH" [OF Cons] True u "4.prems"(1) by blast
      from in_parallel [OF this] "4.prems"(2) Cons True u show ?thesis by auto
    next
      case False
      with 4 Cons show ?thesis
        using same failed by (auto split: if_splits option.splits sum.splits)
    qed
  qed
next
  case (5 E po path nodes e c st)
  then show ?case using drained by simp
next
  case (6 E po path ids nodes e c st)
  then show ?case using cancelled by simp
next
  case (7 E po path ts st)
  show ?case
  proof (cases path)
    case Nil
    with 7 show ?thesis using same mapped by (auto split: option.splits)
  next
    case (Cons n rest)
    show ?thesis
    proof (cases "n < length ts \<and> returned (ts ! n) = None")
      case True
      obtain u su where u: "advance E po rest (ts ! n) st = (u, su)" by fastforce
      have "R E (ts ! n) st u su" using "7.IH" [OF Cons] True u "7.prems"(1) by blast
      from in_map [OF this] "7.prems"(2) Cons True u show ?thesis by auto
    next
      case False
      with 7 Cons show ?thesis using same by (auto split: if_splits option.splits)
    qed
  qed
next
  case (8 E po path t node attempt limit c st)
  show ?case
  proof (cases t)
    case (Returned r)
    with "8.prems" show ?thesis using attempted by (simp add: returned_def)
  qed (use 8 in_retry in \<open>auto simp: returned_def simp del: advance.simps split: prod.splits
        simp: advance.simps(8)\<close>)
next
  case (9 E po path node attempt limit c st)
  then show ?case using saved by simp
next
  case (10 E po path node attempt limit c st)
  then show ?case using slept by simp
next
  case (11 E po path instances leaves reason c t st)
  then show ?case using skipped by simp
next
  case (12 E po path r st)
  then show ?case using same by simp
qed

end

section \<open>Every poll keeps the places\<close>

lemma place_skip:
  assumes "accepted_env E" and poll: "poll_skip E po inst leaves reason c t st = (t', st')"
  shows "keeps_place E (Skipping inst leaves reason c t) st t' st'"
proof (cases inst)
  case (Cons e rest)
  obtain i key where e: "e = (i, key)" by fastforce
  show ?thesis
  proof (rule keeps_placeI)
    assume ok: "store_ok E st" and "placed E st (Skipping inst leaves reason c t)"
    then have skip: "at_leaf E i c" "key = own_id E c i \<or> map_get (steps_of st) key \<noteq> None"
      by (simp_all add: Cons e may_skip_def)
    note own = own_instance [OF assms(1) skip(1), of key Rs_Skipped "[]"]
    have "\<exists>j p. instance_of E j p key (placeholder E c i key Rs_Skipped []) \<or> map_get (steps_of st) key \<noteq> None"
      using own skip(2) by auto
    note with_entry_ok [OF ok _ this]
    then have "store_ok E (transition n j k (skip_step E c i key reason) st) \<and>
        grows st (transition n j k (skip_step E c i key reason) st)" for n j k
      by (simp add: skip_step_def)
    with poll show "store_ok E st' \<and> grows st st'"
      using ok grows_refl [OF refl, of st] by (auto simp: poll_skip_def Cons e split: sum.splits dest!: commit_Inr)
  qed (use poll in \<open>auto simp: poll_skip_def Cons e split: sum.splits\<close>)
next
  case Nil
  show ?thesis
  proof (cases leaves)
    case Nil
    with poll \<open>inst = []\<close> show ?thesis by (auto simp: poll_skip_def intro: keeps_place_same)
  next
    case (Cons i rest)
    have r: "t' = Skipping (in_scope_instances E c i st) rest reason c t" "st' = st"
      using poll by (auto simp: poll_skip_def \<open>inst = []\<close> Cons)
    have "may_skip E st c e" if "e \<in> set (in_scope_instances E c i st)" "at_leaf E i c" for e
    proof (cases "filter (\<lambda>(key, x). step_is_in_scope c x i) (steps_of st) = []")
      case True
      with that show ?thesis by (simp add: in_scope_instances_def may_skip_def)
    next
      case False
      have "e \<in> set (map (\<lambda>(key, x). (i, key)) (filter (\<lambda>(key, x). step_is_in_scope c x i) (steps_of st)))"
        using that False by (simp add: in_scope_instances_def split: list.splits del: set_map)
      then have "fst e = i" "snd e \<in> fst ` set (steps_of st)" by force+
      with that(2) show ?thesis by (simp add: may_skip_def map_get_def map_of_eq_None_iff)
    qed
    then show ?thesis
      unfolding r by (intro keeps_place_same) (auto simp: Cons)
  qed
qed

lemma place_cancelling:
  assumes "poll_cancelling po ks nodes e c st = (t', st')"
  shows "keeps_place E (Cancelling ks nodes e c) st t' st'"
proof (rule keeps_placeI)
  assume ok: "store_ok E st"
  show "store_ok E st' \<and> grows st st'"
    using assms ok with_step_ok [OF ok keeps_topology_changes(3)] grows_refl [OF refl, of st]
    by (auto simp: poll_cancelling_def cancel_sibling_def split: list.splits sum.splits dest!: commit_Inr)
qed (use assms in \<open>auto simp: poll_cancelling_def split: list.splits sum.splits\<close>)

lemma drain_parallel_store:
  assumes "drain_parallel E po nodes e c st = (t', st')"
  shows "steps_of st' = steps_of st"
  using assms
  by (auto simp: drain_parallel_def Let_def dest!: steps_of_checkpoint split: sum.splits prod.splits)

lemma drain_parallel_task:
  assumes "drain_parallel E po nodes e c st = (t', st')"
  shows "(\<exists>r. t' = Returned r) \<or> t' = Cancelling (active_siblings c nodes st') nodes e c"
  using assms
  by (auto simp: drain_parallel_def refuse_node_def Let_def split: sum.splits prod.splits if_splits)

lemma place_drain:
  assumes "drain_parallel E po nodes e c st = (t', st')"
  shows "keeps_place E (Draining nodes e c) st t' st'"
  using drain_parallel_store [OF assms] drain_parallel_task [OF assms] by (intro keeps_place_same) auto

lemma place_attempt:
  assumes "next_attempt E r node a l c st = (t', st')"
  shows "keeps_place E (In_Retry (Returned r) node a l c) st t' st'"
  using assms
  by (intro keeps_place_same)
    (auto simp: next_attempt_def refuse_node_def split: sum.splits if_splits)

lemma place_saving:
  assumes "poll_saving po node a l c st = (t', st')"
  shows "keeps_place E (Saving_Retry node a l c) st t' st'"
  using assms
  by (intro keeps_place_same)
    (auto simp: poll_saving_def dest!: steps_of_checkpoint split: sum.splits)

lemma place_sleeping:
  assumes "poll_sleeping node a l c st = (t', st')"
  shows "keeps_place E (Sleeping node a l c) st t' st'"
  using assms by (intro keeps_place_same) (auto simp: poll_sleeping_def split: if_splits)

lemma place_failed:
  assumes "fail_parallel E nodes ts c e st = (t', st')"
  shows "keeps_place E (In_Parallel nodes ts c) st t' st'"
  using assms by (intro keeps_place_same) (auto simp: fail_parallel_def Let_def)

interpretation place: poll_relation "\<lambda>E t st t' st'. accepted_env E \<longrightarrow> keeps_place E t st t' st'" "\<lambda>_. True"
  by unfold_locales
    (simp_all add: place_enter place_step place_next place_skip place_cancelling place_drain place_attempt
      place_saving place_sleeping place_failed place_context place_branch keeps_place_same)

lemma place_action:
  assumes "accepted_env E" "act E a (t, st) = (t', st')"
  shows "keeps_place E t st t' st'"
proof (cases a)
  case (Poll path po)
  with assms show ?thesis using place.advance_related [where E = E and t = t and st = st and t' = t' and st' = st' and po = po and path = path] by simp
next
  case (Save_Usage name po)
  with assms show ?thesis
    by (intro keeps_place_same) (auto simp: keep_store_def dest!: steps_of_checkpoint split: sum.splits)
next
  case (Persist_Suspension x po)
  with assms show ?thesis
    by (intro keeps_place_same)
      (auto simp: keep_store_def persist_suspension_def dest!: commit_Inr split: sum.splits)
qed (use assms in \<open>auto simp: keep_ledger_def intro!: keeps_place_same split: sum.splits\<close>)

end
