(* ===== verification/Workflow_Quiet.thy ===== *)
theory Workflow_Quiet
  imports Workflow_Place
begin

text \<open>
  A run that has returned has no step left that is queued or running: every active step is in
  the hands of some task (\<open>covers\<close>), and no poll loses one (\<open>settles\<close>), also where a failed
  branch drops its siblings.  The second instance of \<open>poll_relation\<close>.
\<close>

section \<open>Who is responsible for an active step\<close>

definition late :: "step_stage \<Rightarrow> bool" where
  "late s = (case s of Reserving _ \<Rightarrow> False | Checkpointing _ \<Rightarrow> False | Queueing _ \<Rightarrow> False | _ \<Rightarrow> True)"

definition sibling :: "run_context \<Rightarrow> plan list \<Rightarrow> step_snapshot \<Rightarrow> bool" where
  "sibling c nodes x = (\<exists>i \<in> ids_of nodes. step_is_in_scope c x i)"

fun covers :: "run_env \<Rightarrow> string \<Rightarrow> step_snapshot \<Rightarrow> task \<Rightarrow> bool" where
  "covers E key x (In_Step sd s c) = (late s \<and> key = own_id E c (sf_id sd))"
| "covers E key x (In_Sequence t rest c) = covers E key x t"
| "covers E key x (In_Parallel nodes ts c) = (\<exists>t \<in> set ts. covers E key x t)"
| "covers E key x (Draining nodes e c) = sibling c nodes x"
| "covers E key x (Cancelling ks nodes e c) = (key \<in> set ks \<and> sibling c nodes x)"
| "covers E key x (In_Map ts) = (\<exists>t \<in> set ts. covers E key x t)"
| "covers E key x (In_Retry t node a l c) = covers E key x t"
| "covers E key x _ = False"

lemma late_simps [simp]:
  "\<not> late (Reserving i)" "\<not> late (Checkpointing i)" "\<not> late (Queueing i)" "late Acquiring"
  "late Starting" "late Dispatching" "late (Finishing r)"
  by (simp_all add: late_def)

lemma sibling_cong:
  assumes "ws_topology x = ws_topology y" "ws_topology x \<noteq> None"
  shows "sibling c nodes x = sibling c nodes y"
  using assms by (auto simp: sibling_def step_is_in_scope_def)

lemma covers_cong:
  assumes "ws_topology x = ws_topology y" "ws_topology x \<noteq> None"
  shows "covers E key x t = covers E key y t"
  using sibling_cong [OF assms] by (induction t) auto

lemma store_topology:
  "store_ok E st \<Longrightarrow> map_get (steps_of st) key = Some x \<Longrightarrow> ws_topology x \<noteq> None"
  by (auto simp: store_ok_def instance_of_def)

text \<open>What a branch covers is a sibling of the other branches.\<close>

lemma covered_sibling:
  assumes "accepted_env E" "store_ok E st" "map_get (steps_of st) key = Some x"
    and "placed E st t" "inside (ids_of nodes) (rc_index_path c) t" "covers E key x t"
  shows "sibling c nodes x"
proof -
  from assms(2,3) obtain i p where x: "instance_of E i p key x" unfolding store_ok_def by blast
  have here: "sibling c nodes x" if "i \<in> ids_of nodes" "prefix (rc_index_path c) p"
    using that instance_in_scope [OF x] by (auto simp: sibling_def)
  have up: "sibling c nodes x"
    if "sibling d more x" "ids_of more \<subseteq> ids_of nodes" "prefix (rc_index_path c) (rc_index_path d)" for d more
    using that instance_in_scope [OF x] here by (auto simp: sibling_def dest: prefix_order.trans)
  from assms(4-6) show ?thesis
  proof (induction t)
    case (In_Step sd s d)
    then have leaf: "at_leaf E (sf_id sd) d" and key: "key = own_id E d (sf_id sd)" by simp_all
    then have "id_at (steps_map E) p i = id_at (steps_map E) (rc_index_path d) (sf_id sd)"
      using x at_leaf_key(2) [OF assms(1) leaf] by (simp add: instance_of_def)
    then have "p = rc_index_path d" "i = sf_id sd"
      using instance_ids_apart x at_leaf_key(1) [OF assms(1) leaf] by (auto simp: instance_of_def)
    with In_Step here show ?case by simp
  next
    case (Draining more e d)
    then show ?case using up [of d more] by simp
  next
    case (Cancelling ks more e d)
    then show ?case using up [of d more] by simp
  qed auto
qed

section \<open>No poll loses an active step\<close>

definition settles :: "run_env \<Rightarrow> task \<Rightarrow> run_store \<Rightarrow> task \<Rightarrow> run_store \<Rightarrow> bool" where
  "settles E t st t' st' =
     (accepted_env E \<and> store_ok E st \<and> placed E st t \<longrightarrow>
      (\<forall>key x'. map_get (steps_of st') key = Some x' \<and> active x' \<longrightarrow>
        covers E key x' t' \<or>
        (\<exists>x. map_get (steps_of st) key = Some x \<and> active x \<and> ws_topology x = ws_topology x' \<and> \<not> covers E key x t)))"

lemma settles_change:
  assumes "\<And>k. k \<noteq> key \<Longrightarrow> map_get (steps_of st') k = map_get (steps_of st) k"
    and "\<And>x. map_get (steps_of st') key = Some x \<Longrightarrow> active x \<Longrightarrow> covers E key x t'"
    and "\<And>k x. k \<noteq> key \<Longrightarrow> covers E k x t \<Longrightarrow> covers E k x t'"
  shows "settles E t st t' st'"
  unfolding settles_def
proof (intro impI allI, elim conjE)
  fix k x
  assume "map_get (steps_of st') k = Some x" "active x"
  then show "covers E k x t' \<or>
      (\<exists>y. map_get (steps_of st) k = Some y \<and> active y \<and> ws_topology y = ws_topology x \<and> \<not> covers E k y t)"
    using assms by (cases "k = key") auto
qed

lemma settles_same:
  assumes "steps_of st' = steps_of st"
    and "\<And>key x. accepted_env E \<Longrightarrow> store_ok E st \<Longrightarrow> placed E st t \<Longrightarrow> map_get (steps_of st) key = Some x \<Longrightarrow>
      active x \<Longrightarrow> covers E key x t \<Longrightarrow> covers E key x t'"
  shows "settles E t st t' st'"
  unfolding settles_def assms(1) using assms(2) by blast

lemma settles_free: "(\<And>key x. \<not> covers E key x t) \<Longrightarrow> settles E t st t' st"
  by (rule settles_same) simp_all

definition fine :: "poll \<Rightarrow> bool" where
  "fine po = (po_commit_error po = None \<and> None \<notin> set (po_drained po) \<and> \<not> po_drain_error po)"

lemma fine_commit: "fine po \<Longrightarrow> commit po i kind f st = Inr (transition (po_now po) i kind f st)"
  by (simp add: fine_def commit_def)

lemma settle_step:
  assumes "fine po" and poll: "poll_step E po sd s c st = (t', st')"
  shows "settles E (In_Step sd s c) st t' st'"
proof (cases s)
  case (Queueing input)
  with poll show ?thesis
    by (auto simp: fine_commit [OF assms(1)] step_task_def queue_step_def steps_with_entry
        intro!: settles_change [where key = "own_id E c (sf_id sd)"])
next
  case Starting
  with poll show ?thesis
    by (auto simp: fine_commit [OF assms(1)] steps_with_step
        intro!: settles_change [where key = "own_id E c (sf_id sd)"])
next
  case Acquiring
  have "settles E (In_Step sd s c) st t' st'" if "cancel_waiting po (own_id E c (sf_id sd)) st = (t', st')"
    using that
    by (auto simp: cancel_waiting_def fine_commit [OF assms(1)] steps_with_step active_def
        intro!: settles_change [where key = "own_id E c (sf_id sd)"])
  with poll show ?thesis by (auto simp: Acquiring intro!: settles_same split: if_splits)
next
  case (Finishing r)
  obtain kind change a where r: "record_result E po sd (own_id E c (sf_id sd)) r st =
      (case commit po (Some (own_id E c (sf_id sd))) kind (with_step (own_id E c (sf_id sd)) change) st of
         Inl m \<Rightarrow> (Inl m, st) | Inr st' \<Rightarrow> (a, st'))"
    and c: "\<And>x. \<not> active (change x)"
    by (rule record_result_commit [where E = E and po = po and sd = sd and key = "own_id E c (sf_id sd)" and r = r
          and st = st]) (rule that)
  with poll show ?thesis
    by (auto simp: Finishing fine_commit [OF assms(1)] steps_with_step
        intro!: settles_change [where key = "own_id E c (sf_id sd)"])
qed (use poll in \<open>auto simp: step_task_def or_else_sum dest: steps_of_checkpoint intro!: settles_same split: sum.splits\<close>)

lemma settle_skip:
  assumes "fine po" "poll_skip E po inst leaves reason c t st = (t', st')"
  shows "settles E (Skipping inst leaves reason c t) st t' st'"
proof (cases inst)
  case Nil
  with assms(2) show ?thesis by (auto simp: poll_skip_def intro!: settles_same split: list.splits)
next
  case (Cons e rest)
  with assms(2) show ?thesis
    by (auto simp: poll_skip_def fine_commit [OF assms(1)] skip_step_def steps_with_entry active_def
        intro!: settles_change [where key = "snd e"] split: prod.splits)
qed

lemma settle_cancelling:
  assumes "fine po" "poll_cancelling po ks nodes e c st = (t', st')"
  shows "settles E (Cancelling ks nodes e c) st t' st'"
proof (cases ks)
  case Nil
  with assms(2) show ?thesis by (auto simp: poll_cancelling_def intro!: settles_same)
next
  case (Cons key rest)
  with assms(2) show ?thesis
    by (auto simp: poll_cancelling_def cancel_sibling_def fine_commit [OF assms(1)] steps_with_step active_def
        end_step_def intro!: settles_change [where key = key])
qed

lemma drained_fine: "fst (fold (drain_one b) rs acc) \<longleftrightarrow> fst acc \<or> None \<in> set rs"
  by (induction rs arbitrary: acc) (auto simp: drain_one_def split: option.splits)

lemma active_sibling:
  assumes "map_get (steps_of st) key = Some x" "active x" "sibling c nodes x"
  shows "key \<in> set (active_siblings c nodes st)"
proof -
  have "(key, x) \<in> set (steps_of st)" using assms(1) by (simp add: map_get_def map_of_SomeD)
  with assms(2,3) show ?thesis
    by (force simp: active_siblings_def sibling_def list_ex_iff Let_def)
qed

lemma settle_drain:
  assumes "fine po" "drain_parallel E po nodes e c st = (t', st')"
  shows "settles E (Draining nodes e c) st t' st'"
proof (rule settles_same)
  note s = drain_parallel_store [OF assms(2)]
  then show "steps_of st' = steps_of st" .
  have "t' = Cancelling (active_siblings c nodes st') nodes e c"
    using assms drained_fine [of "en_limits E" "po_drained po" "(False, rs_ledger st)"]
    by (auto simp: drain_parallel_def drain_agents_def checkpoint_agent_usage_def fine_commit [OF assms(1)]
        fine_def Let_def split: prod.splits)
  then show "covers E key x t'"
    if "map_get (steps_of st) key = Some x" "active x" "covers E key x (Draining nodes e c)" for key x
    using that active_sibling [of st' key x c nodes] s by simp
qed

lemma settle_failed:
  assumes "fail_parallel E nodes ts c e st = (t', st')"
  shows "settles E (In_Parallel nodes ts c) st t' st'"
proof (rule settles_same)
  show s: "steps_of st' = steps_of st" using assms by (auto simp: fail_parallel_def Let_def)
  fix key x
  assume a: "accepted_env E" "store_ok E st" "placed E st (In_Parallel nodes ts c)"
    and x: "map_get (steps_of st) key = Some x" "active x" "covers E key x (In_Parallel nodes ts c)"
  then obtain t where t: "placed E st t" "inside (ids_of nodes) (rc_index_path c) t" "covers E key x t" by auto
  have "sibling c nodes x" by (rule covered_sibling [OF a(1,2) x(1) t])
  moreover have "t' = Draining nodes e c \<or> t' = Cancelling (active_siblings c nodes st') nodes e c"
    using assms by (auto simp: fail_parallel_def Let_def split: if_splits)
  ultimately show "covers E key x t'"
    using active_sibling [of st' key x c nodes] x s by auto
qed

lemma settle_branch:
  assumes "settles E (ts ! n) st t' st'" "n < length ts"
  shows "settles E (In_Parallel nodes ts c) st (In_Parallel nodes (ts[n := t']) c) st'"
    "settles E (In_Map ts) st (In_Map (ts[n := t'])) st'"
proof -
  have "(\<exists>t \<in> set (ts[n := t']). covers E key y t) \<or>
      (\<exists>x. map_get (steps_of st) key = Some x \<and> active x \<and> ws_topology x = ws_topology y \<and>
        \<not> (\<exists>t \<in> set ts. covers E key x t))"
    if ok: "accepted_env E" "store_ok E st" "placed E st (ts ! n)"
      and y: "map_get (steps_of st') key = Some y" "active y" for key y
  proof (rule disjCI)
    assume lost: "\<not> (\<exists>x. map_get (steps_of st) key = Some x \<and> active x \<and> ws_topology x = ws_topology y \<and>
        \<not> (\<exists>t \<in> set ts. covers E key x t))"
    from assms(1) ok y consider "covers E key y t'"
      | x where "map_get (steps_of st) key = Some x" "active x" "ws_topology x = ws_topology y" "\<not> covers E key x (ts ! n)"
      unfolding settles_def by blast
    then show "\<exists>t \<in> set (ts[n := t']). covers E key y t"
    proof cases
      case 1
      then show ?thesis using set_update_memI [OF assms(2)] by blast
    next
      case (2 x)
      with lost obtain m where m: "m < length ts" "covers E key x (ts ! m)" by (auto simp: in_set_conv_nth)
      with 2(4) have "ts[n := t'] ! m = ts ! m" by (metis nth_list_update_neq)
      moreover have "covers E key y (ts ! m)"
        using covers_cong [OF 2(3) store_topology [OF ok(2) 2(1)]] m(2) by simp
      ultimately show ?thesis using m(1) by (metis length_list_update nth_mem)
    qed
  qed
  then show "settles E (In_Parallel nodes ts c) st (In_Parallel nodes (ts[n := t']) c) st'"
    "settles E (In_Map ts) st (In_Map (ts[n := t'])) st'"
    unfolding settles_def using assms(2) by simp_all
qed

lemma settle_attempt:
  assumes "next_attempt E r node a l c st = (t', st')"
  shows "settles E (In_Retry (Returned r) node a l c) st t' st'"
  using assms by (intro settles_same) (auto simp: next_attempt_def split: sum.splits if_splits)

lemma settle_saving:
  assumes "poll_saving po node a l c st = (t', st')"
  shows "settles E (Saving_Retry node a l c) st t' st'"
  using assms
  by (intro settles_same) (auto simp: poll_saving_def dest!: steps_of_checkpoint split: sum.splits)

lemma settle_sleeping:
  assumes "poll_sleeping node a l c st = (t', st')"
  shows "settles E (Sleeping node a l c) st t' st'"
  using assms by (intro settles_same) (auto simp: poll_sleeping_def split: if_splits)

lemma results_cover: "results ts = Some rs \<Longrightarrow> t \<in> set ts \<Longrightarrow> \<not> covers E key x t"
  by (induction ts arbitrary: rs) (auto simp: returned_def split: option.splits task.splits)

lemma settle_context:
  assumes "settles E t st t' st'"
  shows "settles E (In_Sequence t rest c) st (In_Sequence t' rest c) st'"
    "settles E (In_Retry t node a l c) st (In_Retry t' node a l c) st'"
  using assms by (auto simp: settles_def)

interpretation quiet: poll_relation settles fine
proof unfold_locales
  show "settles E (In_Parallel nodes ts c) st (Returned r) st" if "results ts = Some rs" for E ts rs nodes c st r
    using results_cover [OF that] by (auto intro!: settles_same)
  show "settles E (In_Map ts) st (Returned r) st" if "results ts = Some rs" for E ts rs st r
    using results_cover [OF that] by (auto intro!: settles_same)
qed (simp_all add: settle_step settle_skip settle_cancelling settle_drain settle_failed settle_branch
    settle_attempt settle_saving settle_sleeping settle_context settles_same settles_free)

section \<open>Finished runs\<close>

definition quiet_with :: "run_env \<Rightarrow> task \<Rightarrow> run_store \<Rightarrow> bool" where
  "quiet_with E t st =
     (store_ok E st \<and> placed E st t \<and>
      (\<forall>key x. map_get (steps_of st) key = Some x \<and> active x \<longrightarrow> covers E key x t))"

fun fine_action :: "run_action \<Rightarrow> bool" where
  "fine_action (Poll path po) = fine po"
| "fine_action _ = True"

lemma act_steps:
  assumes "act E a (t, st) = (t', st')" "\<And>path po. a \<noteq> Poll path po"
  shows "t' = t \<and> steps_of st' = steps_of st"
  using assms
  by (cases a) (auto simp: keep_ledger_def keep_store_def persist_suspension_def
      dest!: steps_of_checkpoint commit_Inr split: sum.splits)

lemma act_quiet:
  assumes "accepted_env E" "fine_action a" "quiet_with E t st" "act E a (t, st) = (t', st')"
  shows "quiet_with E t' st'"
proof -
  from assms(3) have ok: "store_ok E st" "placed E st t" by (simp_all add: quiet_with_def)
  have k: "store_ok E st'" "placed E st' t'"
    using place_action [OF assms(1,4)] ok by (simp_all add: keeps_place_def)
  have "covers E key y t'" if "map_get (steps_of st') key = Some y" "active y" for key y
  proof (cases "\<exists>path po. a = Poll path po")
    case True
    then have "settles E t st t' st'" using quiet.advance_related assms(2,4) by auto
    with ok assms(1) that consider "covers E key y t'"
      | x where "map_get (steps_of st) key = Some x" "active x" "\<not> covers E key x t"
      unfolding settles_def by blast
    then show ?thesis using assms(3) by cases (auto simp: quiet_with_def)
  next
    case False
    with act_steps [OF assms(4)] that assms(3) show ?thesis by (auto simp: quiet_with_def)
  qed
  with k show ?thesis by (simp add: quiet_with_def)
qed

lemma run_quiet:
  assumes "accepted_env E"
  shows "list_all fine_action as \<Longrightarrow> quiet_with E t st \<Longrightarrow> run_actions E as (t, st) = (t', st') \<Longrightarrow> quiet_with E t' st'"
proof (induction as arbitrary: t st)
  case (Cons a as)
  obtain u su where u: "act E a (t, st) = (u, su)" by fastforce
  have "quiet_with E u su" using Cons.prems(1,2) by (intro act_quiet [OF assms _ _ u]) simp_all
  with Cons u show ?case by (simp add: run_actions_def)
qed (simp add: run_actions_def)

lemma returned_runs_are_quiet:
  assumes "accepted_env E" "steps_of st0 = []" "list_all fine_action as"
    and "run_actions E as (root_task E, st0) = (Returned r, st)" "map_get (steps_of st) key = Some x"
  shows "\<not> active x"
proof -
  have "quiet_with E (root_task E) st0"
    using at_root [of E] assms(2) by (simp add: quiet_with_def store_ok_def root_task_def whole_plan_def)
  from run_quiet [OF assms(1,3) this assms(4)] show ?thesis using assms(5) by (auto simp: quiet_with_def)
qed

end
