(* ===== verification/Workflow_Settled.thy ===== *)
theory Workflow_Settled
  imports Workflow_Quiet Workflow_Trial
begin

text \<open>
  Whole runs, from their first event to their last: the events of a run are numbered without
  a gap (the third instance of \<open>poll_relation\<close>), and a run that has ended has no step left
  that is queued or running.
\<close>

section \<open>Numbered logs\<close>

definition numbered :: "run_store \<Rightarrow> bool" where
  "numbered st =
     (map re_sequence (rs_log st) = map of_nat [1..<Suc (length (rs_log st))] \<and>
      wr_last_sequence (rs_snapshot st) = of_nat (length (rs_log st)))"

text \<open>The frame of a run: its status and the number of its last event.\<close>

definition keeps_frame :: "(run_snapshot \<Rightarrow> run_snapshot) \<Rightarrow> bool" where
  "keeps_frame f = (\<forall>s. wr_status (f s) = wr_status s \<and> wr_last_sequence (f s) = wr_last_sequence s)"

definition keeps_number :: "(run_snapshot \<Rightarrow> run_snapshot) \<Rightarrow> bool" where
  "keeps_number f = (\<forall>s. wr_last_sequence (f s) = wr_last_sequence s)"

lemma numbered_transition:
  "numbered st \<Longrightarrow> keeps_number f \<Longrightarrow> numbered (transition now i k f st)"
  by (simp add: numbered_def keeps_number_def transition_def run_event_of_def Let_def)

definition proceeds :: "run_store \<Rightarrow> run_store \<Rightarrow> bool" where
  "proceeds st st' = (status_of st' = status_of st \<and> (numbered st \<longrightarrow> numbered st'))"

lemma proceeds_refl [simp]: "proceeds st st"
  by (simp add: proceeds_def)

lemma proceeds_trans: "proceeds r st \<Longrightarrow> proceeds st u \<Longrightarrow> proceeds r u"
  by (simp add: proceeds_def)

lemma proceeds_same: "rs_snapshot st' = rs_snapshot st \<Longrightarrow> rs_log st' = rs_log st \<Longrightarrow> proceeds st st'"
  by (simp add: proceeds_def numbered_def status_of_def)

lemma proceeds_transition:
  assumes "keeps_frame f"
  shows "proceeds st (transition now i k f st)"
  using assms numbered_transition [of st f now i k]
  by (simp add: proceeds_def keeps_frame_def keeps_number_def status_of_def transition_def Let_def)

lemma proceeds_commit:
  "commit po i k f st = Inr st' \<Longrightarrow> keeps_frame f \<Longrightarrow> proceeds st st'"
  by (auto dest!: commit_Inr simp: proceeds_transition)

lemma keeps_frame_changes [simp]:
  "keeps_frame (with_step key f)" "keeps_frame (with_entry key x f)" "keeps_frame (queue_step E c i input)"
  "keeps_frame (skip_step E c i key reason)" "keeps_frame (\<lambda>s. s\<lparr>wr_usage := u s\<rparr>)"
  "keeps_frame (\<lambda>s. s\<lparr>wr_suspension := x1\<rparr>)"
  by (simp_all add: keeps_frame_def with_step_def with_entry_def queue_step_def skip_step_def split: option.splits)

lemma proceeds_checkpoint:
  "checkpoint_usage po name st = Inr st' \<Longrightarrow> proceeds st st'"
  "checkpoint_agent_usage po name st = Inr st' \<Longrightarrow> proceeds st st'"
  by (auto simp: checkpoint_usage_def checkpoint_agent_usage_def dest!: proceeds_commit)

lemma proceeds_release: "proceeds st (release sd st')" if "proceeds st st'"
  using that by (rule proceeds_trans) (simp add: release_def proceeds_same)

lemma record_result_proceeds:
  assumes "record_result E po sd key r st = (answer, st')"
  shows "proceeds st st'"
  using record_result_store [OF assms] by (auto simp: proceeds_transition)

lemma poll_step_proceeds:
  assumes "poll_step E po sd s c st = (t', st')"
  shows "proceeds st st'"
proof (cases s)
  case (Finishing r)
  with assms show ?thesis
    by (auto split: prod.splits dest!: record_result_proceeds intro: proceeds_release)
qed (use assms in \<open>auto simp: step_task_def or_else_sum cancel_waiting_def proceeds_same proceeds_release
      dest: proceeds_checkpoint proceeds_commit split: sum.splits if_splits\<close>)

lemma poll_skip_proceeds: "poll_skip E po inst leaves reason c t st = (t', st') \<Longrightarrow> proceeds st st'"
  by (auto simp: poll_skip_def dest: proceeds_commit split: list.splits sum.splits prod.splits)

lemma poll_cancelling_proceeds: "poll_cancelling po ks nodes e c st = (t', st') \<Longrightarrow> proceeds st st'"
  by (auto simp: poll_cancelling_def cancel_sibling_def dest: proceeds_commit split: list.splits sum.splits)

lemma drain_proceeds:
  assumes "drain_parallel E po nodes e c st = (t', st')"
  shows "proceeds st st'"
proof -
  obtain u ledger where d: "drain_agents (en_limits E) (po_drained po) (rs_ledger st) = (u, ledger)" by fastforce
  have "proceeds st (st\<lparr>rs_ledger := ledger\<rparr>)" by (simp add: proceeds_same)
  moreover have "proceeds (st\<lparr>rs_ledger := ledger\<rparr>) st'"
    using assms by (auto simp: drain_parallel_def Let_def d dest: proceeds_checkpoint split: sum.splits)
  ultimately show ?thesis by (rule proceeds_trans)
qed

interpretation logged: poll_relation "\<lambda>E t st t' st'. proceeds st st'" "\<lambda>_. True"
  by unfold_locales
    (auto simp: fail_parallel_def next_attempt_def poll_saving_def poll_sleeping_def Let_def proceeds_same
      dest: poll_step_proceeds poll_skip_proceeds poll_cancelling_proceeds drain_proceeds proceeds_checkpoint
      split: sum.splits if_splits)

lemma act_proceeds:
  assumes "act E a (t, st) = (t', st')"
  shows "proceeds st st'"
proof (cases a)
  case (Poll path po)
  with assms show ?thesis using logged.advance_related [where E = E and t = t and t' = t'] by simp
qed (use assms in \<open>auto simp: keep_ledger_def keep_store_def persist_suspension_def proceeds_same
      dest: proceeds_checkpoint proceeds_commit split: sum.splits\<close>)

lemma run_proceeds: "run_actions E as (t, st) = (t', st') \<Longrightarrow> proceeds st st'"
proof (induction as arbitrary: t st)
  case (Cons a as)
  obtain u su where u: "act E a (t, st) = (u, su)" by fastforce
  with Cons have "proceeds su st'" by (simp add: run_actions_def)
  with act_proceeds [OF u] show ?case by (rule proceeds_trans)
qed (simp add: run_actions_def)

section \<open>The finalizers\<close>

definition quiet_store :: "run_store \<Rightarrow> bool" where
  "quiet_store st = (\<forall>key x. map_get (steps_of st) key = Some x \<longrightarrow> \<not> active x)"

lemma durable_Inr: "durable repo now i k f st = Inr st' \<Longrightarrow> st' = transition now i k f st"
  by (auto simp: durable_def Let_def split: option.splits)

lemma commit_all_numbered:
  "commit_all repo now cs st = (r, st') \<Longrightarrow> \<forall>(i, k, f) \<in> set cs. keeps_number f \<Longrightarrow> numbered st \<Longrightarrow> numbered st'"
proof (induction cs arbitrary: st)
  case (Cons c cs)
  obtain i k f where c: "c = (i, k, f)" by (cases c)
  with Cons show ?case
    using numbered_transition [of st f now i k] by (auto split: sum.splits dest!: durable_Inr)
qed simp

lemma then_finish_numbered:
  assumes "then_finish r f = (e, st')" "numbered (snd r)" "\<And>st e. numbered st \<Longrightarrow> f st = (e, st') \<Longrightarrow> numbered st'"
  shows "numbered st'"
  using assms by (auto simp: then_finish_def split: prod.splits option.splits)

lemma commit_all_append:
  "commit_all repo now (cs @ ds) st = then_finish (commit_all repo now cs st) (commit_all repo now ds)"
  by (induction cs arbitrary: st) (auto simp: then_finish_def split: sum.splits)

lemma then_finish_None: "then_finish r f = (None, st') \<longleftrightarrow> (\<exists>st. r = (None, st) \<and> f st = (None, st'))"
  by (auto simp: then_finish_def split: prod.splits option.splits)

lemma close_all:
  "commit_all repo now (map (\<lambda>key. (Some key, kind, with_step key f)) ks) st = (None, st') \<Longrightarrow>
   (\<And>x. \<not> active (f x)) \<Longrightarrow>
   (\<And>key x. map_get (steps_of st) key = Some x \<Longrightarrow> active x \<Longrightarrow> key \<in> set ks) \<Longrightarrow>
   quiet_store st' \<and> status_of st' = status_of st"
proof (induction ks arbitrary: st)
  case Nil
  then show ?case by (auto simp: quiet_store_def)
next
  case (Cons key ks)
  let ?st = "transition now (Some key) kind (with_step key f) st"
  from Cons.prems(1) have run: "commit_all repo now (map (\<lambda>key. (Some key, kind, with_step key f)) ks) ?st = (None, st')"
    by (auto split: sum.splits dest!: durable_Inr)
  have "k \<in> set ks" if "map_get (steps_of ?st) k = Some x" "active x" for k x
  proof (cases "k = key")
    case True
    with that Cons.prems(2) show ?thesis by (auto simp: steps_with_step)
  next
    case False
    with that Cons.prems(3) [of k x] show ?thesis by (simp add: steps_with_step)
  qed
  from Cons.IH [OF run Cons.prems(2) this] show ?case
    using proceeds_transition [of "with_step key f" st now "Some key" kind] by (simp add: proceeds_def)
qed

lemma active_keys_all: "map_get (steps_of st) key = Some x \<Longrightarrow> active x \<Longrightarrow> key \<in> set (active_keys st)"
  by (force simp: active_keys_def map_get_def dest: map_of_SomeD)

lemma end_step_quiet [simp]: "s1 \<noteq> Rs_Queued \<Longrightarrow> s1 \<noteq> Rs_Running \<Longrightarrow> \<not> active (end_step s1 e x)"
  by (simp add: active_def end_step_def)

text \<open>One commit that changes only the head of the snapshot.\<close>

lemma commit_head:
  assumes "commit_all repo now [(i, k, f)] st = (None, st')" "\<And>s. wr_steps (f s) = wr_steps s"
  shows "quiet_store st' = quiet_store st \<and> status_of st' = wr_status (f (rs_snapshot st))"
  using assms
  by (auto simp: quiet_store_def status_of_def transition_def Let_def split: sum.splits dest!: durable_Inr)




lemma recover_settles:
  assumes "recover_run repo now st = (None, st')" "status_of st = Run_Queued \<or> status_of st = Run_Running"
  shows "quiet_store st' \<and> status_of st' = Run_Suspended"
proof -
  from assms obtain u where
    u: "commit_all repo now (map (\<lambda>key. (Some key, E_Step_Suspended recovery_reason,
          with_step key (end_step Rs_Suspended (failure RecoverySuspended recovery_reason True)))) (active_keys st)) st
        = (None, u)"
    and v: "commit_all repo now [(None, E_Run_Suspended recovery_reason,
        \<lambda>s. s\<lparr>wr_status := Run_Suspended, wr_suspension := Some (Recovery recovery_reason)\<rparr>)] u = (None, st')"
    by (auto simp: recover_run_def commit_all_append then_finish_None simp del: commit_all.simps)
  from close_all [OF u] active_keys_all have "quiet_store u" by simp
  with commit_head [OF v] show ?thesis by simp
qed





section \<open>The numbers of the last events\<close>

lemma keeps_number_simps [simp]:
  "keeps_number (with_step key f)" "keeps_number (\<lambda>s. s\<lparr>wr_usage := u s\<rparr>)"
  "keeps_number (\<lambda>s. s\<lparr>wr_steps := g s\<rparr>)" "keeps_number (\<lambda>s. s\<lparr>wr_status := s1\<rparr>)"
  "keeps_number (\<lambda>s. s\<lparr>wr_status := s1, wr_output := x1\<rparr>)"
  "keeps_number (\<lambda>s. s\<lparr>wr_status := s1, wr_failure := x2\<rparr>)"
  by (simp_all add: keeps_number_def with_step_def split: option.splits)

lemma fail_frontier_numbered:
  "fail_frontier repo now p e is st = (r, st') \<Longrightarrow> numbered st \<Longrightarrow> numbered st'"
proof (induction "is" arbitrary: st)
  case (Cons i "is")
  let ?c = "[(Some i, E_Step_Failed e, \<lambda>s. s\<lparr>wr_steps := map_put i (timed_out_step p e i) (wr_steps s)\<rparr>)]"
  obtain x u where u: "commit_all repo now ?c st = (x, u)" by fastforce
  have "numbered u" by (rule commit_all_numbered [OF u _ Cons.prems(2)]) simp
  with Cons u show ?case by (auto simp: then_finish_def simp del: commit_all.simps split: if_splits option.splits)
qed simp

lemma finish_numbered:
  "finish_succeeded repo now v st = (r, st') \<Longrightarrow> numbered st \<Longrightarrow> numbered st'"
  "finish_failed repo now e st = (r, st') \<Longrightarrow> numbered st \<Longrightarrow> numbered st'"
  "finish_suspended repo now m st = (r, st') \<Longrightarrow> numbered st \<Longrightarrow> numbered st'"
  "finish_cancelled repo now st = (r, st') \<Longrightarrow> numbered st \<Longrightarrow> numbered st'"
  "fail_active_steps repo now e st = (r, st') \<Longrightarrow> numbered st \<Longrightarrow> numbered st'"
  unfolding finish_succeeded_def finish_failed_def finish_suspended_def finish_cancelled_def fail_active_steps_def
  by (auto simp del: commit_all.simps split: if_splits dest!: commit_all_numbered)

lemma fail_timeout_frontier_numbered:
  "fail_timeout_frontier repo now p e st = (r, st') \<Longrightarrow> numbered st \<Longrightarrow> numbered st'"
  by (auto simp: fail_timeout_frontier_def split: if_splits dest: fail_frontier_numbered)

lemma finish_with_numbered:
  assumes run: "finish_with E repo now result st = (r, st')" and "numbered st"
  shows "numbered st'"
proof (cases result)
  case None
  obtain x u where u: "fail_timeout_frontier repo now (rd_plan (cw_definition (en_compiled E))) wall_time_exceeded st
      = (x, u)" by fastforce
  obtain y v where v: "fail_active_steps repo now wall_time_exceeded u = (y, v)" by fastforce
  have "numbered u" using fail_timeout_frontier_numbered [OF u assms(2)] .
  moreover from finish_numbered(5) [OF v this] have "numbered v" .
  ultimately show ?thesis
    using run finish_numbered(2) [of repo now wall_time_exceeded v r st']
    by (auto simp: None finish_with_def then_finish_def u v split: option.splits)
next
  case (Some x)
  with assms show ?thesis
    by (auto simp: finish_with_def dest: finish_numbered split: option.splits sum.splits if_splits)
qed

lemma conclude_numbered:
  assumes "numbered st" and run: "conclude E repo now result drained drain_error st = (r, st')"
  shows "numbered st'"
proof -
  define st1 where "st1 = (if result = None then st\<lparr>rs_cancelled := True\<rparr> else st)"
  obtain unavailable ledger where d: "drain_agents (en_limits E) drained (rs_ledger st1) = (unavailable, ledger)"
    by fastforce
  define st2 where "st2 = st1\<lparr>rs_ledger := ledger\<rparr>"
  have "proceeds st st1" "proceeds st st2" unfolding st1_def st2_def by (auto intro: proceeds_same)
  with assms(1) have n: "numbered st1" "numbered st2" by (simp_all add: proceeds_def)
  obtain x u where u: "(if 0 < us_agents ledger then commit_all repo now [drain_checkpoint st2] st2 else (None, st2))
      = (x, u)" by fastforce
  have "numbered u"
  proof (cases "0 < us_agents ledger")
    case True
    with u have "commit_all repo now [drain_checkpoint st2] st2 = (x, u)" by simp
    then show ?thesis by (rule commit_all_numbered) (simp_all add: drain_checkpoint_def n)
  qed (use u n in simp)
  let ?last = "\<lambda>st. if drain_error then (Some stop_unconfirmed, st)
        else if unavailable then finish_failed repo now usage_unmeasured st else finish_with E repo now result st"
  have c: "(r, st') = (if is_terminal (status_of st1) then (None, st1) else then_finish (x, u) ?last)"
    unfolding run [symmetric] conclude_def st2_def Let_def u [symmetric]
    unfolding st1_def [symmetric] by (simp add: d)
  have last: "numbered st'" if "?last u = (r, st')"
    using that finish_numbered(2) [OF _ \<open>numbered u\<close>] finish_with_numbered [OF _ \<open>numbered u\<close>] \<open>numbered u\<close>
    by (cases drain_error; cases unavailable) simp_all
  show ?thesis
  proof (cases "is_terminal (status_of st1)")
    case True
    with c n(1) show ?thesis by simp
  next
    case False
    with c have "then_finish (x, u) ?last = (r, st')" by simp
    then show ?thesis using last \<open>numbered u\<close> by (cases x) (simp_all add: then_finish_def)
  qed
qed

section \<open>Runs from start to end\<close>

lemma start_run_Inr:
  assumes "start_run repo now ledger permits False (queued_run run_id pr ps b h at r c) = Inr st0"
  shows "steps_of st0 = []" "status_of st0 = Run_Running" "numbered st0"
proof -
  let ?s = "queued_run run_id pr ps b h at r c"
  let ?st = "\<lparr>rs_snapshot = ?s, rs_log = [run_event_of ?s None E_Run_Queued now], rs_ledger = ledger,
    rs_permits = permits, rs_cancelled = False\<rparr>"
  from assms have s: "st0 = transition now None E_Run_Started (\<lambda>s. s\<lparr>wr_status := Run_Running\<rparr>) ?st"
    by (auto simp: start_run_def Let_def split: option.splits sum.splits prod.splits dest!: durable_Inr)
  show "steps_of st0 = []" "status_of st0 = Run_Running"
    by (simp_all add: s transition_def Let_def queued_run_def status_of_def)
  have "numbered ?st" by (simp add: numbered_def run_event_of_def queued_run_def)
  then show "numbered st0" unfolding s by (rule numbered_transition) (simp add: keeps_number_def)
qed


text \<open>
  A run of two steps side by side: one waits for its answer when the other fails, and is closed.
\<close>

definition fork_snapshot :: run_snapshot where
  "fork_snapshot = queued_run ''run'' None None (solo_bundle demo_fork) ''hash'' 0
     \<lparr>sr_definition = demo_fork, sr_args = JObject [], sr_session_id = ''session''\<rparr> (trial_compiled demo_fork)"

definition fork_start :: run_store where
  "fork_start = projr (start_run commits_all 0 no_usage 4 False fork_snapshot)"

definition fork_actions :: "run_action list" where
  "fork_actions = polls 1 broken @ branch_polls 6 1 broken @ branch_polls 9 0 broken @ polls 3 broken"

definition fork_end :: "task \<times> run_store" where
  "fork_end = run_actions (trial_env demo_fork) fork_actions (root_task (trial_env demo_fork), fork_start)"


lemma fork_starts: "isl (start_run commits_all 0 no_usage 4 False fork_snapshot) = False"
  by code_simp

lemma fork_returns: "returned (fst fork_end) \<noteq> None"
  by code_simp

lemma fork_running:
  "case run_actions (trial_env demo_fork) (polls 1 broken @ branch_polls 6 1 broken)
     (root_task (trial_env demo_fork), fork_start) of (t, st) \<Rightarrow>
   map_option ws_status (map_get (steps_of st) ''b'') = Some Rs_Running"
  by code_simp



text \<open>
  C40: the events of a run are numbered without a gap.  Whatever the order of its polls, which
  commits the repository refuses and how the run ends, the log of a started run carries the
  sequence numbers 1, 2, 3 and so on (as 64-bit numbers), and the snapshot names the last one.
\<close>

theorem events_are_numbered:
  assumes "start_run repo now ledger permits False (queued_run run_id pr ps b h at r c) = Inr st0"
    and "run_actions E as (root_task E, st0) = (t, st)"
    and "conclude E repo' later result drained drain_error st = (e, st')"
  shows "map re_sequence (rs_log st') = map of_nat [1..<Suc (length (rs_log st'))] \<and>
    wr_last_sequence (rs_snapshot st') = of_nat (length (rs_log st'))"
proof -
  have "numbered st" using run_proceeds [OF assms(2)] start_run_Inr(3) [OF assms(1)] by (simp add: proceeds_def)
  then have "numbered st'" using assms(3) by (rule conclude_numbered)
  then show ?thesis by (simp add: numbered_def)
qed

theorem events_are_numbered_witness:
  "case conclude (trial_env demo_fork) commits_all 1 (returned (fst fork_end)) [] False (snd fork_end) of (e, st) \<Rightarrow>
     length (rs_log st) = 11 \<and> map re_sequence (rs_log st) = map of_nat [1..<Suc (length (rs_log st))]"
proof -
  obtain e st where st: "conclude (trial_env demo_fork) commits_all 1 (returned (fst fork_end)) [] False (snd fork_end)
      = (e, st)" by fastforce
  have "start_run commits_all 0 no_usage 4 False fork_snapshot = Inr fork_start"
    using fork_starts by (cases "start_run commits_all 0 no_usage 4 False fork_snapshot") (simp_all add: fork_start_def)
  note start = this [unfolded fork_snapshot_def]
  have run: "run_actions (trial_env demo_fork) fork_actions (root_task (trial_env demo_fork), fork_start) =
      (fst fork_end, snd fork_end)" by (simp add: fork_end_def)
  have "length (rs_log (snd (conclude (trial_env demo_fork) commits_all 1 (returned (fst fork_end)) [] False
      (snd fork_end)))) = 11" by code_simp
  with events_are_numbered [OF start run st] st show ?thesis by simp
qed

end
