(* ===== verification/Workflow_Continuation.thy ===== *)
theory Workflow_Continuation
  imports Workflow_Settled
begin

text \<open>
  The continuation of a checkpoint: what \<open>completed_prefix\<close> accepts, and that carrying on
  after it enters no step that the checkpoint has entered.
\<close>

section \<open>What a checkpoint is\<close>

definition completed_once :: "step_snapshot \<Rightarrow> bool" where
  "completed_once x = (ws_status x = Rs_Succeeded \<and> ws_attempts x = 1 \<and> ws_output x \<noteq> None)"

lemma check_entered_output: "check_entered P s outs sd args x = Inr v \<Longrightarrow> ws_output x \<noteq> None"
  by (auto simp: check_entered_def split: option.splits)

lemma prefix_step_Inr:
  assumes "prefix_step P s steps (outs, m, late_on) i = Inr acc"
  obtains (beyond) "map_get (wr_steps s) i = None" "acc = (outs, m, True)"
  | (entered) x outs' where "map_get (wr_steps s) i = Some x" "completed_once x" "\<not> late_on" "acc = (outs', m + 1, False)"
  using assms
  by (auto simp: prefix_step_def completed_once_def dest: check_entered_output
      split: option.splits step_kind.splits if_splits)

lemma prefix_fold:
  "fold_ok (prefix_step P s steps) (outs, m, late_on) ids = Inr (outs', n, late_on') \<Longrightarrow>
   m \<le> n \<and> n - m \<le> length ids \<and> (late_on \<longrightarrow> n = m) \<and>
   (\<forall>j < length ids. if j < n - m then \<exists>x. map_get (wr_steps s) (ids ! j) = Some x \<and> completed_once x
                     else map_get (wr_steps s) (ids ! j) = None)"
proof (induction ids arbitrary: outs m late_on)
  case Nil
  then show ?case by simp
next
  case (Cons i ids)
  from Cons.prems obtain acc where a: "prefix_step P s steps (outs, m, late_on) i = Inr acc"
    and r: "fold_ok (prefix_step P s steps) acc ids = Inr (outs', n, late_on')" by auto
  from a show ?case
  proof (cases rule: prefix_step_Inr)
    case beyond
    from Cons.IH [OF r [unfolded beyond(2)]] beyond(1) show ?thesis by (simp add: nth_Cons')
  next
    case (entered x outs'')
    from Cons.IH [OF r [unfolded entered(4)]]
    have ih: "m + 1 \<le> n" "n - (m + 1) \<le> length ids"
      and j: "\<And>j. j < length ids \<Longrightarrow> if j < n - (m + 1) then \<exists>x. map_get (wr_steps s) (ids ! j) = Some x \<and> completed_once x
          else map_get (wr_steps s) (ids ! j) = None" by auto
    have all: "if k < n - m then \<exists>x. map_get (wr_steps s) ((i # ids) ! k) = Some x \<and> completed_once x
        else map_get (wr_steps s) ((i # ids) ! k) = None" if "k < length (i # ids)" for k
    proof (cases k)
      case 0
      with entered ih(1) show ?thesis by simp
    next
      case (Suc j)
      with that j [of j] have "if j < n - (m + 1) then \<exists>x. map_get (wr_steps s) (ids ! j) = Some x \<and> completed_once x
          else map_get (wr_steps s) (ids ! j) = None" by simp
      moreover have "j < n - (m + 1) \<longleftrightarrow> k < n - m" using Suc by linarith
      ultimately show ?thesis using Suc by simp
    qed
    show ?thesis
    proof (intro conjI)
      show "m \<le> n" "n - m \<le> length (i # ids)" "late_on \<longrightarrow> n = m" using ih entered(3) by simp_all
    qed (use all in blast)
  qed
qed

lemma step_nodes: "map_ok step_of_node nodes = Inr ids \<Longrightarrow> nodes = map P_Step ids"
  by (induction nodes arbitrary: ids) (auto simp: step_of_node_def split: plan.splits)

lemma completed_prefix_Inr:
  assumes "completed_prefix P now s = Inr n"
  obtains ids where "rd_plan (wr_definition s) = P_Sequence (map P_Step ids)" "0 < n" "n \<le> length ids"
    "\<And>j. j < n \<Longrightarrow> \<exists>x. map_get (wr_steps s) (ids ! j) = Some x \<and> completed_once x"
    "\<And>i. i \<in> set (drop n ids) \<Longrightarrow> map_get (wr_steps s) i = None"
proof -
  from assms obtain c where "flat_prefix P now s c = Inr n"
    by (auto simp: completed_prefix_def split: if_splits option.splits)
  then obtain nodes ids outs late_on where nodes: "rd_plan (wr_definition s) = P_Sequence nodes"
    and p: "map_ok step_of_node nodes = Inr ids"
    and f: "fold_ok (prefix_step P s (cw_steps c)) ([], 0, False) ids = Inr (outs, n, late_on)"
    and u: "\<not> usage_mismatch now s (length ids) n"
    by (auto simp: flat_prefix_def split: plan.splits if_splits simp del: fold_ok.simps)
  from prefix_fold [OF f] have
    k: "n \<le> length ids" "\<And>j. j < length ids \<Longrightarrow> if j < n then \<exists>x. map_get (wr_steps s) (ids ! j) = Some x \<and> completed_once x
        else map_get (wr_steps s) (ids ! j) = None" by auto
  have "map_get (wr_steps s) i = None" if "i \<in> set (drop n ids)" for i
  proof -
    from that obtain j where "j < length ids - n" "i = ids ! (n + j)" by (auto simp: in_set_conv_nth)
    with k(2) [of "n + j"] show ?thesis by simp
  qed
  moreover have "0 < n" using u by (simp add: usage_mismatch_def Let_def)
  moreover have "\<exists>x. map_get (wr_steps s) (ids ! j) = Some x \<and> completed_once x" if "j < n" for j
    using k(1) k(2) [of j] that by simp
  ultimately show thesis using that [of ids] nodes step_nodes [OF p] k(1) by simp
qed

section \<open>What one step touches\<close>

definition touches :: "string \<Rightarrow> run_store \<Rightarrow> run_store \<Rightarrow> bool" where
  "touches key st st' =
     ((\<forall>k. k \<noteq> key \<longrightarrow> map_get (steps_of st') k = map_get (steps_of st) k) \<and>
      (\<exists>es. rs_log st' = rs_log st @ es \<and> (\<forall>e \<in> set es. re_kind e = E_Step_Started \<longrightarrow> re_step_id e = Some key)))"

lemma touches_same: "rs_snapshot st' = rs_snapshot st \<Longrightarrow> rs_log st' = rs_log st \<Longrightarrow> touches key st st'"
  by (simp add: touches_def)

lemma touches_trans: "touches key r st \<Longrightarrow> touches key st u \<Longrightarrow> touches key r u"
  by (auto simp: touches_def)

lemma touches_transition:
  assumes "\<And>s k. k \<noteq> key \<Longrightarrow> map_get (wr_steps (f s)) k = map_get (wr_steps s) k"
    and "kind = E_Step_Started \<Longrightarrow> i = Some key"
  shows "touches key st (transition now i kind f st)"
  unfolding touches_def
proof (intro conjI)
  show "\<forall>k. k \<noteq> key \<longrightarrow> map_get (steps_of (transition now i kind f st)) k = map_get (steps_of st) k"
    using assms(1) by simp
  show "\<exists>es. rs_log (transition now i kind f st) = rs_log st @ es \<and>
      (\<forall>e \<in> set es. re_kind e = E_Step_Started \<longrightarrow> re_step_id e = Some key)"
    using assms(2) by (auto simp: transition_def Let_def run_event_of_def)
qed

lemma touches_step: "touches key st (transition now (Some key) kind (with_step key f) st)"
  by (rule touches_transition) (simp_all add: steps_with_step)

lemma touches_queue: "touches (own_id E c i) st (transition now (Some (own_id E c i)) kind (queue_step E c i input) st)"
  by (rule touches_transition) (simp_all add: queue_step_def steps_with_entry)

lemma touches_checkpoint: "checkpoint_usage po name st = Inr st' \<Longrightarrow> touches key st st'"
  by (auto simp: checkpoint_usage_def dest!: commit_Inr intro: touches_transition)

lemma touches_release: "touches key st st' \<Longrightarrow> touches key st (release sd st')"
  by (rule touches_trans) (auto simp: release_def intro: touches_same)

lemma poll_step_touches:
  assumes "poll_step E po sd s c st = (t', st')"
  shows "touches (own_id E c (sf_id sd)) st st'"
proof (cases s)
  case (Finishing r)
  with assms obtain answer u where u: "record_result E po sd (own_id E c (sf_id sd)) r st = (answer, u)"
    "st' = release sd u" by (auto split: prod.splits)
  from record_result_store [OF u(1)] show ?thesis
    unfolding u(2) by (auto intro!: touches_release touches_step intro: touches_same)
next
  case (Queueing input)
  with assms show ?thesis
    by (auto simp: step_task_def or_else_sum touches_same touches_queue dest!: commit_Inr split: sum.splits)
qed (use assms in \<open>auto simp: step_task_def or_else_sum cancel_waiting_def touches_same touches_release touches_step
      dest!: touches_checkpoint commit_Inr split: sum.splits if_splits\<close>)

section \<open>Carrying on\<close>

text \<open>The records of the checkpoint are kept, and only steps beyond it are started.\<close>

definition carries_on :: "run_snapshot \<Rightarrow> run_event list \<Rightarrow> run_store \<Rightarrow> bool" where
  "carries_on s base st =
     ((\<forall>key x. map_get (wr_steps s) key = Some x \<longrightarrow> map_get (steps_of st) key = Some x) \<and>
      (\<exists>es. rs_log st = base @ es \<and>
        (\<forall>e \<in> set es. re_kind e = E_Step_Started \<longrightarrow> (\<exists>i. re_step_id e = Some i \<and> map_get (wr_steps s) i = None))))"

definition beyond :: "run_snapshot \<Rightarrow> plan \<Rightarrow> bool" where
  "beyond s p = (\<exists>i. p = P_Step i \<and> map_get (wr_steps s) i = None)"

definition beyond_task :: "run_snapshot \<Rightarrow> task \<Rightarrow> bool" where
  "beyond_task s t =
     (case t of
        Returned r \<Rightarrow> True
      | Ready p c \<Rightarrow> c = root_context \<and> beyond s p
      | In_Step sd g c \<Rightarrow> c = root_context \<and> map_get (wr_steps s) (sf_id sd) = None
      | _ \<Rightarrow> False)"

lemma carries_touch:
  assumes "carries_on s base st" "touches key st st'" "map_get (wr_steps s) key = None"
  shows "carries_on s base st'"
  unfolding carries_on_def
proof (intro conjI allI impI)
  fix k x
  assume k: "map_get (wr_steps s) k = Some x"
  then have "k \<noteq> key" using assms(3) by auto
  then have "map_get (steps_of st') k = map_get (steps_of st) k" using assms(2) by (simp add: touches_def)
  with assms(1) k show "map_get (steps_of st') k = Some x" by (simp add: carries_on_def)
next
  from assms(1,2) obtain es fs where "rs_log st = base @ es" "rs_log st' = rs_log st @ fs"
    "\<forall>e \<in> set es. re_kind e = E_Step_Started \<longrightarrow> (\<exists>i. re_step_id e = Some i \<and> map_get (wr_steps s) i = None)"
    "\<forall>e \<in> set fs. re_kind e = E_Step_Started \<longrightarrow> re_step_id e = Some key"
    by (auto simp: carries_on_def touches_def)
  with assms(3) show "\<exists>es. rs_log st' = base @ es \<and>
      (\<forall>e \<in> set es. re_kind e = E_Step_Started \<longrightarrow> (\<exists>i. re_step_id e = Some i \<and> map_get (wr_steps s) i = None))"
    by (intro exI [of _ "es @ fs"]) auto
qed

text \<open>A change that touches no step at all.\<close>

lemma carries_frame:
  assumes "carries_on s base st" "steps_of st' = steps_of st"
    and "rs_log st' = rs_log st @ es" "\<And>e. e \<in> set es \<Longrightarrow> re_kind e \<noteq> E_Step_Started"
  shows "carries_on s base st'"
proof -
  from assms(1) obtain fs where "rs_log st = base @ fs"
    "\<forall>e \<in> set fs. re_kind e = E_Step_Started \<longrightarrow> (\<exists>i. re_step_id e = Some i \<and> map_get (wr_steps s) i = None)"
    by (auto simp: carries_on_def)
  with assms show ?thesis unfolding carries_on_def by (intro conjI exI [of _ "fs @ es"]) auto
qed

lemma log_commit:
  "commit po i k f st = Inr st' \<Longrightarrow> \<exists>e. rs_log st' = rs_log st @ [e] \<and> re_kind e = k"
  by (auto dest!: commit_Inr simp: transition_def Let_def run_event_of_def)

lemma carries_act:
  assumes "carries_on s base st" "act E a (t, st) = (t', st')" "\<And>path po. a \<noteq> Poll path po"
  shows "t' = t \<and> carries_on s base st'"
proof -
  note steps = act_steps [OF assms(2,3)]
  have "\<exists>es. rs_log st' = rs_log st @ es \<and> (\<forall>e \<in> set es. re_kind e \<noteq> E_Step_Started)"
    using assms(2,3)
    by (cases a) (auto simp: keep_ledger_def keep_store_def persist_suspension_def checkpoint_usage_def
        dest!: log_commit split: sum.splits)
  with carries_frame [OF assms(1)] steps show ?thesis by blast
qed

lemma own_root [simp]: "own_id E root_context i = i"
  by (simp add: own_id_def instance_id_def root_context_def)

lemma carries_poll:
  assumes "accepted_env E" "carries_on s base st" "beyond_task s t" "advance E po path t st = (t', st')"
  shows "carries_on s base st' \<and> beyond_task s t'"
proof (cases t)
  case (Ready p c)
  with assms(3) obtain i where i: "p = P_Step i" "map_get (wr_steps s) i = None" "c = root_context"
    by (auto simp: beyond_task_def beyond_def)
  have "sf_id sd = i" if "map_get (cw_steps (en_compiled E)) i = Some sd" for sd
    using accepted_facts(3) [OF assms(1), of i sd] that by (simp add: steps_map_def)
  with assms(2,4) Ready i show ?thesis
    by (auto simp: enter_def enter_step_def refuse_node_def beyond_task_def split: if_splits option.splits sum.splits)
next
  case (In_Step sd g c)
  with assms(3,4) have sd: "c = root_context" "map_get (wr_steps s) (sf_id sd) = None"
    and poll: "poll_step E po sd g c st = (t', st')" by (auto simp: beyond_task_def)
  from poll_step_touches [OF poll] sd have "touches (sf_id sd) st st'" by simp
  from carries_touch [OF assms(2) this sd(2)] poll_step_task [OF poll] sd show ?thesis
    by (auto simp: beyond_task_def)
next
  case (Returned r)
  with assms show ?thesis by (auto simp: beyond_task_def)
qed (use assms(3) in \<open>simp_all add: beyond_task_def\<close>)

lemma carries_act_root:
  assumes "accepted_env E" "carries_on s base st" "beyond_task s t" "list_all (beyond s) rest"
    and act: "act_root E a ((t, rest), st) = ((t', rest'), st')"
  shows "carries_on s base st' \<and> beyond_task s t' \<and> list_all (beyond s) rest'"
proof (cases "\<exists>path po. a = Poll path po")
  case True
  then obtain path po where a: "a = Poll path po" by blast
  show ?thesis
  proof (cases "\<exists>v node more. returned t = Some (Inr v) \<and> rest = node # more")
    case True
    with act a assms(2,4) show ?thesis by (auto simp: act_root_def beyond_task_def)
  next
    case False
    with act a have "rest' = rest" "advance E po path t st = (t', st')"
      by (auto simp: act_root_def split: prod.splits option.splits sum.splits list.splits)
    with carries_poll [OF assms(1-3)] assms(4) show ?thesis by simp
  qed
next
  case False
  then have r: "rest' = rest \<and> act E a (t, st) = (t', st')"
    using act by (cases a) (auto simp: act_root_def split: prod.splits)
  with carries_act [OF assms(2) conjunct2 [OF r]] False assms(3,4) show ?thesis by auto
qed

lemma carries_run:
  assumes "accepted_env E"
  shows "carries_on s base st \<Longrightarrow> beyond_task s t \<Longrightarrow> list_all (beyond s) rest \<Longrightarrow>
    run_root E as ((t, rest), st) = (root', st') \<Longrightarrow> carries_on s base st'"
proof (induction as arbitrary: t rest st)
  case (Cons a as)
  obtain u more su where u: "act_root E a ((t, rest), st) = ((u, more), su)" by (metis prod_cases3 surj_pair)
  from carries_act_root [OF assms Cons.prems(1-3) u] Cons.IH [of su u more] Cons.prems(4) u show ?case
    by (simp add: run_root_def)
qed (simp add: run_root_def)

text \<open>
  C39: a continuation replays nothing.  When \<open>completed_prefix\<close> accepts a checkpoint, at least
  one step is in it, the continuation finds the output it starts from (the \<open>expect\<close> and the
  \<open>unreachable\<close> of the code are not reached), and however its polls go, the records of all
  entered steps stay as they were and no step that the checkpoint has entered is started.
\<close>

theorem continuation_replays_nothing:
  assumes "completed_prefix P now (rs_snapshot st0) = Inr n"
    and "compile (pp_json P) (wr_definition (rs_snapshot st0)) = Inr (en_compiled E)"
    and "resume_run repo now st0 = (None, st1)"
  shows "\<exists>root. execute_root E n (rs_snapshot st0) = Some root \<and> 0 < n \<and>
    (\<forall>as root' st. run_root E as (root, st1) = (root', st) \<longrightarrow>
      (\<forall>key x. map_get (steps_of st0) key = Some x \<longrightarrow> map_get (steps_of st) key = Some x) \<and>
      (\<forall>e \<in> set (drop (length (rs_log st0)) (rs_log st)). re_kind e = E_Step_Started \<longrightarrow>
        (\<exists>i. re_step_id e = Some i \<and> map_get (steps_of st0) i = None)))"
proof -
  let ?s = "rs_snapshot st0"
  obtain ids where ids: "rd_plan (wr_definition ?s) = P_Sequence (map P_Step ids)" "0 < n" "n \<le> length ids"
    "\<And>j. j < n \<Longrightarrow> \<exists>x. map_get (wr_steps ?s) (ids ! j) = Some x \<and> completed_once x"
    "\<And>i. i \<in> set (drop n ids) \<Longrightarrow> map_get (wr_steps ?s) i = None"
    by (rule completed_prefix_Inr [OF assms(1)]) (rule that)
  have env: "accepted_env E" using assms(2) by (auto simp: accepted_env_def)
  have def: "cw_definition (en_compiled E) = wr_definition ?s"
    using assms(2) by (rule compile_Inr) simp
  from ids(4) [of "n - 1"] ids(2) obtain x v where "map_get (wr_steps ?s) (ids ! (n - 1)) = Some x" "ws_output x = Some v"
    by (auto simp: completed_once_def)
  with ids(1-3) def have root: "execute_root E n ?s = Some (Returned (Inr v), drop n (map P_Step ids))"
    by (simp add: execute_root_def)
  have "steps_of st1 = steps_of st0 \<and> (\<exists>e. rs_log st1 = rs_log st0 @ [e] \<and> re_kind e = E_Run_Started)"
    using assms(3)
    by (auto simp: resume_run_def transition_def run_event_of_def Let_def split: if_splits sum.splits dest!: durable_Inr)
  then have start: "carries_on ?s (rs_log st0) st1" by (auto simp: carries_on_def)
  have rest: "list_all (beyond ?s) (drop n (map P_Step ids))"
    using ids(5) by (auto simp: list_all_iff beyond_def drop_map)
  have "carries_on ?s (rs_log st0) st" if "run_root E as ((Returned (Inr v), drop n (map P_Step ids)), st1) = (root', st)"
    for as root' st
    using carries_run [OF env start _ rest that] by (simp add: beyond_task_def)
  with root ids(2) show ?thesis by (fastforce simp: carries_on_def)
qed

text \<open>A run of two steps whose process stops after the first, recovered and continued.\<close>

definition checkpoint :: run_store where
  "checkpoint = snd (recover_run commits_all 0 (snd (trial demo_pair (polls 9 (Inr (JBool True))))))"

definition resumed :: run_store where
  "resumed = snd (resume_run commits_all 0 checkpoint)"

definition continued :: "root \<times> run_store" where
  "continued = run_root (trial_env demo_pair) (polls 12 (Inr (JBool True)))
     (the (execute_root (trial_env demo_pair) 1 (rs_snapshot checkpoint)), resumed)"

lemma checkpoint_prefix: "completed_prefix trial_ports 0 (rs_snapshot checkpoint) = Inr 1"
  by code_simp

lemma checkpoint_compiles:
  "compile (pp_json trial_ports) (wr_definition (rs_snapshot checkpoint)) = Inr (en_compiled (trial_env demo_pair))"
  by code_simp

lemma checkpoint_resumes: "fst (resume_run commits_all 0 checkpoint) = None"
  by code_simp

lemma continued_ends:
  "fst (fst continued) = Returned (Inr (JBool True)) \<and>
   map_option ws_status (map_get (steps_of checkpoint) ''a'') = Some Rs_Succeeded \<and>
   map re_step_id (filter (\<lambda>e. re_kind e = E_Step_Started) (drop (length (rs_log checkpoint)) (rs_log (snd continued))))
     = [Some ''b'']"
  by code_simp

theorem continuation_replays_nothing_witness:
  "fst (fst continued) = Returned (Inr (JBool True)) \<and>
   map re_step_id (filter (\<lambda>e. re_kind e = E_Step_Started) (drop (length (rs_log checkpoint)) (rs_log (snd continued))))
     = [Some ''b''] \<and>
   (\<exists>x. ws_status x = Rs_Succeeded \<and> map_get (steps_of checkpoint) ''a'' = Some x \<and>
     map_get (steps_of (snd continued)) ''a'' = Some x)"
proof -
  have resume: "resume_run commits_all 0 checkpoint = (None, resumed)"
    using checkpoint_resumes by (simp add: resumed_def prod_eq_iff)
  from continuation_replays_nothing [OF checkpoint_prefix checkpoint_compiles resume]
  obtain root where root: "execute_root (trial_env demo_pair) 1 (rs_snapshot checkpoint) = Some root"
    and keeps: "\<And>as root' st. run_root (trial_env demo_pair) as (root, resumed) = (root', st) \<Longrightarrow>
      \<forall>key x. map_get (steps_of checkpoint) key = Some x \<longrightarrow> map_get (steps_of st) key = Some x"
    by blast
  have "run_root (trial_env demo_pair) (polls 12 (Inr (JBool True))) (root, resumed) = (fst continued, snd continued)"
    unfolding continued_def root option.sel by (rule surjective_pairing)
  from keeps [OF this] continued_ends show ?thesis by auto
qed

end
