(* ===== verification/Workflow_Budgets.thy ===== *)
theory Workflow_Budgets
  imports Workflow_Trial
begin

text \<open>
  The budgets of a run under every interleaving.  The locale \<open>tree_count\<close> carries a claim on
  the shared state that counts something at the leaves of the task tree: the steps that are
  reserved and not yet started, and the permits that are held.
\<close>

section \<open>Counting at the leaves\<close>

fun tally :: "(step_definition \<Rightarrow> step_stage \<Rightarrow> nat) \<Rightarrow> task \<Rightarrow> nat" where
  "tally w (In_Step sd s c) = w sd s"
| "tally w (In_Sequence t rest c) = tally w t"
| "tally w (In_Parallel nodes ts c) = sum_list (map (tally w) ts)"
| "tally w (In_Map ts) = sum_list (map (tally w) ts)"
| "tally w (In_Retry t node attempt limit c) = tally w t"
| "tally w (Skipping instances leaves reason c t) = tally w t"
| "tally w _ = 0"

lemma held_tally: "held t = tally stage_permit t"
  by (induction t) (simp_all cong: map_cong)

lemma split_sum:
  fixes f :: "'a \<Rightarrow> nat"
  assumes "i < length xs"
  shows "\<exists>m. sum_list (map f xs) = m + f (xs ! i) \<and> (\<forall>x. sum_list (map f (xs[i := x])) = m + f x)"
proof -
  have "xs = take i xs @ xs ! i # drop (Suc i) xs" using assms by (rule id_take_nth_drop)
  then have "sum_list (map f xs) = sum_list (map f (take i xs)) + sum_list (map f (drop (Suc i) xs)) + f (xs ! i)"
    by (metis (no_types) add.commute add.left_commute list.simps(9) map_append sum_list.Cons sum_list_append)
  moreover have "sum_list (map f (xs[i := x])) = sum_list (map f (take i xs)) + sum_list (map f (drop (Suc i) xs)) + f x" for x
    using assms by (simp add: upd_conv_take_nth_drop)
  ultimately show ?thesis by blast
qed

definition drop_tasks :: "task list \<Rightarrow> run_store \<Rightarrow> run_store" where
  "drop_tasks ts st = st\<lparr>rs_permits := rs_permits st + sum_list (map held ts)\<rparr>"

locale tree_count =
  fixes w :: "step_definition \<Rightarrow> step_stage \<Rightarrow> nat"
    and claim :: "run_env \<Rightarrow> nat \<Rightarrow> run_store \<Rightarrow> bool"
  assumes reserving: "w sd (Reserving input) = 0"
    and weaken: "claim E (n + m) st \<Longrightarrow> claim E n st"
    and leaf: "claim E (n + w sd s) st \<Longrightarrow> poll_step E po sd s c st = (t', st') \<Longrightarrow> claim E (n + tally w t') st'"
    and dropped: "claim E (n + sum_list (map (tally w) ts)) st \<Longrightarrow> claim E n (drop_tasks ts st)"
    and committed: "claim E n st \<Longrightarrow> kind \<noteq> E_Step_Started \<Longrightarrow> claim E n (transition now i kind f st)"
    and retried: "claim E n st \<Longrightarrow> reserve_retry (en_limits E) (rs_ledger st) = Inr u \<Longrightarrow>
      claim E n (st\<lparr>rs_ledger := u\<rparr>)"
    and drained: "claim E n st \<Longrightarrow> claim E n (st\<lparr>rs_ledger := snd (drain_agents (en_limits E) rs (rs_ledger st))\<rparr>)"
begin

lemma tally_enter [simp]: "tally w (enter E p c st) = 0"
proof -
  have "sum_list (map (tally w) (map (\<lambda>node. Ready node c) nodes)) = 0" for nodes c
    by (induction nodes) simp_all
  moreover have "sum_list (map (tally w) (map (\<lambda>(n, v). Ready body (child_context item v n c)) xs)) = 0" for body item xs
    by (induction xs) (auto split: prod.splits)
  ultimately show ?thesis
    by (auto simp: enter_def enter_step_def enter_choice_def enter_map_def refuse_node_def reserving Let_def
        simp del: map_map split: plan.splits option.splits sum.splits list.splits)
qed

lemma tally_next [simp]: "tally w (next_in_sequence r rest c) = 0"
  by (auto simp: next_in_sequence_def split: sum.splits list.splits)

lemma commits: "claim E n st \<Longrightarrow> kind \<noteq> E_Step_Started \<Longrightarrow> commit po i kind f st = Inr st' \<Longrightarrow> claim E n st'"
  by (auto simp: commit_def committed split: option.splits)

lemma returned_tally: "returned t = Some r \<Longrightarrow> tally w t = 0"
  by (cases t) (simp_all add: returned_def)

lemma results_tally: "results ts = Some rs \<Longrightarrow> sum_list (map (tally w) ts) = 0"
  by (induction ts arbitrary: rs) (auto simp: returned_tally split: option.splits)

lemma tally_join [simp]: "tally w (join_parallel nodes ts c) = sum_list (map (tally w) ts)"
  by (auto simp: join_parallel_def results_tally split: option.splits)

lemma advance_claim:
  "claim E (n + tally w t) st \<Longrightarrow> advance E po path t st = (t', st') \<Longrightarrow> claim E (n + tally w t') st'"
proof (induction E po path t st arbitrary: n t' st' rule: advance.induct)
  case (2 E po path sd s c st)
  then show ?case using leaf by simp
next
  case (4 E po path nodes ts c st)
  show ?case
  proof (cases path)
    case Nil
    with 4 show ?thesis by auto
  next
    case (Cons i rest)
    show ?thesis
    proof (cases "i < length ts \<and> returned (ts ! i) = None")
      case True
      obtain u su where u: "advance E po rest (ts ! i) st = (u, su)" by fastforce
      from split_sum [of i ts "tally w"] True obtain m where
        m: "sum_list (map (tally w) ts) = m + tally w (ts ! i)"
          "\<And>x. sum_list (map (tally w) (ts[i := x])) = m + tally w x" by blast
      have "claim E ((n + m) + tally w u) su"
        using "4.IH" [OF Cons, of "n + m" u su] True "4.prems"(1) u m(1) by (simp add: add.assoc)
      with "4.prems"(2) Cons True u m(2) show ?thesis by (auto simp: add.assoc)
    next
      case False
      with 4 Cons show ?thesis
        using dropped [of E n ts st]
        by (auto simp: fail_parallel_def drop_tasks_def Let_def split: if_splits option.splits sum.splits)
    qed
  qed
next
  case (5 E po path nodes e c st)
  have "claim E n (st\<lparr>rs_ledger := snd (drain_agents (en_limits E) (po_drained po) (rs_ledger st))\<rparr>)"
    using "5.prems"(1) drained by simp
  with "5.prems"(2) show ?case
    by (auto simp: drain_parallel_def checkpoint_agent_usage_def refuse_node_def Let_def dest: commits
        split: prod.splits sum.splits if_splits)
next
  case (7 E po path ts st)
  show ?case
  proof (cases path)
    case Nil
    with 7 show ?thesis by (auto simp: results_tally split: option.splits)
  next
    case (Cons i rest)
    show ?thesis
    proof (cases "i < length ts \<and> returned (ts ! i) = None")
      case True
      obtain u su where u: "advance E po rest (ts ! i) st = (u, su)" by fastforce
      from split_sum [of i ts "tally w"] True obtain m where
        m: "sum_list (map (tally w) ts) = m + tally w (ts ! i)"
          "\<And>x. sum_list (map (tally w) (ts[i := x])) = m + tally w x" by blast
      have "claim E ((n + m) + tally w u) su"
        using "7.IH" [OF Cons, of "n + m" u su] True "7.prems"(1) u m(1) by (simp add: add.assoc)
      with "7.prems"(2) Cons True u m(2) show ?thesis by (auto simp: add.assoc)
    next
      case False
      with 7 Cons show ?thesis by (auto split: option.splits if_splits)
    qed
  qed
next
  case (8 E po path t node attempt limit c st)
  then show ?case
    by (cases "returned t")
      (auto simp: next_attempt_def refuse_node_def returned_tally dest: retried
        split: sum.splits if_splits prod.splits)
next
  case (11 E po path instances leaves reason c t st)
  have "claim E n st" using "11.prems"(1) weaken [of E n "tally w t" st] by simp
  with "11.prems" show ?case
    by (auto simp: poll_skip_def commit_def committed split: list.splits sum.splits option.splits)
qed (auto simp: poll_cancelling_def cancel_sibling_def poll_saving_def checkpoint_usage_def poll_sleeping_def
    returned_tally dest: commits split: option.splits prod.splits sum.splits if_splits list.splits)

end


section \<open>Steps that may start\<close>

definition unstarted :: "step_definition \<Rightarrow> step_stage \<Rightarrow> nat" where
  "unstarted sd s = (case s of Checkpointing _ \<Rightarrow> 1 | Queueing _ \<Rightarrow> 1 | Acquiring \<Rightarrow> 1 | Starting \<Rightarrow> 1 | _ \<Rightarrow> 0)"

definition starts :: "run_event list \<Rightarrow> nat" where
  "starts log = length (filter (\<lambda>e. re_kind e = E_Step_Started) log)"

definition within_budgets :: "budgets \<Rightarrow> budget_usage \<Rightarrow> bool" where
  "within_budgets b u =
     (us_steps u \<le> bu_max_steps b \<and> us_retries u \<le> bu_max_retries b \<and> us_agents u \<le> bu_max_agents b)"

definition starts_claim :: "run_env \<Rightarrow> nat \<Rightarrow> run_store \<Rightarrow> bool" where
  "starts_claim E n st =
     (starts (rs_log st) + n \<le> unat (us_steps (rs_ledger st)) \<and> within_budgets (en_limits E) (rs_ledger st))"

lemma starts_transition [simp]:
  "starts (rs_log (transition now i kind f st)) = starts (rs_log st) + (if kind = E_Step_Started then 1 else 0)"
  by (simp add: transition_def run_event_of_def starts_def Let_def)

lemma transition_frames [simp]:
  "rs_ledger (transition now i kind f st) = rs_ledger st"
  "rs_permits (transition now i kind f st) = rs_permits st"
  "rs_cancelled (transition now i kind f st) = rs_cancelled st"
  by (simp_all add: transition_def Let_def)

lemma less_plus_one:
  assumes "\<not> b \<le> (a::u32)"
  shows "unat (a + 1) = unat a + 1" "a + 1 \<le> b"
proof -
  have less: "unat a < unat b" using assms by (simp add: word_le_nat_alt)
  have "unat b < 2 ^ 32" using unsigned_less [of b, where 'a = nat] by simp
  with less show s: "unat (a + 1) = unat a + 1" by (simp add: unat_word_ariths)
  with less show "a + 1 \<le> b" by (simp add: word_le_nat_alt)
qed

lemma reserve_step_Inr:
  assumes "reserve_step b u = Inr v" "within_budgets b u"
  shows "within_budgets b v" "unat (us_steps v) = unat (us_steps u) + 1"
proof -
  from assms(1) have g: "\<not> bu_max_steps b \<le> us_steps u" and v: "v = u\<lparr>us_steps := us_steps u + 1\<rparr>"
    by (auto simp: reserve_step_def simp del: not_le split: if_splits)
  show "within_budgets b v" "unat (us_steps v) = unat (us_steps u) + 1"
    using less_plus_one [OF g] assms(2) by (simp_all add: v within_budgets_def)
qed

lemma reserve_retry_Inr:
  assumes "reserve_retry b u = Inr v" "within_budgets b u"
  shows "within_budgets b v" "us_steps v = us_steps u"
proof -
  from assms(1) have g: "\<not> bu_max_retries b \<le> us_retries u" and v: "v = u\<lparr>us_retries := us_retries u + 1\<rparr>"
    by (auto simp: reserve_retry_def simp del: not_le split: if_splits)
  show "within_budgets b v" "us_steps v = us_steps u"
    using less_plus_one [OF g] assms(2) by (simp_all add: v within_budgets_def)
qed

lemma reserve_agent_Inr:
  assumes "reserve_agent b u = Inr v" "within_budgets b u"
  shows "within_budgets b v" "us_steps v = us_steps u"
proof -
  from assms(1) have g: "\<not> bu_max_agents b \<le> us_agents u" and v: "v = u\<lparr>us_agents := us_agents u + 1\<rparr>"
    by (auto simp: reserve_agent_def simp del: not_le split: if_splits)
  show "within_budgets b v" "us_steps v = us_steps u"
    using less_plus_one [OF g] assms(2) by (simp_all add: v within_budgets_def)
qed

lemma record_usage_counts [simp]:
  "us_steps (snd (record_usage b tokens cost u)) = us_steps u"
  "us_retries (snd (record_usage b tokens cost u)) = us_retries u"
  "us_agents (snd (record_usage b tokens cost u)) = us_agents u"
  by (simp_all add: record_usage_def Let_def)

lemma drain_counts [simp]:
  "us_steps (snd (drain_agents b rs u)) = us_steps u"
  "us_retries (snd (drain_agents b rs u)) = us_retries u"
  "us_agents (snd (drain_agents b rs u)) = us_agents u"
proof -
  have "us_steps (snd (fold (drain_one b) rs x)) = us_steps (snd x) \<and>
      us_retries (snd (fold (drain_one b) rs x)) = us_retries (snd x) \<and>
      us_agents (snd (fold (drain_one b) rs x)) = us_agents (snd x)" for x
    by (induction rs arbitrary: x) (auto simp: drain_one_def split: option.splits)
  then show "us_steps (snd (drain_agents b rs u)) = us_steps u"
    "us_retries (snd (drain_agents b rs u)) = us_retries u"
    "us_agents (snd (drain_agents b rs u)) = us_agents u"
    by (simp_all add: drain_agents_def)
qed

lemma starts_leaf:
  assumes "starts_claim E (n + unstarted sd s) st" "poll_step E po sd s c st = (t', st')"
  shows "starts_claim E (n + tally unstarted t') st'"
proof (cases s)
  case (Reserving input)
  with assms show ?thesis
    by (auto simp: starts_claim_def unstarted_def step_task_def split: sum.splits
        dest: reserve_step_Inr)
next
  case (Checkpointing input)
  with assms show ?thesis
    by (auto simp: starts_claim_def unstarted_def step_task_def checkpoint_usage_def commit_def
        split: sum.splits option.splits)
next
  case (Queueing input)
  with assms show ?thesis
    by (auto simp: starts_claim_def unstarted_def step_task_def commit_def split: sum.splits option.splits if_splits)
next
  case Acquiring
  with assms show ?thesis
    by (auto simp: starts_claim_def unstarted_def cancel_waiting_def commit_def
        split: sum.splits option.splits if_splits)
next
  case Starting
  with assms show ?thesis
    by (auto simp: starts_claim_def unstarted_def commit_def release_def split: sum.splits option.splits if_splits)
next
  case Dispatching
  with assms show ?thesis by (auto simp: starts_claim_def unstarted_def)
next
  case (Finishing r)
  with assms show ?thesis
    by (auto simp: starts_claim_def unstarted_def record_result_def commit_def release_def Let_def
        split: sum.splits option.splits if_splits prod.splits)
qed

interpretation starts: tree_count unstarted starts_claim
proof unfold_locales
  show "unstarted sd (Reserving input) = 0" for sd input by (simp add: unstarted_def)
  show "starts_claim E (n + tally unstarted t') st'"
    if "starts_claim E (n + unstarted sd s) st" "poll_step E po sd s c st = (t', st')" for E n sd s st po c t' st'
    using that by (rule starts_leaf)
qed (auto simp: starts_claim_def drop_tasks_def dest: reserve_retry_Inr, simp_all add: within_budgets_def)

lemma agent_reserved_Inr:
  assumes "agent_reserved E m u = Inr v" "within_budgets (en_limits E) u"
  shows "within_budgets (en_limits E) v" "us_steps v = us_steps u"
proof -
  from assms(1) obtain x where x: "reserve_agent (en_limits E) u = Inr x"
    and v: "v = (if m then x else x\<lparr>us_cost_micros := None\<rparr>)"
    by (auto simp: agent_reserved_def)
  from reserve_agent_Inr [OF x assms(2)] show "within_budgets (en_limits E) v" "us_steps v = us_steps u"
    by (simp_all add: v within_budgets_def)
qed

lemma keep_ledger_starts:
  assumes "starts_claim E n st"
    and "\<And>u. r = Inr u \<Longrightarrow> within_budgets (en_limits E) u \<and> unat (us_steps (rs_ledger st)) \<le> unat (us_steps u)"
  shows "starts_claim E n (keep_ledger st r)"
  using assms by (cases r) (auto simp: starts_claim_def keep_ledger_def)

lemma keep_store_starts:
  assumes "starts_claim E n st" "kind \<noteq> E_Step_Started"
  shows "starts_claim E n (keep_store st (commit po i kind f st))"
  using assms by (auto simp: starts_claim_def keep_store_def commit_def split: option.splits)

lemma act_starts:
  assumes "starts_claim E (tally unstarted t) st" "act E a (t, st) = (t', st')"
  shows "starts_claim E (tally unstarted t') st'"
proof -
  have w: "within_budgets (en_limits E) (rs_ledger st)" using assms(1) by (simp add: starts_claim_def)
  note steps = keep_ledger_starts [OF assms(1)] keep_store_starts [OF assms(1)]
  show ?thesis
  proof (cases a)
    case (Poll path po)
    with assms starts.advance_claim [of E 0 t st po path t' st'] show ?thesis by simp
  next
    case Nested_Step
    then have st: "t' = t" "st' = keep_ledger st (reserve_step (en_limits E) (rs_ledger st))" using assms(2) by simp_all
    show ?thesis unfolding st
    proof (rule steps(1))
      fix u
      assume u: "reserve_step (en_limits E) (rs_ledger st) = Inr u"
      show "within_budgets (en_limits E) u \<and> unat (us_steps (rs_ledger st)) \<le> unat (us_steps u)"
        using reserve_step_Inr [OF u w] by simp
    qed
  next
    case Nested_Retry
    then have st: "t' = t" "st' = keep_ledger st (reserve_retry (en_limits E) (rs_ledger st))" using assms(2) by simp_all
    show ?thesis unfolding st
    proof (rule steps(1))
      fix u
      assume u: "reserve_retry (en_limits E) (rs_ledger st) = Inr u"
      show "within_budgets (en_limits E) u \<and> unat (us_steps (rs_ledger st)) \<le> unat (us_steps u)"
        using reserve_retry_Inr [OF u w] by simp
    qed
  next
    case (Agent_Reserved m)
    then have st: "t' = t" "st' = keep_ledger st (agent_reserved E m (rs_ledger st))" using assms(2) by simp_all
    show ?thesis unfolding st
    proof (rule steps(1))
      fix u
      assume u: "agent_reserved E m (rs_ledger st) = Inr u"
      show "within_budgets (en_limits E) u \<and> unat (us_steps (rs_ledger st)) \<le> unat (us_steps u)"
        using agent_reserved_Inr [OF u w] by simp
    qed
  next
    case (Save_Usage name po)
    then have st: "t' = t" "st' = keep_store st (checkpoint_usage po name st)" using assms(2) by simp_all
    show ?thesis unfolding st checkpoint_usage_def by (rule steps(2)) simp
  next
    case (Persist_Suspension x po)
    then have st: "t' = t" "st' = keep_store st (persist_suspension po x st)" using assms(2) by simp_all
    show ?thesis unfolding st persist_suspension_def by (rule steps(2)) simp
  qed (use assms in \<open>auto simp: starts_claim_def within_budgets_def\<close>)
qed

section \<open>Concurrency\<close>

definition permits_claim :: "run_env \<Rightarrow> nat \<Rightarrow> run_store \<Rightarrow> bool" where
  "permits_claim E n st = (rs_permits st + n \<le> bu_max_concurrency (en_limits E))"

lemma permits_leaf:
  assumes "permits_claim E (n + stage_permit sd s) st" "poll_step E po sd s c st = (t', st')"
  shows "permits_claim E (n + tally stage_permit t') st'"
proof (cases s)
  case Starting
  with assms show ?thesis
    by (auto simp: permits_claim_def stage_permit_def commit_def release_def split: sum.splits option.splits if_splits)
next
  case (Finishing r)
  with assms show ?thesis
    by (auto simp: permits_claim_def stage_permit_def record_result_def commit_def release_def Let_def
        split: sum.splits option.splits if_splits prod.splits)
qed (use assms in \<open>auto simp: permits_claim_def stage_permit_def step_task_def checkpoint_usage_def commit_def
      cancel_waiting_def reserve_step_def split: sum.splits option.splits if_splits\<close>)

interpretation permits: tree_count stage_permit permits_claim
proof unfold_locales
  show "permits_claim E (n + tally stage_permit t') st'"
    if "permits_claim E (n + stage_permit sd s) st" "poll_step E po sd s c st = (t', st')" for E n sd s st po c t' st'
    using that by (rule permits_leaf)
  show "permits_claim E n (drop_tasks ts st)"
    if "permits_claim E (n + sum_list (map (tally stage_permit) ts)) st" for E n ts st
    using that by (simp add: permits_claim_def drop_tasks_def held_tally [abs_def])
qed (simp_all add: permits_claim_def stage_permit_def)

lemma keep_permits:
  "rs_permits (keep_ledger st r) = rs_permits st"
  "rs_permits (keep_store st (commit po i kind f st)) = rs_permits st"
  by (auto simp: keep_ledger_def keep_store_def commit_def split: sum.splits option.splits)

lemma act_permits:
  assumes "permits_claim E (tally stage_permit t) st" "act E a (t, st) = (t', st')"
  shows "permits_claim E (tally stage_permit t') st'"
proof (cases a)
  case (Poll path po)
  with assms permits.advance_claim [of E 0 t st po path t' st'] show ?thesis by simp
qed (use assms in \<open>auto simp: permits_claim_def keep_permits checkpoint_usage_def persist_suspension_def\<close>)

section \<open>Every run\<close>

lemma run_actions_invariant:
  assumes "\<And>a t st t' st'. P t st \<Longrightarrow> act E a (t, st) = (t', st') \<Longrightarrow> a \<in> set as \<Longrightarrow> P t' st'"
    and "P t0 s0" "run_actions E as (t0, s0) = (t, st)"
  shows "P t st"
  using assms
proof (induction as arbitrary: t0 s0)
  case (Cons a as)
  obtain u su where u: "act E a (t0, s0) = (u, su)" by fastforce
  have "P u su" using Cons.prems(1) [OF Cons.prems(2) u] by simp
  moreover have "run_actions E as (u, su) = (t, st)" using Cons.prems(3) u by (simp add: run_actions_def)
  ultimately show ?case using Cons.IH Cons.prems(1) by (meson list.set_intros(2))
qed (simp add: run_actions_def)

text \<open>
  C37: a run stays within its budgets under every interleaving.  Whatever the order of the
  polls, the answers of tools, agents and nested runs, the failures of the repository and
  the cancellation: the reserved steps, retries and agents never exceed the limits of the
  root run, no more steps are started than have been reserved, and no more steps hold a
  permit at the same time than the limits allow.
\<close>

theorem budgets_hold:
  assumes "run_actions E as (root_task E, st0) = (t, st)"
    and "rs_ledger st0 = no_usage" "rs_log st0 = []" "rs_permits st0 = bu_max_concurrency (en_limits E)"
  shows "starts (rs_log st) \<le> unat (us_steps (rs_ledger st)) \<and>
    us_steps (rs_ledger st) \<le> bu_max_steps (en_limits E) \<and>
    us_retries (rs_ledger st) \<le> bu_max_retries (en_limits E) \<and>
    us_agents (rs_ledger st) \<le> bu_max_agents (en_limits E) \<and>
    held t \<le> bu_max_concurrency (en_limits E)"
proof -
  have "starts_claim E (tally unstarted (root_task E)) st0" "permits_claim E (tally stage_permit (root_task E)) st0"
    using assms(2-4)
    by (simp_all add: starts_claim_def permits_claim_def root_task_def within_budgets_def no_usage_def starts_def)
  then have "starts_claim E (tally unstarted t) st \<and> permits_claim E (tally stage_permit t) st"
    using run_actions_invariant [where P = "\<lambda>t st. starts_claim E (tally unstarted t) st \<and>
        permits_claim E (tally stage_permit t) st", OF _ _ assms(1)] act_starts act_permits by blast
  then show ?thesis by (simp add: starts_claim_def within_budgets_def permits_claim_def held_tally)
qed

lemma trial_ends:
  "case trial demo_pair (polls 19 (Inr (JBool True))) of (t, st) \<Rightarrow>
     t = Returned (Inr (JBool True)) \<and> starts (rs_log st) = 2"
  by code_simp

theorem budgets_hold_witness:
  "case trial demo_pair (polls 19 (Inr (JBool True))) of (t, st) \<Rightarrow>
     t = Returned (Inr (JBool True)) \<and> starts (rs_log st) = 2 \<and> 2 \<le> unat (us_steps (rs_ledger st)) \<and>
     us_steps (rs_ledger st) \<le> bu_max_steps (rd_budgets demo_pair) \<and>
     held t \<le> bu_max_concurrency (rd_budgets demo_pair)"
proof -
  obtain t st where run: "trial demo_pair (polls 19 (Inr (JBool True))) = (t, st)" by fastforce
  have "starts (rs_log st) \<le> unat (us_steps (rs_ledger st)) \<and>
      us_steps (rs_ledger st) \<le> bu_max_steps (en_limits (trial_env demo_pair)) \<and>
      us_retries (rs_ledger st) \<le> bu_max_retries (en_limits (trial_env demo_pair)) \<and>
      us_agents (rs_ledger st) \<le> bu_max_agents (en_limits (trial_env demo_pair)) \<and>
      held t \<le> bu_max_concurrency (en_limits (trial_env demo_pair))"
    by (rule budgets_hold [OF run [unfolded trial_def]]) (simp_all add: trial_store_def trial_env_def)
  with trial_ends run show ?thesis by (simp add: trial_env_def)
qed

end
