(* ===== verification/Workflow_Faults.thy ===== *)
theory Workflow_Faults
  imports Workflow_Host Workflow_Budgets
begin

text \<open>
  Concrete runs on which the workflow engine does not do what it means to.
\<close>

section \<open>A suspended tool is dispatched again\<close>

text \<open>
  A tool that asks for a human approval is recorded with a durable context that says why it
  cannot be blindly replayed, but its failure is marked retryable: a \<open>retry\<close> node around the
  step takes it for a transient error and dispatches the tool a second time.
\<close>

definition flaky :: run_definition where
  "flaky = workflow ''flaky'' [tool_step ''a'' JNull FailFast] (P_Retry (P_Step ''a'') 2 0)"

definition asks_human :: "run_failure + json" where
  "asks_human = Inl (failure Suspended ''workflow tool requires human approval'' True)"

definition approval :: run_action where
  "approval = Persist_Suspension (Tool_Approval ''a'' ''echo'' ''call-1'') (answering asks_human)"

theorem suspended_tool_dispatched_again:
  "case trial flaky (polls 7 asks_human @ [approval] @ polls 4 asks_human @ polls 20 (Inr (JBool True))) of (t, st) \<Rightarrow>
     t = Returned (Inr (JBool True)) \<and> starts (rs_log st) = 2 \<and>
     wr_suspension (rs_snapshot st) = Some (Tool_Approval ''a'' ''echo'' ''call-1'')"
  by code_simp

section \<open>An ended run keeps a running step\<close>

text \<open>
  An agent that is running when the wall-time budget ends, stops, and cannot report its usage:
  the run is failed on a path of its own, before the active steps are closed.
\<close>

definition review_step :: step_definition where
  "review_step = \<lparr>sf_id = ''a'', sf_kind = Agent_Step ''reviewer'' JNull None None [] 1, sf_failure = FailFast,
     sf_output_schema = None\<rparr>"

definition reviewed :: run_definition where
  "reviewed = workflow ''reviewed'' [review_step] (P_Step ''a'')"

theorem ended_run_keeps_running_step:
  "case trial reviewed (polls 6 (Inr JNull) @ [Agent_Reserved False]) of (t, st) \<Rightarrow>
     (case conclude (trial_env reviewed) commits_all 1 None [None] False st of (e, st') \<Rightarrow>
        e = None \<and> status_of st' = Run_Failed \<and>
        map_option ws_status (map_get (steps_of st') ''a'') = Some Rs_Running)"
  by code_simp

section \<open>An accepted reference that can never be resolved\<close>

text \<open>
  With the policy to continue with an error the failed step returns a value to its sequence but
  leaves no output, so a later step that refers to it, which the compiler accepts, fails.
\<close>

definition wobbly :: run_definition where
  "wobbly = workflow ''wobbly'' [tool_step ''a'' JNull ContinueWithError, tool_step ''b'' (step_ref ''a'') FailFast]
     (P_Sequence [P_Step ''a'', P_Step ''b''])"

theorem continued_error_has_no_output:
  "compile demo_json wobbly = Inr (trial_compiled wobbly) \<and>
   (case trial wobbly (polls 20 broken) of (t, st) \<Rightarrow>
      map_option ws_status (map_get (steps_of st) ''a'') = Some Rs_Failed \<and>
      returned t = Some (Inl (unknown_reference (''step output '' @ quoted ''a'' @ '' unavailable in execution scope''))))"
  by code_simp

section \<open>The preflight misses a nesting depth\<close>

text \<open>
  The preflight refuses a run whose nested calls go deeper than the limit, but it looks at the
  calls of a definition only once, at the first depth it meets.  Here the root calls the
  middle definition directly, and through a detour that takes it one level deeper: the call
  of the leaf is then beyond the limit, and fails when the steps before it have run.  Without
  the direct call the same chain is refused before the run.
\<close>

definition shallow :: budgets where
  "shallow = default_budgets\<lparr>bu_max_nesting_depth := 3\<rparr>"

definition within_three :: "run_definition \<Rightarrow> run_definition" where
  "within_three d = d\<lparr>rd_budgets := shallow\<rparr>"

definition leaf :: run_definition where
  "leaf = within_three (workflow ''leaf'' [tool_step ''a'' JNull FailFast] (P_Step ''a''))"

definition middle :: run_definition where
  "middle = within_three (workflow ''middle'' [call_step ''l'' ''leaf''] (P_Step ''l''))"

definition detour :: run_definition where
  "detour = within_three (workflow ''detour'' [call_step ''m'' ''middle''] (P_Step ''m''))"

definition two_ways :: run_definition where
  "two_ways = within_three (workflow ''root'' [call_step ''c'' ''detour'', call_step ''d'' ''middle'']
     (P_Sequence [P_Step ''c'', P_Step ''d'']))"

definition one_way :: run_definition where
  "one_way = within_three (workflow ''root'' [call_step ''c'' ''detour''] (P_Step ''c''))"

theorem preflight_misses_depth:
  "isl (start_pinned demo_host no_value shallow (request_of two_ways) (host_bundle ''root'' [two_ways, detour, middle, leaf]))
     = False \<and>
   nested_definition (host_bundle ''root'' [two_ways, detour, middle, leaf]) shallow 0 ''detour'' 1 = Inr detour \<and>
   nested_definition (host_bundle ''root'' [two_ways, detour, middle, leaf]) shallow 1 ''middle'' 1 = Inr middle \<and>
   nested_definition (host_bundle ''root'' [two_ways, detour, middle, leaf]) shallow 2 ''leaf'' 1
     = Inl (failure BudgetExceeded ''nested workflow depth exceeded'' False)"
  by code_simp

theorem preflight_refuses_one_way:
  "start_pinned demo_host no_value shallow (request_of one_way) (host_bundle ''root'' [one_way, detour, middle, leaf]) =
     preflight ''nested workflow depth exceeded shared root limit''"
  by code_simp

end
