(* ===== verification/Spec2Isabelle.thy ===== *)
theory Spec2Isabelle
  imports Propagation Ownership Commands Ledger Sprint_Facts Reachable Histories Continuity
    Transactions Reviews Settlement Approvals Message_Input Lifecycle Gates Decisions Faults
    Workflow_Preflight Workflow_Calls Workflow_Continuation Workflow_Faults
begin

text \<open>
  \<^bold>\<open>The ticket authority and the workflow engine of the Bamboo agent\<close>: the crate
  \<open>bamboo-tickets\<close> (\<open>src/crates/infra/bamboo-tickets/src\<close>), the directory \<open>workflow\<close> of
  \<open>bamboo-domain\<close> (\<open>src/crates/core/bamboo-domain/src/workflow\<close>) and \<open>workflow_run/executor.rs\<close>
  of \<open>bamboo-engine\<close> (\<open>src/crates/engine/bamboo-engine/src\<close>).  The two parts share only the
  prelude and the JSON values; the first half of this text is about tickets.

  \<^bold>\<open>Tickets: the program.\<close>  A scope is a set of tickets (goals, Works and imported steps) that a
  Supervisor session plans and Worker processes carry out.  Its state is one immutable
  \<open>Snapshot\<close>, published with its hash; every change is a command: a batch of operations,
  written for one sequence number, that is applied to a copy, validated as a whole and then
  published.  Around the snapshot there are the controls of running processes (dispatch
  intents, attempts, permits, workspaces, approvals, effects), the plan (Sprints, project
  membership, deadlines) and the token ledger, which is published separately but may not touch
  anything else.  The messages of a Human are part of the snapshot: a model proposes groups of
  operations for a message, and a group commits when the words of the Human allow it.

  \<^bold>\<open>Theories and code.\<close>
  \<^item> \<open>Prelude\<close>: results (\<open>stop + 'a\<close>: an error of \<open>lib.rs\<close>, a panic, or divergence), loops
    with early return, 64-bit numbers, bytes, paths, decimal numerals; \<open>Ordered_Map\<close>: the
    \<open>BTreeMap\<close> as an ordered association list; \<open>Canonical_Json\<close>: \<open>canonical_bytes\<close>.
  \<^item> \<open>Ticket_Model\<close>, \<open>Planning_Model\<close>, \<open>Snapshot\<close>: the data of \<open>model.rs\<close>, \<open>sprint.rs\<close>,
    \<open>execution_budget.rs\<close>, \<open>migration.rs\<close> and \<open>resolution/model.rs\<close>, and the environment.
  \<^item> \<open>Authority\<close>, \<open>Invalidation\<close>, \<open>Checks\<close>, \<open>Work_Ops\<close>, \<open>Run_Ops\<close>, \<open>Request_Ops\<close>,
    \<open>Apply\<close>: \<open>service.rs\<close>, one definition per operation and one for the batch.
  \<^item> \<open>Planning\<close>, \<open>Project\<close>, \<open>Sprint\<close>, \<open>Token_Budget\<close>: the files of the same names.
  \<^item> \<open>Integrity\<close>, \<open>Validate\<close>: \<open>validate_snapshot\<close> with everything it calls.
  \<^item> \<open>Store\<close>, \<open>Context_Packet\<close>, \<open>Ticket_Service\<close>, \<open>Planning_Ports\<close>: the published state of
    \<open>store.rs\<close>, the context packet of \<open>query.rs\<close> and the ports: \<open>execute\<close>, \<open>from_store\<close>,
    \<open>authorize_tool\<close>, \<open>execute_sprint\<close>, the ledger calls and the claim of \<open>claiming.rs\<close>.
  \<^item> \<open>Reconcile\<close>: \<open>file_reconciliation.rs\<close>, where a User acknowledges the observed content of a
    file whose replacement was cut short.
  \<^item> \<open>Texts\<close>: trimming, splitting and searching of \<open>str\<close>.  \<open>Human_Text\<close>, \<open>Resolution\<close>:
    \<open>resolution/validation.rs\<close>, the rules on the words of a Human, and \<open>resolution.rs\<close>, from the
    registration of a message to the settlement of its groups.

  A struct is a record with the field names prefixed by two letters, an enum a datatype, a
  \<open>u64\<close> a word that wraps where the code adds without a check; strings are their bytes.  An
  operation maps a snapshot to the next one or to an error; a port maps a store and a
  behaviour of the disk to the next store and an answer.

  \<^bold>\<open>What is shown.\<close>
  \<^item> \<open>Evolution\<close>: what an operation may change in the records of a snapshot (locale
    \<open>evolving\<close>, for keyed records under an order).  \<open>Graphs\<close>, \<open>Decisions\<close>: what the graph
    walks and checks decide (locale \<open>parent_walk\<close> for the two walks along parents).
    \<open>Propagation\<close>: what the walk over the goals above a ticket and the worklist of
    \<open>invalidate_dependents\<close> do to tickets, requests and attempts, in every snapshot.
  \<^item> \<open>Ownership\<close>, \<open>Sprint_Facts\<close>, \<open>Ledger\<close>: the invariants of attempts, Sprints and
    counters, operation by operation.  \<open>Commands\<close>: ports with receipts (locale
    \<open>receipted_port\<close>, interpreted on commands and on Sprint commands).
  \<^item> \<open>Reviewed\<close>: the ports that validate their whole result (file observations and messages), and
    the order in which a message moves forward.
  \<^item> \<open>Reachable\<close>: the steps of the store, and its invariants (locale \<open>snapshot_invariant\<close>,
    interpreted on ownership, graphs, Sprints and the ledger).  \<open>Histories\<close>, \<open>Continuity\<close>,
    \<open>Transactions\<close>: what therefore holds along every history, the restart of the writer, and
    commands as transactions.  \<open>Lifecycle\<close>, \<open>Gates\<close>: the state machine of tickets, and what
    the gates of a Work's life let through.  \<open>Reviews\<close>: what an acknowledged file observation
    records.  \<open>Messages\<close>, \<open>Settlement\<close>: a group settles once, as a whole and in order, and a
    message completely, whatever runs in between.  \<open>Approvals\<close>: an approval by message is spoken
    by its Human, and a quote the rules refuse by mistake.  \<open>Message_Input\<close>: the page a model sees.
  \<^item> \<open>Faults\<close>: inputs on which the code does not do what it means to.
  \<^item> \<open>Examples\<close> and the \<open>demo\<close> definitions: a concrete environment and concrete histories on
    which the hypotheses of the properties hold.

  \<^bold>\<open>Workflows: the program.\<close>  A workflow definition is data: steps (a tool, an agent or another
  workflow), a control-flow plan over them (sequence, parallel, branch, retry, map, reduce,
  return), schemas and budgets.  It is compiled, which refuses every ill-formed definition, and
  bundled with the definitions it calls; a run executes the plan, commits every change of its
  snapshot with a numbered event, and may be cancelled, recovered or continued.

  \<^bold>\<open>Workflows: theories and code.\<close>
  \<^item> \<open>Workflow_Model\<close>, \<open>Workflow_Schema\<close>, \<open>Workflow_Compiler\<close>: the definition types,
    \<open>validate_schema\<close> and the schema checks, \<open>CompiledWorkflow::compile\<close> with every check and
    walk it calls (\<open>bamboo-domain\<close>).
  \<^item> \<open>Workflow_Bundle\<close>: what \<open>executor.rs\<close> checks before a run: the input contracts between a
    step and the workflow it calls, secret material, budgets, the bundle and its closure.
  \<^item> \<open>Workflow_Run\<close>: the durable state: snapshot, events, the commit \<open>transition\<close> with the
    answers of the repository, the ledger and its reservations.
  \<^item> \<open>Workflow_Exec\<close>: the execution.  A node of the plan under execution is a \<open>task\<close>: a step
    in one of the stages between two awaits of \<open>execute_step\<close>, a composite with the tasks
    below it, or its answer.  A \<open>run_action\<close> is one poll of the future: the place it reaches and
    what the awaited thing answers (a commit, a permit, a dispatch, cancellation, usage
    recorded meanwhile).  A schedule of the executor is a list of actions, and every list is
    covered.
  \<^item> \<open>Workflow_Finish\<close>: how a run starts, ends, is cancelled, recovered and restarted;
    \<open>Workflow_Prefix\<close>: the continuation of a recovered run after its completed prefix.
  \<^item> \<open>Workflow_Dispatch\<close>: the dispatch of a step to a tool, an agent or a nested run, with its
    authorization and secrets; the preflight that asks the same ports before a run starts, and
    \<open>start_pinned\<close>, the order of all checks.

  \<^bold>\<open>Workflows: what is shown.\<close>
  \<^item> \<open>Workflow_Facts\<close>: a compiled plan names each step once, and the dependency check refuses
    exactly the cyclic graphs; \<open>Workflow_Ids\<close>: the topology of a step in the plan and its
    identifier determine each other.  \<open>Workflow_Nesting\<close>: the calls between the definitions of an
    accepted bundle are closed and well-founded.
  \<^item> \<open>Workflow_Tree\<close>: the tasks below a task.  \<open>Workflow_Budgets\<close>: sums over that tree (locale
    \<open>tree_count\<close>), and with them the step, retry, agent and concurrency budgets along every
    schedule.
  \<^item> \<open>Workflow_Place\<close>: the locale \<open>poll_relation\<close>, for a relation between a task and the store
    that every poll keeps, interpreted three times: the scope of the keys a task may touch
    (\<open>place\<close>), which tasks cover the steps still active (\<open>Workflow_Quiet\<close>, \<open>quiet\<close>) and the
    numbering of the log (\<open>Workflow_Settled\<close>, \<open>logged\<close>).  \<open>Workflow_Settled\<close>: an ended run has no active
    step, and its events are numbered without a gap.  \<open>Workflow_Continuation\<close>: a continued run
    starts no recorded step again and keeps the records.
  \<^item> \<open>Workflow_Preflight\<close>: what the preflight promises to every dispatch that nested calls can
    reach.  \<open>Workflow_Calls\<close>: a dispatch changes the store by actions of the run only, and the
    secrets of a tool call do not leave it.
  \<^item> \<open>Workflow_Demo\<close>, \<open>Workflow_Trial\<close>, \<open>Workflow_Host\<close>: concrete definitions, runs, schedules
    and hosts.
    \<open>Workflow_Faults\<close>: inputs on which the engine does what it does not mean to.

  \<^bold>\<open>Bounds and fuel.\<close>  The only loop with fuel is the walk over the goals above a ticket
  (\<open>walk_parents\<close>, one more than the number of tickets): \<open>goal_walk_fuel\<close> shows that running
  out of it means that the loop of the code never ends.  All other loops end by a measure; a
  run is followed for the polls of its schedule, however many there are.

  \<^bold>\<open>Parameters.\<close>  The record \<open>env\<close> holds what the crate takes from outside: serde (the JSON of
  a value, the bytes of a JSON value, the parsers), SHA-256, the sequence of UUIDs, path
  canonicalisation, RFC 3339 instants and the bytes of stored objects; the content hash of a
  file under a write root is an argument of its reconciliation, the snapshot of a commit one of
  freezing a proposal, and the tables of Unicode are the record \<open>text_port\<close>.  The disk is a function
  from a snapshot to one of the three outcomes the code distinguishes.  No property assumes
  anything of them, except that new UUIDs are unused where a theorem says so.  The records
  \<open>json_port\<close>, \<open>bundle_port\<close>, \<open>run_env\<close>, \<open>prefix_port\<close> and \<open>dispatch_port\<close> are the same for workflows: the
  numbers, orders and parsers of serde, JSON pointers, hashes and serialised forms; the policy,
  agents and tools are answers inside the actions, and the repository as a function from a commit to
  its outcome.

  \<^bold>\<open>Not modelled.\<close>  Object files, manifests, HEAD and the writer lock (\<open>store.rs\<close>), the copying
  of directories during a migration (\<open>migration.rs\<close>), opening files under a write root
  (\<open>workspace_files.rs\<close>): operating-system calls.  Paged queries (\<open>query.rs\<close>,
  \<open>sprint_query.rs\<close>, the board page of \<open>project.rs\<close>).
  Of a workflow run: commits of a sibling that is dropped in the middle of them, the permits a
  nested run takes for itself, the delay between retries, the registration of active runs, and
  polls that interleave with the commits of \<open>cancel\<close>.  The files of the workflow repository and the
  schedules that start runs are not modelled.  The other crates of the repository (providers,
  UI, servers, broker) call these and are listed in the manifest.
\<close>

end
